(* ===== verification/GoBase.thy ===== *)
theory GoBase
  imports Main
    "HOL-Library.Word"
    "HOL-Library.Multiset"
    "HOL-Library.List_Lexorder"
    "HOL-Library.Char_ord"
    "HOL-Library.Sublist"
    "HOL-Library.AList"
begin

section \<open>Prelude: Go values, results and strings\<close>

text \<open>
  What every component shares: the error result of a Go function returning \<open>(T, error)\<close>,
  the \<open>strings\<close> functions the sources call, and the theorem collections the component
  proofs use. A Go string is a sequence of bytes, so it is an Isabelle \<^typ>\<open>string\<close>
  (a list of 8-bit characters) and \<^const>\<open>length\<close> is Go's \<open>len\<close>. Strings are ordered
  bytewise and lexicographically, as Go's \<open><\<close> does, by the library's list order.
\<close>

named_theorems go_result \<open>rules for the error result\<close>
named_theorems go_string \<open>rules for the string functions\<close>
named_theorems go_pass \<open>rules for passes over a metrics payload\<close>

subsection \<open>Results\<close>

text \<open>\<open>Inl e\<close> is a non-nil error whose text (Go's \<open>err.Error()\<close>) is \<open>e\<close>.\<close>

type_synonym 'a result = "string + 'a"

definition bind_res :: "'a result \<Rightarrow> ('a \<Rightarrow> 'b result) \<Rightarrow> 'b result" where
  "bind_res r f = (case r of Inl e \<Rightarrow> Inl e | Inr a \<Rightarrow> f a)"

text \<open>\<open>fmt.Errorf("<prefix>%w", err)\<close> around a result: a success is left alone.\<close>

definition wrap_err :: "string \<Rightarrow> 'a result \<Rightarrow> 'a result" where
  "wrap_err p r = (case r of Inl e \<Rightarrow> Inl (p @ e) | Inr a \<Rightarrow> Inr a)"

lemma bind_res_simps [simp, go_result]:
  "bind_res (Inl e) f = Inl e" "bind_res (Inr a) f = f a"
  by (simp_all add: bind_res_def)

lemma wrap_err_simps [simp, go_result]:
  "wrap_err p (Inl e) = Inl (p @ e)" "wrap_err p (Inr a) = Inr a"
  by (simp_all add: wrap_err_def)

lemma bind_res_Inr_iff [go_result]:
  "bind_res r f = Inr b \<longleftrightarrow> (\<exists>a. r = Inr a \<and> f a = Inr b)"
  by (cases r) auto

lemma bind_res_Inl_iff [go_result]:
  "bind_res r f = Inl e \<longleftrightarrow> r = Inl e \<or> (\<exists>a. r = Inr a \<and> f a = Inl e)"
  by (cases r) auto

lemma wrap_err_Inr_iff [simp, go_result]: "wrap_err p r = Inr a \<longleftrightarrow> r = Inr a"
  by (cases r) auto

lemma wrap_err_Inl_iff [go_result]: "wrap_err p r = Inl e \<longleftrightarrow> (\<exists>e'. r = Inl e' \<and> e = p @ e')"
  by (cases r) auto

text \<open>
  A loop \<open>for i, x := range xs\<close> whose body may return an error: it stops at the first one.
  The body gets the index, because the sources put it in their messages.
\<close>

fun imapM :: "(nat \<Rightarrow> 'a \<Rightarrow> 'b result) \<Rightarrow> nat \<Rightarrow> 'a list \<Rightarrow> 'b list result" where
  "imapM f i [] = Inr []"
| "imapM f i (x # xs) =
     bind_res (f i x) (\<lambda>y. bind_res (imapM f (Suc i) xs) (\<lambda>ys. Inr (y # ys)))"

lemma imapM_Inr_iff:
  "imapM f i xs = Inr ys \<longleftrightarrow>
     length ys = length xs \<and> (\<forall>k < length xs. f (i + k) (xs ! k) = Inr (ys ! k))"
proof (induction xs arbitrary: i ys)
  case Nil
  then show ?case by auto
next
  case (Cons x xs)
  show ?case
  proof
    assume "imapM f i (x # xs) = Inr ys"
    then show "length ys = length (x # xs) \<and>
        (\<forall>k < length (x # xs). f (i + k) ((x # xs) ! k) = Inr (ys ! k))"
      by (auto simp: bind_res_Inr_iff Cons.IH less_Suc_eq_0_disj)
  next
    assume a: "length ys = length (x # xs) \<and>
        (\<forall>k < length (x # xs). f (i + k) ((x # xs) ! k) = Inr (ys ! k))"
    then obtain z zs where ys: "ys = z # zs" by (cases ys) auto
    from a ys have "f i x = Inr z" by (auto dest: spec [of _ 0])
    moreover from a ys have "imapM f (Suc i) xs = Inr zs"
      by (auto simp: Cons.IH)
    ultimately show "imapM f i (x # xs) = Inr ys" by (simp add: ys)
  qed
qed

lemma imapM_length: "imapM f i xs = Inr ys \<Longrightarrow> length ys = length xs"
  by (simp add: imapM_Inr_iff)

lemma imapM_cong: "(\<And>k x. x \<in> set xs \<Longrightarrow> f k x = g k x) \<Longrightarrow> imapM f i xs = imapM g i xs"
  by (induction xs arbitrary: i) (simp_all add: bind_res_def)

lemma imapM_set:
  assumes "imapM f i xs = Inr ys" and "y \<in> set ys"
  shows "\<exists>k x. x \<in> set xs \<and> f k x = Inr y"
  using assms by (auto simp: imapM_Inr_iff in_set_conv_nth)

subsection \<open>Package strings\<close>

fun has_prefix :: "string \<Rightarrow> string \<Rightarrow> bool" where
  "has_prefix s [] = True"
| "has_prefix [] (p # ps) = False"
| "has_prefix (c # s) (p # ps) = (c = p \<and> has_prefix s ps)"

definition has_suffix :: "string \<Rightarrow> string \<Rightarrow> bool" where
  "has_suffix s p = has_prefix (rev s) (rev p)"

fun contains :: "string \<Rightarrow> string \<Rightarrow> bool" where
  "contains [] p = (p = [])"
| "contains (c # s) p = (has_prefix (c # s) p \<or> contains s p)"

text \<open>The part of a string after the first occurrence of \<open>p\<close>, if there is one.\<close>

fun after_first :: "string \<Rightarrow> string \<Rightarrow> string option" where
  "after_first p [] = (if p = [] then Some [] else None)"
| "after_first p (c # s) =
     (if has_prefix (c # s) p then Some (drop (length p) (c # s)) else after_first p s)"

text \<open>\<open>strings.Split(s, sep)\<close> for a separator of one byte; never an empty list.\<close>

fun split_char :: "char \<Rightarrow> string \<Rightarrow> string list" where
  "split_char c [] = [[]]"
| "split_char c (x # xs) =
     (if x = c then [] # split_char c xs
      else (case split_char c xs of [] \<Rightarrow> [[x]] | w # ws \<Rightarrow> (x # w) # ws))"

text \<open>\<open>strings.SplitN(s, sep, 2)\<close> for a separator of one byte.\<close>

definition split_char2 :: "char \<Rightarrow> string \<Rightarrow> string list" where
  "split_char2 c s =
     (if c \<in> set s then [takeWhile (\<lambda>x. x \<noteq> c) s, tl (dropWhile (\<lambda>x. x \<noteq> c) s)] else [s])"

text \<open>\<open>strings.Join(ws, sep)\<close>.\<close>

fun join :: "string \<Rightarrow> string list \<Rightarrow> string" where
  "join sep [] = []"
| "join sep [w] = w"
| "join sep (w # v # ws) = w @ sep @ join sep (v # ws)"

text \<open>\<open>strings.LastIndex(s, c)\<close> for one byte; \<^const>\<open>None\<close> is Go's \<open>-1\<close>.\<close>

fun last_index :: "string \<Rightarrow> char \<Rightarrow> nat option" where
  "last_index [] c = None"
| "last_index (x # xs) c =
     (case last_index xs c of Some i \<Rightarrow> Some (Suc i)
      | None \<Rightarrow> if x = c then Some 0 else None)"

text \<open>
  \<open>strings.ToLower\<close>: Go maps ASCII strings byte by byte and sends any other string through
  the Unicode case tables. The tables are the parameter \<open>uni\<close>.
\<close>

definition is_ascii :: "char \<Rightarrow> bool" where
  "is_ascii c = ((of_char c :: nat) < 128)"

definition lower_char :: "char \<Rightarrow> char" where
  "lower_char c =
     (if (65 :: nat) \<le> of_char c \<and> (of_char c :: nat) \<le> 90 then char_of ((of_char c :: nat) + 32)
      else c)"

definition to_lower :: "(string \<Rightarrow> string) \<Rightarrow> string \<Rightarrow> string" where
  "to_lower uni s = (if list_all is_ascii s then map lower_char s else uni s)"

subsection \<open>Facts about lists\<close>

lemma list_all_drop:
  "list_all Q (drop n xs) \<longleftrightarrow> (\<forall>k. n \<le> k \<and> k < length xs \<longrightarrow> Q (xs ! k))"
proof
  assume a: "list_all Q (drop n xs)"
  show "\<forall>k. n \<le> k \<and> k < length xs \<longrightarrow> Q (xs ! k)"
  proof (intro allI impI)
    fix k assume "n \<le> k \<and> k < length xs"
    moreover from this obtain j where "k = n + j" using le_Suc_ex by blast
    ultimately show "Q (xs ! k)" using a by (auto simp: list_all_length)
  qed
qed (auto simp: list_all_length)

subsection \<open>Facts about the string functions\<close>

lemma has_prefix_iff [go_string]: "has_prefix s p \<longleftrightarrow> (\<exists>r. s = p @ r)"
  by (induction s p rule: has_prefix.induct) auto

lemma has_prefix_append [simp]: "has_prefix (p @ s) p"
  by (simp add: has_prefix_iff)

lemma has_suffix_iff [go_string]: "has_suffix s p \<longleftrightarrow> (\<exists>r. s = r @ p)"
proof
  assume "has_suffix s p"
  then obtain r where "rev s = rev p @ r" by (auto simp: has_suffix_def has_prefix_iff)
  then have "rev (rev s) = rev (rev p @ r)" by (rule arg_cong)
  then show "\<exists>r. s = r @ p" by auto
qed (auto simp: has_suffix_def)

lemma contains_iff [go_string]: "contains s p \<longleftrightarrow> (\<exists>u v. s = u @ p @ v)"
proof (induction s)
  case (Cons c s)
  show ?case
  proof
    assume "contains (c # s) p"
    then consider "has_prefix (c # s) p" | "contains s p" by auto
    then show "\<exists>u v. c # s = u @ p @ v"
    proof cases
      case 1
      then show ?thesis using append_Nil by (metis has_prefix_iff)
    next
      case 2
      with Cons.IH show ?thesis by (metis append_Cons)
    qed
  next
    assume "\<exists>u v. c # s = u @ p @ v"
    then obtain u v where uv: "c # s = u @ p @ v" by auto
    show "contains (c # s) p"
    proof (cases u)
      case Nil
      with uv have "has_prefix (c # s) p" by simp
      then show ?thesis by simp
    next
      case (Cons d u')
      with uv Cons.IH show ?thesis by auto
    qed
  qed
qed simp

lemma contains_append1: "contains s p \<Longrightarrow> contains (s @ t) p"
  by (metis append.assoc contains_iff)

lemma contains_append2: "contains t p \<Longrightarrow> contains (s @ t) p"
  by (metis append.assoc contains_iff)

lemma contains_refl [simp]: "contains p p"
  by (metis append_Nil append_Nil2 contains_iff)

lemma split_char_nonempty [simp]: "split_char c s \<noteq> []"
  by (induction s) (auto split: list.splits)

lemma split_char_pieces: "w \<in> set (split_char c s) \<Longrightarrow> c \<notin> set w"
  by (induction s arbitrary: w) (auto split: list.splits if_splits)

lemma split_char_none: "c \<notin> set s \<Longrightarrow> split_char c s = [s]"
  by (induction s) auto

lemma split_char_append: "c \<notin> set w \<Longrightarrow> split_char c (w @ c # s) = w # split_char c s"
  by (induction w) auto

lemma join_Cons: "ws \<noteq> [] \<Longrightarrow> join sep (w # ws) = w @ sep @ join sep ws"
  by (cases ws) auto

lemma join_split_char: "join [c] (split_char c s) = s"
proof (induction s)
  case (Cons x xs)
  obtain w ws where sp: "split_char c xs = w # ws"
    by (cases "split_char c xs") auto
  with Cons show ?case by (cases ws) auto
qed simp

lemma split_char_join:
  "ws \<noteq> [] \<Longrightarrow> (\<forall>w \<in> set ws. c \<notin> set w) \<Longrightarrow> split_char c (join [c] ws) = ws"
proof (induction ws)
  case (Cons w ws)
  then show ?case
    by (cases ws) (auto simp: split_char_none split_char_append)
qed simp

lemma last_index_None [simp]: "last_index s c = None \<longleftrightarrow> c \<notin> set s"
  by (induction s) (auto split: option.splits if_splits)

lemma last_index_Some:
  "last_index s c = Some i \<longleftrightarrow> i < length s \<and> s ! i = c \<and> c \<notin> set (drop (Suc i) s)"
proof (induction s arbitrary: i)
  case (Cons x xs)
  show ?case
  proof (cases i)
    case 0
    have "last_index xs c = None \<longleftrightarrow> c \<notin> set xs" by simp
    with 0 show ?thesis by (auto split: option.splits simp del: last_index_None)
  next
    case (Suc j)
    with Cons.IH [of j] show ?thesis by (auto split: option.splits)
  qed
qed simp

lemma last_index_split:
  assumes "c \<notin> set t"
  shows "last_index (r @ c # t) c = Some (length r)"
  using assms by (simp add: last_index_Some nth_append)

lemma to_lower_ascii: "list_all is_ascii s \<Longrightarrow> to_lower uni s = map lower_char s"
  by (simp add: to_lower_def)

end
