(* ===== verification/GoNumbers.thy ===== *)
theory GoNumbers
  imports GoBase
begin

section \<open>Integers of 64 bits and their decimal texts\<close>

text \<open>
  Go's \<open>int\<close> on the supported platforms is a 64-bit two's complement integer: a
  \<^typ>\<open>64 word\<close> read with \<^const>\<open>sint\<close>, on which \<open>+\<close> and \<open>-\<close> wrap. \<open>itoa\<close> and \<open>atoi\<close> are
  \<open>strconv.Itoa\<close> and \<open>strconv.Atoi\<close>: an optional sign and at least one decimal digit, with an
  error (here \<^const>\<open>None\<close>; the callers discard its text) for any other text and for a
  number outside the 64-bit range.
\<close>

type_synonym int64 = "64 word"

definition is_digit :: "char \<Rightarrow> bool" where
  "is_digit c = ((48 :: nat) \<le> of_char c \<and> (of_char c :: nat) \<le> 57)"

definition digit_val :: "char \<Rightarrow> nat" where
  "digit_val c = of_char c - 48"

definition digit_char :: "nat \<Rightarrow> char" where
  "digit_char n = char_of (48 + n)"

fun nat_digits :: "nat \<Rightarrow> string" where
  "nat_digits n =
     (if n < 10 then [digit_char n] else nat_digits (n div 10) @ [digit_char (n mod 10)])"

declare nat_digits.simps [simp del]

fun digits_val :: "nat \<Rightarrow> string \<Rightarrow> nat option" where
  "digits_val acc [] = Some acc"
| "digits_val acc (c # cs) =
     (if is_digit c then digits_val (10 * acc + digit_val c) cs else None)"

definition parse_nat :: "string \<Rightarrow> nat option" where
  "parse_nat s = (if s = [] then None else digits_val 0 s)"

definition parse_int :: "string \<Rightarrow> int option" where
  "parse_int s =
     (case s of
        [] \<Rightarrow> None
      | c # cs \<Rightarrow>
          (if c = CHR ''-'' then map_option (\<lambda>n. - int n) (parse_nat cs)
           else if c = CHR ''+'' then map_option int (parse_nat cs)
           else map_option int (parse_nat s)))"

definition atoi :: "string \<Rightarrow> int64 option" where
  "atoi s =
     (case parse_int s of
        None \<Rightarrow> None
      | Some i \<Rightarrow> if - (2 ^ 63) \<le> i \<and> i < 2 ^ 63 then Some (word_of_int i) else None)"

definition itoa_int :: "int \<Rightarrow> string" where
  "itoa_int i = (if i < 0 then CHR ''-'' # nat_digits (nat (- i)) else nat_digits (nat i))"

definition itoa :: "int64 \<Rightarrow> string" where
  "itoa w = itoa_int (sint w)"

subsection \<open>Digits\<close>

lemma of_digit_char: "n < 10 \<Longrightarrow> of_char (digit_char n) = 48 + n"
  by (simp add: digit_char_def)

lemma digit_char_is_digit [simp]: "n < 10 \<Longrightarrow> is_digit (digit_char n)"
  by (simp add: is_digit_def of_digit_char)

lemma digit_val_digit_char [simp]: "n < 10 \<Longrightarrow> digit_val (digit_char n) = n"
  by (simp add: digit_val_def of_digit_char)

lemma nat_digits_all: "list_all is_digit (nat_digits n)"
proof (induction n rule: nat_digits.induct)
  case (1 n)
  then show ?case by (subst nat_digits.simps) simp
qed

lemma nat_digits_nonempty [simp]: "nat_digits n \<noteq> []"
  by (subst nat_digits.simps) simp

lemma digits_val_append:
  "digits_val acc (xs @ ys) = Option.bind (digits_val acc xs) (\<lambda>a. digits_val a ys)"
  by (induction xs arbitrary: acc) auto

lemma digits_val_nat_digits: "digits_val 0 (nat_digits n) = Some n"
proof (induction n rule: nat_digits.induct)
  case (1 n)
  show ?case
  proof (cases "n < 10")
    case True
    then show ?thesis by (subst nat_digits.simps) simp
  next
    case False
    with 1 have "digits_val 0 (nat_digits (n div 10)) = Some (n div 10)" by simp
    with False show ?thesis
      by (subst nat_digits.simps) (simp add: digits_val_append)
  qed
qed

lemma parse_nat_nat_digits [simp]: "parse_nat (nat_digits n) = Some n"
  by (simp add: parse_nat_def digits_val_nat_digits)

lemma nat_digits_Cons:
  obtains c cs where "nat_digits n = c # cs" and "is_digit c"
  using nat_digits_all [of n] by (cases "nat_digits n") (auto)

lemma not_is_digit [simp]:
  "\<not> is_digit CHR ''-''" "\<not> is_digit CHR ''+''" "\<not> is_digit CHR ''.''" "\<not> is_digit CHR '' ''"
  by (simp_all add: is_digit_def)

lemma parse_int_nat_digits [simp]: "parse_int (nat_digits n) = Some (int n)"
proof -
  obtain c cs where d: "nat_digits n = c # cs" and c: "is_digit c" by (rule nat_digits_Cons)
  have "parse_nat (c # cs) = Some n" by (simp flip: d)
  moreover from c have "c \<noteq> CHR ''-''" "c \<noteq> CHR ''+''" by auto
  ultimately show ?thesis by (simp add: parse_int_def d)
qed

lemma parse_itoa_int: "parse_int (itoa_int i) = Some i"
proof (cases "i < 0")
  case True
  then show ?thesis by (simp add: itoa_int_def parse_int_def)
next
  case False
  then show ?thesis by (simp add: itoa_int_def)
qed

lemma itoa_int_chars: "c \<in> set (itoa_int i) \<Longrightarrow> is_digit c \<or> c = CHR ''-''"
  using nat_digits_all by (auto simp: itoa_int_def list_all_iff split: if_splits)

lemma dot_notin_itoa: "CHR ''.'' \<notin> set (itoa w)"
  using itoa_int_chars [of "CHR ''.''" "sint w"] by (auto simp: itoa_def)

lemma sint_bounds64: "- (2 ^ 63) \<le> sint (w :: int64)" "sint (w :: int64) < 2 ^ 63"
  using sint_greater_eq [of w] sint_lt [of w] by simp_all

subsection \<open>The round trip\<close>

text \<open>
  Reading back what was printed gives the same number, for every number. The laws are
  stated as an interface: a printer and a parser of numbers, with the character that the
  callers use as a separator and that no printed number holds.
\<close>

locale number_text =
  fixes print :: "'n \<Rightarrow> string" and parse :: "string \<Rightarrow> 'n option" and sep :: char
  assumes parse_print: "parse (print n) = Some n"
    and sep_free: "sep \<notin> set (print n)"
begin

lemma print_inject: "print m = print n \<longleftrightarrow> m = n"
  by (metis option.inject parse_print)

text \<open>A field of a separated text is replaced by a printed number and read back.\<close>

lemma split_update:
  assumes "i < length (split_char sep s)"
  shows "split_char sep (join [sep] ((split_char sep s)[i := print n])) = (split_char sep s)[i := print n]"
proof (rule split_char_join)
  show "(split_char sep s)[i := print n] \<noteq> []" by simp
  show "\<forall>w \<in> set ((split_char sep s)[i := print n]). sep \<notin> set w"
    using set_update_subset_insert [of "split_char sep s" i "print n"]
    by (auto simp: sep_free dest: split_char_pieces)
qed

lemma parse_update:
  assumes "i < length (split_char sep s)"
  shows "parse (split_char sep (join [sep] ((split_char sep s)[i := print n])) ! i) = Some n"
  using assms by (simp add: split_update parse_print)

end

lemma atoi_itoa: "atoi (itoa w) = Some w"
  using sint_bounds64 [of w] by (simp add: atoi_def itoa_def parse_itoa_int)

interpretation dotted: number_text itoa atoi "CHR ''.''"
  by unfold_locales (simp_all add: atoi_itoa dot_notin_itoa)

lemma atoi_nat_digits: "n < 2 ^ 63 \<Longrightarrow> atoi (nat_digits n) = Some (of_nat n)"
proof -
  assume "n < 2 ^ 63"
  then have "int n < 2 ^ 63" by (metis of_nat_less_iff of_nat_numeral of_nat_power)
  then show ?thesis by (simp add: atoi_def)
qed

end
