(* ===== verification/GoSort.thy ===== *)
theory GoSort
  imports GoBase
begin

section \<open>Sorting with a less function\<close>

text \<open>
  \<open>insertion_sort\<close> is the loop of package sort's \<open>insertionSort_func\<close>: each element in
  turn moves left past the elements it is less than. The prefix sorted so far is kept in
  reverse, so that a move is one step of \<open>ins_rev\<close>. It stands for \<open>sort.Slice\<close> and
  \<open>sort.Strings\<close>, which are only determined up to the order of elements neither of which is
  less; the lemmas below say when that leaves no choice, and the locale \<open>slice_sorter\<close> is
  what any correct sorting function promises.
\<close>

fun ins_rev :: "('a \<Rightarrow> 'a \<Rightarrow> bool) \<Rightarrow> 'a \<Rightarrow> 'a list \<Rightarrow> 'a list" where
  "ins_rev lt x [] = [x]"
| "ins_rev lt x (y # ys) = (if lt x y then y # ins_rev lt x ys else x # y # ys)"

definition insertion_sort :: "('a \<Rightarrow> 'a \<Rightarrow> bool) \<Rightarrow> 'a list \<Rightarrow> 'a list" where
  "insertion_sort lt xs = rev (foldl (\<lambda>acc x. ins_rev lt x acc) [] xs)"

text \<open>A strict weak order: what the documentation of package sort asks of the less function.\<close>

definition strict_weak :: "('a \<Rightarrow> 'a \<Rightarrow> bool) \<Rightarrow> bool" where
  "strict_weak lt \<longleftrightarrow>
     (\<forall>x y. lt x y \<longrightarrow> \<not> lt y x) \<and> (\<forall>x y z. lt x y \<longrightarrow> lt x z \<or> lt z y)"

definition ordered_by :: "('a \<Rightarrow> 'a \<Rightarrow> bool) \<Rightarrow> 'a list \<Rightarrow> bool" where
  "ordered_by lt xs = sorted_wrt (\<lambda>x y. \<not> lt y x) xs"

lemma strict_weak_key: "strict_weak (\<lambda>x y. (f x :: 'k :: linorder) < f y)"
  by (auto simp: strict_weak_def)

lemma strict_weak_antisym: "strict_weak lt \<Longrightarrow> lt x y \<Longrightarrow> \<not> lt y x"
  by (auto simp: strict_weak_def)

lemma strict_weak_split: "strict_weak lt \<Longrightarrow> lt x y \<Longrightarrow> lt x z \<or> lt z y"
  by (auto simp: strict_weak_def)

lemma not_less_trans: "strict_weak lt \<Longrightarrow> \<not> lt y x \<Longrightarrow> \<not> lt z y \<Longrightarrow> \<not> lt z x"
  using strict_weak_split [of lt z x y] by blast

subsection \<open>Insertion sort is correct\<close>

lemma mset_ins_rev [simp]: "mset (ins_rev lt x ys) = add_mset x (mset ys)"
  by (induction ys) auto

lemma set_ins_rev [simp]: "set (ins_rev lt x ys) = insert x (set ys)"
  by (metis mset_ins_rev set_mset_add_mset_insert set_mset_mset)

lemma mset_fold_ins: "mset (foldl (\<lambda>acc x. ins_rev lt x acc) acc xs) = mset acc + mset xs"
  by (induction xs arbitrary: acc) auto

lemma mset_insertion_sort: "mset (insertion_sort lt xs) = mset xs"
  by (simp add: insertion_sort_def mset_fold_ins)

lemma ins_rev_sorted:
  assumes sw: "strict_weak lt" and "sorted_wrt (\<lambda>x y. \<not> lt x y) ys"
  shows "sorted_wrt (\<lambda>x y. \<not> lt x y) (ins_rev lt x ys)"
  using assms(2)
proof (induction ys)
  case (Cons y ys)
  show ?case
  proof (cases "lt x y")
    case True
    with Cons strict_weak_antisym [OF sw] show ?thesis by auto
  next
    case False
    with Cons.prems not_less_trans [OF sw] show ?thesis by (auto)
  qed
qed simp

lemma fold_ins_sorted:
  "strict_weak lt \<Longrightarrow> sorted_wrt (\<lambda>x y. \<not> lt x y) acc \<Longrightarrow>
     sorted_wrt (\<lambda>x y. \<not> lt x y) (foldl (\<lambda>acc x. ins_rev lt x acc) acc xs)"
  by (induction xs arbitrary: acc) (auto intro: ins_rev_sorted)

lemma insertion_sort_ordered: "strict_weak lt \<Longrightarrow> ordered_by lt (insertion_sort lt xs)"
  by (auto simp: ordered_by_def insertion_sort_def sorted_wrt_rev intro: fold_ins_sorted)

subsection \<open>The interface of a sorting function\<close>

locale slice_sorter =
  fixes srt :: "('a \<Rightarrow> 'a \<Rightarrow> bool) \<Rightarrow> 'a list \<Rightarrow> 'a list"
  assumes srt_mset: "mset (srt lt xs) = mset xs"
    and srt_ordered: "strict_weak lt \<Longrightarrow> ordered_by lt (srt lt xs)"
begin

lemma srt_set [simp]: "set (srt lt xs) = set xs"
  using srt_mset [of lt xs] by (metis set_mset_mset)

lemma srt_length [simp]: "length (srt lt xs) = length xs"
  using srt_mset [of lt xs] by (metis size_mset)

lemma srt_nil [simp]: "srt lt xs = [] \<longleftrightarrow> xs = []"
  by (metis length_0_conv srt_length)

lemma srt_hd_in: "xs \<noteq> [] \<Longrightarrow> hd (srt lt xs) \<in> set xs"
  by (metis hd_in_set srt_nil srt_set)

lemma srt_hd_least:
  assumes "strict_weak lt" and "x \<in> set xs"
  shows "\<not> lt x (hd (srt lt xs))"
proof -
  from assms(2) have "srt lt xs \<noteq> []" by auto
  then obtain y ys where ys: "srt lt xs = y # ys" by (cases "srt lt xs") auto
  from assms(2) have "x \<in> set (y # ys)" by (metis srt_set ys)
  with srt_ordered [OF assms(1), of xs] strict_weak_antisym [OF assms(1)] ys
  show ?thesis by (auto simp: ordered_by_def)
qed

text \<open>Where the less function separates the elements, the head does not depend on the input's order.\<close>

lemma srt_hd_perm:
  assumes sw: "strict_weak lt" and m: "mset xs = mset ys"
    and sep: "\<forall>x \<in> set xs. \<forall>y \<in> set xs. lt x y \<or> lt y x \<or> x = y"
  shows "take 1 (srt lt xs) = take 1 (srt lt ys)"
proof (cases "xs = []")
  case True
  with m have "ys = []" by auto
  with True show ?thesis by (metis srt_nil)
next
  case False
  from m have st: "set xs = set ys" by (metis set_mset_mset)
  with False have ne: "ys \<noteq> []" by auto
  let ?a = "hd (srt lt xs)" and ?b = "hd (srt lt ys)"
  have "?a \<in> set xs" "?b \<in> set xs"
    using srt_hd_in [OF False] srt_hd_in [OF ne] st by auto
  moreover have "\<not> lt ?b ?a" "\<not> lt ?a ?b"
    using srt_hd_least [OF sw] calculation st by auto
  ultimately have "?a = ?b" using sep by blast
  moreover have "srt lt xs \<noteq> []" "srt lt ys \<noteq> []" using False ne by simp_all
  ultimately show ?thesis by (simp add: take_Suc)
qed

end

interpretation ins_sort: slice_sorter insertion_sort
  by unfold_locales (simp_all add: mset_insertion_sort insertion_sort_ordered)

lemma slice_sorter_insertion_sort: "slice_sorter insertion_sort"
  by (rule ins_sort.slice_sorter_axioms)

subsection \<open>When the sorted order is unique\<close>

lemma ordered_by_unique:
  assumes "mset xs = mset ys" and "ordered_by lt xs" and "ordered_by lt ys"
    and "\<forall>x \<in> set xs. \<forall>y \<in> set xs. lt x y \<or> lt y x \<or> x = y"
  shows "xs = ys"
  using assms
proof (induction xs arbitrary: ys)
  case (Cons x xs)
  from Cons.prems(1) have "set ys = set (x # xs)" by (metis set_mset_mset)
  then obtain y ys' where ys: "ys = y # ys'" by (cases ys) auto
  have "y \<in> set (x # xs)" "x \<in> set (y # ys')"
    using \<open>set ys = set (x # xs)\<close> ys by auto
  with Cons.prems(2-4) ys have "x = y" by (auto simp: ordered_by_def)
  moreover have "xs = ys'"
    using Cons.prems \<open>x = y\<close> by (intro Cons.IH) (auto simp: ys ordered_by_def)
  ultimately show ?case by (simp add: ys)
qed auto

text \<open>\<open>sort.Strings\<close>: ascending bytewise order.\<close>

definition sort_strings :: "string list \<Rightarrow> string list" where
  "sort_strings = insertion_sort (<)"

lemma sort_strings_eq_sort: "sort_strings xs = sort xs"
proof (rule ordered_by_unique [where lt = "(<)"])
  show "mset (sort_strings xs) = mset (sort xs)"
    by (simp add: sort_strings_def mset_insertion_sort)
  show "ordered_by (<) (sort_strings xs)"
    using insertion_sort_ordered [OF strict_weak_key [of id]] by (simp add: sort_strings_def)
  show "ordered_by (<) (sort xs)"
    using sorted_sort [of xs] by (simp add: ordered_by_def not_less)
qed auto

lemma set_sort_strings [simp]: "set (sort_strings xs) = set xs"
  by (simp add: sort_strings_eq_sort)

lemma distinct_sort_strings [simp]: "distinct (sort_strings xs) = distinct xs"
  by (simp add: sort_strings_eq_sort)

lemma sort_strings_perm: "mset xs = mset ys \<Longrightarrow> sort_strings xs = sort_strings ys"
  by (metis sort_strings_eq_sort properties_for_sort sorted_sort mset_sort)

end
