(* ===== verification/GoTime.thy ===== *)
theory GoTime
  imports GoNumbers
begin

section \<open>Calendar dates and instants\<close>

text \<open>
  The part of package time that the sources use: \<open>time.Parse(time.DateOnly, s)\<close>, which takes
  exactly \<open>YYYY-MM-DD\<close> with a month from 1 to 12 and a day of that month, and \<open>After\<close>.
  An instant is a number of nanoseconds since 0001-01-01T00:00:00Z; the date stands for its
  midnight in UTC.
\<close>

datatype date = Date (the_year: nat) (the_month: nat) (the_day: nat)

text \<open>The calendar orders dates by year, month and day; with it dates are a linear order of the library.\<close>

instantiation date :: linorder
begin

definition less_date :: "date \<Rightarrow> date \<Rightarrow> bool" where
  "less_date a b =
     (the_year a < the_year b \<or> the_year a = the_year b \<and>
        (the_month a < the_month b \<or> the_month a = the_month b \<and> the_day a < the_day b))"

definition less_eq_date :: "date \<Rightarrow> date \<Rightarrow> bool" where
  "less_eq_date a b = (a = b \<or> a < (b :: date))"

instance
proof
  fix a b c :: date
  show "(a < b) = (a \<le> b \<and> \<not> b \<le> a)" by (auto simp: less_date_def less_eq_date_def)
  show "a \<le> a" by (simp add: less_eq_date_def)
  show "a \<le> b \<Longrightarrow> b \<le> c \<Longrightarrow> a \<le> c" by (auto simp: less_date_def less_eq_date_def)
  show "a \<le> b \<Longrightarrow> b \<le> a \<Longrightarrow> a = b" by (auto simp: less_date_def less_eq_date_def)
  show "a \<le> b \<or> b \<le> a" by (cases a; cases b) (auto simp: less_date_def less_eq_date_def)
qed

end

definition is_leap :: "nat \<Rightarrow> bool" where
  "is_leap y = (y mod 4 = 0 \<and> (y mod 100 \<noteq> 0 \<or> y mod 400 = 0))"

definition days_in :: "nat \<Rightarrow> nat \<Rightarrow> nat" where
  "days_in m y =
     (if m = 2 \<and> is_leap y then 29
      else [31, 28, 31, 30, 31, 30, 31, 31, 30, 31, 30, 31] ! (m - 1))"

definition valid_date :: "date \<Rightarrow> bool" where
  "valid_date dt = (case dt of Date y m d \<Rightarrow> 1 \<le> m \<and> m \<le> 12 \<and> 1 \<le> d \<and> d \<le> days_in m y)"

definition parse_date_only :: "string \<Rightarrow> date option" where
  "parse_date_only s =
     (if length s \<noteq> 10 \<or> s ! 4 \<noteq> CHR ''-'' \<or> s ! 7 \<noteq> CHR ''-'' then None
      else
        (case (parse_nat (take 4 s), parse_nat (take 2 (drop 5 s)), parse_nat (drop 8 s)) of
           (Some y, Some m, Some d) \<Rightarrow> if valid_date (Date y m d) then Some (Date y m d) else None
         | _ \<Rightarrow> None))"

text \<open>Days since 0001-01-01 of the first day of a year, and of a date.\<close>

definition year_start :: "nat \<Rightarrow> int" where
  "year_start y = 365 * (int y - 1) + (int y - 1) div 4 - (int y - 1) div 100 + (int y - 1) div 400"

fun month_start :: "nat \<Rightarrow> nat \<Rightarrow> nat" where
  "month_start y 0 = 0"
| "month_start y (Suc 0) = 0"
| "month_start y (Suc (Suc m)) = month_start y (Suc m) + days_in (Suc m) y"

definition day_number :: "date \<Rightarrow> int" where
  "day_number dt = (case dt of Date y m d \<Rightarrow> year_start y + int (month_start y m) + int d - 1)"

definition midnight :: "date \<Rightarrow> int" where
  "midnight dt = day_number dt * 86400 * 1000000000"

definition after :: "int \<Rightarrow> int \<Rightarrow> bool" where
  "after t u = (t > u)"

subsection \<open>The order of instants is the order of the calendar\<close>

lemma parse_date_only_valid: "parse_date_only s = Some dt \<Longrightarrow> valid_date dt"
  by (auto simp: parse_date_only_def split: if_splits option.splits)

lemma div_pred:
  assumes "0 < (k :: int)"
  shows "i div k = (i - 1) div k + (if i mod k = 0 then 1 else 0)"
proof (cases "i mod k = 0")
  case True
  then obtain q where i: "i = k * q" by auto
  have "k * q - 1 = k * (q - 1) + (k - 1)" by (simp add: algebra_simps)
  then have "(k * q - 1) div k = q - 1"
    using assms by (intro int_div_pos_eq [where r = "k - 1"]) auto
  with assms show ?thesis by (simp add: i)
next
  case False
  have "0 \<le> i mod k" "i mod k < k" using assms by simp_all
  moreover have "i - 1 = k * (i div k) + (i mod k - 1)"
    using mult_div_mod_eq [of k i] by (simp add: algebra_simps)
  ultimately have "(i - 1) div k = i div k"
    using False by (intro int_div_pos_eq [where r = "i mod k - 1"]) linarith+
  with False show ?thesis by simp
qed

lemma leap_count:
  fixes a b c :: int
  assumes "a' = a + (if P then 1 else 0)" and "b' = b + (if Q then 1 else 0)"
    and "c' = c + (if R then 1 else 0)" and "R \<Longrightarrow> Q" and "Q \<Longrightarrow> P"
  shows "a' - b' + c' = a - b + c + (if P \<and> (\<not> Q \<or> R) then 1 else 0)"
  using assms by (cases P; cases Q; cases R) simp_all

lemma year_sum:
  fixes a b c :: int
  assumes "u' = 365 * n + a' - b' + c'" and "u = 365 * (n - 1) + a - b + c"
    and "a' - b' + c' = a - b + c + k"
  shows "u' = u + (365 + k)"
  using assms by simp

lemma year_start_Suc: "year_start (Suc y) = year_start y + (if is_leap y then 366 else 365)"
proof -
  have mk: "int y mod int k = 0 \<longleftrightarrow> y mod k = 0" for k
    by (metis of_nat_0_eq_iff of_nat_mod)
  note m = mk [of 4, unfolded of_nat_numeral] mk [of 100, unfolded of_nat_numeral]
    mk [of 400, unfolded of_nat_numeral]
  have d: "y mod 400 = 0 \<Longrightarrow> y mod 100 = 0" "y mod 100 = 0 \<Longrightarrow> y mod 4 = 0"
    using dvd_trans [of 100 400 y] dvd_trans [of 4 100 y] by (simp_all add: dvd_eq_mod_eq_0)
  have s: "year_start (Suc y) = 365 * int y + int y div 4 - int y div 100 + int y div 400"
    by (simp add: year_start_def)
  have t: "year_start y =
      365 * (int y - 1) + (int y - 1) div 4 - (int y - 1) div 100 + (int y - 1) div 400"
    by (simp only: year_start_def)
  let ?L = "y mod 4 = 0 \<and> (y mod 100 \<noteq> 0 \<or> y mod 400 = 0)"
  have e: "int y div 4 - int y div 100 + int y div 400 =
      (int y - 1) div 4 - (int y - 1) div 100 + (int y - 1) div 400 + (if ?L then 1 else 0)"
  proof (rule leap_count)
    show "int y div 4 = (int y - 1) div 4 + (if y mod 4 = 0 then 1 else 0)"
      by (rule div_pred [of 4 "int y", unfolded m]) simp
    show "int y div 100 = (int y - 1) div 100 + (if y mod 100 = 0 then 1 else 0)"
      by (rule div_pred [of 100 "int y", unfolded m]) simp
    show "int y div 400 = (int y - 1) div 400 + (if y mod 400 = 0 then 1 else 0)"
      by (rule div_pred [of 400 "int y", unfolded m]) simp
  qed (fact d)+
  have "year_start (Suc y) = year_start y + (365 + (if ?L then 1 else 0))"
    by (rule year_sum [OF s t e])
  then show ?thesis by (simp add: is_leap_def)
qed

lemma month_start_step:
  "1 \<le> m \<Longrightarrow> month_start y (Suc m) = month_start y m + days_in m y"
  by (cases m) auto

lemma month_start_mono: "1 \<le> m \<Longrightarrow> m < m' \<Longrightarrow> month_start y m + days_in m y \<le> month_start y m'"
proof (induction m')
  case (Suc k)
  then show ?case
    by (cases "m = k") (auto simp: month_start_step)
qed simp

lemma month_start_13: "month_start y 13 = (if is_leap y then 366 else 365)"
  by (simp add: numeral_eq_Suc days_in_def)

lemma day_of_year:
  assumes "valid_date (Date y m d)"
  shows "int (month_start y m) + int d \<le> year_start (Suc y) - year_start y"
proof -
  from assms have "month_start y m + d \<le> month_start y 13"
    using month_start_mono [of m 13 y] by (auto simp: valid_date_def)
  then show ?thesis by (simp add: month_start_13 year_start_Suc split: if_splits)
qed

lemma year_start_mono: "y \<le> y' \<Longrightarrow> year_start y \<le> year_start y'"
  by (induction y' rule: dec_induct) (auto simp: year_start_Suc)

lemma day_number_less:
  assumes a: "valid_date (Date y m d)" and b: "valid_date (Date y' m' d')"
    and l: "Date y m d < Date y' m' d'"
  shows "day_number (Date y m d) < day_number (Date y' m' d')"
proof -
  consider "y < y'" | "y = y'" "m < m'" | "y = y'" "m = m'" "d < d'"
    using l by (auto simp: less_date_def)
  then show ?thesis
  proof cases
    case 1
    then have "year_start (Suc y) \<le> year_start y'" by (simp add: year_start_mono)
    moreover from b have "1 \<le> d'" by (simp add: valid_date_def)
    ultimately show ?thesis using day_of_year [OF a] by (simp add: day_number_def)
  next
    case 2
    with a b month_start_mono [of m m' y] show ?thesis
      by (auto simp: day_number_def valid_date_def)
  next
    case 3
    then show ?thesis by (simp add: day_number_def)
  qed
qed

lemma midnight_less_iff:
  assumes "valid_date a" and "valid_date b"
  shows "midnight a < midnight b \<longleftrightarrow> a < b"
proof -
  have "day_number a < day_number b \<longleftrightarrow> a < b"
    using linorder_less_linear [of a b] assms day_number_less
    by (cases a; cases b) (metis less_irrefl order_less_asym)
  then show ?thesis by (simp add: midnight_def)
qed

end
