(* ===== verification/GoFiles.thy ===== *)
theory GoFiles
  imports GoBase
begin

section \<open>Paths and files\<close>

subsection \<open>Package path\<close>

text \<open>
  \<open>path.Clean\<close> (and \<open>filepath.Clean\<close> on Unix): the path's elements are processed from the
  left; empty elements and \<open>.\<close> are dropped and \<open>..\<close> removes the element before it, if there
  is one that is not \<open>..\<close> itself; at the root it is dropped. The stack of elements is kept in
  reverse.
\<close>

fun clean_step :: "bool \<Rightarrow> string list \<Rightarrow> string \<Rightarrow> string list" where
  "clean_step rooted st e =
     (if e = [] \<or> e = ''.'' then st
      else if e = ''..'' then
        (case st of
           [] \<Rightarrow> if rooted then [] else [e]
         | t # ts \<Rightarrow> if t = ''..'' then e # st else ts)
      else e # st)"

definition clean_elems :: "bool \<Rightarrow> string list \<Rightarrow> string list" where
  "clean_elems rooted es = rev (foldl (clean_step rooted) [] es)"

definition is_rooted :: "string \<Rightarrow> bool" where
  "is_rooted p = (p \<noteq> [] \<and> hd p = CHR ''/'')"

definition path_clean :: "string \<Rightarrow> string" where
  "path_clean p =
     (let es = clean_elems (is_rooted p) (split_char (CHR ''/'') p)
      in if is_rooted p then CHR ''/'' # join ''/'' es
         else if es = [] then ''.'' else join ''/'' es)"

text \<open>\<open>filepath.Join\<close>: the non-empty elements joined by a slash, then cleaned.\<close>

definition path_join :: "string list \<Rightarrow> string" where
  "path_join ps =
     (let qs = filter (\<lambda>p. p \<noteq> []) ps in if qs = [] then [] else path_clean (join ''/'' qs))"

text \<open>\<open>filepath.Dir\<close>, and \<open>path.Dir\<close>: everything up to the last slash, cleaned.\<close>

definition path_dir :: "string \<Rightarrow> string" where
  "path_dir p = path_clean (case last_index p (CHR ''/'') of Some i \<Rightarrow> take (i + 1) p | None \<Rightarrow> [])"

lemma clean_step_append:
  "clean_elems r (xs @ [e]) = rev (clean_step r (rev (clean_elems r xs)) e)"
  by (simp add: clean_elems_def)

text \<open>
  What cleaning leaves: no empty element, no \<open>.\<close>, and \<open>..\<close> only in front and never in a
  rooted path. On such elements it changes nothing.
\<close>

definition clean_form :: "bool \<Rightarrow> string list \<Rightarrow> bool" where
  "clean_form rooted es \<longleftrightarrow>
     [] \<notin> set es \<and> ''.'' \<notin> set es \<and>
     (\<exists>n ys. es = replicate n ''..'' @ ys \<and> ''..'' \<notin> set ys \<and> (rooted \<longrightarrow> n = 0))"

lemma clean_form_snoc:
  assumes "clean_form r xs" and "e \<noteq> []" "e \<noteq> ''.''" "e \<noteq> ''..''"
  shows "clean_form r (xs @ [e])"
proof -
  from assms(1) obtain n ys where "xs = replicate n ''..'' @ ys" "''..'' \<notin> set ys" "r \<longrightarrow> n = 0"
    by (auto simp: clean_form_def)
  then have "xs @ [e] = replicate n ''..'' @ (ys @ [e])" "''..'' \<notin> set (ys @ [e])" "r \<longrightarrow> n = 0"
    using assms(4) by auto
  with assms show ?thesis unfolding clean_form_def by fastforce
qed

lemma snoc_replicate: "xs @ [t] = replicate n d \<Longrightarrow> xs = replicate (n - 1) d"
  by (cases n) (simp_all flip: replicate_append_same)

lemma clean_form_butlast:
  assumes "clean_form r (xs @ [t])"
  shows "clean_form r xs"
proof -
  from assms obtain n ys where e: "xs @ [t] = replicate n ''..'' @ ys" "''..'' \<notin> set ys" "r \<longrightarrow> n = 0"
    by (auto simp: clean_form_def)
  show ?thesis
  proof (cases ys rule: rev_cases)
    case Nil
    with e have "xs @ [t] = replicate n ''..''" by simp
    then have "xs = replicate (n - 1) ''..'' @ []"
      using snoc_replicate by fastforce
    with e assms show ?thesis unfolding clean_form_def by fastforce
  next
    case (snoc zs z)
    with e have "xs = replicate n ''..'' @ zs" "''..'' \<notin> set zs" by auto
    with e assms show ?thesis unfolding clean_form_def by auto
  qed
qed

lemma clean_form_dotdot:
  assumes "clean_form r (xs @ [''..''])"
  shows "clean_form r (xs @ [''..'', ''..''])"
proof -
  from assms obtain n ys where e: "xs @ [''..''] = replicate n ''..'' @ ys" "''..'' \<notin> set ys"
    "r \<longrightarrow> n = 0"
    by (auto simp: clean_form_def)
  then have "ys = []" by (cases ys rule: rev_cases) auto
  with e have x: "xs @ [''..''] = replicate n ''..''" and "n \<noteq> 0" by (auto intro: ccontr)
  then have "xs @ [''..'', ''..''] = replicate (Suc n) ''..'' @ []"
    by (metis append.assoc append.right_neutral append_Cons append_Nil replicate_append_same replicate_Suc)
  with assms \<open>n \<noteq> 0\<close> e(3) show ?thesis unfolding clean_form_def by fastforce
qed

lemma clean_elems_form: "clean_form r (clean_elems r es)"
proof (induction es rule: rev_induct)
  case Nil
  have "[] = replicate 0 ''..'' @ ([] :: string list)" by simp
  then show ?case by (auto simp: clean_elems_def clean_form_def)
next
  case (snoc e es)
  let ?st = "clean_elems r es"
  consider "e = [] \<or> e = ''.''" | "e = ''..''" | "e \<noteq> []" "e \<noteq> ''.''" "e \<noteq> ''..''" by blast
  then show ?case
  proof cases
    case 1
    with snoc show ?thesis by (auto simp: clean_step_append)
  next
    case 2
    show ?thesis
    proof (cases ?st rule: rev_cases)
      case Nil
      have "[''..''] = replicate 1 ''..'' @ ([] :: string list)" by simp
      then have "clean_form False [''..'']" unfolding clean_form_def by fastforce
      moreover have "clean_form True []" by (simp add: clean_form_def)
      ultimately show ?thesis using 2 Nil by (auto simp: clean_step_append)
    next
      case (snoc xs t)
      with snoc.IH 2 clean_form_butlast [of r xs t] clean_form_dotdot [of r xs] show ?thesis
        by (auto simp: clean_step_append)
    qed
  next
    case 3
    with snoc clean_form_snoc show ?thesis by (auto simp: clean_step_append)
  qed
qed

lemma fold_clean_dotdots:
  "foldl (clean_step False) (replicate k ''..'') (replicate n ''..'') = replicate (n + k) ''..''"
proof (induction n arbitrary: k)
  case (Suc n)
  have "clean_step False (replicate k ''..'') ''..'' = replicate (Suc k) ''..''"
    by (cases k) auto
  with Suc.IH [of "Suc k"] show ?case by simp
qed simp

lemma fold_clean_plain:
  "[] \<notin> set ys \<Longrightarrow> ''.'' \<notin> set ys \<Longrightarrow> ''..'' \<notin> set ys \<Longrightarrow>
     foldl (clean_step r) st ys = rev ys @ st"
  by (induction ys arbitrary: st) auto

lemma clean_elems_fixed: "clean_form r es \<Longrightarrow> clean_elems r es = es"
proof -
  assume a: "clean_form r es"
  then obtain n ys where e: "es = replicate n ''..'' @ ys" "''..'' \<notin> set ys" "r \<longrightarrow> n = 0"
    by (auto simp: clean_form_def)
  from a e have p: "[] \<notin> set ys" "''.'' \<notin> set ys" by (auto simp: clean_form_def)
  show ?thesis
  proof (cases n)
    case 0
    with e p show ?thesis by (simp add: clean_elems_def fold_clean_plain)
  next
    case (Suc k)
    with e have "\<not> r" by simp
    with e p fold_clean_dotdots [of 0 n] show ?thesis
      by (simp add: clean_elems_def fold_clean_plain)
  qed
qed

lemma clean_step_subset: "set (clean_step r st e) \<subseteq> insert e (set st)"
  by (auto split: list.splits)

lemma fold_clean_subset: "set (foldl (clean_step r) st es) \<subseteq> set st \<union> set es"
proof (induction es arbitrary: st)
  case (Cons e es)
  from Cons [of "clean_step r st e"] clean_step_subset [of r st e] show ?case
    by (simp del: clean_step.simps) blast
qed simp

lemma clean_elems_subset: "set (clean_elems r es) \<subseteq> set es"
  using fold_clean_subset [of r "[]" es] by (simp add: clean_elems_def)

lemma clean_elems_no_slash: "e \<in> set (clean_elems r (split_char (CHR ''/'') p)) \<Longrightarrow> CHR ''/'' \<notin> set e"
  using clean_elems_subset split_char_pieces by blast

lemma clean_elems_skip: "clean_elems r ([] # es) = clean_elems r es"
  by (simp add: clean_elems_def)

lemma path_clean_idem: "path_clean (path_clean p) = path_clean p"
proof -
  let ?r = "is_rooted p"
  define es where "es = clean_elems ?r (split_char (CHR ''/'') p)"
  have f: "clean_form ?r es" and ns: "\<forall>e \<in> set es. CHR ''/'' \<notin> set e"
    using clean_elems_form clean_elems_no_slash by (auto simp: es_def)
  have el: "clean_elems ?r (split_char (CHR ''/'') (join ''/'' es)) = es" if "es \<noteq> []"
    using that f ns by (simp add: split_char_join clean_elems_fixed)
  show ?thesis
  proof (cases ?r)
    case True
    then have pc: "path_clean p = CHR ''/'' # join ''/'' es" by (simp add: path_clean_def es_def Let_def)
    have "clean_elems True (split_char (CHR ''/'') (path_clean p)) = es"
      using el True by (cases "es = []") (auto simp: pc clean_elems_skip clean_elems_def)
    moreover have "is_rooted (path_clean p)" by (simp add: pc is_rooted_def)
    ultimately have "path_clean (path_clean p) = CHR ''/'' # join ''/'' es"
      unfolding path_clean_def [of "path_clean p"] by simp
    then show ?thesis by (simp add: pc)
  next
    case False
    show ?thesis
    proof (cases "es = []")
      case True
      with False have "path_clean p = ''.''" by (simp add: path_clean_def es_def Let_def)
      then show ?thesis by (simp add: path_clean_def is_rooted_def clean_elems_def Let_def)
    next
      case ne: False
      with False have pc: "path_clean p = join ''/'' es" by (simp add: path_clean_def es_def Let_def)
      from ne obtain w ws where w: "es = w # ws" by (cases es) auto
      from w f ns have "w \<noteq> []" "CHR ''/'' \<notin> set w" by (auto simp: clean_form_def)
      then have "hd w \<noteq> CHR ''/''" using hd_in_set by metis
      with \<open>w \<noteq> []\<close> have "\<not> is_rooted (path_clean p)"
        by (cases ws) (auto simp: pc w is_rooted_def)
      moreover have "clean_elems False (split_char (CHR ''/'') (path_clean p)) = es"
        using ne False el pc by simp
      ultimately have "path_clean (path_clean p) = join ''/'' es"
        unfolding path_clean_def [of "path_clean p"] by (simp add: ne)
      then show ?thesis by (simp add: pc)
    qed
  qed
qed

subsection \<open>Files\<close>

text \<open>
  The state of the disk, as \<open>os.ReadFile\<close> and \<open>os.WriteFile\<close> see it: the readable contents,
  and which operations the system refuses. A refused write gives its error and whatever
  contents it leaves behind, since a failed \<open>os.WriteFile\<close> may have truncated the file.
\<close>

record fs =
  files :: "string \<rightharpoonup> string"
  read_fault :: "string \<Rightarrow> string option"
  write_fault :: "string \<Rightarrow> (string \<times> string option) option"

definition ReadFile :: "fs \<Rightarrow> string \<Rightarrow> string result" where
  "ReadFile d p =
     (case read_fault d p of
        Some e \<Rightarrow> Inl e
      | None \<Rightarrow>
          (case files d p of
             Some c \<Rightarrow> Inr c
           | None \<Rightarrow> Inl (''open '' @ p @ '': no such file or directory'')))"

definition WriteFile :: "fs \<Rightarrow> string \<Rightarrow> string \<Rightarrow> string option \<times> fs" where
  "WriteFile d p c =
     (case write_fault d p of
        Some (e, left) \<Rightarrow> (Some e, d\<lparr>files := (files d)(p := left)\<rparr>)
      | None \<Rightarrow> (None, d\<lparr>files := (files d)(p \<mapsto> c)\<rparr>))"

text \<open>The contract the callers rely on, as an interface over any store of files.\<close>

locale file_store =
  fixes rd :: "'s \<Rightarrow> string \<Rightarrow> string result"
    and wr :: "'s \<Rightarrow> string \<Rightarrow> string \<Rightarrow> string option \<times> 's"
  assumes read_back: "rd s p = Inr b \<Longrightarrow> wr s p c = (None, s') \<Longrightarrow> rd s' p = Inr c"
    and frame: "wr s p c = (r, s') \<Longrightarrow> q \<noteq> p \<Longrightarrow> rd s' q = rd s q"
begin

lemma rewrite_twice:
  assumes "rd s p = Inr b" and "wr s p c = (None, s')" and "wr s' p c' = (None, s'')"
  shows "rd s'' p = Inr c'"
  using read_back [OF read_back [OF assms(1,2)] assms(3)] .

lemma rewrite_frame:
  assumes "wr s p c = (r, s')" and "wr s' p c' = (r', s'')" and "q \<noteq> p"
  shows "rd s'' q = rd s q"
  using frame [OF assms(1,3)] frame [OF assms(2,3)] by simp

end

interpretation disk: file_store ReadFile WriteFile
  by unfold_locales (auto simp: ReadFile_def WriteFile_def split: option.splits)

end
