(* ===== verification/K8sVersions.thy ===== *)
theory K8sVersions
  imports GoNumbers GoSort GoTime GoFiles
begin

section \<open>The Kubernetes version updater\<close>

text \<open>
  Model of \<open>tools/k8s_versions/update_k8s_versions.go\<close>: the program that rewrites
  \<open>ci-matrix.json\<close> with the newest kind images and minikube versions of the supported
  Kubernetes releases. The network (URL parsing, HTTP), the JSON codec and the text of a date
  error are the fields of \<open>net_env\<close>; everything the file itself does is a definition. A Go
  error is its text; the calls of \<open>logDebug\<close>, which only print when \<open>-debug\<close> is set, are left
  out.
\<close>

subsection \<open>Data and environment\<close>

record KubernetesVersion =
  Cycle :: string
  ReleaseDate :: string
  EOLDate :: string
  Latest :: string

text \<open>
  \<open>ci-matrix.json\<close> is decoded into a map of maps of string slices. Maps are association lists
  with distinct keys; \<^const>\<open>None\<close> is the nil map or slice that a JSON \<open>null\<close> decodes to.
\<close>

type_synonym row = "(string \<times> string list option) list"
type_synonym matrix = "(string \<times> row option) list option"

record http_response =
  StatusCode :: int
  Body :: "string result"

record net_env =
  url_parse :: "string \<Rightarrow> string result"
  http_get :: "string \<Rightarrow> http_response result"
  json_versions :: "string \<Rightarrow> KubernetesVersion list result"
  json_image :: "string \<Rightarrow> int64 result"
  json_matrix :: "string \<Rightarrow> matrix result"
  json_marshal :: "matrix \<Rightarrow> string result"
  date_error :: "string \<Rightarrow> string"

definition endOfLifeURL :: string where
  "endOfLifeURL = ''https://endoflife.date/api/kubernetes.json''"

definition kindDockerHubURL :: string where
  "kindDockerHubURL = ''https://hub.docker.com/v2/repositories/kindest/node/tags?page_size=1&page=1&ordering=last_updated&name=''"

definition miniKubeURL :: string where
  "miniKubeURL = ''https://raw.githubusercontent.com/kubernetes/minikube/master/pkg/minikube/constants/constants_kubernetes_versions.go''"

definition kubeKindVersion :: string where "kubeKindVersion = ''k8s-kind-version''"

definition kubeMinikubeVersion :: string where "kubeMinikubeVersion = ''k8s-minikube-version''"

definition ciMatrixPath :: string where "ciMatrixPath = ''ci-matrix.json''"

subsection \<open>HTTP\<close>

definition getRequestBody :: "net_env \<Rightarrow> string \<Rightarrow> string result" where
  "getRequestBody env u =
     bind_res (wrap_err ''invalid URL: '' (url_parse env u)) (\<lambda>v.
     bind_res (wrap_err ''failed to fetch URL: '' (http_get env v)) (\<lambda>resp.
       if StatusCode resp \<noteq> 200 then Inl (''unexpected status code: '' @ itoa_int (StatusCode resp))
       else wrap_err ''failed to read response body: '' (Body resp)))"

subsection \<open>Supported Kubernetes versions\<close>

text \<open>The loop over the decoded versions, \<open>now\<close> being the clock read before it.\<close>

fun supported_loop ::
  "net_env \<Rightarrow> int \<Rightarrow> KubernetesVersion list \<Rightarrow> KubernetesVersion list \<Rightarrow> KubernetesVersion list result"
where
  "supported_loop env now [] acc = Inr acc"
| "supported_loop env now (v # vs) acc =
     (case parse_date_only (EOLDate v) of
        None \<Rightarrow> Inl (''error parsing date: '' @ date_error env (EOLDate v))
      | Some eol \<Rightarrow>
          supported_loop env now vs (if after (midnight eol) now then acc @ [v] else acc))"

definition getSupportedKubernetesVersions ::
  "net_env \<Rightarrow> int \<Rightarrow> string \<Rightarrow> KubernetesVersion list result"
where
  "getSupportedKubernetesVersions env now u =
     bind_res (wrap_err ''failed to get k8s versions: '' (getRequestBody env u)) (\<lambda>body.
     bind_res (wrap_err ''failed to unmarshal JSON: '' (json_versions env body)) (\<lambda>vs.
       supported_loop env now vs []))"

subsection \<open>Minikube versions\<close>

text \<open>
  The first match of \<open>ValidKubernetesVersions = \[\]string{([^}]*)}\<close>: the text between the
  first occurrence of the literal part and the next closing brace (a later occurrence has a
  closing brace after it only if the first one has).
\<close>

definition slice_literal :: string where
  "slice_literal = ''ValidKubernetesVersions = []string{''"

definition find_slice :: "string \<Rightarrow> string option" where
  "find_slice body =
     (case after_first slice_literal body of
        None \<Rightarrow> None
      | Some r \<Rightarrow> if CHR ''}'' \<in> set r then Some (takeWhile (\<lambda>c. c \<noteq> CHR ''}'') r) else None)"

text \<open>The replacer deletes newlines, double quotes, tabs and blanks.\<close>

definition clean_slice :: "string \<Rightarrow> string" where
  "clean_slice s = filter (\<lambda>c. c \<notin> {CHR 0x0A, CHR 0x22, CHR 0x09, CHR 0x20}) s"

fun first_containing :: "string \<Rightarrow> string list \<Rightarrow> string option" where
  "first_containing c [] = None"
| "first_containing c (m # ms) = (if contains m c then Some m else first_containing c ms)"

fun minikube_loop :: "string list \<Rightarrow> KubernetesVersion list \<Rightarrow> string list \<Rightarrow> string list" where
  "minikube_loop ms [] acc = acc"
| "minikube_loop ms (v # vs) acc =
     minikube_loop ms vs
       (case first_containing (Cycle v) ms of Some m \<Rightarrow> acc @ [m] | None \<Rightarrow> acc)"

definition getLatestSupportedMinikubeVersions ::
  "net_env \<Rightarrow> string \<Rightarrow> KubernetesVersion list \<Rightarrow> string list result"
where
  "getLatestSupportedMinikubeVersions env u k8sVersions =
     bind_res (wrap_err ''failed to get minikube versions: '' (getRequestBody env u)) (\<lambda>body.
       (case find_slice body of
          None \<Rightarrow> Inl ''minikube, failed to find the Kubernetes versions slice''
        | Some s \<Rightarrow>
            Inr (minikube_loop (split_char (CHR '','') (clean_slice s)) k8sVersions [])))"

subsection \<open>Kind images\<close>

definition imageTagExists :: "net_env \<Rightarrow> string \<Rightarrow> string \<Rightarrow> bool result" where
  "imageTagExists env u tag =
     bind_res (wrap_err ''failed to get image tag: '' (getRequestBody env (u @ tag))) (\<lambda>body.
     bind_res (wrap_err ''failed to unmarshal JSON: '' (json_image env body)) (\<lambda>count.
       Inr (0 < sint count)))"

definition decrementPatchVersion :: "string \<Rightarrow> string result" where
  "decrementPatchVersion version =
     (let parts = split_char (CHR ''.'') version
      in if length parts < 3 then Inl (''version does not have a minor version: '' @ version)
         else
           (case atoi (parts ! 2) of
              None \<Rightarrow> Inl (''invalid minor version: '' @ parts ! 1)
            | Some minor \<Rightarrow>
                if minor = 0 then Inl ''minor version cannot be decremented below 0''
                else Inr (join ''.'' (parts[2 := itoa (minor - 1)]))))"

text \<open>
  The inner \<open>for\<close> loop has no bound of its own: it ends because the patch number, read as an
  unsigned 64-bit number, goes down by one at every turn. (For a negative patch number that is
  a very long walk down to 0 through the wrap-around.)
\<close>

definition patch_rank :: "string \<Rightarrow> nat" where
  "patch_rank version =
     (let parts = split_char (CHR ''.'') version
      in if length parts < 3 then 0
         else (case atoi (parts ! 2) of None \<Rightarrow> 0 | Some minor \<Rightarrow> unat minor))"

lemma decrement_rank:
  assumes "decrementPatchVersion version = Inr version'"
  shows "patch_rank version = Suc (patch_rank version')"
proof -
  let ?parts = "split_char (CHR ''.'') version"
  from assms have len: "\<not> length ?parts < 3"
    by (auto simp: decrementPatchVersion_def Let_def split: if_splits)
  with assms obtain minor where m: "atoi (?parts ! 2) = Some minor" "minor \<noteq> 0"
    and v: "version' = join ''.'' (?parts[2 := itoa (minor - 1)])"
    by (auto simp: decrementPatchVersion_def Let_def split: if_splits option.splits)
  have "split_char (CHR ''.'') version' = ?parts[2 := itoa (minor - 1)]"
    using dotted.split_update [of 2 version] len by (simp add: v)
  then have "patch_rank version' = unat (minor - 1)"
    using len by (simp add: patch_rank_def atoi_itoa)
  moreover have "patch_rank version = unat minor" using len m by (simp add: patch_rank_def Let_def)
  ultimately show ?thesis using m(2) by (simp add: unat_minus_one unat_gt_0)
qed

datatype kind_outcome = KindFound string | KindNone | KindFail string

function kind_tag_loop :: "net_env \<Rightarrow> string \<Rightarrow> string \<Rightarrow> kind_outcome" where
  "kind_tag_loop env u tag =
     (case imageTagExists env u tag of
        Inl e \<Rightarrow> KindFail (''failed to check image tag existence: '' @ e)
      | Inr True \<Rightarrow> KindFound (''v'' @ tag)
      | Inr False \<Rightarrow>
          (case decrementPatchVersion tag of
             Inl e \<Rightarrow>
               if contains e ''minor version cannot be decremented below 0'' then KindNone
               else KindFail (''failed to decrement k8sVersion: '' @ e)
           | Inr tag' \<Rightarrow> kind_tag_loop env u tag'))"
  by pat_completeness auto
termination
  by (relation "measure (\<lambda>(env, u, tag). patch_rank tag)") (auto dest: decrement_rank)

declare kind_tag_loop.simps [simp del]

text \<open>The outer loop; on an error the images found so far are returned next to it.\<close>

fun kind_images ::
  "net_env \<Rightarrow> string \<Rightarrow> KubernetesVersion list \<Rightarrow> string list \<Rightarrow> string list \<times> string option"
where
  "kind_images env u [] acc = (acc, None)"
| "kind_images env u (v # vs) acc =
     (case kind_tag_loop env u (Latest v) of
        KindFound t \<Rightarrow> kind_images env u vs (acc @ [t])
      | KindNone \<Rightarrow> kind_images env u vs acc
      | KindFail e \<Rightarrow> (acc, Some e))"

definition getLatestSupportedKindImages ::
  "net_env \<Rightarrow> string \<Rightarrow> KubernetesVersion list \<Rightarrow> string list \<times> string option"
where
  "getLatestSupportedKindImages env u k8sVersions = kind_images env u k8sVersions []"

subsection \<open>Sorting the versions\<close>

fun parts_less :: "string list \<Rightarrow> string list \<Rightarrow> bool" where
  "parts_less (x # xs) (y # ys) = (if x \<noteq> y then x > y else parts_less xs ys)"
| "parts_less xs ys = (length xs > length ys)"

definition version_less :: "string \<Rightarrow> string \<Rightarrow> bool" where
  "version_less v w = parts_less (split_char (CHR ''.'') (tl v)) (split_char (CHR ''.'') (tl w))"

text \<open>
  \<open>versions[i][1:]\<close> panics on an empty string (the outer \<^const>\<open>None\<close>); a slice of fewer than
  two elements is never compared.
\<close>

definition sortVersions :: "string list \<Rightarrow> string list option" where
  "sortVersions vs =
     (if 2 \<le> length vs \<and> [] \<in> set vs then None else Some (insertion_sort version_less vs))"

subsection \<open>The matrix file\<close>

definition set_row :: "string list \<Rightarrow> string list \<Rightarrow> row \<Rightarrow> row" where
  "set_row kinds minis row =
     (if kinds \<noteq> [] \<and> (\<exists>xs. map_of row kubeKindVersion = Some (Some xs))
      then AList.update kubeKindVersion (Some kinds) row
      else if minis \<noteq> [] \<and> (\<exists>xs. map_of row kubeMinikubeVersion = Some (Some xs))
      then AList.update kubeMinikubeVersion (Some minis) row
      else row)"

definition update_matrix :: "string list \<Rightarrow> string list \<Rightarrow> matrix \<Rightarrow> matrix" where
  "update_matrix kinds minis mx =
     map_option (map (\<lambda>(name, r). (name, map_option (set_row kinds minis) r))) mx"

definition updateMatrixFile ::
  "net_env \<Rightarrow> fs \<Rightarrow> string \<Rightarrow> string list \<Rightarrow> string list \<Rightarrow> string option \<times> fs"
where
  "updateMatrixFile env d path kinds minis =
     (case bind_res (wrap_err ''failed to read file: '' (ReadFile d path)) (\<lambda>content.
           bind_res (wrap_err ''failed to unmarshal JSON: '' (json_matrix env content)) (\<lambda>mx.
             wrap_err ''failed to marshal updated JSON: ''
               (json_marshal env (update_matrix kinds minis mx)))) of
        Inl e \<Rightarrow> (Some e, d)
      | Inr out \<Rightarrow>
          (case WriteFile d path (out @ [CHR 0x0A]) of
             (Some e, d') \<Rightarrow> (Some (''failed to write updated file: '' @ e), d')
           | (None, d') \<Rightarrow> (None, d')))"

subsection \<open>The program\<close>

datatype outcome = Fatal string | Panic | Exit0

text \<open>The end of \<open>main\<close>, on the error of the matrix update.\<close>

definition update_outcome :: "string option \<Rightarrow> outcome" where
  "update_outcome r =
     (case r of None \<Rightarrow> Exit0 | Some e \<Rightarrow> Fatal (''Failed to update matrix file: '' @ e))"

text \<open>\<open>cwd\<close> is the result of \<open>os.Getwd\<close>. The printed error of \<open>log.Fatalf\<close> is its message.\<close>

definition main_program :: "net_env \<Rightarrow> int \<Rightarrow> string result \<Rightarrow> fs \<Rightarrow> outcome \<times> fs" where
  "main_program env now cwd d =
     (case getSupportedKubernetesVersions env now endOfLifeURL of
        Inl e \<Rightarrow> (Fatal (''Failed to get k8s versions: '' @ e), d)
      | Inr [] \<Rightarrow> (Fatal ''Failed to get k8s versions: <nil>'', d)
      | Inr (v # vs) \<Rightarrow>
          (case getLatestSupportedKindImages env kindDockerHubURL (v # vs) of
             (_, Some e) \<Rightarrow> (Fatal (''Failed to get kind versions: '' @ e), d)
           | ([], None) \<Rightarrow> (Fatal ''No kind versions found'', d)
           | (k # ks, None) \<Rightarrow>
               (case sortVersions (k # ks) of
                  None \<Rightarrow> (Panic, d)
                | Some kinds \<Rightarrow>
                    (case getLatestSupportedMinikubeVersions env miniKubeURL (v # vs) of
                       Inl e \<Rightarrow> (Fatal (''failed to get minikube versions: '' @ e), d)
                     | Inr [] \<Rightarrow> (Fatal ''No minikube versions found'', d)
                     | Inr (m # ms) \<Rightarrow>
                         (case cwd of
                            Inl e \<Rightarrow> (Fatal (''Failed to get current directory: '' @ e @ '' ''), d)
                          | Inr dir \<Rightarrow>
                              (case updateMatrixFile env d (path_join [dir, path_clean ciMatrixPath])
                                      kinds (m # ms) of
                                 (r, d') \<Rightarrow> (update_outcome r, d')))))))"

section \<open>Facts about the version updater\<close>

subsection \<open>The end-of-life filter\<close>

lemma supported_loop_eq:
  "supported_loop env now vs acc = Inr ws \<longleftrightarrow>
     list_all (\<lambda>v. parse_date_only (EOLDate v) \<noteq> None) vs \<and>
     ws = acc @ filter (\<lambda>v. midnight (the (parse_date_only (EOLDate v))) > now) vs"
  by (induction vs arbitrary: acc) (auto simp: after_def split: option.splits)

lemma supported_loop_error:
  "supported_loop env now vs acc = Inl e \<longleftrightarrow>
     (\<exists>v. List.find (\<lambda>v. parse_date_only (EOLDate v) = None) vs = Some v \<and>
       e = ''error parsing date: '' @ date_error env (EOLDate v))"
  by (induction vs arbitrary: acc) (auto split: option.splits)

lemma midnight_after_now:
  assumes "valid_date today" and "midnight today \<le> now"
    and "now < midnight today + 86400 * 1000000000" and "valid_date dt"
  shows "midnight dt > now \<longleftrightarrow> today < dt"
proof
  assume "midnight dt > now"
  with assms(2) have "midnight today < midnight dt" by simp
  then show "today < dt" using midnight_less_iff assms by blast
next
  assume "today < dt"
  then have "midnight today < midnight dt" using midnight_less_iff assms by blast
  then have "day_number today + 1 \<le> day_number dt" by (simp add: midnight_def)
  then have "midnight today + 86400 * 1000000000 \<le> midnight dt" by (simp add: midnight_def)
  with assms(3) show "midnight dt > now" by simp
qed

subsection \<open>Descending the patch numbers\<close>

definition version_tag :: "string \<Rightarrow> string \<Rightarrow> nat \<Rightarrow> string" where
  "version_tag a b n = join ''.'' [a, b, nat_digits n]"

lemma dot_notin_digits: "CHR ''.'' \<notin> set (nat_digits n)"
  using nat_digits_all [of n] by (auto simp: list_all_iff)

lemma split_version_tag:
  "CHR ''.'' \<notin> set a \<Longrightarrow> CHR ''.'' \<notin> set b \<Longrightarrow>
     split_char (CHR ''.'') (version_tag a b n) = [a, b, nat_digits n]"
  unfolding version_tag_def by (rule split_char_join) (auto simp: dot_notin_digits)

lemma itoa_of_nat: "n < 2 ^ 63 \<Longrightarrow> itoa (of_nat n) = nat_digits n"
proof -
  assume n: "n < 2 ^ 63"
  then have "int n < 2 ^ 63" by (metis of_nat_less_iff of_nat_numeral of_nat_power)
  then have "sint (word_of_int (int n) :: int64) = int n"
    by (simp add: sint_sbintrunc' signed_take_bit_int_eq_self del: of_int_of_nat_eq)
  then show ?thesis by (simp add: itoa_def itoa_int_def)
qed

lemma decrement_tag:
  assumes "CHR ''.'' \<notin> set a" and "CHR ''.'' \<notin> set b" and n: "Suc n < 2 ^ 63"
  shows "decrementPatchVersion (version_tag a b (Suc n)) = Inr (version_tag a b n)"
proof -
  have "unat (of_nat (Suc n) :: int64) = Suc n"
    using n by (simp add: unat_of_nat del: of_nat_Suc)
  then have "(of_nat (Suc n) :: int64) \<noteq> 0" by (metis nat.distinct(1) unat_0)
  moreover have "(of_nat (Suc n) - 1 :: int64) = of_nat n" by simp
  moreover have "itoa (of_nat n) = nat_digits n" using n by (intro itoa_of_nat) simp
  moreover have "atoi (nat_digits (Suc n)) = Some (of_nat (Suc n))" using n by (rule atoi_nat_digits)
  ultimately show ?thesis
    using assms by (simp add: decrementPatchVersion_def split_version_tag Let_def
        version_tag_def [of a b n] del: of_nat_Suc)
qed

lemma decrement_tag_0:
  "CHR ''.'' \<notin> set a \<Longrightarrow> CHR ''.'' \<notin> set b \<Longrightarrow>
     decrementPatchVersion (version_tag a b 0) = Inl ''minor version cannot be decremented below 0''"
  using atoi_nat_digits [of 0] by (simp add: decrementPatchVersion_def split_version_tag Let_def)

lemma find_descending_Suc:
  "List.find P (rev [0..<Suc (Suc n)]) =
     (if P (Suc n) then Some (Suc n) else List.find P (rev [0..<Suc n]))"
  by simp

lemma find_descending:
  "case List.find P (rev [0..<Suc n]) of
     Some m \<Rightarrow> m \<le> n \<and> P m \<and> (\<forall>k \<le> n. P k \<longrightarrow> k \<le> m)
   | None \<Rightarrow> \<forall>m \<le> n. \<not> P m"
proof (induction n)
  case (Suc n)
  then show ?case
    by (subst find_descending_Suc) (auto simp: le_Suc_eq split: option.splits simp del: upt_Suc)
qed simp

lemma kind_tag_loop_search:
  assumes a: "CHR ''.'' \<notin> set a" and b: "CHR ''.'' \<notin> set b" and "n < 2 ^ 63"
    and "\<And>m. m \<le> n \<Longrightarrow> imageTagExists env u (version_tag a b m) = Inr (exists m)"
  shows "kind_tag_loop env u (version_tag a b n) =
     (case List.find exists (rev [0..<Suc n]) of
        Some m \<Rightarrow> KindFound (''v'' @ version_tag a b m)
      | None \<Rightarrow> KindNone)"
  using assms(3,4)
proof (induction n)
  case 0
  then show ?case
    by (subst kind_tag_loop.simps)
      (simp add: decrement_tag_0 [OF a b] split: bool.split)
next
  case (Suc n)
  from Suc.prems have "imageTagExists env u (version_tag a b (Suc n)) = Inr (exists (Suc n))"
    by blast
  moreover have "kind_tag_loop env u (version_tag a b n) =
     (case List.find exists (rev [0..<Suc n]) of
        Some m \<Rightarrow> KindFound (''v'' @ version_tag a b m) | None \<Rightarrow> KindNone)"
    using Suc.prems by (intro Suc.IH) auto
  ultimately show ?case
    using decrement_tag [OF a b Suc.prems(1)]
    by (subst kind_tag_loop.simps) (simp add: find_descending_Suc split: bool.split del: upt_Suc)
qed

lemma kind_images_ok:
  "list_all (\<lambda>v. \<nexists>e. kind_tag_loop env u (Latest v) = KindFail e) vs \<Longrightarrow>
     kind_images env u vs acc =
       (acc @ List.map_filter (\<lambda>v. case kind_tag_loop env u (Latest v) of
          KindFound t \<Rightarrow> Some t | _ \<Rightarrow> None) vs, None)"
  by (induction vs arbitrary: acc) (auto simp: map_filter_simps split: kind_outcome.splits)

subsection \<open>Minikube\<close>

lemma map_filter_cong':
  "(\<And>x. x \<in> set xs \<Longrightarrow> f x = g x) \<Longrightarrow> List.map_filter f xs = List.map_filter g xs"
  by (induction xs) (auto simp: map_filter_simps split: option.splits)

lemma first_containing_find: "first_containing c ms = List.find (\<lambda>m. contains m c) ms"
  by (induction ms) auto

lemma minikube_loop_eq:
  "minikube_loop ms vs acc = acc @ List.map_filter (\<lambda>v. List.find (\<lambda>m. contains m (Cycle v)) ms) vs"
  by (induction vs arbitrary: acc)
    (auto simp: map_filter_simps first_containing_find split: option.splits)

lemma after_first_Some_iff:
  "after_first p s = Some r \<longleftrightarrow>
     (\<exists>pre. s = pre @ p @ r \<and> (\<forall>pre' r'. s = pre' @ p @ r' \<longrightarrow> length pre \<le> length pre'))"
  (is "?l s \<longleftrightarrow> ?r s")
proof (induction s)
  case Nil
  then show ?case by auto
next
  case (Cons c s)
  show ?case
  proof (cases "has_prefix (c # s) p")
    case True
    then obtain q where q: "c # s = p @ q" by (auto simp: has_prefix_iff)
    from True have "after_first p (c # s) = Some (drop (length p) (c # s))" by simp
    also have "drop (length p) (c # s) = q" by (simp add: q)
    finally have "?l (c # s) \<longleftrightarrow> r = q" by auto
    also have "\<dots> \<longleftrightarrow> ?r (c # s)"
    proof
      assume "r = q"
      with q have "c # s = [] @ p @ r" by simp
      then show "?r (c # s)" by (metis le0 list.size(3))
    next
      assume "?r (c # s)"
      then obtain pre where "c # s = pre @ p @ r" "length pre \<le> length ([] :: string)"
        using q append_Nil by metis
      with q show "r = q" by simp
    qed
    finally show ?thesis .
  next
    case False
    have "?r (c # s) \<longleftrightarrow> ?r s"
    proof
      assume "?r (c # s)"
      then obtain pre where pre: "c # s = pre @ p @ r"
        and least: "\<forall>pre' r'. c # s = pre' @ p @ r' \<longrightarrow> length pre \<le> length pre'" by auto
      from False pre obtain pre1 where "pre = c # pre1" by (cases pre) auto
      with pre least show "?r s" by (metis append_Cons list.inject length_Cons Suc_le_mono)
    next
      assume "?r s"
      then obtain pre where pre: "s = pre @ p @ r"
        and least: "\<forall>pre' r'. s = pre' @ p @ r' \<longrightarrow> length pre \<le> length pre'" by auto
      have "length (c # pre) \<le> length pre'" if eq: "c # s = pre' @ p @ r'" for pre' r'
      proof (cases pre')
        case Nil
        with eq have "has_prefix (c # s) p" by simp
        with False show ?thesis by simp
      qed (use eq least in auto)
      with pre show "?r (c # s)" by (intro exI [of _ "c # pre"]) auto
    qed
    with False Cons.IH show ?thesis by simp
  qed
qed

lemma after_first_found:
  assumes "p \<noteq> []" and "\<not> contains (pre @ butlast p) p"
  shows "after_first p (pre @ p @ r) = Some r"
proof -
  have "length pre \<le> length pre'" if eq: "pre @ p @ r = pre' @ p @ r'" for pre' r'
  proof (rule ccontr)
    assume "\<not> length pre \<le> length pre'"
    then have l: "length (pre' @ p) \<le> length (pre @ butlast p)" by simp
    have "take (length (pre' @ p)) ((pre @ butlast p) @ last p # r) = pre' @ p"
      using eq assms(1) by (metis append.assoc append_butlast_last_id append_Cons append_Nil
          append_eq_conv_conj)
    with l have "take (length (pre' @ p)) (pre @ butlast p) = pre' @ p"
      by (metis append_eq_conv_conj take_append take_all append_Nil2 diff_is_0_eq take_0)
    then have "pre @ butlast p = pre' @ p @ drop (length (pre' @ p)) (pre @ butlast p)"
      by (metis append.assoc append_take_drop_id)
    with assms(2) show False by (auto simp: contains_iff)
  qed
  then show ?thesis by (auto simp: after_first_Some_iff)
qed

text \<open>The body of a Go slice literal with one quoted element per line.\<close>

definition slice_body :: "string list \<Rightarrow> string" where
  "slice_body ms = concat (map (\<lambda>m. [CHR 0x0A, CHR 0x09, CHR 0x22] @ m @ [CHR 0x22, CHR '','']) ms) @ [CHR 0x0A]"

definition plain_version :: "string \<Rightarrow> bool" where
  "plain_version m = list_all (\<lambda>c. c \<notin> {CHR 0x0A, CHR 0x22, CHR 0x09, CHR 0x20, CHR '','', CHR ''}''}) m"

lemma clean_slice_append [simp]: "clean_slice (s @ t) = clean_slice s @ clean_slice t"
  by (simp add: clean_slice_def)

lemma clean_slice_Cons:
  "clean_slice (c # s) =
     (if c \<in> {CHR 0x0A, CHR 0x22, CHR 0x09, CHR 0x20} then clean_slice s else c # clean_slice s)"
  by (simp add: clean_slice_def)

lemma clean_slice_plain [simp]: "plain_version m \<Longrightarrow> clean_slice m = m"
  unfolding clean_slice_def plain_version_def list_all_iff by (rule filter_True) blast

lemma split_slice_body:
  assumes "list_all plain_version ms"
  shows "split_char (CHR '','') (clean_slice (slice_body ms)) = ms @ [[]]"
  using assms
proof (induction ms)
  case (Cons m ms)
  then have m: "plain_version m" and IH: "split_char (CHR '','') (clean_slice (slice_body ms)) = ms @ [[]]"
    by auto
  from m have "CHR '','' \<notin> set m" by (auto simp: plain_version_def list_all_iff)
  moreover have "clean_slice (slice_body (m # ms)) = m @ CHR '','' # clean_slice (slice_body ms)"
    using m by (simp add: slice_body_def clean_slice_Cons)
  ultimately show ?case using IH by (simp add: split_char_append)
qed (simp add: slice_body_def clean_slice_def)

lemma slice_body_no_brace: "list_all plain_version ms \<Longrightarrow> CHR ''}'' \<notin> set (slice_body ms)"
  by (auto simp: slice_body_def plain_version_def list_all_iff)

subsection \<open>Sorting\<close>

lemma parts_less_irrefl: "\<not> parts_less xs xs"
  by (induction xs) auto

lemma parts_less_linear: "parts_less xs ys \<or> parts_less ys xs \<or> xs = ys"
  by (induction xs ys rule: parts_less.induct) (auto intro: less_linear)

lemma parts_less_asym: "parts_less xs ys \<Longrightarrow> \<not> parts_less ys xs"
  by (induction xs ys rule: parts_less.induct) (auto split: if_splits)

lemma parts_less_trans: "parts_less xs ys \<Longrightarrow> parts_less ys zs \<Longrightarrow> parts_less xs zs"
proof (induction xs ys arbitrary: zs rule: parts_less.induct)
  case (1 x xs y ys)
  then show ?case by (cases zs) (auto split: if_splits)
qed (auto elim: parts_less.elims)

lemma parts_less_split:
  assumes "parts_less xs ys"
  shows "parts_less xs zs \<or> parts_less zs ys"
  using parts_less_linear [of xs zs] parts_less_trans [of zs xs ys] assms by blast

lemma strict_weak_version_less: "strict_weak version_less"
  unfolding strict_weak_def version_less_def
  using parts_less_asym parts_less_split by blast

lemma split_char_inject: "split_char c s = split_char c t \<longleftrightarrow> s = t"
  by (metis join_split_char)

lemma version_less_total:
  assumes "list_all (\<lambda>v. has_prefix v ''v'') vs" and "v \<in> set vs" and "w \<in> set vs"
  shows "version_less v w \<or> version_less w v \<or> v = w"
proof -
  from assms have "has_prefix v ''v''" "has_prefix w ''v''" by (auto simp: list_all_iff)
  then obtain s t where vw: "v = CHR ''v'' # s" "w = CHR ''v'' # t" by (auto simp: has_prefix_iff)
  show ?thesis
    using parts_less_linear [of "split_char (CHR ''.'') s" "split_char (CHR ''.'') t"]
    by (auto simp: version_less_def vw split_char_inject)
qed

subsection \<open>The matrix\<close>

lemma set_row_other:
  "k \<noteq> kubeKindVersion \<Longrightarrow> k \<noteq> kubeMinikubeVersion \<Longrightarrow>
     map_of (set_row kinds minis row) k = map_of row k"
  by (simp add: set_row_def update_conv')

lemma set_row_keys: "map fst (set_row kinds minis row) = map fst row"
proof -
  have "map_of row k = Some x \<Longrightarrow> k \<in> set (map fst row)" for k x
    by (metis domI dom_map_of_conv_image_fst list.set_map)
  then show ?thesis by (auto simp: set_row_def update_keys)
qed

section \<open>Properties\<close>

text \<open>An environment for the witnesses: every URL answers with its own text as the body.\<close>

definition echo_env :: net_env where
  "echo_env =
     \<lparr>url_parse = Inr,
      http_get = (\<lambda>u. Inr \<lparr>StatusCode = 200, Body = Inr u\<rparr>),
      json_versions = (\<lambda>b. Inr [\<lparr>Cycle = ''1.24'', ReleaseDate = ''2022-05-03'', EOLDate = ''2023-10-03'', Latest = ''1.24.8''\<rparr>,
                                \<lparr>Cycle = ''1.34'', ReleaseDate = ''2025-05-03'', EOLDate = ''2034-10-03'', Latest = ''1.34.2''\<rparr>]),
      json_image = (\<lambda>b. Inr (if b = ''u1.34.1'' then 1 else 0)),
      json_matrix = (\<lambda>b. Inr None),
      json_marshal = (\<lambda>m. Inr ''null''),
      date_error = (\<lambda>s. s)\<rparr>"

lemma echo_exists:
  "imageTagExists echo_env u tag = Inr (u @ tag = ''u1.34.1'')"
  by (simp add: imageTagExists_def getRequestBody_def echo_env_def)

text \<open>
  C1: the search for a kind image, when the registry answers every query: starting from the
  tag \<open>a.b.n\<close> it returns the image of the greatest patch number at most \<open>n\<close> that exists, and no
  image (without an error) when none exists. The unbounded \<open>for\<close> loop always ends.
\<close>

theorem kind_search_greatest:
  assumes "CHR ''.'' \<notin> set a" and "CHR ''.'' \<notin> set b" and "n < 2 ^ 63"
    and "\<forall>m \<le> n. imageTagExists env u (version_tag a b m) = Inr (exists m)"
  shows "case kind_tag_loop env u (version_tag a b n) of
      KindFound t \<Rightarrow> \<exists>m \<le> n. t = ''v'' @ version_tag a b m \<and> exists m \<and> (\<forall>k \<le> n. exists k \<longrightarrow> k \<le> m)
    | KindNone \<Rightarrow> \<forall>m \<le> n. \<not> exists m
    | KindFail e \<Rightarrow> False"
proof -
  have "kind_tag_loop env u (version_tag a b n) =
     (case List.find exists (rev [0..<Suc n]) of
        Some m \<Rightarrow> KindFound (''v'' @ version_tag a b m) | None \<Rightarrow> KindNone)"
    using kind_tag_loop_search [OF assms(1-3)] assms(4) by blast
  then show ?thesis
    using find_descending [where P = exists and n = n] by (auto simp del: upt_Suc split: option.splits)
qed

theorem kind_search_greatest_witness:
  "kind_tag_loop echo_env ''u'' (version_tag ''1'' ''34'' 2) = KindFound ''v1.34.1''"
proof -
  have one: "version_tag ''1'' ''34'' 1 = ''1.34.1''" by code_simp
  have "case kind_tag_loop echo_env ''u'' (version_tag ''1'' ''34'' 2) of
      KindFound t \<Rightarrow> \<exists>m \<le> 2. t = ''v'' @ version_tag ''1'' ''34'' m \<and>
        ''u'' @ version_tag ''1'' ''34'' m = ''u1.34.1'' \<and>
        (\<forall>k \<le> 2. ''u'' @ version_tag ''1'' ''34'' k = ''u1.34.1'' \<longrightarrow> k \<le> m)
    | KindNone \<Rightarrow> \<forall>m \<le> 2. \<not> ''u'' @ version_tag ''1'' ''34'' m = ''u1.34.1''
    | KindFail e \<Rightarrow> False"
    by (rule kind_search_greatest) (simp_all add: echo_exists)
  then show ?thesis
    using one by (auto split: kind_outcome.splits dest: spec [of _ 1])
qed

text \<open>
  C36: what \<open>decrementPatchVersion\<close> returns for every text. With fewer than three dotted fields, with a third field that is no
  number, and with 0 there, it fails, each time with the message that its caller tells apart; otherwise the third field
  is replaced by the number before it and nothing else changes.
\<close>

theorem decrementPatchVersion_spec:
  "let parts = split_char (CHR ''.'') v
   in case decrementPatchVersion v of
        Inl e \<Rightarrow>
          length parts < 3 \<and> e = ''version does not have a minor version: '' @ v \<or>
          3 \<le> length parts \<and> atoi (parts ! 2) = None \<and> e = ''invalid minor version: '' @ parts ! 1 \<or>
          3 \<le> length parts \<and> atoi (parts ! 2) = Some 0 \<and> e = ''minor version cannot be decremented below 0''
      | Inr w \<Rightarrow>
          3 \<le> length parts \<and>
          (\<exists>m. atoi (parts ! 2) = Some m \<and> m \<noteq> 0 \<and> split_char (CHR ''.'') w = parts[2 := itoa (m - 1)])"
proof -
  let ?ps = "split_char (CHR ''.'') v"
  have "split_char (CHR ''.'') (join ''.'' (?ps[2 := itoa (m - 1)])) = ?ps[2 := itoa (m - 1)]" if "3 \<le> length ?ps" for m
    using that by (intro dotted.split_update) simp
  then show ?thesis by (auto simp: decrementPatchVersion_def Let_def not_less split: option.split)
qed

text \<open>
  C34: the supported versions are the ones whose end of life is a later calendar day than
  today, in the order the service lists them, for any clock reading during today (UTC); one
  unreadable date fails the whole call.
\<close>

theorem supported_versions_by_calendar:
  assumes "valid_date today" and "midnight today \<le> now"
    and "now < midnight today + 86400 * 1000000000"
    and "getRequestBody env u = Inr body" and "json_versions env body = Inr vs"
  shows "getSupportedKubernetesVersions env now u =
     (case List.find (\<lambda>v. parse_date_only (EOLDate v) = None) vs of
        Some v \<Rightarrow> Inl (''error parsing date: '' @ date_error env (EOLDate v))
      | None \<Rightarrow> Inr (filter (\<lambda>v. today < the (parse_date_only (EOLDate v))) vs))"
proof (cases "List.find (\<lambda>v. parse_date_only (EOLDate v) = None) vs")
  case None
  then have all: "\<forall>v \<in> set vs. parse_date_only (EOLDate v) \<noteq> None"
    by (auto simp: find_None_iff)
  have "filter (\<lambda>v. midnight (the (parse_date_only (EOLDate v))) > now) vs =
      filter (\<lambda>v. today < the (parse_date_only (EOLDate v))) vs"
    using all midnight_after_now [OF assms(1-3)] parse_date_only_valid
    by (intro filter_cong) auto
  with all None show ?thesis
    by (simp add: getSupportedKubernetesVersions_def assms(4,5) supported_loop_eq list_all_iff)
next
  case (Some v)
  then show ?thesis
    by (simp add: getSupportedKubernetesVersions_def assms(4,5) supported_loop_error)
qed

theorem supported_versions_by_calendar_witness:
  "map Cycle (case getSupportedKubernetesVersions echo_env (midnight (Date 2025 6 1) + 5) ''x'' of
     Inr vs \<Rightarrow> vs | Inl e \<Rightarrow> []) = [''1.34'']"
proof -
  have "getSupportedKubernetesVersions echo_env (midnight (Date 2025 6 1) + 5) ''x'' =
     (case List.find (\<lambda>v. parse_date_only (EOLDate v) = None)
         [\<lparr>Cycle = ''1.24'', ReleaseDate = ''2022-05-03'', EOLDate = ''2023-10-03'', Latest = ''1.24.8''\<rparr>,
          \<lparr>Cycle = ''1.34'', ReleaseDate = ''2025-05-03'', EOLDate = ''2034-10-03'', Latest = ''1.34.2''\<rparr>] of
        Some v \<Rightarrow> Inl (''error parsing date: '' @ date_error echo_env (EOLDate v))
      | None \<Rightarrow> Inr (filter (\<lambda>v. Date 2025 6 1 < the (parse_date_only (EOLDate v)))
         [\<lparr>Cycle = ''1.24'', ReleaseDate = ''2022-05-03'', EOLDate = ''2023-10-03'', Latest = ''1.24.8''\<rparr>,
          \<lparr>Cycle = ''1.34'', ReleaseDate = ''2025-05-03'', EOLDate = ''2034-10-03'', Latest = ''1.34.2''\<rparr>]))"
    by (rule supported_versions_by_calendar [where body = "''x''"])
      (simp_all add: valid_date_def days_in_def echo_env_def getRequestBody_def)
  moreover have "parse_date_only ''2023-10-03'' = Some (Date 2023 10 3)"
    "parse_date_only ''2034-10-03'' = Some (Date 2034 10 3)"
    by code_simp+
  ultimately show ?thesis by (simp add: less_date_def)
qed

text \<open>
  C35: a page that declares \<open>ValidKubernetesVersions\<close> with one quoted version per line is read
  back as that list: for every supported release the answer holds the first listed version whose
  text contains the release's cycle, in the order of the releases, and nothing for a release
  that no version matches.
\<close>

theorem minikube_reads_page:
  assumes "getRequestBody env u = Inr (pre @ slice_literal @ slice_body ms @ CHR ''}'' # post)"
    and "\<not> contains (pre @ butlast slice_literal) slice_literal"
    and "list_all plain_version ms" and "list_all (\<lambda>v. Cycle v \<noteq> []) vs"
  shows "getLatestSupportedMinikubeVersions env u vs =
     Inr (List.map_filter (\<lambda>v. List.find (\<lambda>m. contains m (Cycle v)) ms) vs)"
proof -
  have "slice_literal \<noteq> []" by (simp add: slice_literal_def)
  then have "find_slice (pre @ slice_literal @ slice_body ms @ CHR ''}'' # post) = Some (slice_body ms)"
    using after_first_found [OF _ assms(2)] slice_body_no_brace [OF assms(3)]
    by (auto simp: find_slice_def takeWhile_append)
  moreover have "List.find (\<lambda>m. contains m (Cycle v)) (ms @ [[]]) = List.find (\<lambda>m. contains m (Cycle v)) ms"
    if "Cycle v \<noteq> []" for v
    using that by (induction ms) auto
  then have "List.map_filter (\<lambda>v. List.find (\<lambda>m. contains m (Cycle v)) (ms @ [[]])) vs =
      List.map_filter (\<lambda>v. List.find (\<lambda>m. contains m (Cycle v)) ms) vs"
    using assms(4) by (intro map_filter_cong') (auto simp: list_all_iff)
  ultimately show ?thesis
    by (simp add: getLatestSupportedMinikubeVersions_def assms(1) minikube_loop_eq
        split_slice_body [OF assms(3)])
qed

theorem minikube_reads_page_witness:
  "getLatestSupportedMinikubeVersions echo_env
     (''var '' @ slice_literal @ slice_body [''v1.34.1'', ''v1.34.0'', ''v1.33.5''] @ CHR ''}'' # [])
     [\<lparr>Cycle = ''1.33'', ReleaseDate = [], EOLDate = [], Latest = []\<rparr>,
      \<lparr>Cycle = ''1.34'', ReleaseDate = [], EOLDate = [], Latest = []\<rparr>,
      \<lparr>Cycle = ''1.35'', ReleaseDate = [], EOLDate = [], Latest = []\<rparr>] =
   Inr [''v1.33.5'', ''v1.34.1'']"
proof -
  have nc: "\<not> contains (''var '' @ butlast slice_literal) slice_literal" by code_simp
  have pl: "list_all plain_version [''v1.34.1'', ''v1.34.0'', ''v1.33.5'']" by code_simp
  show ?thesis
    by (subst minikube_reads_page [OF _ nc pl])
      (simp_all add: getRequestBody_def echo_env_def map_filter_simps)
qed

text \<open>
  Sorting version tags. For tags that start with \<open>v\<close> the result is the only arrangement in
  which no tag is followed by one that compares as newer, whatever sorting algorithm the
  library uses; the file that is written does not depend on it.
\<close>

theorem sortVersions_canonical:
  assumes "list_all (\<lambda>v. has_prefix v ''v'') vs"
  shows "sortVersions vs = Some ws \<longleftrightarrow> mset ws = mset vs \<and> ordered_by version_less ws"
proof
  assume "sortVersions vs = Some ws"
  then have "ws = insertion_sort version_less vs" by (auto simp: sortVersions_def split: if_splits)
  then show "mset ws = mset vs \<and> ordered_by version_less ws"
    using ins_sort.srt_mset ins_sort.srt_ordered [OF strict_weak_version_less] by simp
next
  assume r: "mset ws = mset vs \<and> ordered_by version_less ws"
  from assms have "[] \<notin> set vs" by (auto simp: list_all_iff)
  moreover have "insertion_sort version_less vs = ws"
  proof (rule ordered_by_unique)
    show "mset (insertion_sort version_less vs) = mset ws" using r ins_sort.srt_mset by simp
    show "ordered_by version_less (insertion_sort version_less vs)"
      by (rule ins_sort.srt_ordered [OF strict_weak_version_less])
    show "ordered_by version_less ws" using r by simp
    show "\<forall>x \<in> set (insertion_sort version_less vs). \<forall>y \<in> set (insertion_sort version_less vs).
        version_less x y \<or> version_less y x \<or> x = y"
      using version_less_total [OF assms] by simp
  qed
  ultimately show "sortVersions vs = Some ws" by (simp add: sortVersions_def)
qed

theorem sortVersions_canonical_witness:
  "sortVersions [''v1.33.1'', ''v1.34.0''] = Some [''v1.34.0'', ''v1.33.1'']"
proof -
  have "list_all (\<lambda>v. has_prefix v ''v'') [''v1.33.1'', ''v1.34.0'']" by simp
  moreover have "ordered_by version_less [''v1.34.0'', ''v1.33.1'']" by code_simp
  ultimately show ?thesis using sortVersions_canonical by (simp add: add_mset_commute)
qed

text \<open>The comparison is textual: a two-digit patch or minor number sorts below a one-digit one.\<close>

lemma sortVersions_textual:
  "sortVersions [''v1.33.10'', ''v1.33.9''] = Some [''v1.33.9'', ''v1.33.10'']"
  by code_simp

text \<open>A cycle is searched anywhere in the version, so another release can answer for it.\<close>

lemma minikube_substring_match:
  "first_containing ''1.24'' [''v1.31.24'', ''v1.24.9''] = Some ''v1.31.24''"
  by code_simp

text \<open>
  What an update does to a row of the matrix: the kind entry is replaced if it is there and
  there are kind versions; otherwise the minikube entry, on the same conditions; every other
  entry stays, and no entry is added or dropped.
\<close>

theorem set_row_effect:
  "map fst (set_row kinds minis r) = map fst r \<and>
   map_of (set_row kinds minis r) k =
     (let has_kind = kinds \<noteq> [] \<and> (\<exists>xs. map_of r kubeKindVersion = Some (Some xs));
          has_mini = minis \<noteq> [] \<and> (\<exists>xs. map_of r kubeMinikubeVersion = Some (Some xs))
      in if has_kind \<and> k = kubeKindVersion then Some (Some kinds)
         else if \<not> has_kind \<and> has_mini \<and> k = kubeMinikubeVersion then Some (Some minis)
         else map_of r k)"
  using set_row_keys [of kinds minis r]
  by (auto simp: set_row_def update_conv' Let_def kubeKindVersion_def kubeMinikubeVersion_def)

text \<open>
  A successful update of the matrix file writes the new document and a final newline to that
  file and leaves every other file as it was.
\<close>

theorem updateMatrixFile_success:
  assumes "ReadFile d path = Inr c" and "json_matrix env c = Inr mx"
    and "json_marshal env (update_matrix kinds minis mx) = Inr out"
    and "write_fault d path = None"
  shows "\<exists>d'. updateMatrixFile env d path kinds minis = (None, d') \<and>
     ReadFile d' path = Inr (out @ [CHR 0x0A]) \<and>
     (\<forall>q. q \<noteq> path \<longrightarrow> ReadFile d' q = ReadFile d q)"
proof -
  obtain d' where w: "WriteFile d path (out @ [CHR 0x0A]) = (None, d')"
    using assms(4) by (auto simp: WriteFile_def)
  then have "updateMatrixFile env d path kinds minis = (None, d')"
    by (simp add: updateMatrixFile_def assms(1-3))
  then show ?thesis
    using disk.read_back [OF assms(1) w] disk.frame [OF w] by blast
qed

theorem updateMatrixFile_success_witness:
  "\<exists>d'. updateMatrixFile echo_env
        \<lparr>files = [''m'' \<mapsto> ''{}''], read_fault = \<lambda>_. None, write_fault = \<lambda>_. None\<rparr> ''m'' [] [] = (None, d') \<and>
     ReadFile d' ''m'' = Inr (''null'' @ [CHR 0x0A])"
proof -
  let ?d = "\<lparr>files = [''m'' \<mapsto> ''{}''], read_fault = \<lambda>_. None, write_fault = \<lambda>_. None\<rparr>"
  have "\<exists>d'. updateMatrixFile echo_env ?d ''m'' [] [] = (None, d') \<and>
     ReadFile d' ''m'' = Inr (''null'' @ [CHR 0x0A]) \<and> (\<forall>q. q \<noteq> ''m'' \<longrightarrow> ReadFile d' q = ReadFile ?d q)"
    by (rule updateMatrixFile_success [where c = "''{}''" and mx = None])
      (simp_all add: ReadFile_def echo_env_def)
  then show ?thesis by blast
qed

lemma updateMatrixFile_frame:
  assumes "updateMatrixFile env d path kinds minis = (r, d')"
  shows "q \<noteq> path \<Longrightarrow> ReadFile d' q = ReadFile d q"
    and "d' = d \<or> r = None \<or> (\<exists>e. r = Some (''failed to write updated file: '' @ e))"
  using assms disk.frame
  by (fastforce simp: updateMatrixFile_def split: sum.splits option.splits prod.splits)+

text \<open>A run that gets as far as the matrix file has had a result from each of the three searches.\<close>

lemma main_program_cases:
  assumes "main_program env now (Inr dir) d = (out, d')"
  obtains "d' = d" "out \<noteq> Exit0"
  | vs ks kinds minis r where
      "getSupportedKubernetesVersions env now endOfLifeURL = Inr vs" "vs \<noteq> []"
      "getLatestSupportedKindImages env kindDockerHubURL vs = (ks, None)" "ks \<noteq> []" "sortVersions ks = Some kinds"
      "getLatestSupportedMinikubeVersions env miniKubeURL vs = Inr minis" "minis \<noteq> []"
      "updateMatrixFile env d (path_join [dir, path_clean ciMatrixPath]) kinds minis = (r, d')" "out = update_outcome r"
proof (cases "d' = d \<and> out \<noteq> Exit0")
  case False
  with assms show ?thesis
    unfolding main_program_def
    by (auto split: sum.splits list.splits prod.splits option.splits dest: that(2) [rotated -1])
qed (use that(1) in blast)

lemma updateMatrixFile_wrote:
  assumes "updateMatrixFile env d path kinds minis = (r, d')" and "d' \<noteq> d \<or> r = None"
  obtains c mx out where "ReadFile d path = Inr c" "json_matrix env c = Inr mx"
    "json_marshal env (update_matrix kinds minis mx) = Inr out"
    "r = None \<and> ReadFile d' path = Inr (out @ [CHR 0x0A]) \<or> (\<exists>e. r = Some (''failed to write updated file: '' @ e))"
proof (cases "bind_res (wrap_err ''failed to read file: '' (ReadFile d path)) (\<lambda>content.
           bind_res (wrap_err ''failed to unmarshal JSON: '' (json_matrix env content)) (\<lambda>mx.
             wrap_err ''failed to marshal updated JSON: '' (json_marshal env (update_matrix kinds minis mx))))")
  case (Inl e)
  with assms show ?thesis by (simp add: updateMatrixFile_def)
next
  case (Inr out)
  then obtain c mx where c: "ReadFile d path = Inr c" "json_matrix env c = Inr mx"
    "json_marshal env (update_matrix kinds minis mx) = Inr out"
    by (auto simp: bind_res_Inr_iff)
  show ?thesis
    using that [OF c] assms(1) Inr disk.read_back [OF c(1)]
    by (cases "WriteFile d path (out @ [CHR 0x0A])") (auto simp: updateMatrixFile_def split: option.splits)
qed

lemma main_program_effect:
  assumes "main_program env now (Inr dir) d = (out, d')" and "path = path_join [dir, path_clean ciMatrixPath]"
  shows "(\<forall>q. q \<noteq> path \<longrightarrow> ReadFile d' q = ReadFile d q) \<and>
     (d' \<noteq> d \<or> out = Exit0 \<longrightarrow>
      (\<exists>vs ks kinds minis c mx json.
         getSupportedKubernetesVersions env now endOfLifeURL = Inr vs \<and> vs \<noteq> [] \<and>
         getLatestSupportedKindImages env kindDockerHubURL vs = (ks, None) \<and> ks \<noteq> [] \<and>
         mset kinds = mset ks \<and> ordered_by version_less kinds \<and>
         getLatestSupportedMinikubeVersions env miniKubeURL vs = Inr minis \<and> minis \<noteq> [] \<and>
         ReadFile d path = Inr c \<and> json_matrix env c = Inr mx \<and> json_marshal env (update_matrix kinds minis mx) = Inr json \<and>
         (out = Exit0 \<and> ReadFile d' path = Inr (json @ [CHR 0x0A]) \<or>
          (\<exists>e. out = Fatal (''Failed to update matrix file: failed to write updated file: '' @ e)))))"
  using assms(1)
proof (rule main_program_cases)
  fix vs ks kinds minis r
  assume f: "getSupportedKubernetesVersions env now endOfLifeURL = Inr vs" "vs \<noteq> []"
      "getLatestSupportedKindImages env kindDockerHubURL vs = (ks, None)" "ks \<noteq> []"
      "getLatestSupportedMinikubeVersions env miniKubeURL vs = Inr minis" "minis \<noteq> []"
    and u: "updateMatrixFile env d (path_join [dir, path_clean ciMatrixPath]) kinds minis = (r, d')"
    and out: "out = update_outcome r" and "sortVersions ks = Some kinds"
  then have kinds: "mset kinds = mset ks" "ordered_by version_less kinds"
    using ins_sort.srt_mset ins_sort.srt_ordered [OF strict_weak_version_less] by (auto simp: sortVersions_def split: if_splits)
  note u = u [folded assms(2)]
  show ?thesis
  proof (cases "d' \<noteq> d \<or> r = None")
    case True
    with u obtain c mx json where c: "ReadFile d path = Inr c" "json_matrix env c = Inr mx"
      "json_marshal env (update_matrix kinds minis mx) = Inr json"
      "r = None \<and> ReadFile d' path = Inr (json @ [CHR 0x0A]) \<or> (\<exists>e. r = Some (''failed to write updated file: '' @ e))"
      by (rule updateMatrixFile_wrote)
    then have "out = Exit0 \<and> ReadFile d' path = Inr (json @ [CHR 0x0A]) \<or>
        (\<exists>e. out = Fatal (''Failed to update matrix file: failed to write updated file: '' @ e))"
      by (auto simp: out update_outcome_def)
    with f kinds c(1-3) have "\<exists>vs ks kinds minis c mx json.
         getSupportedKubernetesVersions env now endOfLifeURL = Inr vs \<and> vs \<noteq> [] \<and>
         getLatestSupportedKindImages env kindDockerHubURL vs = (ks, None) \<and> ks \<noteq> [] \<and>
         mset kinds = mset ks \<and> ordered_by version_less kinds \<and>
         getLatestSupportedMinikubeVersions env miniKubeURL vs = Inr minis \<and> minis \<noteq> [] \<and>
         ReadFile d path = Inr c \<and> json_matrix env c = Inr mx \<and> json_marshal env (update_matrix kinds minis mx) = Inr json \<and>
         (out = Exit0 \<and> ReadFile d' path = Inr (json @ [CHR 0x0A]) \<or>
          (\<exists>e. out = Fatal (''Failed to update matrix file: failed to write updated file: '' @ e)))"
      by (intro exI [of _ vs] exI [of _ ks] exI [of _ kinds] exI [of _ minis] exI [of _ c] exI [of _ mx] exI [of _ json]) simp
    moreover have "\<forall>q. q \<noteq> path \<longrightarrow> ReadFile d' q = ReadFile d q" using updateMatrixFile_frame(1) [OF u] by simp
    ultimately show ?thesis by (intro conjI impI)
  next
    case False
    then show ?thesis using updateMatrixFile_frame(1) [OF u] by (auto simp: out update_outcome_def split: option.splits)
  qed
qed simp

text \<open>
  C21: the program touches no file but the matrix in the current directory. It exits normally, or changes that file, only after all
  three searches gave a result that is not empty, and then what it writes is the matrix as it was read with the sorted kind
  images and the minikube versions that were found in its rows; only a failing write can leave something else there.
\<close>

theorem main_program_safe:
  assumes "main_program env now (Inr dir) d = (out, d')"
  shows "let path = path_join [dir, path_clean ciMatrixPath] in
     (\<forall>q. q \<noteq> path \<longrightarrow> ReadFile d' q = ReadFile d q) \<and>
     (d' \<noteq> d \<or> out = Exit0 \<longrightarrow>
      (\<exists>vs ks kinds minis c mx json.
         getSupportedKubernetesVersions env now endOfLifeURL = Inr vs \<and> vs \<noteq> [] \<and>
         getLatestSupportedKindImages env kindDockerHubURL vs = (ks, None) \<and> ks \<noteq> [] \<and>
         mset kinds = mset ks \<and> ordered_by version_less kinds \<and>
         getLatestSupportedMinikubeVersions env miniKubeURL vs = Inr minis \<and> minis \<noteq> [] \<and>
         ReadFile d path = Inr c \<and> json_matrix env c = Inr mx \<and> json_marshal env (update_matrix kinds minis mx) = Inr json \<and>
         (out = Exit0 \<and> ReadFile d' path = Inr (json @ [CHR 0x0A]) \<or>
          (\<exists>e. out = Fatal (''Failed to update matrix file: failed to write updated file: '' @ e)))))"
  unfolding Let_def by (rule main_program_effect [OF assms refl])

theorem main_program_safe_witness:
  "ReadFile (snd (main_program echo_env (midnight (Date 2025 6 1)) (Inr ''/'')
      \<lparr>files = [''/x'' \<mapsto> ''1''], read_fault = \<lambda>_. None, write_fault = \<lambda>_. None\<rparr>)) ''/x'' = Inr ''1''"
proof -
  let ?d = "\<lparr>files = [''/x'' \<mapsto> ''1''], read_fault = \<lambda>_. None, write_fault = \<lambda>_. None\<rparr>"
  let ?m = "main_program echo_env (midnight (Date 2025 6 1)) (Inr ''/'') ?d"
  have "path_join [''/'', path_clean ciMatrixPath] = ''/ci-matrix.json''" by code_simp
  then have "''/x'' \<noteq> path_join [''/'', path_clean ciMatrixPath]" by simp
  then have "ReadFile (snd ?m) ''/x'' = ReadFile ?d ''/x''"
    using main_program_safe [of echo_env "midnight (Date 2025 6 1)" "''/''" ?d "fst ?m" "snd ?m"]
    by (simp add: Let_def)
  then show ?thesis by (simp add: ReadFile_def)
qed

end
