(* ===== verification/Pdata.thy ===== *)
theory Pdata
  imports GoNumbers
begin

section \<open>Metrics payloads\<close>

text \<open>
  The values the test helpers work on: a metrics payload is a list of resources, each with
  scopes, each with metrics, each with data points, as in the OTLP data model. The collector's
  \<open>pdata\<close> slices are lists, with \<open>Len\<close>, \<open>At\<close>, \<open>AppendEmpty\<close> and \<open>RemoveIf\<close> as their documentation
  states them; a field that no modelled code reads is kept as its wire text (\<open>_rest\<close>). An
  attribute map is the ordered list of its pairs, and \<open>Get\<close> finds the first pair with the key.
  A \<open>float64\<close> is its IEEE 754 bit pattern; \<open>f64_eq\<close> is Go's \<open>==\<close> on floats, under which a NaN
  differs from itself and the two zeros are equal.
\<close>

type_synonym float64 = "64 word"

definition f64_nan :: "float64 \<Rightarrow> bool" where
  "f64_nan w = (take_bit 63 (uint w) > 0x7FF0000000000000)"

definition f64_zero :: "float64 \<Rightarrow> bool" where
  "f64_zero w = (take_bit 63 (uint w) = 0)"

definition f64_eq :: "float64 \<Rightarrow> float64 \<Rightarrow> bool" where
  "f64_eq a b = (\<not> f64_nan a \<and> \<not> f64_nan b \<and> (a = b \<or> f64_zero a \<and> f64_zero b))"

datatype attr_value =
    VEmpty
  | VStr string
  | VBool bool
  | VInt int64
  | VDouble float64
  | VMap "(string \<times> attr_value) list"
  | VSlice "attr_value list"
  | VBytes string

type_synonym attrs = "(string \<times> attr_value) list"

definition attr_get :: "attrs \<Rightarrow> string \<Rightarrow> attr_value option" where
  "attr_get m k = map_of m k"

text \<open>Mutating the value that \<open>Get\<close> finds: the first pair with the key.\<close>

fun set_first :: "string \<Rightarrow> (attr_value \<Rightarrow> attr_value) \<Rightarrow> attrs \<Rightarrow> attrs" where
  "set_first k f [] = []"
| "set_first k f ((k', v) # m) = (if k' = k then (k', f v) # m else (k', v) # set_first k f m)"

lemma attr_get_set_first:
  "attr_get (set_first a f m) k = (if k = a then map_option f (attr_get m k) else attr_get m k)"
  by (induction m) (auto simp: attr_get_def)

lemma keys_set_first: "map fst (set_first a f m) = map fst m"
  by (induction m) auto

text \<open>\<open>Value.Str\<close>: the empty string on a value of another type.\<close>

fun attr_str :: "attr_value \<Rightarrow> string" where
  "attr_str (VStr s) = s"
| "attr_str _ = []"

fun is_str :: "attr_value \<Rightarrow> bool" where
  "is_str (VStr s) = True"
| "is_str _ = False"

record datapoint =
  dp_attributes :: attrs
  dp_bounds :: "float64 list"
  dp_counts :: "int64 list"
  dp_rest :: string

datatype metric_data =
    NoData
  | Gauge "datapoint list"
  | Sum "datapoint list"
  | Histogram "datapoint list"
  | ExponentialHistogram "datapoint list"
  | Summary "datapoint list"

record metric =
  metric_name :: string
  metric_rest :: string
  metric_data :: metric_data

record scope_metrics =
  sm_rest :: string
  sm_metrics :: "metric list"

record resource_metrics =
  rm_attributes :: attrs
  rm_rest :: string
  rm_scopes :: "scope_metrics list"

type_synonym metrics = "resource_metrics list"

text \<open>\<open>MetricCount\<close> of a payload, and its metrics in the order of the nested loops.\<close>

definition MetricCount :: "metrics \<Rightarrow> nat" where
  "MetricCount ms = sum_list (map (\<lambda>rm. sum_list (map (\<lambda>sm. length (sm_metrics sm)) (rm_scopes rm))) ms)"

definition all_metrics :: "metrics \<Rightarrow> metric list" where
  "all_metrics ms = concat (map (\<lambda>rm. concat (map sm_metrics (rm_scopes rm))) ms)"

text \<open>A loop over the metrics slices of all scopes, and one over all metrics.\<close>

definition map_scopes :: "(metric list \<Rightarrow> metric list) \<Rightarrow> metrics \<Rightarrow> metrics" where
  "map_scopes f ms =
     map (\<lambda>rm. rm\<lparr>rm_scopes := map (\<lambda>sm. sm\<lparr>sm_metrics := f (sm_metrics sm)\<rparr>) (rm_scopes rm)\<rparr>) ms"

definition map_metrics :: "(metric \<Rightarrow> metric) \<Rightarrow> metrics \<Rightarrow> metrics" where
  "map_metrics f = map_scopes (map f)"

fun data_points :: "metric_data \<Rightarrow> datapoint list" where
  "data_points NoData = []"
| "data_points (Gauge ds) = ds"
| "data_points (Sum ds) = ds"
| "data_points (Histogram ds) = ds"
| "data_points (ExponentialHistogram ds) = ds"
| "data_points (Summary ds) = ds"

fun map_points :: "(datapoint list \<Rightarrow> datapoint list) \<Rightarrow> metric_data \<Rightarrow> metric_data" where
  "map_points f NoData = NoData"
| "map_points f (Gauge ds) = Gauge (f ds)"
| "map_points f (Sum ds) = Sum (f ds)"
| "map_points f (Histogram ds) = Histogram (f ds)"
| "map_points f (ExponentialHistogram ds) = ExponentialHistogram (f ds)"
| "map_points f (Summary ds) = Summary (f ds)"

lemma length_all_metrics: "length (all_metrics ms) = MetricCount ms"
  by (simp add: all_metrics_def MetricCount_def length_concat comp_def)

lemma all_metrics_map_metrics [simp, go_pass]:
  "all_metrics (map_metrics f ms) = map f (all_metrics ms)"
  by (simp add: all_metrics_def map_metrics_def map_scopes_def map_concat comp_def)

lemma data_points_map_points: "data_points (map_points f d) = (if d = NoData then [] else f (data_points d))"
  by (cases d) auto

subsection \<open>Payloads that differ in their data points only\<close>

text \<open>
  \<open>selects ms' ms\<close>: the payload \<open>ms'\<close> has the resources, scopes and metrics of \<open>ms\<close>, each metric
  of the same type, with data points that all come from the metric's own ones.
\<close>

definition metric_selects :: "metric \<Rightarrow> metric \<Rightarrow> bool" where
  "metric_selects m' m \<longleftrightarrow>
     metric_name m' = metric_name m \<and> metric_rest m' = metric_rest m \<and>
     map_points (\<lambda>_. []) (metric_data m') = map_points (\<lambda>_. []) (metric_data m) \<and>
     mset (data_points (metric_data m')) \<subseteq># mset (data_points (metric_data m))"

definition scope_selects :: "scope_metrics \<Rightarrow> scope_metrics \<Rightarrow> bool" where
  "scope_selects s' s \<longleftrightarrow>
     sm_rest s' = sm_rest s \<and> list_all2 metric_selects (sm_metrics s') (sm_metrics s)"

definition resource_selects :: "resource_metrics \<Rightarrow> resource_metrics \<Rightarrow> bool" where
  "resource_selects r' r \<longleftrightarrow>
     rm_attributes r' = rm_attributes r \<and> rm_rest r' = rm_rest r \<and>
     list_all2 scope_selects (rm_scopes r') (rm_scopes r)"

definition selects :: "metrics \<Rightarrow> metrics \<Rightarrow> bool" where
  "selects ms' ms \<longleftrightarrow> list_all2 resource_selects ms' ms"

lemma metric_selects_refl: "metric_selects m m"
  by (simp add: metric_selects_def)

lemma metric_selects_trans: "metric_selects a b \<Longrightarrow> metric_selects b c \<Longrightarrow> metric_selects a c"
  by (auto simp: metric_selects_def)

lemma scope_selects_refl: "scope_selects s s"
  by (simp add: scope_selects_def list_all2_refl metric_selects_refl)

lemma scope_selects_trans: "scope_selects a b \<Longrightarrow> scope_selects b c \<Longrightarrow> scope_selects a c"
  using list_all2_trans [OF metric_selects_trans] by (auto simp: scope_selects_def)

lemma resource_selects_refl: "resource_selects r r"
  by (simp add: resource_selects_def list_all2_refl scope_selects_refl)

lemma resource_selects_trans: "resource_selects a b \<Longrightarrow> resource_selects b c \<Longrightarrow> resource_selects a c"
  using list_all2_trans [OF scope_selects_trans] by (auto simp: resource_selects_def)

lemma selects_refl [go_pass]: "selects ms ms"
  by (simp add: selects_def list_all2_refl resource_selects_refl)

lemma selects_trans [go_pass]: "selects a b \<Longrightarrow> selects b c \<Longrightarrow> selects a c"
  using list_all2_trans [OF resource_selects_trans] by (auto simp: selects_def)

lemma selects_map_metrics [go_pass]:
  "(\<And>m. metric_selects (f m) m) \<Longrightarrow> selects (map_metrics f ms) ms"
  by (simp add: selects_def resource_selects_def scope_selects_def map_metrics_def map_scopes_def
      list_all2_conv_all_nth)

lemma metric_selects_map_points:
  assumes "\<And>ds. mset (f ds) \<subseteq># mset ds"
  shows "metric_selects (m\<lparr>metric_data := map_points f (metric_data m)\<rparr>) m"
  by (cases "metric_data m") (auto simp: metric_selects_def assms)

lemma mset_take_subset: "mset (take n xs) \<subseteq># mset xs"
  by (metis append_take_drop_id mset_append mset_subset_eq_add_left)

lemma list_all2_metric_names: "list_all2 metric_selects xs ys \<Longrightarrow> map metric_name xs = map metric_name ys"
  by (induction rule: list_all2_induct) (auto simp: metric_selects_def)

lemma scope_selects_names:
  "list_all2 scope_selects xs ys \<Longrightarrow>
     map (\<lambda>s. map metric_name (sm_metrics s)) xs = map (\<lambda>s. map metric_name (sm_metrics s)) ys"
  by (induction rule: list_all2_induct) (auto simp: scope_selects_def intro: list_all2_metric_names)

text \<open>The names, slice by slice: what a pass over the data points cannot change.\<close>

definition name_table :: "metrics \<Rightarrow> string list list list" where
  "name_table ms = map (\<lambda>rm. map (\<lambda>s. map metric_name (sm_metrics s)) (rm_scopes rm)) ms"

lemma selects_name_table: "selects ms' ms \<Longrightarrow> name_table ms' = name_table ms"
  unfolding selects_def name_table_def
  by (induction rule: list_all2_induct) (auto simp: resource_selects_def intro: scope_selects_names)

lemma names_of_table: "map metric_name (all_metrics ms) = concat (concat (name_table ms))"
  by (induction ms) (simp_all add: all_metrics_def name_table_def map_concat comp_def)

lemma length_of_table: "length ms = length (name_table ms)"
  by (simp add: name_table_def)

text \<open>The contract of every preprocessing step of the helpers.\<close>

locale datapoint_pass =
  fixes pass :: "metrics \<Rightarrow> metrics"
  assumes pass_selects: "selects (pass ms) ms"
begin

lemma pass_names: "map metric_name (all_metrics (pass ms)) = map metric_name (all_metrics ms)"
  using selects_name_table [OF pass_selects] by (simp add: names_of_table)

lemma pass_count: "MetricCount (pass ms) = MetricCount ms"
  using pass_names [of ms] by (metis length_all_metrics length_map)

lemma pass_resources: "length (pass ms) = length ms"
  using selects_name_table [OF pass_selects] by (simp add: length_of_table)

lemma pass_table: "name_table (pass ms) = name_table ms"
  by (rule selects_name_table [OF pass_selects])

end

end
