(* ===== verification/DataProcessing.thy ===== *)
theory DataProcessing
  imports Pdata
begin

section \<open>Data processing helpers\<close>

text \<open>
  Model of \<open>functional_tests/internal/data_processing.go\<close> and of \<open>containsMetric\<close> in
  \<open>common.go\<close>: thinning and filtering of the data points of a payload, lookup of metrics by
  name, and the comparison of histogram buckets. A helper that mutates its payload returns
  the new one.
\<close>

subsection \<open>Reducing data points\<close>

text \<open>
  \<open>reduce_slice\<close> is the body of one case: the first \<open>maxDPCount\<close> points are copied aside, the
  slice is emptied, and the copies are appended. The switch has no case for exponential
  histograms.
\<close>

definition reduce_slice :: "int \<Rightarrow> datapoint list \<Rightarrow> datapoint list" where
  "reduce_slice maxDPCount dp =
     (if int (length dp) > maxDPCount
      then let newDP = map (\<lambda>l. dp ! l) [0..<nat maxDPCount];
               emptied = filter (\<lambda>_. False) dp
           in emptied @ map (\<lambda>l. newDP ! l) [0..<length newDP]
      else dp)"

fun reduce_data :: "int \<Rightarrow> metric_data \<Rightarrow> metric_data" where
  "reduce_data n (Sum dp) = Sum (reduce_slice n dp)"
| "reduce_data n (Gauge dp) = Gauge (reduce_slice n dp)"
| "reduce_data n (Histogram dp) = Histogram (reduce_slice n dp)"
| "reduce_data n (Summary dp) = Summary (reduce_slice n dp)"
| "reduce_data n d = d"

definition ReduceDatapoints :: "metrics \<Rightarrow> int \<Rightarrow> metrics" where
  "ReduceDatapoints ms maxDPCount =
     map_metrics (\<lambda>m. m\<lparr>metric_data := reduce_data maxDPCount (metric_data m)\<rparr>) ms"

subsection \<open>Dropping metrics and data points\<close>

fun name_in :: "string \<Rightarrow> string list \<Rightarrow> bool" where
  "name_in n [] = False"
| "name_in n (x # xs) = (if n = x then True else name_in n xs)"

definition RemoveFlakyMetrics :: "metrics \<Rightarrow> string list \<Rightarrow> metrics" where
  "RemoveFlakyMetrics ms flakyMetrics =
     map_scopes (filter (\<lambda>m. \<not> name_in (metric_name m) flakyMetrics)) ms"

definition other_pod :: "string \<Rightarrow> attrs \<Rightarrow> bool" where
  "other_pod podNamePrefix attributes =
     (case attr_get attributes ''k8s.pod.name'' of
        None \<Rightarrow> True
      | Some podName \<Rightarrow> \<not> is_str podName \<or> \<not> has_prefix (attr_str podName) podNamePrefix)"

fun retain_pod_data :: "string \<Rightarrow> metric_data \<Rightarrow> metric_data" where
  "retain_pod_data p (Gauge dp) = Gauge (filter (\<lambda>d. \<not> other_pod p (dp_attributes d)) dp)"
| "retain_pod_data p (Sum dp) = Sum (filter (\<lambda>d. \<not> other_pod p (dp_attributes d)) dp)"
| "retain_pod_data p d = d"

definition RetainNumberMetricDatapointsForPod :: "metrics \<Rightarrow> string \<Rightarrow> metrics" where
  "RetainNumberMetricDatapointsForPod ms podNamePrefix =
     map_metrics (\<lambda>m. m\<lparr>metric_data := retain_pod_data podNamePrefix (metric_data m)\<rparr>) ms"

subsection \<open>Lookup by name\<close>

text \<open>
  \<open>GetMetricNames\<close> collects the names in a Go map and lists its keys; \<open>range_keys\<close> is the order
  in which the runtime hands them out.
\<close>

definition GetMetricNames :: "(string list \<Rightarrow> string list) \<Rightarrow> metrics \<Rightarrow> string list" where
  "GetMetricNames range_keys ms = range_keys (remdups (map metric_name (all_metrics ms)))"

text \<open>
  \<open>GetMetric\<close> returns a reference into the payload: the indices of its resource, scope and
  metric. \<open>metric_at\<close> reads through the reference and \<open>update_metric_at\<close> mutates through it.
\<close>

type_synonym metric_ref = "nat \<times> nat \<times> nat"

fun find_metric :: "string \<Rightarrow> nat \<Rightarrow> metric list \<Rightarrow> nat option" where
  "find_metric name k [] = None"
| "find_metric name k (m # ms) =
     (if name = metric_name m then Some k else find_metric name (Suc k) ms)"

fun find_in_scopes :: "string \<Rightarrow> nat \<Rightarrow> scope_metrics list \<Rightarrow> (nat \<times> nat) option" where
  "find_in_scopes name j [] = None"
| "find_in_scopes name j (s # ss) =
     (case find_metric name 0 (sm_metrics s) of
        Some k \<Rightarrow> Some (j, k)
      | None \<Rightarrow> find_in_scopes name (Suc j) ss)"

fun find_in_resources :: "string \<Rightarrow> nat \<Rightarrow> metrics \<Rightarrow> metric_ref option" where
  "find_in_resources name i [] = None"
| "find_in_resources name i (r # rs) =
     (case find_in_scopes name 0 (rm_scopes r) of
        Some (j, k) \<Rightarrow> Some (i, j, k)
      | None \<Rightarrow> find_in_resources name (Suc i) rs)"

definition GetMetric :: "metrics \<Rightarrow> string \<Rightarrow> metric_ref option" where
  "GetMetric ms name = find_in_resources name 0 ms"

definition metric_at :: "metrics \<Rightarrow> metric_ref \<Rightarrow> metric" where
  "metric_at ms ref = (case ref of (i, j, k) \<Rightarrow> sm_metrics (rm_scopes (ms ! i) ! j) ! k)"

definition update_nth :: "nat \<Rightarrow> ('a \<Rightarrow> 'a) \<Rightarrow> 'a list \<Rightarrow> 'a list" where
  "update_nth i f xs = (if i < length xs then xs[i := f (xs ! i)] else xs)"

definition update_metric_at :: "metric_ref \<Rightarrow> (metric \<Rightarrow> metric) \<Rightarrow> metrics \<Rightarrow> metrics" where
  "update_metric_at ref f ms =
     (case ref of (i, j, k) \<Rightarrow>
        update_nth i (\<lambda>r. r\<lparr>rm_scopes :=
          update_nth j (\<lambda>s. s\<lparr>sm_metrics := update_nth k f (sm_metrics s)\<rparr>) (rm_scopes r)\<rparr>) ms)"

definition containsMetric :: "metrics \<Rightarrow> string \<Rightarrow> bool" where
  "containsMetric ms name =
     list_ex (\<lambda>r. list_ex (\<lambda>s. list_ex (\<lambda>m. metric_name m = name) (sm_metrics s)) (rm_scopes r)) ms"

subsection \<open>Histograms\<close>

text \<open>A histogram is given by its data points. The constructors are the messages of the code.\<close>

datatype hist_error =
    TooManyBuckets nat
  | NoExpectedPoint nat
  | NoActualPoint nat
  | BoundsLength nat nat
  | CountsLength nat nat
  | BoundMismatch nat float64 float64

definition maxHistogramBucketCount :: nat where
  "maxHistogramBucketCount = 32"

fun CheckHistogramBucketCount :: "datapoint list \<Rightarrow> hist_error option" where
  "CheckHistogramBucketCount [] = None"
| "CheckHistogramBucketCount (dp # dps) =
     (if length (dp_counts dp) > maxHistogramBucketCount
      then Some (TooManyBuckets (length (dp_counts dp)))
      else CheckHistogramBucketCount dps)"

text \<open>The innermost loop, from index \<open>j\<close>, on bounds of the same length.\<close>

fun compare_bounds :: "nat \<Rightarrow> float64 list \<Rightarrow> float64 list \<Rightarrow> hist_error option" where
  "compare_bounds j (e # es) (a # as) =
     (if \<not> f64_eq e a then Some (BoundMismatch j e a) else compare_bounds (Suc j) es as)"
| "compare_bounds j _ _ = None"

fun compare_points :: "float64 list \<Rightarrow> datapoint list \<Rightarrow> hist_error option" where
  "compare_points expectedBounds [] = None"
| "compare_points expectedBounds (dp # dps) =
     (if length expectedBounds \<noteq> length (dp_bounds dp)
      then Some (BoundsLength (length expectedBounds) (length (dp_bounds dp)))
      else if length (dp_bounds dp) + 1 \<noteq> length (dp_counts dp)
      then Some (CountsLength (length (dp_bounds dp) + 1) (length (dp_counts dp)))
      else
        (case compare_bounds 0 expectedBounds (dp_bounds dp) of
           Some e \<Rightarrow> Some e
         | None \<Rightarrow> compare_points expectedBounds dps))"

definition CompareHistogramBuckets :: "datapoint list \<Rightarrow> datapoint list \<Rightarrow> hist_error option" where
  "CompareHistogramBuckets expected actual =
     (case expected of
        [] \<Rightarrow> Some (NoExpectedPoint 0)
      | e # _ \<Rightarrow>
          if actual = [] then Some (NoActualPoint 0)
          else compare_points (dp_bounds e) actual)"

definition CompareHistograms :: "datapoint list \<Rightarrow> datapoint list \<Rightarrow> hist_error option" where
  "CompareHistograms expected actual =
     (case CheckHistogramBucketCount expected of
        Some e \<Rightarrow> Some e
      | None \<Rightarrow>
          (case CheckHistogramBucketCount actual of
             Some e \<Rightarrow> Some e
           | None \<Rightarrow> CompareHistogramBuckets expected actual))"

section \<open>Facts about data processing\<close>

lemma reduce_slice_take: "reduce_slice n dp = take (nat n) dp"
proof (cases "int (length dp) > n")
  case True
  then have "map (\<lambda>l. dp ! l) [0..<nat n] = take (nat n) dp"
    by (intro nth_equalityI) auto
  moreover have "map (\<lambda>l. xs ! l) [0..<length xs] = xs" for xs :: "datapoint list"
    by (rule map_nth)
  ultimately show ?thesis using True by (simp add: reduce_slice_def Let_def)
next
  case False
  then show ?thesis by (simp add: reduce_slice_def)
qed

lemma mset_reduce_subset: "mset (data_points (reduce_data n d)) \<subseteq># mset (data_points d)"
  by (cases d) (auto simp: reduce_slice_take mset_take_subset)

lemma reduce_data_kind: "map_points (\<lambda>_. []) (reduce_data n d) = map_points (\<lambda>_. []) d"
  by (cases d) auto

lemma retain_pod_kind: "map_points (\<lambda>_. []) (retain_pod_data p d) = map_points (\<lambda>_. []) d"
  by (cases d) auto

lemma mset_retain_subset: "mset (data_points (retain_pod_data p d)) \<subseteq># mset (data_points d)"
  by (cases d) (auto simp: multiset_filter_subset)

interpretation reduce: datapoint_pass "\<lambda>ms. ReduceDatapoints ms n" for n
  by unfold_locales
    (auto simp: ReduceDatapoints_def metric_selects_def mset_reduce_subset reduce_data_kind
      intro: selects_map_metrics)

interpretation retain_pod: datapoint_pass "\<lambda>ms. RetainNumberMetricDatapointsForPod ms p" for p
  by unfold_locales
    (auto simp: RetainNumberMetricDatapointsForPod_def metric_selects_def mset_retain_subset
      retain_pod_kind intro: selects_map_metrics)

lemma name_in_iff: "name_in n xs \<longleftrightarrow> n \<in> set xs"
  by (induction xs) auto

lemma all_metrics_filter:
  "all_metrics (map_scopes (filter P) ms) = filter P (all_metrics ms)"
  by (simp add: all_metrics_def map_scopes_def filter_concat comp_def)

lemma containsMetric_iff: "containsMetric ms name \<longleftrightarrow> name \<in> metric_name ` set (all_metrics ms)"
  by (auto simp: containsMetric_def all_metrics_def list_ex_iff)

lemma find_metric_Some:
  "find_metric name k ms = Some n \<longleftrightarrow>
     k \<le> n \<and> n - k < length ms \<and> metric_name (ms ! (n - k)) = name \<and>
     name \<notin> metric_name ` set (take (n - k) ms)"
proof (induction ms arbitrary: k)
  case (Cons m ms)
  show ?case
  proof (cases "n \<le> k")
    case True
    then show ?thesis by (auto simp: Cons.IH)
  next
    case False
    then have "n - k = Suc (n - Suc k)" by simp
    then show ?thesis using False by (auto simp: Cons.IH)
  qed
qed simp

lemma find_metric_None: "find_metric name k ms = None \<longleftrightarrow> name \<notin> metric_name ` set ms"
  by (induction ms arbitrary: k) auto

lemma find_in_scopes_None:
  "find_in_scopes name j ss = None \<longleftrightarrow> name \<notin> metric_name ` set (concat (map sm_metrics ss))"
proof (induction ss arbitrary: j)
  case (Cons s ss)
  from Cons.IH find_metric_None [of name 0 "sm_metrics s"] show ?case
    by (cases "find_metric name 0 (sm_metrics s)") (auto simp: image_Un)
qed simp

lemma find_in_resources_None:
  "find_in_resources name i rs = None \<longleftrightarrow> name \<notin> metric_name ` set (all_metrics rs)"
proof (induction rs arbitrary: i)
  case (Cons r rs)
  have "all_metrics (r # rs) = concat (map sm_metrics (rm_scopes r)) @ all_metrics rs"
    by (simp add: all_metrics_def)
  with Cons.IH find_in_scopes_None [of name 0 "rm_scopes r"] show ?case
    by (cases "find_in_scopes name 0 (rm_scopes r)") (auto simp: image_Un)
qed (simp add: all_metrics_def)

lemma GetMetric_None: "GetMetric ms name = None \<longleftrightarrow> \<not> containsMetric ms name"
  by (simp add: GetMetric_def find_in_resources_None containsMetric_iff)

lemma find_in_scopes_Some:
  assumes "find_in_scopes name j ss = Some (j', k)"
  shows "j \<le> j' \<and> j' - j < length ss \<and> k < length (sm_metrics (ss ! (j' - j))) \<and>
     metric_name (sm_metrics (ss ! (j' - j)) ! k) = name"
  using assms
proof (induction ss arbitrary: j)
  case (Cons s ss)
  show ?case
  proof (cases "find_metric name 0 (sm_metrics s)")
    case None
    with Cons.prems Cons.IH [of "Suc j"] have
      "Suc j \<le> j'" "j' - Suc j < length ss"
      "k < length (sm_metrics (ss ! (j' - Suc j)))"
      "metric_name (sm_metrics (ss ! (j' - Suc j)) ! k) = name"
      by auto
    moreover from this(1) have "j' - j = Suc (j' - Suc j)" by simp
    ultimately show ?thesis by simp
  next
    case (Some n)
    with Cons.prems show ?thesis by (auto simp: find_metric_Some)
  qed
qed simp

lemma find_in_resources_Some:
  assumes "find_in_resources name i rs = Some (i', j, k)"
  shows "i \<le> i' \<and> i' - i < length rs \<and> j < length (rm_scopes (rs ! (i' - i))) \<and>
     k < length (sm_metrics (rm_scopes (rs ! (i' - i)) ! j)) \<and>
     metric_name (sm_metrics (rm_scopes (rs ! (i' - i)) ! j) ! k) = name"
  using assms
proof (induction rs arbitrary: i)
  case (Cons r rs)
  show ?case
  proof (cases "find_in_scopes name 0 (rm_scopes r)")
    case None
    with Cons.prems Cons.IH [of "Suc i"] have
      "Suc i \<le> i'" "i' - Suc i < length rs" "j < length (rm_scopes (rs ! (i' - Suc i)))"
      "k < length (sm_metrics (rm_scopes (rs ! (i' - Suc i)) ! j))"
      "metric_name (sm_metrics (rm_scopes (rs ! (i' - Suc i)) ! j) ! k) = name"
      by auto
    moreover from this(1) have "i' - i = Suc (i' - Suc i)" by simp
    ultimately show ?thesis by simp
  next
    case (Some jk)
    with Cons.prems find_in_scopes_Some [of name 0 "rm_scopes r" j k] show ?thesis by auto
  qed
qed simp

lemma GetMetric_name: "GetMetric ms name = Some ref \<Longrightarrow> metric_name (metric_at ms ref) = name"
  using find_in_resources_Some [of name 0 ms] by (cases ref) (auto simp: GetMetric_def metric_at_def)

lemma list_all2_update_nth:
  assumes "\<And>x. P x x" and "\<And>x. P (f x) x"
  shows "list_all2 P (update_nth i f xs) xs"
  using assms by (auto simp: update_nth_def list_all2_conv_all_nth nth_list_update)

lemma selects_update_metric_at:
  assumes "\<And>m. metric_selects (f m) m"
  shows "selects (update_metric_at ref f ms) ms"
proof -
  obtain i j k where ref: "ref = (i, j, k)" by (cases ref) auto
  have "scope_selects (s\<lparr>sm_metrics := update_nth k f (sm_metrics s)\<rparr>) s" for s
    using list_all2_update_nth [of metric_selects f, OF metric_selects_refl assms]
    by (simp add: scope_selects_def)
  then have "resource_selects (r\<lparr>rm_scopes := update_nth j
      (\<lambda>s. s\<lparr>sm_metrics := update_nth k f (sm_metrics s)\<rparr>) (rm_scopes r)\<rparr>) r" for r
    using list_all2_update_nth [of scope_selects, OF scope_selects_refl]
    by (simp add: resource_selects_def)
  then show ?thesis
    using list_all2_update_nth [of resource_selects, OF resource_selects_refl]
    by (simp add: selects_def update_metric_at_def ref)
qed

subsection \<open>Histograms\<close>

lemma CheckHistogramBucketCount_None:
  "CheckHistogramBucketCount dps = None \<longleftrightarrow>
     list_all (\<lambda>dp. length (dp_counts dp) \<le> maxHistogramBucketCount) dps"
  by (induction dps) auto

lemma compare_bounds_None:
  "length es = length as \<Longrightarrow> compare_bounds j es as = None \<longleftrightarrow> list_all2 f64_eq es as"
  by (induction j es as rule: compare_bounds.induct) auto

lemma compare_points_None:
  "compare_points es dps = None \<longleftrightarrow>
     list_all (\<lambda>dp. list_all2 f64_eq es (dp_bounds dp) \<and>
       length (dp_counts dp) = length (dp_bounds dp) + 1) dps"
proof (induction dps)
  case (Cons dp dps)
  show ?case
  proof (cases "length es = length (dp_bounds dp)")
    case True
    with Cons compare_bounds_None [OF True, of 0] show ?thesis
      by (cases "compare_bounds 0 es (dp_bounds dp)") auto
  next
    case False
    then show ?thesis by (auto dest: list_all2_lengthD)
  qed
qed simp

lemma find_append: "List.find P (xs @ ys) = (case List.find P xs of Some x \<Rightarrow> Some x | None \<Rightarrow> List.find P ys)"
  by (induction xs) auto

lemma find_metric_first:
  "map_option (\<lambda>n. ms ! (n - k)) (find_metric name k ms) = List.find (\<lambda>m. metric_name m = name) ms"
proof (induction ms arbitrary: k)
  case (Cons m ms)
  have "find_metric name (Suc k) ms = Some n \<Longrightarrow> n - k = Suc (n - Suc k)" for n
    by (auto simp: find_metric_Some)
  then have "map_option (\<lambda>n. (m # ms) ! (n - k)) (find_metric name (Suc k) ms) =
      map_option (\<lambda>n. ms ! (n - Suc k)) (find_metric name (Suc k) ms)"
    by (cases "find_metric name (Suc k) ms") auto
  with Cons.IH [of "Suc k"] show ?case by auto
qed simp

lemma find_in_scopes_first:
  "map_option (\<lambda>(n, k). sm_metrics (ss ! (n - j)) ! k) (find_in_scopes name j ss) =
     List.find (\<lambda>m. metric_name m = name) (concat (map sm_metrics ss))"
proof (induction ss arbitrary: j)
  case (Cons s ss)
  have "find_in_scopes name (Suc j) ss = Some (n, k) \<Longrightarrow> n - j = Suc (n - Suc j)" for n k
    by (auto dest: find_in_scopes_Some)
  then have "map_option (\<lambda>(n, k). sm_metrics ((s # ss) ! (n - j)) ! k) (find_in_scopes name (Suc j) ss) =
      map_option (\<lambda>(n, k). sm_metrics (ss ! (n - Suc j)) ! k) (find_in_scopes name (Suc j) ss)"
    by (cases "find_in_scopes name (Suc j) ss") auto
  with Cons.IH [of "Suc j"] find_metric_first [of "sm_metrics s" 0 name, symmetric] show ?case
    by (cases "find_metric name 0 (sm_metrics s)") (auto simp: find_append)
qed simp

lemma find_in_resources_first:
  "map_option (\<lambda>(n, j, k). sm_metrics (rm_scopes (rs ! (n - i)) ! j) ! k) (find_in_resources name i rs) =
     List.find (\<lambda>m. metric_name m = name) (all_metrics rs)"
proof (induction rs arbitrary: i)
  case (Cons r rs)
  have a: "all_metrics (r # rs) = concat (map sm_metrics (rm_scopes r)) @ all_metrics rs"
    by (simp add: all_metrics_def)
  have "find_in_resources name (Suc i) rs = Some (n, j, k) \<Longrightarrow> n - i = Suc (n - Suc i)" for n j k
    by (auto dest: find_in_resources_Some)
  then have "map_option (\<lambda>(n, j, k). sm_metrics (rm_scopes ((r # rs) ! (n - i)) ! j) ! k)
        (find_in_resources name (Suc i) rs) =
      map_option (\<lambda>(n, j, k). sm_metrics (rm_scopes (rs ! (n - Suc i)) ! j) ! k)
        (find_in_resources name (Suc i) rs)"
    by (cases "find_in_resources name (Suc i) rs") auto
  with Cons.IH [of "Suc i"] find_in_scopes_first [of "rm_scopes r" 0 name, symmetric] show ?case
    by (cases "find_in_scopes name 0 (rm_scopes r)") (auto simp: a find_append)
qed (simp add: all_metrics_def)

section \<open>Properties\<close>

text \<open>
  \<open>GetMetric\<close> refers to the first metric of that name in the order of the payload, and
  fails exactly when \<open>containsMetric\<close> does.
\<close>

theorem GetMetric_first:
  "map_option (metric_at ms) (GetMetric ms name) =
     List.find (\<lambda>m. metric_name m = name) (all_metrics ms) \<and>
   (GetMetric ms name = None \<longleftrightarrow> \<not> containsMetric ms name)"
proof -
  have "metric_at ms = (\<lambda>(n, j, k). sm_metrics (rm_scopes (ms ! (n - 0)) ! j) ! k)"
    by (auto simp: metric_at_def)
  then have "map_option (metric_at ms) (GetMetric ms name) =
      List.find (\<lambda>m. metric_name m = name) (all_metrics ms)"
    unfolding GetMetric_def using find_in_resources_first [of ms 0 name] by simp
  then show ?thesis using GetMetric_None by blast
qed

text \<open>
  Reducing data points keeps the first \<open>n\<close> points of every gauge, sum, histogram and summary
  (none for a negative \<open>n\<close>), leaves exponential histograms alone, and a second reduction gives
  what one reduction to the smaller bound gives.
\<close>

theorem ReduceDatapoints_effect:
  "ReduceDatapoints ms n =
     map_metrics (\<lambda>m. case metric_data m of
         ExponentialHistogram ds \<Rightarrow> m
       | d \<Rightarrow> m\<lparr>metric_data := map_points (take (nat n)) d\<rparr>) ms \<and>
   ReduceDatapoints (ReduceDatapoints ms n) k = ReduceDatapoints ms (min n k)"
proof -
  have "m\<lparr>metric_data := reduce_data n (metric_data m)\<rparr> =
      (case metric_data m of ExponentialHistogram ds \<Rightarrow> m
       | d \<Rightarrow> m\<lparr>metric_data := map_points (take (nat n)) d\<rparr>)" for m :: metric
    by (cases m; cases "metric_data m") (auto simp: reduce_slice_take)
  moreover have mn: "min (nat k) (nat n) = nat (min n k)"
    by arith
  have "reduce_data k (reduce_data n d) = reduce_data (min n k) d" for d
    by (cases d) (simp_all add: reduce_slice_take mn)
  then have "ReduceDatapoints (ReduceDatapoints ms n) k = ReduceDatapoints ms (min n k)"
    by (simp add: ReduceDatapoints_def map_metrics_def map_scopes_def comp_def)
  ultimately show ?thesis by (simp add: ReduceDatapoints_def)
qed

text \<open>
  Keeping one pod's data points: a gauge or sum keeps, in their order, exactly the points
  whose \<open>k8s.pod.name\<close> is a string with the given prefix; other metrics, and the names and
  slices of the payload, are unchanged.
\<close>

theorem RetainNumberMetricDatapointsForPod_effect:
  "all_metrics (RetainNumberMetricDatapointsForPod ms p) =
     map (\<lambda>m.
       let keep = filter (\<lambda>d. \<exists>s. attr_get (dp_attributes d) ''k8s.pod.name'' = Some (VStr s) \<and> has_prefix s p)
       in case metric_data m of
            Gauge ds \<Rightarrow> m\<lparr>metric_data := Gauge (keep ds)\<rparr>
          | Sum ds \<Rightarrow> m\<lparr>metric_data := Sum (keep ds)\<rparr>
          | _ \<Rightarrow> m) (all_metrics ms) \<and>
   name_table (RetainNumberMetricDatapointsForPod ms p) = name_table ms"
proof -
  have o: "(\<not> other_pod p a) = (\<exists>s. attr_get a ''k8s.pod.name'' = Some (VStr s) \<and> has_prefix s p)" for a
    by (auto simp: other_pod_def elim: is_str.elims split: option.splits)
  have "m\<lparr>metric_data := retain_pod_data p (metric_data m)\<rparr> =
      (let keep = filter (\<lambda>d. \<exists>s. attr_get (dp_attributes d) ''k8s.pod.name'' = Some (VStr s) \<and> has_prefix s p)
       in case metric_data m of
            Gauge ds \<Rightarrow> m\<lparr>metric_data := Gauge (keep ds)\<rparr>
          | Sum ds \<Rightarrow> m\<lparr>metric_data := Sum (keep ds)\<rparr>
          | _ \<Rightarrow> m)" for m :: metric
    by (cases m; cases "metric_data m") (auto simp: o Let_def)
  then show ?thesis
    using retain_pod.pass_table [where p = p and ms = ms]
    by (simp add: RetainNumberMetricDatapointsForPod_def)
qed

text \<open>
  Dropping flaky metrics removes every metric with a listed name, wherever it is, keeps the
  others in order, and keeps the resources even when they become empty.
\<close>

theorem RemoveFlakyMetrics_effect:
  "all_metrics (RemoveFlakyMetrics ms names) =
     filter (\<lambda>m. metric_name m \<notin> set names) (all_metrics ms) \<and>
   length (RemoveFlakyMetrics ms names) = length ms \<and>
   (containsMetric (RemoveFlakyMetrics ms names) n \<longleftrightarrow> containsMetric ms n \<and> n \<notin> set names)"
proof -
  have a: "all_metrics (RemoveFlakyMetrics ms names) =
      filter (\<lambda>m. metric_name m \<notin> set names) (all_metrics ms)"
    by (simp add: RemoveFlakyMetrics_def all_metrics_filter name_in_iff)
  then show ?thesis
    by (auto simp: containsMetric_iff RemoveFlakyMetrics_def map_scopes_def)
qed

text \<open>
  The list of metric names holds every name of the payload once, in whatever order the
  runtime iterates over the set.
\<close>

theorem GetMetricNames_distinct:
  assumes "\<And>xs. mset (range_keys xs) = mset xs"
  shows "distinct (GetMetricNames range_keys ms) \<and>
     (n \<in> set (GetMetricNames range_keys ms) \<longleftrightarrow> containsMetric ms n)"
proof -
  let ?names = "remdups (map metric_name (all_metrics ms))"
  have "set (range_keys ?names) = set ?names" using assms by (metis set_mset_mset)
  moreover have "distinct (range_keys ?names)"
    using assms [of ?names] by (metis distinct_remdups mset_eq_imp_distinct_iff)
  ultimately show ?thesis by (simp add: GetMetricNames_def containsMetric_iff)
qed

definition sample_metrics :: metrics where
  "sample_metrics =
     [\<lparr>rm_attributes = [], rm_rest = [], rm_scopes =
        [\<lparr>sm_rest = [], sm_metrics =
           [\<lparr>metric_name = ''a'', metric_rest = [], metric_data = Gauge []\<rparr>,
            \<lparr>metric_name = ''b'', metric_rest = [], metric_data = Sum []\<rparr>,
            \<lparr>metric_name = ''a'', metric_rest = [], metric_data = NoData\<rparr>]\<rparr>]\<rparr>]"

theorem GetMetricNames_distinct_witness:
  "distinct (GetMetricNames rev sample_metrics) \<and>
     (''b'' \<in> set (GetMetricNames rev sample_metrics) \<longleftrightarrow> containsMetric sample_metrics ''b'') \<and>
     containsMetric sample_metrics ''b''"
proof -
  have "mset (rev xs) = mset xs" for xs :: "string list" by simp
  from GetMetricNames_distinct [of rev, OF this] show ?thesis
    by (simp add: sample_metrics_def containsMetric_def)
qed

text \<open>
  A histogram comparison succeeds exactly when no data point on either side has more than 32
  buckets, both sides have a data point, and every actual point has one bucket more than bounds
  and, pairwise equal as floats, the bounds of the first expected point.
\<close>

theorem CompareHistograms_ok:
  "CompareHistograms expected actual = None \<longleftrightarrow>
     list_all (\<lambda>dp. length (dp_counts dp) \<le> 32) (expected @ actual) \<and>
     actual \<noteq> [] \<and>
     (\<exists>e rest. expected = e # rest \<and>
        list_all (\<lambda>dp. list_all2 f64_eq (dp_bounds e) (dp_bounds dp) \<and>
          length (dp_counts dp) = length (dp_bounds dp) + 1) actual)"
proof -
  have "CompareHistograms expected actual = None \<longleftrightarrow>
      CheckHistogramBucketCount expected = None \<and> CheckHistogramBucketCount actual = None \<and>
      CompareHistogramBuckets expected actual = None"
    by (auto simp: CompareHistograms_def split: option.splits)
  then show ?thesis
    by (cases expected)
      (auto simp: CheckHistogramBucketCount_None CompareHistogramBuckets_def compare_points_None
        maxHistogramBucketCount_def)
qed

text \<open>Exponential histograms are not reduced.\<close>

lemma ReduceDatapoints_exponential:
  "reduce_data n (ExponentialHistogram ds) = ExponentialHistogram ds"
  by simp

text \<open>A histogram with a NaN bound differs from itself.\<close>

lemma CompareHistograms_nan:
  "CompareHistograms
     [\<lparr>dp_attributes = [], dp_bounds = [0x7FF8000000000000], dp_counts = [0, 0], dp_rest = []\<rparr>]
     [\<lparr>dp_attributes = [], dp_bounds = [0x7FF8000000000000], dp_counts = [0, 0], dp_rest = []\<rparr>] =
   Some (BoundMismatch 0 0x7FF8000000000000 0x7FF8000000000000)"
  by code_simp

end
