(* ===== verification/MetricSelect.thy ===== *)
theory MetricSelect
  imports DataProcessing
begin

section \<open>Choosing a payload from a sink\<close>

text \<open>
  Model of \<open>SelectMetricSet\<close> and \<open>SelectMetricSetWithTimeout\<close> of
  \<open>functional_tests/internal/common.go\<close> and of \<open>selectMetricSetByCounts\<close>, \<open>richestMetricSet\<close> and
  \<open>selectMetricSetByCountsWithTimeout\<close> of \<open>metricassert.go\<close>. A sink is the list of the payloads
  received so far, oldest first, and a pointer into it is an index. (The sinks only append, so
  that re-reading \<open>AllMetrics()\<close> inside a loop gives the same payload at the same index.)
\<close>

subsection \<open>One scan of the sink\<close>

text \<open>\<open>for h := len(metrics) - 1; h >= 0; h--\<close>: the last argument is \<open>h + 1\<close>.\<close>

fun by_counts_scan :: "string \<Rightarrow> nat \<Rightarrow> nat \<Rightarrow> metrics list \<Rightarrow> nat \<Rightarrow> nat option" where
  "by_counts_scan target wantResources wantMetrics ms 0 = None"
| "by_counts_scan target wantResources wantMetrics ms (Suc h) =
     (let m = ms ! h
      in if \<not> containsMetric m target then by_counts_scan target wantResources wantMetrics ms h
         else if length m = wantResources \<and> MetricCount m = wantMetrics then Some h
         else by_counts_scan target wantResources wantMetrics ms h)"

definition selectMetricSetByCounts :: "string \<Rightarrow> metrics list \<Rightarrow> nat \<Rightarrow> nat \<Rightarrow> nat option" where
  "selectMetricSetByCounts target ms wantResources wantMetrics =
     by_counts_scan target wantResources wantMetrics ms (length ms)"

text \<open>The best index (\<^const>\<open>None\<close> for \<open>-1\<close>) and the best count, which starts at \<open>-1\<close>.\<close>

fun richest_scan :: "string \<Rightarrow> metrics list \<Rightarrow> nat \<Rightarrow> nat option \<times> int \<Rightarrow> nat option \<times> int" where
  "richest_scan target ms 0 best = best"
| "richest_scan target ms (Suc h) (bestIndex, bestCount) =
     (let m = ms ! h
      in if \<not> containsMetric m target then richest_scan target ms h (bestIndex, bestCount)
         else if int (MetricCount m) > bestCount
         then richest_scan target ms h (Some h, int (MetricCount m))
         else richest_scan target ms h (bestIndex, bestCount))"

definition richestMetricSet :: "string \<Rightarrow> metrics list \<Rightarrow> nat option" where
  "richestMetricSet target ms = fst (richest_scan target ms (length ms) (None, -1))"

text \<open>The older helper does both in one scan, which stops at an exact match.\<close>

fun select_set_scan ::
  "metrics \<Rightarrow> string \<Rightarrow> metrics list \<Rightarrow> nat \<Rightarrow> nat option \<times> int \<Rightarrow> nat option \<times> nat option"
where
  "select_set_scan expected target ms 0 (fallback, fallbackCount) = (None, fallback)"
| "select_set_scan expected target ms (Suc h) (fallback, fallbackCount) =
     (let m = ms ! h
      in if \<not> containsMetric m target
         then select_set_scan expected target ms h (fallback, fallbackCount)
         else if length m = length expected \<and> MetricCount m = MetricCount expected
         then (Some h, fallback)
         else if int (MetricCount m) > fallbackCount
         then select_set_scan expected target ms h (Some h, int (MetricCount m))
         else select_set_scan expected target ms h (fallback, fallbackCount))"

definition SelectMetricSet :: "metrics \<Rightarrow> string \<Rightarrow> metrics list \<Rightarrow> nat option \<times> bool" where
  "SelectMetricSet expected target ms =
     (case select_set_scan expected target ms (length ms) (None, -1) of
        (Some h, _) \<Rightarrow> (Some h, True)
      | (None, fallback) \<Rightarrow> (fallback, False))"

subsection \<open>Polling a sink until a deadline\<close>

text \<open>
  The environment of a polling loop: \<open>clock i\<close> is the reading of \<open>time.Now()\<close> by the loop
  condition of the \<open>i\<close>-th turn and \<open>sink i\<close> what the sink holds from then until the next turn.
  A loop that never sees its deadline does not return, which is \<^const>\<open>None\<close>; otherwise the
  result has the number of the last turn and what the attempt found there, if it did.
\<close>

partial_function (option) poll_until ::
  "(nat \<Rightarrow> int) \<Rightarrow> int \<Rightarrow> (nat \<Rightarrow> 'r option) \<Rightarrow> nat \<Rightarrow> (nat \<times> 'r option) option"
where
  "poll_until clock deadline attempt i =
     (if clock i < deadline
      then (case attempt i of
              Some r \<Rightarrow> Some (i, Some r)
            | None \<Rightarrow> poll_until clock deadline attempt (Suc i))
      else Some (i, None))"

text \<open>What a selection ends with: a payload and the exact-match flag, or a failed test.\<close>

datatype selection = Selected metrics bool | NoPayload

definition selectMetricSetByCountsWithTimeout ::
  "(nat \<Rightarrow> int) \<Rightarrow> (nat \<Rightarrow> metrics list) \<Rightarrow> int \<Rightarrow> int \<Rightarrow> string \<Rightarrow> nat \<Rightarrow> nat \<Rightarrow> selection option"
where
  "selectMetricSetByCountsWithTimeout clock sink now timeout target wantResources wantMetrics =
     (case poll_until clock (now + timeout)
         (\<lambda>i. selectMetricSetByCounts target (sink i) wantResources wantMetrics) 0 of
        None \<Rightarrow> None
      | Some (i, Some h) \<Rightarrow> Some (Selected (sink i ! h) True)
      | Some (i, None) \<Rightarrow>
          Some (case richestMetricSet target (sink i) of
                  Some h \<Rightarrow> Selected (sink i ! h) False
                | None \<Rightarrow> NoPayload))"

text \<open>The attempt of the older loop succeeds on an exact match only; a last one follows it.\<close>

definition exact_only :: "nat option \<times> bool \<Rightarrow> nat option" where
  "exact_only r = (case r of (Some h, True) \<Rightarrow> Some h | _ \<Rightarrow> None)"

definition SelectMetricSetWithTimeout ::
  "(nat \<Rightarrow> int) \<Rightarrow> (nat \<Rightarrow> metrics list) \<Rightarrow> int \<Rightarrow> int \<Rightarrow> metrics \<Rightarrow> string \<Rightarrow> selection option"
where
  "SelectMetricSetWithTimeout clock sink now timeout expected target =
     (case poll_until clock (now + timeout)
         (\<lambda>i. exact_only (SelectMetricSet expected target (sink i))) 0 of
        None \<Rightarrow> None
      | Some (i, Some h) \<Rightarrow> Some (Selected (sink i ! h) True)
      | Some (i, None) \<Rightarrow>
          Some (case SelectMetricSet expected target (sink i) of
                  (Some h, exact) \<Rightarrow> Selected (sink i ! h) exact
                | (None, _) \<Rightarrow> NoPayload))"

section \<open>Facts about the selection\<close>

definition count_match :: "string \<Rightarrow> nat \<Rightarrow> nat \<Rightarrow> metrics \<Rightarrow> bool" where
  "count_match target r c m = (containsMetric m target \<and> length m = r \<and> MetricCount m = c)"

lemma by_counts_scan_None:
  "by_counts_scan target r c ms n = None \<longleftrightarrow> (\<forall>k < n. \<not> count_match target r c (ms ! k))"
  by (induction n) (auto simp: count_match_def Let_def less_Suc_eq)

lemma by_counts_scan_Some:
  "by_counts_scan target r c ms n = Some h \<longleftrightarrow>
     h < n \<and> count_match target r c (ms ! h) \<and>
     (\<forall>k. h < k \<and> k < n \<longrightarrow> \<not> count_match target r c (ms ! k))"
proof (induction n)
  case (Suc n)
  show ?case
  proof (cases "count_match target r c (ms ! n)")
    case True
    then have "by_counts_scan target r c ms (Suc n) = Some n"
      by (simp add: count_match_def)
    with True show ?thesis by (auto simp: less_Suc_eq)
  next
    case False
    then have "by_counts_scan target r c ms (Suc n) = by_counts_scan target r c ms n"
      by (auto simp: count_match_def Let_def)
    with False Suc show ?thesis by (auto simp: less_Suc_eq)
  qed
qed simp

text \<open>
  The invariant of the richest scan: \<open>best\<close> is the answer for the payloads from \<open>n\<close> on.
\<close>

definition best_from :: "string \<Rightarrow> metrics list \<Rightarrow> nat \<Rightarrow> nat option \<times> int \<Rightarrow> bool" where
  "best_from target ms n best \<longleftrightarrow>
     (case best of
        (None, c) \<Rightarrow> c = -1 \<and> (\<forall>k. n \<le> k \<and> k < length ms \<longrightarrow> \<not> containsMetric (ms ! k) target)
      | (Some h, c) \<Rightarrow>
          n \<le> h \<and> h < length ms \<and> containsMetric (ms ! h) target \<and> c = int (MetricCount (ms ! h)) \<and>
          (\<forall>k. n \<le> k \<and> k < length ms \<and> containsMetric (ms ! k) target \<longrightarrow>
             int (MetricCount (ms ! k)) \<le> c \<and> (h < k \<longrightarrow> int (MetricCount (ms ! k)) < c)))"

lemma best_from_step:
  assumes "best_from target ms (Suc h) (b, c)" and "h < length ms"
  shows "best_from target ms h
     (if \<not> containsMetric (ms ! h) target then (b, c)
      else if int (MetricCount (ms ! h)) > c then (Some h, int (MetricCount (ms ! h))) else (b, c))"
proof -
  have le: "h \<le> k \<longleftrightarrow> k = h \<or> Suc h \<le> k" for k by auto
  show ?thesis
    using assms by (cases b) (auto simp: best_from_def le order_le_less_trans)
qed

lemma richest_scan_best:
  "best_from target ms n best \<Longrightarrow> n \<le> length ms \<Longrightarrow>
     best_from target ms 0 (richest_scan target ms n best)"
proof (induction n arbitrary: best)
  case (Suc h)
  obtain b c where best: "best = (b, c)" by (cases best)
  let ?next = "if \<not> containsMetric (ms ! h) target then (b, c)
      else if int (MetricCount (ms ! h)) > c then (Some h, int (MetricCount (ms ! h))) else (b, c)"
  have "best_from target ms h ?next" using Suc.prems best by (intro best_from_step) auto
  then have "best_from target ms 0 (richest_scan target ms h ?next)"
    using Suc.prems by (intro Suc.IH) auto
  then show ?case by (simp add: best Let_def split: if_splits)
qed simp

lemma richest_best: "best_from target ms 0 (richest_scan target ms (length ms) (None, -1))"
  by (rule richest_scan_best) (auto simp: best_from_def)

text \<open>While the scan has met no exact match, its fallback is the best of the richest scan.\<close>

lemma select_set_scan_eq:
  "select_set_scan expected target ms n best =
     (case by_counts_scan target (length expected) (MetricCount expected) ms n of
        Some h \<Rightarrow> (Some h, snd (select_set_scan expected target ms n best))
      | None \<Rightarrow> (None, fst (richest_scan target ms n best)))"
  by (induction n arbitrary: best) (auto simp: Let_def split: option.splits)

subsection \<open>The polling loop\<close>

lemma poll_until_returns:
  assumes "deadline \<le> clock k" and "i \<le> k"
  shows "\<exists>j r. poll_until clock deadline attempt i = Some (j, r) \<and> i \<le> j \<and> j \<le> k"
  using assms(2)
proof (induction "k - i" arbitrary: i)
  case 0
  with assms(1) show ?case by (subst poll_until.simps) auto
next
  case (Suc d)
  then have "i < k" by simp
  then have "d = k - Suc i" "Suc i \<le> k" using Suc.hyps(2) by auto
  from Suc.hyps(1) [OF this] obtain j r where
    "poll_until clock deadline attempt (Suc i) = Some (j, r)" "Suc i \<le> j" "j \<le> k" by blast
  then show ?case
    using \<open>i < k\<close> by (subst poll_until.simps) (auto split: option.split)
qed

lemma poll_until_result:
  assumes "poll_until clock deadline attempt i = Some (j, r)"
  shows "i \<le> j \<and> (\<forall>k. i \<le> k \<and> k < j \<longrightarrow> clock k < deadline \<and> attempt k = None) \<and>
     (case r of Some x \<Rightarrow> clock j < deadline \<and> attempt j = Some x | None \<Rightarrow> deadline \<le> clock j)"
proof -
  let ?P = "\<lambda>(c :: nat \<Rightarrow> int) d a i jr. i \<le> fst jr \<and> (\<forall>k. i \<le> k \<and> k < fst jr \<longrightarrow> c k < d \<and> a k = None) \<and>
     (case snd jr of Some x \<Rightarrow> c (fst jr) < d \<and> a (fst jr) = Some x | None \<Rightarrow> d \<le> c (fst jr))"
  have "?P clock deadline attempt i (j, r)"
  proof (rule poll_until.raw_induct [where P = ?P, OF _ assms])
    fix f and c :: "nat \<Rightarrow> int" and d a i jr
    assume IH: "\<And>c d a i jr. f c d a i = Some jr \<Longrightarrow> ?P c d a i jr"
      and eq: "(if c i < d then case a i of None \<Rightarrow> f c d a (Suc i) | Some r \<Rightarrow> Some (i, Some r)
         else Some (i, None)) = Some jr"
    show "?P c d a i jr"
    proof (cases "c i < d \<and> a i = None")
      case True
      with eq have "?P c d a (Suc i) jr" using IH by auto
      moreover have "i \<le> k \<longleftrightarrow> k = i \<or> Suc i \<le> k" for k by auto
      ultimately show ?thesis using True by (auto split: option.splits)
    next
      case False
      with eq show ?thesis by (auto split: option.splits if_splits)
    qed
  qed
  then show ?thesis by (simp cong: option.case_cong)
qed

text \<open>\<open>time.Sleep(interval)\<close> between two readings: the clock advances by at least the interval.\<close>

definition clock_advances :: "(nat \<Rightarrow> int) \<Rightarrow> int \<Rightarrow> bool" where
  "clock_advances clock interval \<longleftrightarrow> (\<forall>i. clock i + interval \<le> clock (Suc i))"

lemma clock_reaches:
  assumes "clock_advances clock interval" and "0 < interval"
  shows "\<exists>k. deadline \<le> clock k"
proof -
  have "clock 0 + int k * interval \<le> clock k" for k
  proof (induction k)
    case (Suc k)
    with assms(1) have "clock k + interval \<le> clock (Suc k)" by (simp add: clock_advances_def)
    with Suc show ?case by (simp add: algebra_simps)
  qed simp
  moreover have "deadline \<le> clock 0 + int (nat (deadline - clock 0)) * interval"
  proof (cases "deadline \<le> clock 0")
    case False
    define x where "x = deadline - clock 0"
    with False have "0 \<le> x" and e: "deadline = clock 0 + x" by simp_all
    then have "x * 1 \<le> x * interval" using assms(2) by (intro mult_left_mono) auto
    then show ?thesis using \<open>0 \<le> x\<close> by (simp add: e)
  qed simp
  ultimately show ?thesis by (meson order_trans)
qed

section \<open>Properties\<close>

text \<open>
  The count selection returns the newest payload that holds the target metric and has the
  wanted numbers of resources and metrics: it matches, and no later payload does.
\<close>

theorem selectMetricSetByCounts_newest:
  "selectMetricSetByCounts target ms r c = Some h \<longleftrightarrow>
     h < length ms \<and> count_match target r c (ms ! h) \<and>
     list_all (\<lambda>m. \<not> count_match target r c m) (drop (Suc h) ms)"
  unfolding selectMetricSetByCounts_def by_counts_scan_Some list_all_drop Suc_le_eq ..

text \<open>
  The richest payload: none is returned only if no payload holds the target metric; else the
  returned one holds it, no payload with it has more metrics, and every later one has fewer.
\<close>

theorem richestMetricSet_best:
  "case richestMetricSet target ms of
     None \<Rightarrow> \<forall>m \<in> set ms. \<not> containsMetric m target
   | Some h \<Rightarrow> h < length ms \<and> containsMetric (ms ! h) target \<and>
       (\<forall>k < length ms. containsMetric (ms ! k) target \<longrightarrow>
          MetricCount (ms ! k) \<le> MetricCount (ms ! h) \<and>
          (h < k \<longrightarrow> MetricCount (ms ! k) < MetricCount (ms ! h)))"
proof -
  obtain b c where bc: "richest_scan target ms (length ms) (None, -1) = (b, c)"
    by (cases "richest_scan target ms (length ms) (None, -1)")
  with richest_best [of target ms] have "best_from target ms 0 (b, c)" by simp
  then show ?thesis
    by (cases b) (auto simp: best_from_def richestMetricSet_def bc in_set_conv_nth)
qed

theorem richestMetricSet_best_witness:
  "richestMetricSet ''a'' [sample_metrics, [], sample_metrics] = Some 2 \<and>
   MetricCount ([sample_metrics, [], sample_metrics] ! 1) \<le>
     MetricCount ([sample_metrics, [], sample_metrics] ! 2)"
proof -
  have r: "richestMetricSet ''a'' [sample_metrics, [], sample_metrics] = Some 2" by code_simp
  then have "\<forall>k < 3. containsMetric ([sample_metrics, [], sample_metrics] ! k) ''a'' \<longrightarrow>
      MetricCount ([sample_metrics, [], sample_metrics] ! k) \<le>
      MetricCount ([sample_metrics, [], sample_metrics] ! 2)"
    using richestMetricSet_best [where target = "''a''" and ms = "[sample_metrics, [], sample_metrics]"]
    by (simp add: numeral_eq_Suc)
  then show ?thesis using r by (simp add: MetricCount_def)
qed

text \<open>The selected payload between the older and the newer ones.\<close>

lemma selectMetricSetByCounts_None:
  "selectMetricSetByCounts target ms r c = None \<longleftrightarrow>
     (\<forall>m \<in> set ms. \<not> (containsMetric m target \<and> length m = r \<and> MetricCount m = c))"
  by (simp add: selectMetricSetByCounts_def by_counts_scan_None count_match_def all_set_conv_all_nth)

lemma selectMetricSetByCounts_split:
  assumes "selectMetricSetByCounts target ms r c = Some h"
  shows "containsMetric (ms ! h) target \<and> length (ms ! h) = r \<and> MetricCount (ms ! h) = c \<and>
    (\<exists>older newer. ms = older @ ms ! h # newer \<and>
       (\<forall>m' \<in> set newer. \<not> (containsMetric m' target \<and> length m' = r \<and> MetricCount m' = c)))"
proof -
  have h: "h < length ms" "count_match target r c (ms ! h)" "list_all (\<lambda>m. \<not> count_match target r c m) (drop (Suc h) ms)"
    using assms by (simp_all add: selectMetricSetByCounts_newest)
  have "ms = take h ms @ ms ! h # drop (Suc h) ms" using h(1) by (rule id_take_nth_drop)
  with h(2,3) show ?thesis unfolding count_match_def list_all_iff by blast
qed

lemma richestMetricSet_split:
  assumes "richestMetricSet target ms = Some h"
  shows "containsMetric (ms ! h) target \<and>
    (\<exists>older newer. ms = older @ ms ! h # newer \<and>
       (\<forall>m' \<in> set older. containsMetric m' target \<longrightarrow> MetricCount m' \<le> MetricCount (ms ! h)) \<and>
       (\<forall>m' \<in> set newer. containsMetric m' target \<longrightarrow> MetricCount m' < MetricCount (ms ! h)))"
proof -
  have h: "h < length ms" "containsMetric (ms ! h) target"
    "\<And>k. k < length ms \<Longrightarrow> containsMetric (ms ! k) target \<Longrightarrow>
       MetricCount (ms ! k) \<le> MetricCount (ms ! h) \<and> (h < k \<longrightarrow> MetricCount (ms ! k) < MetricCount (ms ! h))"
    using richest_best [of target ms] assms unfolding richestMetricSet_def
    by (auto simp: best_from_def split: prod.splits option.splits)
  have "ms = take h ms @ ms ! h # drop (Suc h) ms" using h(1) by (rule id_take_nth_drop)
  moreover have "MetricCount m' \<le> MetricCount (ms ! h)" if "m' \<in> set (take h ms)" "containsMetric m' target" for m'
    using that h(1,3) by (auto simp: in_set_conv_nth)
  moreover have "MetricCount m' < MetricCount (ms ! h)" if "m' \<in> set (drop (Suc h) ms)" "containsMetric m' target" for m'
    using that h(3) by (auto simp: in_set_conv_nth)
  ultimately show ?thesis using h(2) by blast
qed

text \<open>
  C37: the two generations of helpers agree: the single scan of \<open>SelectMetricSet\<close> returns the
  exact match of the count selection, or, if there is none, the richest payload, not flagged as
  exact.
\<close>

theorem SelectMetricSet_refines:
  "SelectMetricSet expected target ms =
     (case selectMetricSetByCounts target ms (length expected) (MetricCount expected) of
        Some h \<Rightarrow> (Some h, True)
      | None \<Rightarrow> (richestMetricSet target ms, False))"
  by (subst SelectMetricSet_def, subst select_set_scan_eq)
    (auto simp: selectMetricSetByCounts_def richestMetricSet_def split: option.splits)

text \<open>
  C22: waiting for a payload returns, whatever the sink does, as long as the clock advances between
  two turns. In no turn before the last one did the sink hold a payload with the target metric and the wanted numbers of resources and metrics.
  A result flagged as exact is the newest such payload of the last turn, which is before
  the deadline. An inexact one was taken at the deadline from the payloads with the target metric: none of them has more metrics, and every
  later one has fewer. The test fails only if no payload holds the target metric then.
\<close>

theorem selectMetricSetByCountsWithTimeout_returns:
  assumes "clock_advances clock interval" and "0 < interval"
  shows "\<exists>i res. selectMetricSetByCountsWithTimeout clock sink now timeout target r c = Some res \<and>
     (\<forall>k < i. clock k < now + timeout \<and> (\<forall>m \<in> set (sink k). \<not> (containsMetric m target \<and> length m = r \<and> MetricCount m = c))) \<and>
     (case res of
        Selected m True \<Rightarrow> clock i < now + timeout \<and> containsMetric m target \<and> length m = r \<and> MetricCount m = c \<and>
          (\<exists>older newer. sink i = older @ m # newer \<and>
             (\<forall>m' \<in> set newer. \<not> (containsMetric m' target \<and> length m' = r \<and> MetricCount m' = c)))
      | Selected m False \<Rightarrow> now + timeout \<le> clock i \<and> containsMetric m target \<and>
          (\<exists>older newer. sink i = older @ m # newer \<and>
             (\<forall>m' \<in> set older. containsMetric m' target \<longrightarrow> MetricCount m' \<le> MetricCount m) \<and>
             (\<forall>m' \<in> set newer. containsMetric m' target \<longrightarrow> MetricCount m' < MetricCount m))
      | NoPayload \<Rightarrow> now + timeout \<le> clock i \<and> (\<forall>m \<in> set (sink i). \<not> containsMetric m target))"
proof -
  let ?attempt = "\<lambda>i. selectMetricSetByCounts target (sink i) r c"
  obtain k where "now + timeout \<le> clock k" using clock_reaches [OF assms] by blast
  then obtain j x where p: "poll_until clock (now + timeout) ?attempt 0 = Some (j, x)"
    using poll_until_returns [of "now + timeout" clock k 0] by blast
  note q = poll_until_result [OF p]
  have before: "\<forall>k < j. clock k < now + timeout \<and> (\<forall>m \<in> set (sink k). \<not> (containsMetric m target \<and> length m = r \<and> MetricCount m = c))"
    using q by (simp add: selectMetricSetByCounts_None)
  show ?thesis
  proof (cases x)
    case (Some h)
    with q have h: "clock j < now + timeout" "selectMetricSetByCounts target (sink j) r c = Some h" by auto
    from p Some have "selectMetricSetByCountsWithTimeout clock sink now timeout target r c = Some (Selected (sink j ! h) True)"
      by (simp add: selectMetricSetByCountsWithTimeout_def)
    with before h(1) selectMetricSetByCounts_split [OF h(2)] show ?thesis
      by (intro exI [of _ j] exI [of _ "Selected (sink j ! h) True"]) simp
  next
    case None
    with q have late: "now + timeout \<le> clock j" by simp
    show ?thesis
    proof (cases "richestMetricSet target (sink j)")
      case b: None
      with None p have "selectMetricSetByCountsWithTimeout clock sink now timeout target r c = Some NoPayload"
        by (simp add: selectMetricSetByCountsWithTimeout_def)
      with before late b richestMetricSet_best [where target = target and ms = "sink j"] show ?thesis
        by (intro exI [of _ j] exI [of _ NoPayload]) simp
    next
      case (Some h)
      with None p have "selectMetricSetByCountsWithTimeout clock sink now timeout target r c = Some (Selected (sink j ! h) False)"
        by (simp add: selectMetricSetByCountsWithTimeout_def)
      with before late richestMetricSet_split [OF Some] show ?thesis
        by (intro exI [of _ j] exI [of _ "Selected (sink j ! h) False"]) simp
    qed
  qed
qed

theorem selectMetricSetByCountsWithTimeout_returns_witness:
  "\<exists>res. selectMetricSetByCountsWithTimeout (\<lambda>i. int i * 5)
      (\<lambda>i. if i < 2 then [] else [sample_metrics]) 0 60 ''a'' 1 3 = Some res"
proof -
  have "clock_advances (\<lambda>i. int i * 5) 5" by (simp add: clock_advances_def)
  then show ?thesis
    using selectMetricSetByCountsWithTimeout_returns [of "\<lambda>i. int i * 5" 5] by fastforce
qed

end
