(* ===== verification/AssertDoc.thy ===== *)
theory AssertDoc
  imports GoNumbers GoSort GoFiles
begin

section \<open>Assertion documents\<close>

text \<open>
  Model of the YAML rewriting in \<open>functional_tests/internal/metricassert.go\<close>: \<open>assertionSlice\<close>,
  \<open>assertionExpectedCounts\<close>, \<open>markAttrs\<close>, \<open>markNonIdentityAttrs\<close> and \<open>markFlexibleAttrs\<close>. A decoded
  document is a tree of Go values; a Go map is an association list with distinct keys, and
  a missing key reads as nil. A function that mutates a nested map returns the new value. The
  YAML codec (package \<open>yaml.v3\<close>) is the pair of fields of \<open>yaml_codec\<close>.
\<close>

datatype yaml =
    YNil
  | YBool bool
  | YStr string
  | YScalar string \<comment> \<open>any other scalar, by its text\<close>
  | YList "yaml list"
  | YMap "(string \<times> yaml) list"

type_synonym ymap = "(string \<times> yaml) list"

record yaml_codec =
  yaml_unmarshal :: "string \<Rightarrow> ymap result"
  yaml_marshal :: "ymap \<Rightarrow> string result"

definition ylookup :: "ymap \<Rightarrow> string \<Rightarrow> yaml" where
  "ylookup m k = (case map_of m k of Some v \<Rightarrow> v | None \<Rightarrow> YNil)"

text \<open>A nested value was mutated in place: it is put back only if the key is there.\<close>

definition yreplace :: "string \<Rightarrow> yaml \<Rightarrow> ymap \<Rightarrow> ymap" where
  "yreplace k v m = (if map_of m k = None then m else AList.update k v m)"

definition parse_error :: "string \<Rightarrow> string \<Rightarrow> string" where
  "parse_error file msg = ''parse assertion file '' @ file @ '': '' @ msg"

definition indexed :: "string \<Rightarrow> nat \<Rightarrow> string" where
  "indexed name i = name @ ''['' @ nat_digits i @ '']''"

definition resource_path :: "nat \<Rightarrow> string" where
  "resource_path i = indexed ''resources'' i"

definition scope_path :: "nat \<Rightarrow> nat \<Rightarrow> string" where
  "scope_path i j = resource_path i @ indexed ''.scopes'' j"

definition metric_path :: "nat \<Rightarrow> nat \<Rightarrow> nat \<Rightarrow> string" where
  "metric_path i j k = scope_path i j @ indexed ''.metrics'' k"

definition datapoint_path :: "nat \<Rightarrow> nat \<Rightarrow> nat \<Rightarrow> nat \<Rightarrow> string" where
  "datapoint_path i j k l = metric_path i j k @ indexed ''.datapoints'' l"

subsection \<open>Expected counts\<close>

definition assertionSlice :: "string \<Rightarrow> string \<Rightarrow> yaml \<Rightarrow> yaml list result" where
  "assertionSlice file path v =
     (case v of YList s \<Rightarrow> Inr s | _ \<Rightarrow> Inl (parse_error file (path @ '' must be a list'')))"

definition read_document :: "yaml_codec \<Rightarrow> fs \<Rightarrow> string \<Rightarrow> ymap result" where
  "read_document codec d file =
     bind_res (wrap_err (''read assertion file '' @ file @ '': '') (ReadFile d file)) (\<lambda>b.
       wrap_err (''parse assertion file '' @ file @ '': '') (yaml_unmarshal codec b))"

definition count_scope :: "string \<Rightarrow> nat \<Rightarrow> nat \<Rightarrow> yaml \<Rightarrow> nat result" where
  "count_scope file i j s =
     (case s of
        YMap sm \<Rightarrow>
          bind_res (assertionSlice file (scope_path i j @ ''.metrics'') (ylookup sm ''metrics''))
            (\<lambda>ms. Inr (length ms))
      | _ \<Rightarrow> Inl (parse_error file (scope_path i j @ '' must be a map'')))"

definition count_resource :: "string \<Rightarrow> nat \<Rightarrow> yaml \<Rightarrow> nat result" where
  "count_resource file i r =
     (case r of
        YMap rm \<Rightarrow>
          bind_res (assertionSlice file (resource_path i @ ''.scopes'') (ylookup rm ''scopes''))
            (\<lambda>scopes. bind_res (imapM (count_scope file i) 0 scopes) (\<lambda>ns. Inr (sum_list ns)))
      | _ \<Rightarrow> Inl (parse_error file (resource_path i @ '' must be a map'')))"

definition count_document :: "string \<Rightarrow> ymap \<Rightarrow> (nat \<times> nat) result" where
  "count_document file doc =
     bind_res (assertionSlice file ''resources'' (ylookup doc ''resources'')) (\<lambda>res.
     bind_res (imapM (count_resource file) 0 res) (\<lambda>ns.
       if length res = 0 \<or> sum_list ns = 0
       then Inl (parse_error file ''expected at least one resource and metric'')
       else Inr (length res, sum_list ns)))"

definition assertionExpectedCounts :: "yaml_codec \<Rightarrow> fs \<Rightarrow> string \<Rightarrow> (nat \<times> nat) result" where
  "assertionExpectedCounts codec d file =
     bind_res (read_document codec d file) (count_document file)"

subsection \<open>Marking attributes\<close>

text \<open>
  Both marking functions walk the sorted keys of an attribute map, skip the keys that already
  end in \<open>/exists\<close> or \<open>/regex\<close>, and move some of the others to a suffixed key with a new value.
  \<open>decide\<close> says which: the suffix and the value, or \<^const>\<open>None\<close> for a key that stays.
\<close>

definition marked :: "string \<Rightarrow> bool" where
  "marked k = (has_suffix k ''/exists'' \<or> has_suffix k ''/regex'')"

definition mark_key :: "(string \<Rightarrow> (string \<times> yaml) option) \<Rightarrow> ymap \<Rightarrow> string \<Rightarrow> ymap" where
  "mark_key decide m k =
     (if marked k then m
      else
        (case decide k of
           Some (sfx, v) \<Rightarrow> AList.update (k @ sfx) v (AList.delete k m)
         | None \<Rightarrow> m))"

definition mark_keys :: "(string \<Rightarrow> (string \<times> yaml) option) \<Rightarrow> ymap \<Rightarrow> ymap" where
  "mark_keys decide m = foldl (mark_key decide) m (sort_strings (map fst m))"

definition mark_value ::
  "(string \<Rightarrow> (string \<times> yaml) option) \<Rightarrow> string \<Rightarrow> string \<Rightarrow> yaml \<Rightarrow> yaml result"
where
  "mark_value decide file path attrs =
     (case attrs of
        YNil \<Rightarrow> Inr YNil
      | YMap m \<Rightarrow> Inr (YMap (mark_keys decide m))
      | _ \<Rightarrow> Inl (parse_error file (path @ '' must be a map'')))"

definition flexible_decide ::
  "string list \<Rightarrow> (string \<times> string) list \<Rightarrow> string \<Rightarrow> (string \<times> yaml) option"
where
  "flexible_decide vol regex k =
     (case map_of regex k of
        Some pattern \<Rightarrow> Some (''/regex'', YStr pattern)
      | None \<Rightarrow> if k \<in> set vol then Some (''/exists'', YBool True) else None)"

definition identity_decide :: "string list \<Rightarrow> string \<Rightarrow> (string \<times> yaml) option" where
  "identity_decide exact k = (if k \<in> set exact then None else Some (''/exists'', YBool True))"

definition markAttrs ::
  "string \<Rightarrow> string \<Rightarrow> yaml \<Rightarrow> string list \<Rightarrow> (string \<times> string) list \<Rightarrow> yaml result"
where
  "markAttrs file path attrs vol regex = mark_value (flexible_decide vol regex) file path attrs"

definition markNonIdentityAttrs :: "string \<Rightarrow> string \<Rightarrow> yaml \<Rightarrow> string list \<Rightarrow> yaml result" where
  "markNonIdentityAttrs file path attrs exact = mark_value (identity_decide exact) file path attrs"

subsection \<open>Marking a document\<close>

record marking =
  mk_volatile :: "string list"
  mk_regex :: "(string \<times> string) list"
  mk_version :: string
  mk_exact :: "string list option"

definition mark_datapoint :: "marking \<Rightarrow> string \<Rightarrow> nat \<Rightarrow> nat \<Rightarrow> nat \<Rightarrow> nat \<Rightarrow> yaml \<Rightarrow> yaml result" where
  "mark_datapoint mk file i j k l dp =
     (case dp of
        YMap dpMap \<Rightarrow>
          (let attrsPath = datapoint_path i j k l @ ''.attributes''
           in bind_res (markAttrs file attrsPath (ylookup dpMap ''attributes'') (mk_volatile mk) (mk_regex mk))
             (\<lambda>a. bind_res (case mk_exact mk of
                 None \<Rightarrow> Inr a
               | Some exact \<Rightarrow> markNonIdentityAttrs file attrsPath a exact)
             (\<lambda>a'. Inr (YMap (yreplace ''attributes'' a' dpMap)))))
      | _ \<Rightarrow> Inl (parse_error file (datapoint_path i j k l @ '' must be a map'')))"

definition mark_metric :: "marking \<Rightarrow> string \<Rightarrow> nat \<Rightarrow> nat \<Rightarrow> nat \<Rightarrow> yaml \<Rightarrow> yaml result" where
  "mark_metric mk file i j k m =
     (case m of
        YMap metricMap \<Rightarrow>
          (case ylookup metricMap ''datapoints'' of
             YNil \<Rightarrow> Inr (YMap metricMap)
           | raw \<Rightarrow>
               bind_res (assertionSlice file (metric_path i j k @ ''.datapoints'') raw)
                 (\<lambda>dps. bind_res (imapM (mark_datapoint mk file i j k) 0 dps)
                 (\<lambda>dps'. Inr (YMap (yreplace ''datapoints'' (YList dps') metricMap)))))
      | _ \<Rightarrow> Inl (parse_error file (metric_path i j k @ '' must be a map'')))"

definition mark_version :: "string \<Rightarrow> ymap \<Rightarrow> ymap" where
  "mark_version re m =
     (if re \<noteq> [] then AList.update ''version/regex'' (YStr re) (AList.delete ''version'' m) else m)"

definition mark_scope :: "marking \<Rightarrow> string \<Rightarrow> nat \<Rightarrow> nat \<Rightarrow> yaml \<Rightarrow> yaml result" where
  "mark_scope mk file i j s =
     (case s of
        YMap scopeMap \<Rightarrow>
          (let versioned = mark_version (mk_version mk) scopeMap
           in bind_res (assertionSlice file (scope_path i j @ ''.metrics'') (ylookup versioned ''metrics''))
             (\<lambda>ms. bind_res (imapM (mark_metric mk file i j) 0 ms)
             (\<lambda>ms'. Inr (YMap (yreplace ''metrics'' (YList ms') versioned)))))
      | _ \<Rightarrow> Inl (parse_error file (scope_path i j @ '' must be a map'')))"

definition mark_resource :: "marking \<Rightarrow> string \<Rightarrow> nat \<Rightarrow> yaml \<Rightarrow> yaml result" where
  "mark_resource mk file i r =
     (case r of
        YMap resMap \<Rightarrow>
          bind_res (markAttrs file (resource_path i @ ''.attributes'') (ylookup resMap ''attributes'')
              (mk_volatile mk) (mk_regex mk))
            (\<lambda>a. bind_res (assertionSlice file (resource_path i @ ''.scopes'') (ylookup resMap ''scopes''))
            (\<lambda>scopes. bind_res (imapM (mark_scope mk file i) 0 scopes)
            (\<lambda>scopes'. Inr (YMap (yreplace ''scopes'' (YList scopes') (yreplace ''attributes'' a resMap))))))
      | _ \<Rightarrow> Inl (parse_error file (resource_path i @ '' must be a map'')))"

definition mark_document :: "marking \<Rightarrow> string \<Rightarrow> ymap \<Rightarrow> ymap result" where
  "mark_document mk file doc =
     bind_res (assertionSlice file ''resources'' (ylookup doc ''resources'')) (\<lambda>res.
     bind_res (imapM (mark_resource mk file) 0 res) (\<lambda>res'.
       Inr (yreplace ''resources'' (YList res') doc)))"

definition markFlexibleAttrs :: "yaml_codec \<Rightarrow> fs \<Rightarrow> string \<Rightarrow> marking \<Rightarrow> string option \<times> fs" where
  "markFlexibleAttrs codec d file mk =
     (if mk_volatile mk = [] \<and> mk_regex mk = [] \<and> mk_version mk = [] \<and> mk_exact mk = None then (None, d)
      else
        (case bind_res (read_document codec d file) (\<lambda>doc.
              bind_res (mark_document mk file doc) (\<lambda>doc'.
                wrap_err (''marshal assertion file '' @ file @ '': '') (yaml_marshal codec doc'))) of
           Inl e \<Rightarrow> (Some e, d)
         | Inr out \<Rightarrow>
             (case WriteFile d file out of
                (Some e, d') \<Rightarrow> (Some (''write assertion file '' @ file @ '': '' @ e), d')
              | (None, d') \<Rightarrow> (None, d'))))"

section \<open>Facts about marking\<close>

lemma marked_exists [simp]: "marked (k @ ''/exists'')"
  unfolding marked_def has_suffix_iff by blast

lemma marked_regex [simp]: "marked (k @ ''/regex'')"
  unfolding marked_def has_suffix_iff by blast

lemma suffix_inject:
  assumes "k @ s = k' @ s'" and "s \<in> {''/exists'', ''/regex''}" and "s' \<in> {''/exists'', ''/regex''}"
  shows "k = k' \<and> s = s'"
proof -
  from assms(1) have "last (k @ s) = last (k' @ s')" by simp
  with assms(2,3) have "s = s'" by auto
  with assms(1) show ?thesis by simp
qed

text \<open>The interface of a marking: it only moves keys to one of the two suffixes.\<close>

locale key_marker =
  fixes decide :: "string \<Rightarrow> (string \<times> yaml) option"
  assumes suffixes: "decide k = Some (s, v) \<Longrightarrow> s \<in> {''/exists'', ''/regex''}"
begin

lemma mark_key_lookup:
  "map_of (mark_key decide m k) q =
     (if marked k then map_of m q
      else (case decide k of
              None \<Rightarrow> map_of m q
            | Some (s, v) \<Rightarrow> if q = k @ s then Some v else if q = k then None else map_of m q))"
  by (auto simp: mark_key_def update_conv' delete_conv' split: option.splits)

lemma marked_move: "decide k = Some (s, v) \<Longrightarrow> marked (k @ s)"
  using suffixes by fastforce

text \<open>Where a key of the result comes from, for any list of distinct keys that is walked.\<close>

lemma fold_lookup:
  assumes "distinct ks"
  shows "map_of (foldl (mark_key decide) m ks) q =
     (case List.find (\<lambda>k. \<not> marked k \<and> (\<exists>s v. decide k = Some (s, v) \<and> q = k @ s)) ks of
        Some k \<Rightarrow> map_option snd (decide k)
      | None \<Rightarrow>
          if q \<in> set ks \<and> \<not> marked q \<and> decide q \<noteq> None then None else map_of m q)"
  using assms
proof (induction ks arbitrary: m)
  case (Cons k ks)
  let ?hit = "\<lambda>k. \<not> marked k \<and> (\<exists>s v. decide k = Some (s, v) \<and> q = k @ s)"
  from Cons.prems have kn: "k \<notin> set ks" and d: "distinct ks" by auto
  note IH = Cons.IH [OF d, of "mark_key decide m k"]
  show ?case
  proof (cases "?hit k")
    case True
    then obtain s v where sv: "\<not> marked k" "decide k = Some (s, v)" "q = k @ s" by blast
    have "\<not> ?hit k'" if "k' \<in> set ks" for k'
      using that kn sv suffixes suffix_inject by (metis (no_types, lifting))
    then have "List.find ?hit ks = None" by (auto simp: find_None_iff)
    moreover have "marked q" using sv marked_move by blast
    ultimately show ?thesis using IH sv True by (simp add: mark_key_lookup)
  next
    case False
    then have "map_of (mark_key decide m k) q =
        (if q = k \<and> \<not> marked k \<and> decide k \<noteq> None then None else map_of m q)"
      by (auto simp: mark_key_lookup split: option.splits)
    with IH False show ?thesis by (auto split: option.splits)
  qed
qed simp

lemma mark_keys_lookup:
  assumes "distinct (map fst m)"
  shows "map_of (mark_keys decide m) q =
     (case List.find (\<lambda>k. \<not> marked k \<and> (\<exists>s v. decide k = Some (s, v) \<and> q = k @ s)) (sort_strings (map fst m)) of
        Some k \<Rightarrow> map_option snd (decide k)
      | None \<Rightarrow> if \<not> marked q \<and> decide q \<noteq> None then None else map_of m q)"
proof -
  have "q \<notin> set (map fst m) \<Longrightarrow> map_of m q = None" by (simp add: map_of_eq_None_iff)
  with assms show ?thesis
    by (auto simp: mark_keys_def fold_lookup split: option.splits)
qed

lemma mark_key_keys:
  "set (map fst (mark_key decide m x)) =
     (if marked x then set (map fst m)
      else (case decide x of
              None \<Rightarrow> set (map fst m)
            | Some (s, v) \<Rightarrow> insert (x @ s) (set (map fst m) - {x})))"
proof -
  have "set (map fst (AList.update q v (AList.delete x m))) = insert q (set (map fst m) - {x})" for q v
  proof -
    have "set (map fst (AList.delete x m)) = set (map fst m) - {x}"
      by (simp only: delete_keys set_removeAll)
    then show ?thesis by (simp add: dom_update)
  qed
  then show ?thesis by (auto simp: mark_key_def split: option.splits)
qed

text \<open>The three fates of a key: moved, kept unmarked, kept because it was marked already.\<close>

lemma moved:
  assumes "distinct (map fst m)" and "k \<in> set (map fst m)" and "\<not> marked k" and "decide k = Some (s, v)"
  shows "map_of (mark_keys decide m) (k @ s) = Some v" and "map_of (mark_keys decide m) k = None"
proof -
  let ?hit = "\<lambda>q k. \<not> marked k \<and> (\<exists>s v. decide k = Some (s, v) \<and> q = k @ s)"
  have "?hit (k @ s) k" using assms by blast
  then have "List.find (?hit (k @ s)) (sort_strings (map fst m)) \<noteq> None"
    using assms(2) by (auto simp: find_None_iff)
  then obtain k' where k': "List.find (?hit (k @ s)) (sort_strings (map fst m)) = Some k'" by blast
  then have "?hit (k @ s) k'" by (auto simp: find_Some_iff)
  then have "k' = k" using assms(4) suffixes suffix_inject by metis
  with k' assms(1,4) show "map_of (mark_keys decide m) (k @ s) = Some v"
    by (simp add: mark_keys_lookup)
  have "\<not> ?hit k k'" for k' using assms(3) marked_move by blast
  then have "List.find (?hit k) (sort_strings (map fst m)) = None" by (auto simp: find_None_iff)
  with assms show "map_of (mark_keys decide m) k = None" by (simp add: mark_keys_lookup)
qed

lemma kept:
  assumes "distinct (map fst m)" and "\<not> marked k" and "decide k = None"
  shows "map_of (mark_keys decide m) k = map_of m k"
proof -
  have "List.find (\<lambda>k'. \<not> marked k' \<and> (\<exists>s v. decide k' = Some (s, v) \<and> k = k' @ s))
      (sort_strings (map fst m)) = None"
    using assms(2) marked_move by (auto simp: find_None_iff)
  with assms show ?thesis by (simp add: mark_keys_lookup)
qed

lemma kept_marked:
  assumes "distinct (map fst m)" and "marked q"
    and "\<And>k s v. k \<in> set (map fst m) \<Longrightarrow> \<not> marked k \<Longrightarrow> decide k = Some (s, v) \<Longrightarrow> q \<noteq> k @ s"
  shows "map_of (mark_keys decide m) q = map_of m q"
proof -
  have "List.find (\<lambda>k. \<not> marked k \<and> (\<exists>s v. decide k = Some (s, v) \<and> q = k @ s))
      (sort_strings (map fst m)) = None"
    using assms(3) by (auto simp: find_None_iff)
  with assms show ?thesis by (simp add: mark_keys_lookup)
qed

text \<open>Nothing is left to mark afterwards.\<close>

lemma fold_keys_settled:
  assumes "\<And>k. k \<in> set (map fst m) \<Longrightarrow> k \<in> set ks \<or> marked k \<or> decide k = None"
  shows "k \<in> set (map fst (foldl (mark_key decide) m ks)) \<Longrightarrow> marked k \<or> decide k = None"
  using assms
proof (induction ks arbitrary: m)
  case (Cons x ks)
  have "k' \<in> set ks \<or> marked k' \<or> decide k' = None"
    if "k' \<in> set (map fst (mark_key decide m x))" for k'
  proof (cases "marked x \<or> decide x = None")
    case True
    then have "mark_key decide m x = m" by (auto simp: mark_key_def)
    then have "k' \<in> set (map fst m)" using that by simp
    with True Cons.prems(2) [of k'] show ?thesis by auto
  next
    case False
    then obtain s v where "decide x = Some (s, v)" by auto
    with False that have "k' = x @ s \<or> k' \<in> set (map fst m) \<and> k' \<noteq> x"
      unfolding mark_key_keys by auto
    then show ?thesis
      using marked_move [OF \<open>decide x = Some (s, v)\<close>] Cons.prems(2) [of k'] by (metis insert_iff list.set(2))
  qed
  with Cons.prems(1) Cons.IH [of "mark_key decide m x"] show ?case by simp
qed auto

lemma mark_keys_settled: "k \<in> set (map fst (mark_keys decide m)) \<Longrightarrow> marked k \<or> decide k = None"
  unfolding mark_keys_def by (rule fold_keys_settled) auto

lemma fold_settled_id:
  "(\<And>k. k \<in> set ks \<Longrightarrow> marked k \<or> decide k = None) \<Longrightarrow> foldl (mark_key decide) m ks = m"
proof (induction ks arbitrary: m)
  case (Cons x ks)
  then have "marked x \<or> decide x = None" by simp
  then have "mark_key decide m x = m" by (auto simp: mark_key_def)
  moreover have "foldl (mark_key decide) m ks = m" using Cons by simp
  ultimately show ?case by simp
qed simp

lemma mark_keys_id:
  "(\<And>k. k \<in> set (map fst m) \<Longrightarrow> marked k \<or> decide k = None) \<Longrightarrow> mark_keys decide m = m"
  unfolding mark_keys_def by (rule fold_settled_id) auto

lemma mark_keys_idem: "mark_keys decide (mark_keys decide m) = mark_keys decide m"
  by (rule mark_keys_id) (rule mark_keys_settled)

text \<open>Keys that another marking leaves alone stay that way.\<close>

lemma fold_keys_origin:
  "k \<in> set (map fst (foldl (mark_key decide) m ks)) \<Longrightarrow> k \<in> set (map fst m) \<or> marked k"
proof (induction ks arbitrary: m)
  case (Cons x ks)
  have "set (map fst (mark_key decide m x)) \<subseteq> set (map fst m) \<union> {k. marked k}"
    unfolding mark_key_keys using marked_move by (auto split: option.splits)
  with Cons.IH [of "mark_key decide m x"] Cons.prems show ?case by auto
qed simp

lemma mark_keys_origin: "k \<in> set (map fst (mark_keys decide m)) \<Longrightarrow> k \<in> set (map fst m) \<or> marked k"
  unfolding mark_keys_def by (rule fold_keys_origin)

lemma mark_keys_distinct: "distinct (map fst m) \<Longrightarrow> distinct (map fst (mark_keys decide m))"
proof -
  have "distinct (map fst m) \<Longrightarrow> distinct (map fst (foldl (mark_key decide) m ks))" for ks
    by (induction ks arbitrary: m)
      (auto simp: mark_key_def distinct_update distinct_delete split: option.splits)
  then show "distinct (map fst m) \<Longrightarrow> distinct (map fst (mark_keys decide m))"
    by (simp add: mark_keys_def)
qed

end

interpretation flexible: key_marker "flexible_decide vol regex" for vol regex
  by unfold_locales (auto simp: flexible_decide_def split: option.splits if_splits)

interpretation nonidentity: key_marker "identity_decide exact" for exact
  by unfold_locales (auto simp: identity_decide_def split: if_splits)

section \<open>Marking one attribute map\<close>

text \<open>
  C24: what \<open>markAttrs\<close> makes of an attribute map, for every key of the result and nothing else: a key without a marker
  keeps its value unless it has a pattern or is volatile, and then it is gone; \<open>key/regex\<close> holds the pattern of an unmarked key of the map
  that has one, \<open>key/exists\<close> holds true for an unmarked volatile key without a pattern; every other key that carries a marker
  already has the value it had.
\<close>

theorem markAttrs_effect:
  assumes "distinct (map fst m)"
  shows "\<exists>m'. markAttrs file path (YMap m) vol regex = Inr (YMap m') \<and> distinct (map fst m') \<and>
    (\<forall>k. \<not> marked k \<longrightarrow> map_of m' k = (if map_of regex k \<noteq> None \<or> k \<in> set vol then None else map_of m k)) \<and>
    (\<forall>k. map_of m' (k @ ''/regex'') =
      (if \<not> marked k \<and> map_of m k \<noteq> None \<and> map_of regex k \<noteq> None then map_option YStr (map_of regex k)
       else map_of m (k @ ''/regex''))) \<and>
    (\<forall>k. map_of m' (k @ ''/exists'') =
      (if \<not> marked k \<and> map_of m k \<noteq> None \<and> map_of regex k = None \<and> k \<in> set vol then Some (YBool True)
       else map_of m (k @ ''/exists'')))"
proof -
  let ?d = "flexible_decide vol regex"
  let ?m = "mark_keys ?d m"
  note d = flexible_decide_def
  have keys: "k \<in> set (map fst m) \<longleftrightarrow> map_of m k \<noteq> None" for k by (simp add: map_of_eq_None_iff)
  have "markAttrs file path (YMap m) vol regex = Inr (YMap ?m)"
    by (simp add: markAttrs_def mark_value_def)
  moreover have "distinct (map fst ?m)" using assms by (rule flexible.mark_keys_distinct)
  moreover have "map_of ?m k = (if map_of regex k \<noteq> None \<or> k \<in> set vol then None else map_of m k)" if "\<not> marked k" for k
  proof (cases "?d k")
    case None
    with flexible.kept [OF assms that None] show ?thesis by (simp add: d split: option.splits if_splits)
  next
    case (Some sv)
    have "map_of ?m k = None"
      using flexible.mark_keys_settled [of k vol regex m] that Some by (auto simp: map_of_eq_None_iff)
    with Some show ?thesis by (simp add: d split: option.splits if_splits)
  qed
  moreover have "map_of ?m (k @ ''/regex'') =
      (if \<not> marked k \<and> map_of m k \<noteq> None \<and> map_of regex k \<noteq> None then map_option YStr (map_of regex k)
       else map_of m (k @ ''/regex''))" for k
  proof (cases "\<not> marked k \<and> map_of m k \<noteq> None \<and> map_of regex k \<noteq> None")
    case True
    then obtain p where p: "map_of regex k = Some p" by auto
    have "k \<in> set (map fst m)" using True unfolding keys by blast
    with p True flexible.moved(1) [OF assms this, of vol regex "''/regex''" "YStr p"] show ?thesis by (simp add: d)
  next
    case False
    have "map_of ?m (k @ ''/regex'') = map_of m (k @ ''/regex'')"
    proof (rule flexible.kept_marked [OF assms])
      show "k @ ''/regex'' \<noteq> k' @ s" if "k' \<in> set (map fst m)" "\<not> marked k'" "?d k' = Some (s, v)" for k' s v
        using that(2,3) that(1) [unfolded keys] False by (auto simp: d split: option.splits if_splits)
    qed (simp add: marked_def has_suffix_def)
    then show ?thesis unfolding if_not_P [OF False] .
  qed
  moreover have "map_of ?m (k @ ''/exists'') =
      (if \<not> marked k \<and> map_of m k \<noteq> None \<and> map_of regex k = None \<and> k \<in> set vol then Some (YBool True)
       else map_of m (k @ ''/exists''))" for k
  proof (cases "\<not> marked k \<and> map_of m k \<noteq> None \<and> map_of regex k = None \<and> k \<in> set vol")
    case True
    then have "k \<in> set (map fst m)" unfolding keys by blast
    with True flexible.moved(1) [OF assms this, of vol regex "''/exists''" "YBool True"] show ?thesis by (simp add: d)
  next
    case False
    have "map_of ?m (k @ ''/exists'') = map_of m (k @ ''/exists'')"
    proof (rule flexible.kept_marked [OF assms])
      show "k @ ''/exists'' \<noteq> k' @ s" if "k' \<in> set (map fst m)" "\<not> marked k'" "?d k' = Some (s, v)" for k' s v
        using that(2,3) that(1) [unfolded keys] False by (auto simp: d split: option.splits if_splits)
    qed (simp add: marked_def has_suffix_def)
    then show ?thesis unfolding if_not_P [OF False] .
  qed
  ultimately show ?thesis by blast
qed

lemma markAttrs_effect_witness:
  "\<exists>m'. markAttrs ''f'' ''p'' (YMap [(''k8s.pod.uid'', YStr ''1''), (''a/exists'', YBool False)]) [''b''] [(''k8s.pod.uid'', ''.*'')]
     = Inr (YMap m') \<and> map_of m' ''k8s.pod.uid/regex'' = Some (YStr ''.*'') \<and> map_of m' ''a/exists'' = Some (YBool False)"
proof -
  let ?m = "[(''k8s.pod.uid'', YStr ''1''), (''a/exists'', YBool False)]"
  have d: "distinct (map fst ?m)" by simp
  from markAttrs_effect [OF d, of "''f''" "''p''" "[''b'']" "[(''k8s.pod.uid'', ''.*'')]"]
  obtain m' where m': "markAttrs ''f'' ''p'' (YMap ?m) [''b''] [(''k8s.pod.uid'', ''.*'')] = Inr (YMap m')"
    and r: "\<forall>k. map_of m' (k @ ''/regex'') =
      (if \<not> marked k \<and> map_of ?m k \<noteq> None \<and> map_of [(''k8s.pod.uid'', ''.*'')] k \<noteq> None
       then map_option YStr (map_of [(''k8s.pod.uid'', ''.*'')] k) else map_of ?m (k @ ''/regex''))"
    and e: "\<forall>k. map_of m' (k @ ''/exists'') =
      (if \<not> marked k \<and> map_of ?m k \<noteq> None \<and> map_of [(''k8s.pod.uid'', ''.*'')] k = None \<and> k \<in> set [''b''] then Some (YBool True)
       else map_of ?m (k @ ''/exists''))" by blast
  have "\<not> marked ''k8s.pod.uid''" by (simp add: marked_def has_suffix_def)
  with m' r [rule_format, of "''k8s.pod.uid''"] e [rule_format, of "''a''"] show ?thesis by simp
qed

section \<open>Marking twice\<close>

lemma ylookup_yreplace: "ylookup m k \<noteq> YNil \<Longrightarrow> ylookup (yreplace k v m) k = v"
  by (auto simp: ylookup_def yreplace_def update_conv' split: option.splits if_splits)

lemma ylookup_yreplace_other [simp]: "k \<noteq> q \<Longrightarrow> ylookup (yreplace k v m) q = ylookup m q"
  by (auto simp: ylookup_def yreplace_def update_conv' split: option.splits)

lemma map_of_yreplace_other: "k \<noteq> q \<Longrightarrow> map_of (yreplace k v m) q = map_of m q"
  by (simp add: yreplace_def update_conv')

lemma yreplace_same: "ylookup m k = v \<Longrightarrow> yreplace k v m = m"
  by (auto simp: ylookup_def yreplace_def update_triv split: option.splits if_splits)

lemma yreplace_missing: "map_of m k = None \<Longrightarrow> yreplace k v m = m"
  by (simp add: yreplace_def)

lemma assertionSlice_Inr: "assertionSlice file path v = Inr xs \<longleftrightarrow> v = YList xs"
  by (auto simp: assertionSlice_def split: yaml.splits)

lemma imapM_settled:
  assumes "imapM f i xs = Inr ys" and "\<And>j x y. x \<in> set xs \<Longrightarrow> f j x = Inr y \<Longrightarrow> f j y = Inr y"
  shows "imapM f i ys = Inr ys"
  unfolding imapM_Inr_iff
proof (intro conjI allI impI)
  fix k
  assume "k < length ys"
  with assms(1) have "f (i + k) (xs ! k) = Inr (ys ! k)" and "xs ! k \<in> set xs"
    by (auto simp: imapM_Inr_iff)
  then show "f (i + k) (ys ! k) = Inr (ys ! k)" using assms(2) by blast
qed simp

text \<open>The attribute value of a datapoint after both passes.\<close>

definition mark_attributes :: "marking \<Rightarrow> string \<Rightarrow> string \<Rightarrow> yaml \<Rightarrow> yaml result" where
  "mark_attributes mk file path a =
     bind_res (markAttrs file path a (mk_volatile mk) (mk_regex mk))
       (\<lambda>a. case mk_exact mk of None \<Rightarrow> Inr a | Some exact \<Rightarrow> markNonIdentityAttrs file path a exact)"

lemma mark_keys_after:
  "mark_keys (flexible_decide vol regex)
     (mark_keys (identity_decide exact) (mark_keys (flexible_decide vol regex) m)) =
   mark_keys (identity_decide exact) (mark_keys (flexible_decide vol regex) m)"
proof (rule flexible.mark_keys_id)
  fix k
  assume "k \<in> set (map fst (mark_keys (identity_decide exact) (mark_keys (flexible_decide vol regex) m)))"
  from nonidentity.mark_keys_origin [OF this] show "marked k \<or> flexible_decide vol regex k = None"
  proof
    assume "k \<in> set (map fst (mark_keys (flexible_decide vol regex) m))"
    then show ?thesis by (rule flexible.mark_keys_settled)
  qed simp
qed

lemma mark_attributes_settled:
  "mark_attributes mk file path a = Inr a' \<Longrightarrow> mark_attributes mk file path a' = Inr a'"
  by (cases a; cases "mk_exact mk")
    (auto simp: mark_attributes_def markAttrs_def markNonIdentityAttrs_def mark_value_def bind_res_def
      flexible.mark_keys_idem nonidentity.mark_keys_idem mark_keys_after)

lemma mark_attributes_nil: "mark_attributes mk file path a = Inr YNil \<longleftrightarrow> a = YNil"
  by (cases a; cases "mk_exact mk")
    (auto simp: mark_attributes_def markAttrs_def markNonIdentityAttrs_def mark_value_def bind_res_def)

text \<open>Putting a settled value back under its key leaves a settled map.\<close>

lemma reread:
  assumes "f (ylookup m k) = Inr a" and "\<And>x y. f x = Inr y \<Longrightarrow> f y = Inr y"
    and "\<And>a. f YNil = Inr a \<Longrightarrow> a = YNil"
  shows "f (ylookup (yreplace k a m) k) = Inr (ylookup (yreplace k a m) k)"
proof (cases "map_of m k = None")
  case True
  then have "ylookup m k = YNil" by (simp add: ylookup_def)
  with True assms(1) assms(3) [of a] show ?thesis by (simp add: yreplace_missing)
next
  case False
  then have "ylookup (yreplace k a m) k = a" by (auto simp: ylookup_def yreplace_def update_conv')
  with assms(1,2) show ?thesis by simp
qed

lemma yreplace_again [simp]: "yreplace k (ylookup (yreplace k a m) k) (yreplace k a m) = yreplace k a m"
  by (rule yreplace_same) simp

lemma mark_datapoint_eq:
  "mark_datapoint mk file i j k l dp =
     (case dp of
        YMap m \<Rightarrow> bind_res (mark_attributes mk file (datapoint_path i j k l @ ''.attributes'') (ylookup m ''attributes''))
          (\<lambda>a. Inr (YMap (yreplace ''attributes'' a m)))
      | _ \<Rightarrow> Inl (parse_error file (datapoint_path i j k l @ '' must be a map'')))"
  by (cases dp) (simp_all add: mark_datapoint_def mark_attributes_def Let_def bind_res_def split: sum.split)

lemma mark_datapoint_settled:
  assumes "mark_datapoint mk file i j k l dp = Inr dp'"
  shows "mark_datapoint mk file i j k l dp' = Inr dp'"
proof -
  let ?f = "mark_attributes mk file (datapoint_path i j k l @ ''.attributes'')"
  from assms obtain m a where m: "dp = YMap m" "?f (ylookup m ''attributes'') = Inr a"
    "dp' = YMap (yreplace ''attributes'' a m)"
    by (auto simp: mark_datapoint_eq bind_res_def split: yaml.splits sum.splits)
  have "?f (ylookup (yreplace ''attributes'' a m) ''attributes'') =
      Inr (ylookup (yreplace ''attributes'' a m) ''attributes'')"
    by (rule reread [where f = ?f, OF m(2)]) (use mark_attributes_settled in \<open>auto simp: mark_attributes_def
      markAttrs_def markNonIdentityAttrs_def mark_value_def bind_res_def split: option.splits\<close>)
  with m(3) show ?thesis by (simp add: mark_datapoint_eq bind_res_def)
qed

lemma mark_metric_settled:
  assumes "mark_metric mk file i j k v = Inr v'"
  shows "mark_metric mk file i j k v' = Inr v'"
proof -
  from assms obtain m where m: "v = YMap m" by (cases v) (auto simp: mark_metric_def)
  show ?thesis
  proof (cases "ylookup m ''datapoints'' = YNil")
    case True
    with assms m have "v' = YMap m" by (simp add: mark_metric_def)
    with assms m show ?thesis by simp
  next
    case False
    with assms m obtain dps dps' where dps: "ylookup m ''datapoints'' = YList dps"
      "imapM (mark_datapoint mk file i j k) 0 dps = Inr dps'"
      "v' = YMap (yreplace ''datapoints'' (YList dps') m)"
      by (auto simp: mark_metric_def bind_res_def assertionSlice_def split: yaml.splits sum.splits)
    have "imapM (mark_datapoint mk file i j k) 0 dps' = Inr dps'"
      by (rule imapM_settled [OF dps(2)]) (rule mark_datapoint_settled)
    moreover have "ylookup (yreplace ''datapoints'' (YList dps') m) ''datapoints'' = YList dps'"
      using False by (rule ylookup_yreplace)
    ultimately show ?thesis
      using dps(3) by (simp add: mark_metric_def bind_res_def assertionSlice_def yreplace_same)
  qed
qed

lemma mark_version_settled:
  "mark_version re (yreplace ''metrics'' v (mark_version re m)) = yreplace ''metrics'' v (mark_version re m)"
proof (cases "re = []")
  case False
  let ?m = "yreplace ''metrics'' v (mark_version re m)"
  have "map_of ?m ''version'' = None" and "map_of ?m ''version/regex'' = Some (YStr re)"
    using False by (simp_all add: map_of_yreplace_other mark_version_def update_conv' delete_conv')
  then have "AList.delete ''version'' ?m = ?m" and "AList.update ''version/regex'' (YStr re) ?m = ?m"
    by (simp_all add: delete_id map_of_eq_None_iff update_triv)
  with False show ?thesis by (simp add: mark_version_def)
qed (simp add: mark_version_def)

lemma mark_scope_settled:
  assumes "mark_scope mk file i j v = Inr v'"
  shows "mark_scope mk file i j v' = Inr v'"
proof -
  from assms obtain m ms ms' where m: "v = YMap m"
    "ylookup (mark_version (mk_version mk) m) ''metrics'' = YList ms"
    "imapM (mark_metric mk file i j) 0 ms = Inr ms'"
    "v' = YMap (yreplace ''metrics'' (YList ms') (mark_version (mk_version mk) m))"
    by (auto simp: mark_scope_def Let_def bind_res_def assertionSlice_def split: yaml.splits sum.splits)
  have "imapM (mark_metric mk file i j) 0 ms' = Inr ms'"
    by (rule imapM_settled [OF m(3)]) (rule mark_metric_settled)
  moreover have "ylookup (yreplace ''metrics'' (YList ms') (mark_version (mk_version mk) m)) ''metrics'' = YList ms'"
    using m(2) by (simp add: ylookup_yreplace)
  ultimately show ?thesis
    using m(4) by (simp add: mark_scope_def Let_def mark_version_settled bind_res_def assertionSlice_def yreplace_same)
qed

lemma mark_resource_settled:
  assumes "mark_resource mk file i v = Inr v'"
  shows "mark_resource mk file i v' = Inr v'"
proof -
  let ?f = "\<lambda>a. markAttrs file (resource_path i @ ''.attributes'') a (mk_volatile mk) (mk_regex mk)"
  from assms obtain m a ss ss' where m: "v = YMap m" "?f (ylookup m ''attributes'') = Inr a"
    "ylookup m ''scopes'' = YList ss" "imapM (mark_scope mk file i) 0 ss = Inr ss'"
    "v' = YMap (yreplace ''scopes'' (YList ss') (yreplace ''attributes'' a m))"
    by (auto simp: mark_resource_def bind_res_def assertionSlice_def split: yaml.splits sum.splits)
  let ?m = "yreplace ''scopes'' (YList ss') (yreplace ''attributes'' a m)"
  have "?f (ylookup (yreplace ''attributes'' a m) ''attributes'') =
      Inr (ylookup (yreplace ''attributes'' a m) ''attributes'')"
    by (rule reread [where f = ?f, OF m(2)])
      (auto simp: markAttrs_def mark_value_def flexible.mark_keys_idem split: yaml.splits)
  then have "?f (ylookup ?m ''attributes'') = Inr (ylookup ?m ''attributes'')" by simp
  moreover have "imapM (mark_scope mk file i) 0 ss' = Inr ss'"
    by (rule imapM_settled [OF m(4)]) (rule mark_scope_settled)
  moreover have "ylookup ?m ''scopes'' = YList ss'"
    using m(3) by (simp add: ylookup_yreplace)
  ultimately show ?thesis
    by (simp add: m(5) mark_resource_def bind_res_def assertionSlice_def yreplace_same del: ylookup_yreplace_other)
qed

lemma mark_again:
  assumes "mark_document mk file doc = Inr doc'"
  shows "mark_document mk file doc' = Inr doc'"
proof -
  from assms obtain rs rs' where m: "ylookup doc ''resources'' = YList rs"
    "imapM (mark_resource mk file) 0 rs = Inr rs'" "doc' = yreplace ''resources'' (YList rs') doc"
    by (auto simp: mark_document_def bind_res_def assertionSlice_def split: yaml.splits sum.splits)
  have "imapM (mark_resource mk file) 0 rs' = Inr rs'"
    by (rule imapM_settled [OF m(2)]) (rule mark_resource_settled)
  moreover have "ylookup doc' ''resources'' = YList rs'"
    using m by (simp add: ylookup_yreplace)
  ultimately show ?thesis by (simp add: mark_document_def bind_res_def assertionSlice_def yreplace_same)
qed

text \<open>
  C5: marking a document is idempotent: whatever options were given, and whatever the document
  held before, a second run over the marked document succeeds and changes nothing.
\<close>

theorem mark_document_idempotent:
  assumes "mark_document mk file doc = Inr doc'"
  shows "mark_document mk file doc' = Inr doc'"
  using assms by (rule mark_again)

text \<open>A document with one resource, one scope, one metric and one datapoint.\<close>

definition sample_document :: ymap where
  "sample_document =
     [(''resources'', YList [YMap
        [(''attributes'', YMap [(''k8s.pod.uid'', YStr ''1''), (''host'', YStr ''h'')]),
         (''scopes'', YList [YMap
           [(''version'', YStr ''v1''),
            (''metrics'', YList [YMap [(''datapoints'', YList [YMap [(''attributes'', YMap [(''state'', YStr ''up'')])]])]])]])]])]"

definition sample_marking :: marking where
  "sample_marking =
     \<lparr>mk_volatile = [''host''], mk_regex = [(''k8s.pod.uid'', ''.+'')], mk_version = ''v.*'', mk_exact = Some []\<rparr>"

definition sample_marked :: ymap where
  "sample_marked =
     [(''resources'', YList [YMap
        [(''attributes'', YMap [(''host/exists'', YBool True), (''k8s.pod.uid/regex'', YStr ''.+'')]),
         (''scopes'', YList [YMap
           [(''metrics'', YList [YMap [(''datapoints'', YList [YMap [(''attributes'', YMap [(''state/exists'', YBool True)])]])]]),
            (''version/regex'', YStr ''v.*'')]])]])]"

lemma sample_document_marked: "mark_document sample_marking ''f'' sample_document = Inr sample_marked"
  by code_simp

lemma mark_document_idempotent_witness:
  "mark_document sample_marking ''f'' sample_marked = Inr sample_marked"
  using mark_document_idempotent [OF sample_document_marked] .

section \<open>The file after marking\<close>

text \<open>
  \<open>markFlexibleAttrs\<close> touches no other file; when it reports success the file holds
  the marshalled document, marked so that marking it again changes nothing (or nothing had to be marked
  and the disk is as before); when it fails and the write itself is not refused, the disk is as
  before.
\<close>

theorem markFlexibleAttrs_file:
  assumes "markFlexibleAttrs codec d file mk = (r, d')"
  shows "(\<forall>q. q \<noteq> file \<longrightarrow> ReadFile d' q = ReadFile d q) \<and>
    (r = None \<longrightarrow> d' = d \<and> mk_volatile mk = [] \<and> mk_regex mk = [] \<and> mk_version mk = [] \<and> mk_exact mk = None \<or>
      (\<exists>doc doc' b. read_document codec d file = Inr doc \<and> mark_document mk file doc = Inr doc' \<and>
        mark_document mk file doc' = Inr doc' \<and> yaml_marshal codec doc' = Inr b \<and> ReadFile d' file = Inr b)) \<and>
    (r \<noteq> None \<and> write_fault d file = None \<longrightarrow> d' = d)"
proof (cases "mk_volatile mk = [] \<and> mk_regex mk = [] \<and> mk_version mk = [] \<and> mk_exact mk = None")
  case True
  with assms show ?thesis by (auto simp: markFlexibleAttrs_def)
next
  case on: False
  show ?thesis
  proof (cases "bind_res (read_document codec d file) (\<lambda>doc. bind_res (mark_document mk file doc)
      (\<lambda>doc'. wrap_err (''marshal assertion file '' @ file @ '': '') (yaml_marshal codec doc')))")
    case (Inl e)
    with assms on show ?thesis by (auto simp: markFlexibleAttrs_def)
  next
    case (Inr b)
    then obtain doc doc' where doc: "read_document codec d file = Inr doc" "mark_document mk file doc = Inr doc'"
      "yaml_marshal codec doc' = Inr b"
      by (auto simp: bind_res_def wrap_err_def split: sum.splits)
    from doc(1) obtain b0 where b0: "ReadFile d file = Inr b0"
      by (auto simp: read_document_def bind_res_def wrap_err_def split: sum.splits)
    from doc(2) have again: "mark_document mk file doc' = Inr doc'" by (rule mark_again)
    from assms on Inr obtain e where w: "WriteFile d file b = (e, d')" "r = None \<longleftrightarrow> e = None"
      by (auto simp: markFlexibleAttrs_def split: prod.splits option.splits)
    have "ReadFile d' q = ReadFile d q" if "q \<noteq> file" for q
      using disk.frame [OF w(1) that] .
    moreover have "ReadFile d' file = Inr b" if "r = None"
      using disk.read_back [OF b0] w that by simp
    moreover have "r = None" if "write_fault d file = None"
      using w that by (auto simp: WriteFile_def)
    ultimately show ?thesis using doc again by blast
  qed
qed

section \<open>Expected counts\<close>

text \<open>The list under a key of a map node, empty when there is none; the metrics of a document.\<close>

definition entries :: "string \<Rightarrow> yaml \<Rightarrow> yaml list" where
  "entries k v = (case v of YMap m \<Rightarrow> (case ylookup m k of YList xs \<Rightarrow> xs | _ \<Rightarrow> []) | _ \<Rightarrow> [])"

definition document_metrics :: "ymap \<Rightarrow> yaml list" where
  "document_metrics doc =
     concat (map (entries ''metrics'') (concat (map (entries ''scopes'') (entries ''resources'' (YMap doc)))))"

lemma count_scope_Inr: "count_scope file i j s = Inr n \<Longrightarrow> n = length (entries ''metrics'' s)"
  by (auto simp: count_scope_def entries_def assertionSlice_def bind_res_def split: yaml.splits)

lemma imapM_sum_list:
  assumes "imapM f i xs = Inr ns" and "\<And>j x n. f j x = Inr n \<Longrightarrow> n = g x"
  shows "sum_list ns = sum_list (map g xs)"
  using assms(1)
proof (induction xs arbitrary: i ns)
  case (Cons x xs)
  then show ?case using assms(2) by (force simp: bind_res_def split: sum.splits)
qed simp

lemma length_concat_concat:
  "length (concat (map f (concat (map g xs)))) = sum_list (map (\<lambda>x. length (concat (map f (g x)))) xs)"
  by (induction xs) simp_all

lemma count_resource_Inr:
  assumes "count_resource file i r = Inr n"
  shows "n = length (concat (map (entries ''metrics'') (entries ''scopes'' r)))"
proof -
  from assms obtain rm ss ns where r: "r = YMap rm" "ylookup rm ''scopes'' = YList ss"
    "imapM (count_scope file i) 0 ss = Inr ns" "n = sum_list ns"
    by (auto simp: count_resource_def assertionSlice_def bind_res_def split: yaml.splits sum.splits)
  from imapM_sum_list [OF r(3) count_scope_Inr] r show ?thesis
    by (simp add: entries_def length_concat comp_def)
qed

text \<open>
  When \<open>assertionExpectedCounts\<close> succeeds, the counts are the number of resources and the
  number of metrics over all scopes of all resources of the file, and both are positive.
\<close>

theorem assertionExpectedCounts_exact:
  assumes "assertionExpectedCounts codec d file = Inr (r, n)"
  shows "0 < r \<and> 0 < n \<and>
    (\<exists>doc. read_document codec d file = Inr doc \<and>
      r = length (entries ''resources'' (YMap doc)) \<and> n = length (document_metrics doc))"
proof -
  from assms obtain doc res ns where d: "read_document codec d file = Inr doc"
    "ylookup doc ''resources'' = YList res" "imapM (count_resource file) 0 res = Inr ns"
    "length res \<noteq> 0 \<and> sum_list ns \<noteq> 0" "r = length res" "n = sum_list ns"
    by (auto simp: assertionExpectedCounts_def count_document_def assertionSlice_def bind_res_def
      split: yaml.splits sum.splits if_splits)
  have "n = length (document_metrics doc)"
    using imapM_sum_list [OF d(3) count_resource_Inr] d(2,6)
    by (simp only: document_metrics_def length_concat_concat) (simp add: entries_def)
  moreover have "r = length (entries ''resources'' (YMap doc))" using d by (simp add: entries_def)
  ultimately show ?thesis using d by auto
qed

lemma assertionExpectedCounts_exact_witness:
  "document_metrics sample_document \<noteq> [] \<and>
   (\<exists>codec d. assertionExpectedCounts codec d ''f'' = Inr (1, length (document_metrics sample_document)))"
proof -
  let ?codec = "\<lparr>yaml_unmarshal = \<lambda>_. Inr sample_document, yaml_marshal = \<lambda>_. Inr ''x''\<rparr>"
  let ?d = "\<lparr>files = (\<lambda>_. Some ''x''), read_fault = (\<lambda>_. None), write_fault = (\<lambda>_. None)\<rparr>"
  have "count_document ''f'' sample_document = Inr (1, 1)" by code_simp
  then have c: "assertionExpectedCounts ?codec ?d ''f'' = Inr (1, 1)"
    by (simp add: assertionExpectedCounts_def read_document_def ReadFile_def bind_res_def wrap_err_def)
  from assertionExpectedCounts_exact [OF c] have "length (document_metrics sample_document) = 1"
    by (simp add: read_document_def ReadFile_def bind_res_def wrap_err_def)
  with c show ?thesis by fastforce
qed

lemma markFlexibleAttrs_file_witness:
  "\<exists>codec d d'. markFlexibleAttrs codec d ''f'' sample_marking = (None, d') \<and> ReadFile d' ''f'' = Inr ''marked''"
proof -
  let ?codec = "\<lparr>yaml_unmarshal = \<lambda>_. Inr sample_document, yaml_marshal = \<lambda>_. Inr ''marked''\<rparr>"
  let ?d = "\<lparr>files = (\<lambda>_. Some ''x''), read_fault = (\<lambda>_. None), write_fault = (\<lambda>_. None)\<rparr>"
  obtain r d' where m: "markFlexibleAttrs ?codec ?d ''f'' sample_marking = (r, d')" by fastforce
  then have "r = None"
    using sample_document_marked
    by (auto simp: markFlexibleAttrs_def sample_marking_def read_document_def ReadFile_def WriteFile_def
      bind_res_def wrap_err_def)
  moreover from markFlexibleAttrs_file [OF m] \<open>r = None\<close> have "ReadFile d' ''f'' = Inr ''marked''"
    by (auto simp: sample_marking_def)
  ultimately show ?thesis using m by blast
qed

lemma imapM_same:
  assumes "imapM f i xs = Inr ys" and "\<And>j x y. f j x = Inr y \<Longrightarrow> g j y = g j x"
  shows "imapM g i ys = imapM g i xs"
  using assms(1)
proof (induction xs arbitrary: i ys)
  case (Cons x xs)
  then obtain y ys' where "f i x = Inr y" "imapM f (Suc i) xs = Inr ys'" "ys = y # ys'"
    by (auto simp: bind_res_def split: sum.splits)
  with Cons.IH assms(2) show ?case by simp
qed simp

lemma ylookup_mark_version [simp]: "ylookup (mark_version re m) ''metrics'' = ylookup m ''metrics''"
  by (simp add: mark_version_def ylookup_def update_conv' delete_conv')

lemma count_mark_scope: "mark_scope mk file i j s = Inr s' \<Longrightarrow> count_scope file i j s' = count_scope file i j s"
  by (auto simp: mark_scope_def Let_def count_scope_def bind_res_def assertionSlice_def ylookup_yreplace
    imapM_length split: yaml.splits sum.splits)

lemma count_mark_resource:
  assumes "mark_resource mk file i r = Inr r'"
  shows "count_resource file i r' = count_resource file i r"
proof -
  from assms obtain m a ss ss' where m: "r = YMap m" "ylookup m ''scopes'' = YList ss"
    "imapM (mark_scope mk file i) 0 ss = Inr ss'"
    "r' = YMap (yreplace ''scopes'' (YList ss') (yreplace ''attributes'' a m))"
    by (auto simp: mark_resource_def bind_res_def assertionSlice_def split: yaml.splits sum.splits)
  have "imapM (count_scope file i) 0 ss' = imapM (count_scope file i) 0 ss"
    by (rule imapM_same [OF m(3)]) (rule count_mark_scope)
  moreover have "ylookup (yreplace ''scopes'' (YList ss') (yreplace ''attributes'' a m)) ''scopes'' = YList ss'"
    using m(2) by (simp add: ylookup_yreplace)
  ultimately show ?thesis
    using m by (simp add: count_resource_def assertionSlice_def bind_res_def)
qed

text \<open>
  Marking keeps the shape of a document: the counts read back from a marked document are
  those of the document before, so a snapshot selects the same payloads after an update.
\<close>

theorem mark_document_counts:
  assumes "mark_document mk file doc = Inr doc'"
  shows "count_document file doc' = count_document file doc"
proof -
  from assms obtain rs rs' where m: "ylookup doc ''resources'' = YList rs"
    "imapM (mark_resource mk file) 0 rs = Inr rs'" "doc' = yreplace ''resources'' (YList rs') doc"
    by (auto simp: mark_document_def bind_res_def assertionSlice_def split: yaml.splits sum.splits)
  have "imapM (count_resource file) 0 rs' = imapM (count_resource file) 0 rs"
    by (rule imapM_same [OF m(2)]) (rule count_mark_resource)
  moreover have "ylookup doc' ''resources'' = YList rs'"
    using m by (simp add: ylookup_yreplace)
  moreover have "rs' = [] \<longleftrightarrow> rs = []" using imapM_length [OF m(2)] by auto
  ultimately show ?thesis
    using m imapM_length [OF m(2)]
    by (auto simp: count_document_def assertionSlice_def bind_res_def split: sum.split)
qed

lemma mark_document_counts_witness: "count_document ''f'' sample_marked = Inr (1, 1)"
proof -
  have "count_document ''f'' sample_document = Inr (1, 1)" by code_simp
  with mark_document_counts [OF sample_document_marked] show ?thesis by simp
qed

end
