(* ===== verification/MetricAssert.thy ===== *)
theory MetricAssert
  imports MetricSelect AssertDoc
begin

section \<open>Metric snapshots\<close>

text \<open>
  Model of the rest of \<open>functional_tests/internal/metricassert.go\<close>: the options of a snapshot, the
  preprocessing of a payload (\<open>prepareMetricsAssertion\<close> and the functions it calls), the writing
  of an assertion file and \<open>AssertMetricsSnapshot\<close>. The packages the file calls are the fields of
  \<open>assert_env\<close>: the YAML codec, \<open>pdatautil.MapHash\<close>, the \<open>Sort\<close> of the pdata slices (whose contract
  is the locale \<open>slice_sorter\<close>), and \<open>WriteAssertionFile\<close> and \<open>AssertMetrics\<close> of \<open>pmetricassert\<close>.
\<close>

subsection \<open>Options\<close>

record metricsAssertionConfig =
  volatileAttrs :: "string list"
  regexAttrs :: "(string \<times> string) list"
  scopeVersionRegex :: string
  firstDatapointOnly :: "string list"
  maxDatapointsPerMetric :: int
  selectedNumberMetric :: string
  selectedNumberDatapoint :: "(string \<times> string) list"
  exactDatapointAttrs :: "string list option"
  includeHistogramExplicitBounds :: bool
  waitForSnapshotMatch :: bool

type_synonym MetricsAssertionOption = "metricsAssertionConfig \<Rightarrow> metricsAssertionConfig"

text \<open>Writing the entries of one Go map into another.\<close>

definition put_all :: "(string \<times> string) list \<Rightarrow> (string \<times> string) list \<Rightarrow> (string \<times> string) list" where
  "put_all m new = foldl (\<lambda>acc (k, v). AList.update k v acc) m new"

definition ExtendMetricAssertionAttrs :: "string list \<Rightarrow> string list \<Rightarrow> string list" where
  "ExtendMetricAssertionAttrs base attrs = [] @ base @ attrs"

definition ExtendMetricAssertionRegexAttrs ::
  "(string \<times> string) list \<Rightarrow> (string \<times> string) list \<Rightarrow> (string \<times> string) list"
where
  "ExtendMetricAssertionRegexAttrs base attrs = put_all (put_all [] base) attrs"

definition WithVolatileAttributes :: "string list \<Rightarrow> MetricsAssertionOption" where
  "WithVolatileAttributes attrs cfg = cfg\<lparr>volatileAttrs := volatileAttrs cfg @ attrs\<rparr>"

definition WithRegexAttributes :: "(string \<times> string) list \<Rightarrow> MetricsAssertionOption" where
  "WithRegexAttributes attrs cfg = cfg\<lparr>regexAttrs := put_all (regexAttrs cfg) attrs\<rparr>"

definition WithScopeVersionRegex :: "string \<Rightarrow> MetricsAssertionOption" where
  "WithScopeVersionRegex pattern cfg = cfg\<lparr>scopeVersionRegex := pattern\<rparr>"

definition WithWaitForSnapshotMatch :: MetricsAssertionOption where
  "WithWaitForSnapshotMatch cfg = cfg\<lparr>waitForSnapshotMatch := True\<rparr>"

definition WithFirstDatapointOnly :: "string list \<Rightarrow> MetricsAssertionOption" where
  "WithFirstDatapointOnly metricNames cfg =
     cfg\<lparr>firstDatapointOnly := firstDatapointOnly cfg @ metricNames\<rparr>"

definition WithMaxDatapointsPerMetric :: "int \<Rightarrow> MetricsAssertionOption" where
  "WithMaxDatapointsPerMetric maxDatapoints cfg = cfg\<lparr>maxDatapointsPerMetric := maxDatapoints\<rparr>"

definition WithSelectedNumberDatapoint :: "string \<Rightarrow> (string \<times> string) list \<Rightarrow> MetricsAssertionOption" where
  "WithSelectedNumberDatapoint metricName attributes cfg =
     cfg\<lparr>selectedNumberMetric := metricName, selectedNumberDatapoint := attributes\<rparr>"

definition WithHistogramExplicitBounds :: MetricsAssertionOption where
  "WithHistogramExplicitBounds cfg = cfg\<lparr>includeHistogramExplicitBounds := True\<rparr>"

definition WithDatapointAttributesAsExistsExcept :: "string list \<Rightarrow> MetricsAssertionOption" where
  "WithDatapointAttributesAsExistsExcept exactAttrs cfg = cfg\<lparr>exactDatapointAttrs := Some exactAttrs\<rparr>"

definition zero_config :: metricsAssertionConfig where
  "zero_config =
     \<lparr>volatileAttrs = [], regexAttrs = [], scopeVersionRegex = [], firstDatapointOnly = [],
      maxDatapointsPerMetric = 0, selectedNumberMetric = [], selectedNumberDatapoint = [],
      exactDatapointAttrs = None, includeHistogramExplicitBounds = False, waitForSnapshotMatch = False\<rparr>"

definition newMetricsAssertionConfig :: "MetricsAssertionOption list \<Rightarrow> metricsAssertionConfig" where
  "newMetricsAssertionConfig opts = foldl (\<lambda>cfg opt. opt cfg) zero_config opts"

definition flexibleAttrs :: "metricsAssertionConfig \<Rightarrow> string list" where
  "flexibleAttrs cfg = volatileAttrs cfg @ map fst (regexAttrs cfg)"

subsection \<open>Preprocessing\<close>

record assert_env =
  env_codec :: yaml_codec
  map_hash :: "attrs \<Rightarrow> string"
  dp_sort :: "(datapoint \<Rightarrow> datapoint \<Rightarrow> bool) \<Rightarrow> datapoint list \<Rightarrow> datapoint list"
  write_assertion :: "fs \<Rightarrow> string \<Rightarrow> metrics \<Rightarrow> bool \<Rightarrow> string option \<times> fs"
  assert_metrics :: "fs \<Rightarrow> string \<Rightarrow> metrics \<Rightarrow> string option"
  update_results :: bool

fun zeroAttributeValue :: "attr_value \<Rightarrow> attr_value" where
  "zeroAttributeValue (VStr _) = VStr []"
| "zeroAttributeValue (VBool _) = VBool False"
| "zeroAttributeValue (VInt _) = VInt 0"
| "zeroAttributeValue (VDouble _) = VDouble 0"
| "zeroAttributeValue v = v"

definition sortableAttrs :: "string list \<Rightarrow> attrs \<Rightarrow> attrs" where
  "sortableAttrs vol m =
     (if vol = [] then m else foldl (\<lambda>out a. set_first a zeroAttributeValue out) m vol)"

text \<open>\<open>bytes.Compare\<close> is the lexicographic order of the byte strings.\<close>

definition attrsLess :: "assert_env \<Rightarrow> string list \<Rightarrow> attrs \<Rightarrow> attrs \<Rightarrow> bool" where
  "attrsLess env vol a b = (map_hash env (sortableAttrs vol a) < map_hash env (sortableAttrs vol b))"

text \<open>\<open>RemoveIf\<close> with a closure that updates a variable of its own.\<close>

fun remove_if_st :: "('s \<Rightarrow> 'a \<Rightarrow> bool \<times> 's) \<Rightarrow> 's \<Rightarrow> 'a list \<Rightarrow> 'a list" where
  "remove_if_st f s [] = []"
| "remove_if_st f s (x # xs) =
     (case f s x of (remove, s') \<Rightarrow>
        if remove then remove_if_st f s' xs else x # remove_if_st f s' xs)"

definition keepFirstDatapoint :: "assert_env \<Rightarrow> string list \<Rightarrow> metric \<Rightarrow> metric" where
  "keepFirstDatapoint env vol m =
     m\<lparr>metric_data := map_points (\<lambda>dps.
         remove_if_st (\<lambda>n _. (n + 1 > 1, n + 1)) (0 :: int)
           (dp_sort env (\<lambda>a b. attrsLess env vol (dp_attributes a) (dp_attributes b)) dps))
       (metric_data m)\<rparr>"

definition keepFirstDatapointOnly ::
  "assert_env \<Rightarrow> metrics \<Rightarrow> string list \<Rightarrow> string list \<Rightarrow> metrics"
where
  "keepFirstDatapointOnly env ms metricNames vol =
     (if metricNames = [] then ms
      else map_metrics (\<lambda>m. if metric_name m \<in> set metricNames then keepFirstDatapoint env vol m else m) ms)"

definition other_datapoint :: "(string \<times> string) list \<Rightarrow> datapoint \<Rightarrow> bool" where
  "other_datapoint attributes dp =
     list_ex (\<lambda>(key, expected).
       case attr_get (dp_attributes dp) key of
         None \<Rightarrow> True
       | Some actual \<Rightarrow> \<not> is_str actual \<or> attr_str actual \<noteq> expected) attributes"

fun retain_number_data :: "(datapoint \<Rightarrow> bool) \<Rightarrow> metric_data \<Rightarrow> metric_data" where
  "retain_number_data remove (Gauge dp) = Gauge (filter (\<lambda>d. \<not> remove d) dp)"
| "retain_number_data remove (Sum dp) = Sum (filter (\<lambda>d. \<not> remove d) dp)"
| "retain_number_data remove d = d"

definition retainSelectedNumberDatapoint ::
  "metrics \<Rightarrow> string \<Rightarrow> (string \<times> string) list \<Rightarrow> metrics"
where
  "retainSelectedNumberDatapoint ms metricName attributes =
     (case GetMetric ms metricName of
        None \<Rightarrow> ms
      | Some ref \<Rightarrow>
          update_metric_at ref
            (\<lambda>m. m\<lparr>metric_data := retain_number_data (other_datapoint attributes) (metric_data m)\<rparr>) ms)"

definition prepareMetricsAssertion :: "assert_env \<Rightarrow> metricsAssertionConfig \<Rightarrow> metrics \<Rightarrow> metrics" where
  "prepareMetricsAssertion env cfg actual =
     (let retained = retainSelectedNumberDatapoint actual (selectedNumberMetric cfg) (selectedNumberDatapoint cfg);
          reduced = (if maxDatapointsPerMetric cfg > 0
                     then ReduceDatapoints retained (maxDatapointsPerMetric cfg) else retained)
      in keepFirstDatapointOnly env reduced (firstDatapointOnly cfg) (flexibleAttrs cfg))"

subsection \<open>Writing and asserting\<close>

definition WriteMetricsAssertion ::
  "assert_env \<Rightarrow> fs \<Rightarrow> string \<Rightarrow> metrics \<Rightarrow> MetricsAssertionOption list \<Rightarrow> string option \<times> fs"
where
  "WriteMetricsAssertion env d file actual opts =
     (let cfg = newMetricsAssertionConfig opts;
          prepared = prepareMetricsAssertion env cfg actual
      in case write_assertion env d file prepared (includeHistogramExplicitBounds cfg) of
           (Some e, d') \<Rightarrow> (Some (''write assertion file '' @ file @ '': '' @ e), d')
         | (None, d') \<Rightarrow>
             markFlexibleAttrs (env_codec env) d' file
               \<lparr>mk_volatile = volatileAttrs cfg, mk_regex = regexAttrs cfg,
                mk_version = scopeVersionRegex cfg, mk_exact = exactDatapointAttrs cfg\<rparr>)"

definition maybeUpdateExpectedMetricsAssertion ::
  "assert_env \<Rightarrow> fs \<Rightarrow> string \<Rightarrow> metrics \<Rightarrow> MetricsAssertionOption list \<Rightarrow> string option \<times> fs"
where
  "maybeUpdateExpectedMetricsAssertion env d file actual opts =
     (if \<not> update_results env then (None, d) else WriteMetricsAssertion env d file actual opts)"

text \<open>The result: the selected payload, if any, and the last error of the assertion.\<close>

definition selectMetricSetByAssertionWithTimeout ::
  "assert_env \<Rightarrow> fs \<Rightarrow> (nat \<Rightarrow> int) \<Rightarrow> (nat \<Rightarrow> metrics list) \<Rightarrow> int \<Rightarrow> int \<Rightarrow> string \<Rightarrow> nat \<Rightarrow> nat \<Rightarrow>
     string \<Rightarrow> metricsAssertionConfig \<Rightarrow> (metrics option \<times> string option) option"
where
  "selectMetricSetByAssertionWithTimeout env d clock sink now timeout target r c file cfg =
     (case poll_until clock (now + timeout)
         (\<lambda>i. case selectMetricSetByCounts target (sink i) r c of
                Some h \<Rightarrow>
                  (if assert_metrics env d file (prepareMetricsAssertion env cfg (sink i ! h)) = None
                   then Some h else None)
              | None \<Rightarrow> None) 0 of
        None \<Rightarrow> None
      | Some (i, Some h) \<Rightarrow> Some (Some (sink i ! h), None)
      | Some (i, None) \<Rightarrow>
          Some (case richestMetricSet target (sink i) of
                  None \<Rightarrow> (None, None)
                | Some h \<Rightarrow>
                    (Some (sink i ! h),
                     assert_metrics env d file (prepareMetricsAssertion env cfg (sink i ! h)))))"

text \<open>A test ends with a failed requirement, or passes and logs the number of metrics.\<close>

datatype snapshot_outcome = Passed nat | Failed string

definition AssertMetricsSnapshot ::
  "assert_env \<Rightarrow> fs \<Rightarrow> (nat \<Rightarrow> int) \<Rightarrow> (nat \<Rightarrow> metrics list) \<Rightarrow> int \<Rightarrow> int \<Rightarrow> string \<Rightarrow> string \<Rightarrow>
     MetricsAssertionOption list \<Rightarrow> (snapshot_outcome \<times> fs) option"
where
  "AssertMetricsSnapshot env d clock sink now timeout target file opts =
     (let cfg = newMetricsAssertionConfig opts
      in case assertionExpectedCounts (env_codec env) d file of
           Inl e \<Rightarrow> Some (Failed e, d)
         | Inr (r, c) \<Rightarrow>
             if waitForSnapshotMatch cfg \<and> \<not> update_results env
             then
               (case selectMetricSetByAssertionWithTimeout env d clock sink now timeout target r c file cfg of
                  None \<Rightarrow> None
                | Some (None, _) \<Rightarrow> Some (Failed ''No metrics batch found'', d)
                | Some (Some sel, Some e) \<Rightarrow> Some (Failed e, d)
                | Some (Some sel, None) \<Rightarrow> Some (Passed (MetricCount sel), d))
             else
               (case selectMetricSetByCountsWithTimeout clock sink now timeout target r c of
                  None \<Rightarrow> None
                | Some NoPayload \<Rightarrow> Some (Failed ''No metrics batch found'', d)
                | Some (Selected sel exactMatch) \<Rightarrow>
                    (let actual = prepareMetricsAssertion env cfg sel
                     in case maybeUpdateExpectedMetricsAssertion env d file actual opts of
                          (Some e, d') \<Rightarrow> Some (Failed e, d')
                        | (None, d') \<Rightarrow>
                            (case assert_metrics env d' file actual of
                               Some e \<Rightarrow> Some (Failed e, d')
                             | None \<Rightarrow> Some (Passed (MetricCount sel), d')))))"

section \<open>Facts about the options\<close>

lemma map_of_put_all:
  "distinct (map fst new) \<Longrightarrow>
     map_of (put_all m new) k = (case map_of new k of Some v \<Rightarrow> Some v | None \<Rightarrow> map_of m k)"
proof (induction new arbitrary: m)
  case (Cons x xs)
  obtain q v where x: "x = (q, v)" by (cases x)
  with Cons.prems have "map_of xs q = None" by (simp add: map_of_eq_None_iff)
  with Cons x show ?case
    by (auto simp: put_all_def update_conv' split: option.split)
qed (simp add: put_all_def)

lemma distinct_put_all: "distinct (map fst m) \<Longrightarrow> distinct (map fst (put_all m new))"
  by (induction new arbitrary: m) (auto simp: put_all_def distinct_update)

section \<open>Facts about preprocessing\<close>

lemma remove_if_st_first: "remove_if_st (\<lambda>n _. (n + 1 > 1, n + 1)) (0 :: int) (xs :: 'a list) = take 1 xs"
proof -
  have "remove_if_st (\<lambda>n _. (n + 1 > 1, n + 1)) (n :: int) xs = []" if "0 < n" for n and xs :: "'a list"
    using that by (induction xs arbitrary: n) auto
  then show ?thesis by (cases xs) auto
qed

definition less_points :: "assert_env \<Rightarrow> string list \<Rightarrow> datapoint \<Rightarrow> datapoint \<Rightarrow> bool" where
  "less_points env vol a b = attrsLess env vol (dp_attributes a) (dp_attributes b)"

lemma strict_weak_less_points: "strict_weak (less_points env vol)"
  unfolding less_points_def attrsLess_def by (rule strict_weak_key)

definition first_point :: "assert_env \<Rightarrow> string list \<Rightarrow> datapoint list \<Rightarrow> datapoint list" where
  "first_point env vol dps = take 1 (dp_sort env (less_points env vol) dps)"

lemma keepFirstDatapoint_eq:
  "keepFirstDatapoint env vol m = m\<lparr>metric_data := map_points (first_point env vol) (metric_data m)\<rparr>"
  by (simp only: keepFirstDatapoint_def first_point_def [abs_def] remove_if_st_first less_points_def [abs_def])

lemma retain_number_kind: "map_points (\<lambda>_. []) (retain_number_data P d) = map_points (\<lambda>_. []) d"
  by (cases d) auto

lemma mset_retain_number: "mset (data_points (retain_number_data P d)) \<subseteq># mset (data_points d)"
  by (cases d) (auto simp: multiset_filter_subset)

interpretation retain_number: datapoint_pass "\<lambda>ms. retainSelectedNumberDatapoint ms name attributes"
  for name attributes
  by unfold_locales
    (auto simp: retainSelectedNumberDatapoint_def metric_selects_def retain_number_kind mset_retain_number
      intro: selects_update_metric_at selects_refl split: option.split)

text \<open>With a sort that keeps its contract, each datapoint pass of the preparation selects.\<close>

lemma mset_first_point: "slice_sorter (dp_sort env) \<Longrightarrow> mset (first_point env vol dps) \<subseteq># mset dps"
  unfolding first_point_def by (metis mset_take_subset slice_sorter.srt_mset)

lemma keepFirst_selects:
  assumes "slice_sorter (dp_sort env)"
  shows "selects (keepFirstDatapointOnly env ms names vol) ms"
  using metric_selects_map_points [OF mset_first_point [OF assms]]
  by (auto simp: keepFirstDatapointOnly_def keepFirstDatapoint_eq metric_selects_refl
      intro!: selects_refl selects_map_metrics)

lemma prepare_selects:
  assumes "slice_sorter (dp_sort env)"
  shows "selects (prepareMetricsAssertion env cfg ms) ms"
proof -
  let ?r = "retainSelectedNumberDatapoint ms (selectedNumberMetric cfg) (selectedNumberDatapoint cfg)"
  have "selects (if maxDatapointsPerMetric cfg > 0 then ReduceDatapoints ?r (maxDatapointsPerMetric cfg) else ?r) ms"
    using selects_trans [OF reduce.pass_selects retain_number.pass_selects] retain_number.pass_selects by auto
  then show ?thesis
    unfolding prepareMetricsAssertion_def Let_def
    by (rule selects_trans [OF keepFirst_selects [OF assms]])
qed

lemma prepare_pass:
  "slice_sorter (dp_sort env) \<Longrightarrow> datapoint_pass (prepareMetricsAssertion env cfg)"
  by unfold_locales (rule prepare_selects)

text \<open>
  Preparing a payload for the comparison never invents or loses anything but data points: the
  prepared payload has the same resources, scopes and metrics, and the data points of each metric
  are among those it was received with.
\<close>

theorem prepareMetricsAssertion_selects:
  assumes "slice_sorter (dp_sort env)"
  shows "selects (prepareMetricsAssertion env cfg ms) ms \<and>
    MetricCount (prepareMetricsAssertion env cfg ms) = MetricCount ms \<and>
    length (prepareMetricsAssertion env cfg ms) = length ms \<and>
    name_table (prepareMetricsAssertion env cfg ms) = name_table ms"
  using prepare_selects [OF assms]
    datapoint_pass.pass_count [OF prepare_pass [OF assms]]
    datapoint_pass.pass_resources [OF prepare_pass [OF assms]]
    datapoint_pass.pass_table [OF prepare_pass [OF assms]]
  by simp

text \<open>An environment with the model's own stable sort.\<close>

definition sample_env :: "bool \<Rightarrow> assert_env" where
  "sample_env update =
     \<lparr>env_codec = \<lparr>yaml_unmarshal = (\<lambda>_. Inr sample_document), yaml_marshal = (\<lambda>_. Inr ''marked'')\<rparr>,
      map_hash = (\<lambda>m. concat (map (\<lambda>(k, v). k @ attr_str v) m)),
      dp_sort = insertion_sort,
      write_assertion = (\<lambda>d file ms bounds. WriteFile d file ''written''),
      assert_metrics = (\<lambda>d file ms. None),
      update_results = update\<rparr>"

lemma prepareMetricsAssertion_selects_witness:
  "MetricCount (prepareMetricsAssertion (sample_env False)
     (newMetricsAssertionConfig [WithFirstDatapointOnly [''a''], WithMaxDatapointsPerMetric 1]) sample_metrics) = 3"
proof -
  have "slice_sorter (dp_sort (sample_env False))"
    by (simp add: sample_env_def slice_sorter_insertion_sort)
  from prepareMetricsAssertion_selects [OF this] show ?thesis by simp code_simp
qed

section \<open>Preparing twice\<close>

lemma map_metrics_id: "(\<And>m. m \<in> set (all_metrics ms) \<Longrightarrow> f m = m) \<Longrightarrow> map_metrics f ms = ms"
proof -
  assume f: "\<And>m. m \<in> set (all_metrics ms) \<Longrightarrow> f m = m"
  have "r\<lparr>rm_scopes := map (\<lambda>s. s\<lparr>sm_metrics := map f (sm_metrics s)\<rparr>) (rm_scopes r)\<rparr> = r" if r: "r \<in> set ms" for r
  proof -
    have "f m = m" if "s \<in> set (rm_scopes r)" "m \<in> set (sm_metrics s)" for s m
      by (rule f) (use r that in \<open>auto simp: all_metrics_def\<close>)
    then have "s\<lparr>sm_metrics := map f (sm_metrics s)\<rparr> = s" if "s \<in> set (rm_scopes r)" for s
      using that by (simp add: map_idI)
    then show ?thesis by (simp add: map_idI)
  qed
  then show ?thesis by (simp add: map_metrics_def map_scopes_def map_idI)
qed

lemma map_metrics_comp: "map_metrics f (map_metrics g ms) = map_metrics (\<lambda>m. f (g m)) ms"
  by (simp add: map_metrics_def map_scopes_def comp_def)

definition valid_ref :: "metrics \<Rightarrow> metric_ref \<Rightarrow> bool" where
  "valid_ref ms ref =
     (case ref of (i, j, k) \<Rightarrow> i < length ms \<and> j < length (rm_scopes (ms ! i)) \<and>
        k < length (sm_metrics (rm_scopes (ms ! i) ! j)))"

lemma GetMetric_valid: "GetMetric ms name = Some ref \<Longrightarrow> valid_ref ms ref"
  using find_in_resources_Some [of name 0 ms] by (cases ref) (auto simp: GetMetric_def valid_ref_def)

lemma metric_at_update: "valid_ref ms ref \<Longrightarrow> metric_at (update_metric_at ref f ms) ref = f (metric_at ms ref)"
  by (cases ref) (simp add: valid_ref_def metric_at_def update_metric_at_def update_nth_def)

lemma metric_at_map: "valid_ref ms ref \<Longrightarrow> metric_at (map_metrics f ms) ref = f (metric_at ms ref)"
  by (cases ref) (simp add: valid_ref_def metric_at_def map_metrics_def map_scopes_def)

lemma update_metric_at_id: "f (metric_at ms ref) = metric_at ms ref \<Longrightarrow> update_metric_at ref f ms = ms"
  by (cases ref) (simp add: metric_at_def update_metric_at_def update_nth_def)

lemma valid_ref_table:
  "valid_ref ms ref = (case ref of (i, j, k) \<Rightarrow> i < length (name_table ms) \<and> j < length (name_table ms ! i) \<and>
     k < length (name_table ms ! i ! j))"
  by (cases ref) (auto simp: valid_ref_def name_table_def)

lemma find_metric_names:
  "map metric_name xs = map metric_name ys \<Longrightarrow> find_metric name k xs = find_metric name k ys"
proof (induction xs arbitrary: ys k)
  case (Cons x xs)
  then obtain y ys' where "ys = y # ys'" "metric_name x = metric_name y" "map metric_name xs = map metric_name ys'"
    by (cases ys) auto
  with Cons.IH show ?case by simp
qed simp

lemma find_in_scopes_names:
  "map (\<lambda>s. map metric_name (sm_metrics s)) xs = map (\<lambda>s. map metric_name (sm_metrics s)) ys \<Longrightarrow>
     find_in_scopes name j xs = find_in_scopes name j ys"
proof (induction xs arbitrary: ys j)
  case (Cons x xs)
  then obtain y ys' where ys: "ys = y # ys'" "map metric_name (sm_metrics x) = map metric_name (sm_metrics y)"
    "map (\<lambda>s. map metric_name (sm_metrics s)) xs = map (\<lambda>s. map metric_name (sm_metrics s)) ys'"
    by (cases ys) auto
  from Cons.IH [OF ys(3)] find_metric_names [OF ys(2)] show ?case
    by (simp add: ys(1) split: option.split)
qed simp

lemma GetMetric_table: "name_table xs = name_table ys \<Longrightarrow> GetMetric xs name = GetMetric ys name"
proof -
  have "name_table xs = name_table ys \<Longrightarrow> find_in_resources name i xs = find_in_resources name i ys" for i
  proof (induction xs arbitrary: ys i)
    case (Cons x xs)
    then obtain y ys' where ys: "ys = y # ys'" "name_table xs = name_table ys'"
      "map (\<lambda>s. map metric_name (sm_metrics s)) (rm_scopes x) = map (\<lambda>s. map metric_name (sm_metrics s)) (rm_scopes y)"
      by (cases ys) (auto simp: name_table_def)
    from Cons.IH [OF ys(2)] find_in_scopes_names [OF ys(3)] show ?case
      by (simp add: ys(1) split: option.split)
  qed (simp add: name_table_def)
  then show "name_table xs = name_table ys \<Longrightarrow> GetMetric xs name = GetMetric ys name"
    by (simp add: GetMetric_def)
qed

text \<open>One metric through the last two passes.\<close>

definition finish_metric :: "assert_env \<Rightarrow> metricsAssertionConfig \<Rightarrow> metric \<Rightarrow> metric" where
  "finish_metric env cfg m =
     (let r = (if maxDatapointsPerMetric cfg > 0
               then m\<lparr>metric_data := reduce_data (maxDatapointsPerMetric cfg) (metric_data m)\<rparr> else m)
      in if metric_name m \<in> set (firstDatapointOnly cfg)
         then keepFirstDatapoint env (flexibleAttrs cfg) r else r)"

lemma prepare_eq:
  "prepareMetricsAssertion env cfg ms =
     map_metrics (finish_metric env cfg)
       (retainSelectedNumberDatapoint ms (selectedNumberMetric cfg) (selectedNumberDatapoint cfg))"
  by (auto simp: prepareMetricsAssertion_def finish_metric_def Let_def keepFirstDatapointOnly_def
      ReduceDatapoints_def map_metrics_comp map_metrics_id if_distrib intro!: arg_cong [where f = "\<lambda>f. map_metrics f _"])

lemma sort_short:
  assumes "slice_sorter srt" and "length xs \<le> 1"
  shows "srt lt xs = xs"
proof (cases xs)
  case Nil
  with slice_sorter.srt_nil [OF assms(1)] show ?thesis by simp
next
  case (Cons x ys)
  with assms(2) have "xs = [x]" by simp
  with slice_sorter.srt_mset [OF assms(1), of lt xs] show ?thesis by simp
qed

lemma first_point_again:
  "slice_sorter (dp_sort env) \<Longrightarrow> length ds \<le> 1 \<Longrightarrow> first_point env vol ds = ds"
  by (simp add: first_point_def sort_short)

lemma keepFirst_again:
  assumes "slice_sorter (dp_sort env)"
  shows "keepFirstDatapoint env vol (keepFirstDatapoint env vol m) = keepFirstDatapoint env vol m"
proof -
  have "length (first_point env vol ds) \<le> 1" for ds by (simp add: first_point_def)
  with first_point_again [OF assms] show ?thesis
    by (cases "metric_data m") (simp_all add: keepFirstDatapoint_eq)
qed

lemma reduce_keepFirst:
  assumes "slice_sorter (dp_sort env)" and "0 < n"
  shows "reduce_data n (metric_data (keepFirstDatapoint env vol m)) = metric_data (keepFirstDatapoint env vol m)"
proof -
  have "length (first_point env vol ds) \<le> nat n" for ds using assms(2) by (simp add: first_point_def)
  then show ?thesis by (cases "metric_data m") (simp_all add: keepFirstDatapoint_eq reduce_slice_take)
qed

lemma reduce_again: "reduce_data n (reduce_data n d) = reduce_data n d"
  by (cases d) (simp_all add: reduce_slice_take)

lemma keepFirst_name [simp]: "metric_name (keepFirstDatapoint env vol m) = metric_name m"
  by (simp add: keepFirstDatapoint_def)

lemma finish_again:
  assumes "slice_sorter (dp_sort env)"
  shows "finish_metric env cfg (finish_metric env cfg m) = finish_metric env cfg m"
proof -
  have "m'\<lparr>metric_data := reduce_data n (metric_data m')\<rparr> = m'"
    if "reduce_data n (metric_data m') = metric_data m'" for n and m' :: metric
    using that by simp
  then show ?thesis
    by (simp add: finish_metric_def Let_def reduce_again reduce_keepFirst [OF assms] keepFirst_again [OF assms])
qed

lemma keepFirst_metric_selects:
  "slice_sorter (dp_sort env) \<Longrightarrow> metric_selects (keepFirstDatapoint env vol m) m"
  unfolding keepFirstDatapoint_eq by (rule metric_selects_map_points) (rule mset_first_point)

lemma finish_metric_selects:
  assumes "slice_sorter (dp_sort env)"
  shows "metric_selects (finish_metric env cfg m) m"
proof -
  have r: "metric_selects (m\<lparr>metric_data := reduce_data n (metric_data m)\<rparr>) m" for n
    by (simp add: metric_selects_def mset_reduce_subset reduce_data_kind)
  show ?thesis
    using metric_selects_trans [OF keepFirst_metric_selects [OF assms] r] r
      keepFirst_metric_selects [OF assms] metric_selects_refl
    by (simp add: finish_metric_def Let_def)
qed

lemma retain_selected_again:
  assumes "metric_selects x (m\<lparr>metric_data := retain_number_data P (metric_data m)\<rparr>)"
  shows "x\<lparr>metric_data := retain_number_data P (metric_data x)\<rparr> = x"
proof -
  have sub: "set (data_points (metric_data x)) \<subseteq> set (data_points (retain_number_data P (metric_data m)))"
    using assms set_mset_mono by (fastforce simp: metric_selects_def)
  have "retain_number_data P (metric_data x) = metric_data x"
    using assms sub by (cases "metric_data m"; cases "metric_data x")
      (auto simp: metric_selects_def filter_id_conv)
  then show ?thesis by simp
qed

lemma retain_prepared:
  assumes "slice_sorter (dp_sort env)"
  shows "retainSelectedNumberDatapoint (prepareMetricsAssertion env cfg ms)
     (selectedNumberMetric cfg) (selectedNumberDatapoint cfg) = prepareMetricsAssertion env cfg ms"
proof (cases "GetMetric ms (selectedNumberMetric cfg)")
  case None
  then have "GetMetric (prepareMetricsAssertion env cfg ms) (selectedNumberMetric cfg) = None"
    using GetMetric_table [OF datapoint_pass.pass_table [OF prepare_pass [OF assms]]] by simp
  then show ?thesis by (simp add: retainSelectedNumberDatapoint_def)
next
  case (Some ref)
  let ?g = "\<lambda>m. m\<lparr>metric_data := retain_number_data (other_datapoint (selectedNumberDatapoint cfg)) (metric_data m)\<rparr>"
  let ?r = "update_metric_at ref ?g ms"
  from Some have p: "prepareMetricsAssertion env cfg ms = map_metrics (finish_metric env cfg) ?r"
    by (simp add: prepare_eq retainSelectedNumberDatapoint_def)
  have t: "name_table ?r = name_table ms"
    using retain_number.pass_table [of ms "selectedNumberMetric cfg" "selectedNumberDatapoint cfg"] Some
    by (simp add: retainSelectedNumberDatapoint_def)
  from GetMetric_valid [OF Some] have v: "valid_ref ms ref" "valid_ref ?r ref"
    using valid_ref_table [of ms] valid_ref_table [of ?r] t by simp_all
  have "metric_at (prepareMetricsAssertion env cfg ms) ref = finish_metric env cfg (?g (metric_at ms ref))"
    using v by (simp add: p metric_at_map metric_at_update)
  then have "?g (metric_at (prepareMetricsAssertion env cfg ms) ref) = metric_at (prepareMetricsAssertion env cfg ms) ref"
    using retain_selected_again [OF finish_metric_selects [OF assms]] by simp
  then have "update_metric_at ref ?g (prepareMetricsAssertion env cfg ms) = prepareMetricsAssertion env cfg ms"
    by (rule update_metric_at_id)
  moreover have "GetMetric (prepareMetricsAssertion env cfg ms) (selectedNumberMetric cfg) = Some ref"
    using GetMetric_table [OF datapoint_pass.pass_table [OF prepare_pass [OF assms]]] Some by simp
  ultimately show ?thesis by (simp add: retainSelectedNumberDatapoint_def)
qed

lemma prepare_again:
  assumes "slice_sorter (dp_sort env)"
  shows "prepareMetricsAssertion env cfg (prepareMetricsAssertion env cfg ms) = prepareMetricsAssertion env cfg ms"
proof -
  have "prepareMetricsAssertion env cfg (prepareMetricsAssertion env cfg ms) =
      map_metrics (finish_metric env cfg) (prepareMetricsAssertion env cfg ms)"
    by (subst prepare_eq) (simp add: retain_prepared [OF assms])
  also have "\<dots> = prepareMetricsAssertion env cfg ms"
    by (simp add: prepare_eq map_metrics_comp finish_again [OF assms])
  finally show ?thesis .
qed

text \<open>
  C17: preparation is idempotent. \<open>AssertMetricsSnapshot\<close> prepares a payload, and
  \<open>WriteMetricsAssertion\<close> prepares what it is given again: the file is written from the very
  payload that is then asserted.
\<close>

theorem prepareMetricsAssertion_idempotent:
  assumes "slice_sorter (dp_sort env)"
  shows "prepareMetricsAssertion env cfg (prepareMetricsAssertion env cfg ms) = prepareMetricsAssertion env cfg ms \<and>
    WriteMetricsAssertion env d file (prepareMetricsAssertion env (newMetricsAssertionConfig opts) ms) opts =
      WriteMetricsAssertion env d file ms opts"
  by (simp add: prepare_again [OF assms] WriteMetricsAssertion_def)

definition sample_point :: "string \<Rightarrow> datapoint" where
  "sample_point s = \<lparr>dp_attributes = [(''state'', VStr s)], dp_bounds = [], dp_counts = [], dp_rest = []\<rparr>"

definition sample_sum :: "datapoint list \<Rightarrow> metric" where
  "sample_sum ds = \<lparr>metric_name = ''a'', metric_rest = [], metric_data = Sum ds\<rparr>"

lemma prepareMetricsAssertion_idempotent_witness:
  "let cfg = newMetricsAssertionConfig [WithFirstDatapointOnly [''a''], WithMaxDatapointsPerMetric 2];
       prepare = prepareMetricsAssertion (sample_env True) cfg;
       payload = [\<lparr>rm_attributes = [], rm_rest = [], rm_scopes =
         [\<lparr>sm_rest = [], sm_metrics = [sample_sum [sample_point ''b'', sample_point ''a'']]\<rparr>]\<rparr>]
   in prepare (prepare payload) =
      [\<lparr>rm_attributes = [], rm_rest = [], rm_scopes = [\<lparr>sm_rest = [], sm_metrics = [sample_sum [sample_point ''a'']]\<rparr>]\<rparr>]"
proof -
  have "slice_sorter (dp_sort (sample_env True))"
    by (simp add: sample_env_def slice_sorter_insertion_sort)
  note again = prepareMetricsAssertion_idempotent [OF this, THEN conjunct1]
  show ?thesis unfolding Let_def again by code_simp
qed

section \<open>The first data point\<close>

lemma zeroAttributeValue_again [simp]: "zeroAttributeValue (zeroAttributeValue v) = zeroAttributeValue v"
  by (cases v) auto

text \<open>
  The map that is hashed to order data points has the keys of the attribute map in their
  order; a flexible attribute is replaced by the zero of its type and any other attribute is
  unchanged, in whatever order the flexible attributes are masked.
\<close>

theorem sortableAttrs_masks:
  "attr_get (sortableAttrs vol m) k =
     (if k \<in> set vol then map_option zeroAttributeValue (attr_get m k) else attr_get m k) \<and>
   map fst (sortableAttrs vol m) = map fst m"
proof -
  have "attr_get (foldl (\<lambda>out a. set_first a zeroAttributeValue out) m vol) k =
     (if k \<in> set vol then map_option zeroAttributeValue (attr_get m k) else attr_get m k) \<and>
     map fst (foldl (\<lambda>out a. set_first a zeroAttributeValue out) m vol) = map fst m"
    by (induction vol arbitrary: m) (auto simp: attr_get_set_first keys_set_first option.map_comp comp_def)
  then show ?thesis by (simp add: sortableAttrs_def)
qed

text \<open>
  The data point that is kept for a noisy metric does not depend on the order in which the
  data points arrived, as long as the masked attributes of different points hash differently.
\<close>

theorem keepFirstDatapoint_stable:
  assumes "slice_sorter (dp_sort env)" and "mset ds = mset ds'"
    and "\<forall>x \<in> set ds. \<forall>y \<in> set ds.
      map_hash env (sortableAttrs vol (dp_attributes x)) = map_hash env (sortableAttrs vol (dp_attributes y)) \<longrightarrow> x = y"
  shows "keepFirstDatapoint env vol (m\<lparr>metric_data := map_points (\<lambda>_. ds) k\<rparr>) =
    keepFirstDatapoint env vol (m\<lparr>metric_data := map_points (\<lambda>_. ds') k\<rparr>)"
proof -
  have "\<forall>x \<in> set ds. \<forall>y \<in> set ds. less_points env vol x y \<or> less_points env vol y x \<or> x = y"
    using assms(3) by (metis attrsLess_def less_points_def linorder_neqE)
  then have "first_point env vol ds = first_point env vol ds'"
    unfolding first_point_def by (rule slice_sorter.srt_hd_perm [OF assms(1) strict_weak_less_points assms(2)])
  then show ?thesis by (cases k) (simp_all add: keepFirstDatapoint_eq)
qed

lemma keepFirstDatapoint_stable_witness:
  "keepFirstDatapoint (sample_env False) [] (sample_sum [sample_point ''b'', sample_point ''a'']) =
   keepFirstDatapoint (sample_env False) [] (sample_sum [sample_point ''a'', sample_point ''b''])"
  using keepFirstDatapoint_stable [where env = "sample_env False" and ds = "[sample_point ''b'', sample_point ''a'']"
      and ds' = "[sample_point ''a'', sample_point ''b'']" and vol = "[]" and m = "sample_sum []" and k = "Sum []"]
  by (simp add: sample_sum_def sample_env_def slice_sorter_insertion_sort sortableAttrs_def sample_point_def add_mset_commute)

section \<open>Snapshots\<close>

lemma counts_contains:
  "selectMetricSetByCounts target ms r c = Some h \<Longrightarrow> h < length ms \<and> containsMetric (ms ! h) target"
  by (simp add: selectMetricSetByCounts_def by_counts_scan_Some count_match_def)

lemma richest_contains:
  "richestMetricSet target ms = Some h \<Longrightarrow> h < length ms \<and> containsMetric (ms ! h) target"
  using richest_best [of target ms]
  by (auto simp: richestMetricSet_def best_from_def split: prod.splits option.splits)

lemma by_counts_timeout_selected:
  assumes "selectMetricSetByCountsWithTimeout clock sink now timeout target r c = Some (Selected m exact)"
  shows "\<exists>i h. h < length (sink i) \<and> containsMetric (sink i ! h) target \<and> m = sink i ! h"
proof -
  let ?attempt = "\<lambda>i. selectMetricSetByCounts target (sink i) r c"
  from assms obtain i x where p: "poll_until clock (now + timeout) ?attempt 0 = Some (i, x)"
    by (auto simp: selectMetricSetByCountsWithTimeout_def split: option.splits)
  show ?thesis
  proof (cases x)
    case (Some h)
    with poll_until_result [OF p] have "?attempt i = Some h" by simp
    moreover have "m = sink i ! h"
      using assms p Some by (simp add: selectMetricSetByCountsWithTimeout_def)
    ultimately show ?thesis using counts_contains by blast
  next
    case None
    with assms p obtain h where "richestMetricSet target (sink i) = Some h" "m = sink i ! h"
      by (auto simp: selectMetricSetByCountsWithTimeout_def split: option.splits)
    then show ?thesis using richest_contains by blast
  qed
qed

lemma by_assertion_timeout_selected:
  assumes "selectMetricSetByAssertionWithTimeout env d clock sink now timeout target r c file cfg = Some (Some m, None)"
  shows "\<exists>i h. h < length (sink i) \<and> containsMetric (sink i ! h) target \<and> m = sink i ! h \<and>
    assert_metrics env d file (prepareMetricsAssertion env cfg m) = None"
proof -
  let ?attempt = "\<lambda>i. case selectMetricSetByCounts target (sink i) r c of
      Some h \<Rightarrow> (if assert_metrics env d file (prepareMetricsAssertion env cfg (sink i ! h)) = None
                  then Some h else None)
    | None \<Rightarrow> None"
  from assms obtain i x where p: "poll_until clock (now + timeout) ?attempt 0 = Some (i, x)"
    by (auto simp: selectMetricSetByAssertionWithTimeout_def split: option.splits)
  show ?thesis
  proof (cases x)
    case (Some h)
    with poll_until_result [OF p] have "?attempt i = Some h" by simp
    then have "selectMetricSetByCounts target (sink i) r c = Some h"
      "assert_metrics env d file (prepareMetricsAssertion env cfg (sink i ! h)) = None"
      by (auto split: option.splits if_splits)
    moreover have "m = sink i ! h"
      using assms p Some by (simp add: selectMetricSetByAssertionWithTimeout_def)
    ultimately show ?thesis using counts_contains by blast
  next
    case None
    with assms p show ?thesis
      using richest_contains [of target "sink i"]
      by (auto simp: selectMetricSetByAssertionWithTimeout_def split: option.splits)
  qed
qed

text \<open>
  C4: a snapshot test that passes has seen the evidence: some payload the sink held while it waited
  contains the target metric and satisfies the assertion file after preparation, and the logged
  count is that payload's. Outside the update mode the assertion file, and the whole disk, is
  untouched.
\<close>

theorem AssertMetricsSnapshot_sound:
  assumes "AssertMetricsSnapshot env d clock sink now timeout target file opts = Some (Passed n, d')"
  shows "\<exists>i h. h < length (sink i) \<and> containsMetric (sink i ! h) target \<and> n = MetricCount (sink i ! h) \<and>
    assert_metrics env d' file (prepareMetricsAssertion env (newMetricsAssertionConfig opts) (sink i ! h)) = None \<and>
    (\<not> update_results env \<longrightarrow> d' = d)"
proof -
  let ?cfg = "newMetricsAssertionConfig opts"
  from assms obtain r c where rc: "assertionExpectedCounts (env_codec env) d file = Inr (r, c)"
    by (auto simp: AssertMetricsSnapshot_def Let_def split: sum.splits)
  show ?thesis
  proof (cases "waitForSnapshotMatch ?cfg \<and> \<not> update_results env")
    case True
    with assms rc obtain m where m: "selectMetricSetByAssertionWithTimeout env d clock sink now timeout target r c file ?cfg
        = Some (Some m, None)" "n = MetricCount m" "d' = d"
      by (auto simp: AssertMetricsSnapshot_def Let_def split: option.splits prod.splits)
    with by_assertion_timeout_selected [OF m(1)] show ?thesis by blast
  next
    case False
    with assms rc obtain m e where m: "selectMetricSetByCountsWithTimeout clock sink now timeout target r c = Some (Selected m e)"
      and u: "maybeUpdateExpectedMetricsAssertion env d file (prepareMetricsAssertion env ?cfg m) opts = (None, d')"
      and a: "assert_metrics env d' file (prepareMetricsAssertion env ?cfg m) = None" "n = MetricCount m"
      by (auto simp: AssertMetricsSnapshot_def Let_def split: option.splits prod.splits selection.splits if_splits)
    have "\<not> update_results env \<longrightarrow> d' = d"
      using u by (auto simp: maybeUpdateExpectedMetricsAssertion_def)
    with by_counts_timeout_selected [OF m] a show ?thesis by blast
  qed
qed

text \<open>
  C33: a snapshot test ends: if the clock advances by a positive interval per turn it passes or fails,
  in either mode, whatever the sink and the assertion package answer.
\<close>

theorem AssertMetricsSnapshot_returns:
  assumes "clock_advances clock interval" and "0 < interval"
  shows "\<exists>out d'. AssertMetricsSnapshot env d clock sink now timeout target file opts = Some (out, d')"
proof -
  obtain k where k: "now + timeout \<le> clock k" using clock_reaches [OF assms] by blast
  have poll: "poll_until clock (now + timeout) att 0 \<noteq> None" for att :: "nat \<Rightarrow> nat option"
    using poll_until_returns [of "now + timeout" clock k 0 att] k by auto
  have "\<exists>out. AssertMetricsSnapshot env d clock sink now timeout target file opts = Some out"
  proof (cases "assertionExpectedCounts (env_codec env) d file")
    case (Inl e)
    then show ?thesis by (simp add: AssertMetricsSnapshot_def)
  next
    case (Inr rc)
    obtain r c where rc: "rc = (r, c)" by (cases rc)
    from poll obtain a e where
      "selectMetricSetByAssertionWithTimeout env d clock sink now timeout target r c file (newMetricsAssertionConfig opts)
        = Some (a, e)"
      unfolding selectMetricSetByAssertionWithTimeout_def by (fastforce split: option.splits)
    moreover from poll obtain s where "selectMetricSetByCountsWithTimeout clock sink now timeout target r c = Some s"
      unfolding selectMetricSetByCountsWithTimeout_def by (fastforce split: option.splits)
    ultimately show ?thesis
      using Inr rc by (cases a; cases e; cases s) (simp_all add: AssertMetricsSnapshot_def Let_def split: option.split prod.split)
  qed
  then show ?thesis by auto
qed

definition sample_fs :: fs where
  "sample_fs = \<lparr>files = (\<lambda>_. Some ''x''), read_fault = (\<lambda>_. None), write_fault = (\<lambda>_. None)\<rparr>"

lemma AssertMetricsSnapshot_returns_witness:
  "\<exists>out d'. AssertMetricsSnapshot (sample_env False) sample_fs (\<lambda>i. int i * 5) (\<lambda>i. []) 0 60 ''a'' ''f'' [] = Some (out, d')"
proof -
  have "clock_advances (\<lambda>i. int i * 5) 5" by (simp add: clock_advances_def)
  then show ?thesis by (rule AssertMetricsSnapshot_returns) simp
qed

lemma sample_counts: "assertionExpectedCounts (env_codec (sample_env u)) sample_fs ''f'' = Inr (1, 1)"
proof -
  have "count_document ''f'' sample_document = Inr (1, 1)" by code_simp
  then show ?thesis
    by (simp add: assertionExpectedCounts_def read_document_def ReadFile_def sample_fs_def sample_env_def
      bind_res_def wrap_err_def)
qed

lemma AssertMetricsSnapshot_sound_witness:
  "\<exists>h. h < length [sample_metrics] \<and> 3 = MetricCount ([sample_metrics] ! h)"
proof -
  have r: "richestMetricSet ''a'' [sample_metrics] = Some 0" by code_simp
  have c: "MetricCount sample_metrics = 3" by code_simp
  have p: "poll_until (\<lambda>_. 0) 0 attempt 0 = Some (0, None)" for attempt :: "nat \<Rightarrow> nat option"
    by (subst poll_until.simps) simp
  have "selectMetricSetByCountsWithTimeout (\<lambda>_. 0) (\<lambda>_. [sample_metrics]) 0 0 ''a'' 1 1 = Some (Selected sample_metrics False)"
    by (simp add: selectMetricSetByCountsWithTimeout_def p r)
  then have "AssertMetricsSnapshot (sample_env False) sample_fs (\<lambda>_. 0) (\<lambda>_. [sample_metrics]) 0 0 ''a'' ''f'' [] =
      Some (Passed 3, sample_fs)"
    using sample_counts [of False] c
    by (simp add: AssertMetricsSnapshot_def Let_def newMetricsAssertionConfig_def zero_config_def
      maybeUpdateExpectedMetricsAssertion_def) (simp add: sample_env_def)
  from AssertMetricsSnapshot_sound [OF this] show ?thesis by blast
qed

end
