(* ===== verification/AssertType.thy ===== *)
theory AssertType
  imports AssertDoc
begin

section \<open>Well-typed assertion documents\<close>

text \<open>
  The type of the documents that \<open>pmetricassert\<close> reads: in every map the keys are distinct, a key that ends in
  \<open>/exists\<close> holds a boolean and one that ends in \<open>/regex\<close> a string. Marking keeps a document of this type,
  although it renames keys and replaces values in place.
\<close>

fun typed_entry :: "string \<Rightarrow> yaml \<Rightarrow> bool" where
  "typed_entry k (YBool b) = (\<not> has_suffix k ''/regex'')"
| "typed_entry k (YStr s) = (\<not> has_suffix k ''/exists'')"
| "typed_entry k v = (\<not> marked k)"

fun typed :: "yaml \<Rightarrow> bool" where
  "typed (YList vs) = list_all typed vs"
| "typed (YMap m) = (distinct (map fst m) \<and> list_all (\<lambda>(k, v). typed_entry k v \<and> typed v) m)"
| "typed v = True"

lemma typed_map: "typed (YMap m) \<longleftrightarrow> distinct (map fst m) \<and> (\<forall>(k, v) \<in> set m. typed_entry k v \<and> typed v)"
  by (simp add: list_all_iff)

lemma typed_entry_unmarked: "\<not> marked k \<Longrightarrow> typed_entry k v"
  by (cases v) (auto simp: marked_def)

lemma has_suffix_append: "has_suffix (k @ p) p"
  by (simp add: has_suffix_def has_prefix_append)

lemma regex_not_exists: "\<not> has_suffix (k @ ''/regex'') ''/exists''" "\<not> has_suffix (k @ ''/exists'') ''/regex''"
  by (simp_all add: has_suffix_def)

lemma set_update_subset: "set (AList.update k v m) \<subseteq> insert (k, v) (set m)"
  by (induction m) auto

lemma typed_update:
  assumes "typed (YMap m)" and "typed_entry k v" and "typed v"
  shows "typed (YMap (AList.update k v m))"
  using assms set_update_subset [of k v m] unfolding typed_map by (auto simp: distinct_update)

lemma set_delete_subset: "set (AList.delete k m) \<subseteq> set m"
  by (auto simp: AList.delete_eq)

lemma typed_delete: "typed (YMap m) \<Longrightarrow> typed (YMap (AList.delete k m))"
  unfolding typed_map using distinct_delete [of m k] set_delete_subset [of k m] by blast

lemma typed_lookup: "typed (YMap m) \<Longrightarrow> typed (ylookup m k)"
  unfolding typed_map by (auto simp: ylookup_def dest!: map_of_SomeD split: option.splits)

lemma typed_yreplace:
  "typed (YMap m) \<Longrightarrow> \<not> marked k \<Longrightarrow> typed v \<Longrightarrow> typed (YMap (yreplace k v m))"
  by (simp add: yreplace_def typed_update typed_entry_unmarked del: typed.simps)

text \<open>The interface of a marking that gives the moved keys values of their type.\<close>

locale typed_marker = key_marker +
  assumes typed_value: "decide k = Some (s, v) \<Longrightarrow> typed_entry (k @ s) v \<and> typed v"
begin

lemma mark_key_typed: "typed (YMap m) \<Longrightarrow> typed (YMap (mark_key decide m k))"
  using typed_value by (auto simp: mark_key_def typed_update typed_delete simp del: typed.simps split: option.splits)

lemma mark_keys_typed: "typed (YMap m) \<Longrightarrow> typed (YMap (mark_keys decide m))"
proof -
  have "typed (YMap (foldl (mark_key decide) m ks))" if "typed (YMap m)" for ks
    using that by (induction ks arbitrary: m) (simp_all add: mark_key_typed del: typed.simps)
  then show "typed (YMap m) \<Longrightarrow> typed (YMap (mark_keys decide m))" unfolding mark_keys_def .
qed

lemma mark_value_typed: "typed a \<Longrightarrow> mark_value decide file path a = Inr a' \<Longrightarrow> typed a'"
  by (cases a) (auto simp: mark_value_def mark_keys_typed simp del: typed.simps(2))

end

interpretation typed_flexible: typed_marker "flexible_decide vol regex" for vol regex
  by unfold_locales (auto simp: flexible_decide_def regex_not_exists split: option.splits if_splits)

interpretation typed_nonidentity: typed_marker "identity_decide exact" for exact
  by unfold_locales (auto simp: identity_decide_def regex_not_exists split: if_splits)

section \<open>Typing of each level\<close>

lemma imapM_typed:
  assumes "imapM f i xs = Inr ys" and "list_all typed xs" and "\<And>j x y. typed x \<Longrightarrow> f j x = Inr y \<Longrightarrow> typed y"
  shows "list_all typed ys"
  using imapM_set [OF assms(1)] assms(2,3) unfolding list_all_iff by blast

lemma typed_items: "typed (YMap m) \<Longrightarrow> ylookup m k = YList xs \<Longrightarrow> list_all typed xs"
  by (metis typed_lookup typed.simps(1))

lemma unmarked_keys [simp]:
  "\<not> marked ''attributes''" "\<not> marked ''datapoints''" "\<not> marked ''metrics''" "\<not> marked ''scopes''" "\<not> marked ''resources''"
  by (simp_all add: marked_def has_suffix_def)

lemma markAttrs_typed: "typed a \<Longrightarrow> markAttrs file path a vol regex = Inr a' \<Longrightarrow> typed a'"
  unfolding markAttrs_def by (rule typed_flexible.mark_value_typed)

lemma markNonIdentityAttrs_typed: "typed a \<Longrightarrow> markNonIdentityAttrs file path a exact = Inr a' \<Longrightarrow> typed a'"
  unfolding markNonIdentityAttrs_def by (rule typed_nonidentity.mark_value_typed)

lemma mark_attributes_typed: "typed a \<Longrightarrow> mark_attributes mk file path a = Inr a' \<Longrightarrow> typed a'"
  unfolding mark_attributes_def bind_res_Inr_iff
  by (auto dest: markAttrs_typed markNonIdentityAttrs_typed split: option.splits)

lemma mark_datapoint_typed:
  assumes "typed dp" and "mark_datapoint mk file i j k l dp = Inr dp'"
  shows "typed dp'"
proof -
  from assms(2) obtain m a where m: "dp = YMap m"
    "mark_attributes mk file (datapoint_path i j k l @ ''.attributes'') (ylookup m ''attributes'') = Inr a"
    "dp' = YMap (yreplace ''attributes'' a m)"
    by (auto simp: mark_datapoint_eq bind_res_def split: yaml.splits sum.splits)
  from assms(1) have t: "typed (YMap m)" unfolding m(1) .
  show ?thesis unfolding m(3)
    by (rule typed_yreplace [OF t _ mark_attributes_typed [OF typed_lookup [OF t] m(2)]]) simp
qed

lemma mark_metric_typed:
  assumes "typed v" and "mark_metric mk file i j k v = Inr v'"
  shows "typed v'"
proof -
  from assms(2) obtain m where m: "v = YMap m" by (cases v) (auto simp: mark_metric_def)
  from assms(1) have t: "typed (YMap m)" unfolding m .
  show ?thesis
  proof (cases "ylookup m ''datapoints'' = YNil")
    case True
    with assms(2) m have "v' = YMap m" by (simp add: mark_metric_def)
    with t show ?thesis by (simp only:)
  next
    case False
    with assms(2) m obtain dps dps' where d: "ylookup m ''datapoints'' = YList dps"
      "imapM (mark_datapoint mk file i j k) 0 dps = Inr dps'" "v' = YMap (yreplace ''datapoints'' (YList dps') m)"
      by (auto simp: mark_metric_def bind_res_def assertionSlice_def split: yaml.splits sum.splits)
    have "list_all typed dps'" by (rule imapM_typed [OF d(2) typed_items [OF t d(1)] mark_datapoint_typed])
    then show ?thesis unfolding d(3) by (intro typed_yreplace [OF t]) simp_all
  qed
qed

lemma mark_version_typed: "typed (YMap m) \<Longrightarrow> typed (YMap (mark_version re m))"
  by (simp add: mark_version_def typed_update typed_delete has_suffix_def del: typed.simps(2))

lemma mark_scope_typed:
  assumes "typed v" and "mark_scope mk file i j v = Inr v'"
  shows "typed v'"
proof -
  from assms(2) obtain m ms ms' where m: "v = YMap m"
    "ylookup (mark_version (mk_version mk) m) ''metrics'' = YList ms"
    "imapM (mark_metric mk file i j) 0 ms = Inr ms'"
    "v' = YMap (yreplace ''metrics'' (YList ms') (mark_version (mk_version mk) m))"
    by (auto simp: mark_scope_def Let_def bind_res_def assertionSlice_def split: yaml.splits sum.splits)
  have t: "typed (YMap (mark_version (mk_version mk) m))"
    using assms(1) unfolding m(1) by (rule mark_version_typed)
  have "list_all typed ms'" by (rule imapM_typed [OF m(3) typed_items [OF t m(2)] mark_metric_typed])
  then show ?thesis unfolding m(4) by (intro typed_yreplace [OF t]) simp_all
qed

lemma mark_resource_typed:
  assumes "typed v" and "mark_resource mk file i v = Inr v'"
  shows "typed v'"
proof -
  let ?f = "\<lambda>a. markAttrs file (resource_path i @ ''.attributes'') a (mk_volatile mk) (mk_regex mk)"
  from assms(2) obtain m a ss ss' where m: "v = YMap m" "?f (ylookup m ''attributes'') = Inr a"
    "ylookup m ''scopes'' = YList ss" "imapM (mark_scope mk file i) 0 ss = Inr ss'"
    "v' = YMap (yreplace ''scopes'' (YList ss') (yreplace ''attributes'' a m))"
    by (auto simp: mark_resource_def bind_res_def assertionSlice_def split: yaml.splits sum.splits)
  from assms(1) have t: "typed (YMap m)" unfolding m(1) .
  have "typed a" by (rule markAttrs_typed [OF typed_lookup [OF t] m(2)])
  then have t': "typed (YMap (yreplace ''attributes'' a m))" by (intro typed_yreplace [OF t]) simp_all
  have "list_all typed ss'" by (rule imapM_typed [OF m(4) typed_items [OF t m(3)] mark_scope_typed])
  then show ?thesis unfolding m(5) by (intro typed_yreplace [OF t']) simp_all
qed

section \<open>Property\<close>

text \<open>
  C27: marking keeps a document well typed: no map gets a key twice, every \<open>/exists\<close> key holds a
  boolean and every \<open>/regex\<close> key a string, the scope's version included.
\<close>

theorem mark_document_typed:
  assumes "typed (YMap doc)" and "mark_document mk file doc = Inr doc'"
  shows "typed (YMap doc')"
proof -
  from assms(2) obtain rs rs' where m: "ylookup doc ''resources'' = YList rs"
    "imapM (mark_resource mk file) 0 rs = Inr rs'" "doc' = yreplace ''resources'' (YList rs') doc"
    by (auto simp: mark_document_def bind_res_def assertionSlice_def split: yaml.splits sum.splits)
  have "list_all typed rs'" by (rule imapM_typed [OF m(2) typed_items [OF assms(1) m(1)] mark_resource_typed])
  then show ?thesis unfolding m(3) by (intro typed_yreplace [OF assms(1)]) simp_all
qed

lemma mark_document_typed_witness: "typed (YMap sample_document) \<and> typed (YMap sample_marked)"
proof -
  have t: "typed (YMap sample_document)" by code_simp
  with mark_document_typed [OF t sample_document_marked] show ?thesis by (simp only: simp_thms)
qed

end
