(* ===== verification/GoRegex.thy ===== *)
theory GoRegex
  imports GoNumbers
begin

section \<open>Regular expressions\<close>

text \<open>
  The part of Go's regular expression syntax that the attribute patterns use: character classes,
  concatenation, groups with alternatives, the repetitions \<open>*\<close>, \<open>+\<close>, \<open>?\<close> and \<open>{n}\<close>. \<open>re_text\<close> prints an
  expression in Go's syntax, \<open>lang\<close> is the set of the texts it matches as a whole, and \<open>full_match\<close> decides it
  with derivatives.
\<close>

datatype cls = One char | Range char char

datatype re =
    Chr char
  | Cls "cls list"
  | Cat "re list"
  | Alt "re list" \<comment> \<open>a group, with its parentheses\<close>
  | Star re
  | Plus re
  | Opt re
  | Rep re nat

fun in_cls :: "char \<Rightarrow> cls \<Rightarrow> bool" where
  "in_cls c (One d) = (c = d)"
| "in_cls c (Range a b) = (a \<le> c \<and> c \<le> b)"

subsection \<open>Printing\<close>

fun cls_text :: "cls \<Rightarrow> string" where
  "cls_text (One c) = [c]"
| "cls_text (Range a b) = [a, CHR ''-'', b]"

text \<open>A character with a meaning of its own is escaped, as by \<open>regexp.QuoteMeta\<close>.\<close>

definition quote_meta :: "char \<Rightarrow> string" where
  "quote_meta c = (if c = CHR 0x5C \<or> c \<in> set ''.+*?()|[]{}^$'' then [CHR 0x5C, c] else [c])"

fun re_text :: "re \<Rightarrow> string" where
  "re_text (Chr c) = quote_meta c"
| "re_text (Cls cs) = ''['' @ concat (map cls_text cs) @ '']''"
| "re_text (Cat rs) = concat (map re_text rs)"
| "re_text (Alt rs) = ''('' @ join ''|'' (map re_text rs) @ '')''"
| "re_text (Star r) = re_text r @ ''*''"
| "re_text (Plus r) = re_text r @ ''+''"
| "re_text (Opt r) = re_text r @ ''?''"
| "re_text (Rep r n) = re_text r @ ''{'' @ nat_digits n @ ''}''"

subsection \<open>Languages\<close>

definition conc :: "string set \<Rightarrow> string set \<Rightarrow> string set" where
  "conc A B = {u @ v | u v. u \<in> A \<and> v \<in> B}"

definition many :: "string set \<Rightarrow> string set" where
  "many A = {concat ws | ws. set ws \<subseteq> A}"

fun lang :: "re \<Rightarrow> string set" where
  "lang (Chr c) = {[c]}"
| "lang (Cls cs) = {[c] | c. list_ex (in_cls c) cs}"
| "lang (Cat rs) = foldr conc (map lang rs) {[]}"
| "lang (Alt rs) = \<Union> (set (map lang rs))"
| "lang (Star r) = many (lang r)"
| "lang (Plus r) = conc (lang r) (many (lang r))"
| "lang (Opt r) = insert [] (lang r)"
| "lang (Rep r n) = (conc (lang r) ^^ n) {[]}"

subsection \<open>Matching\<close>

datatype core =
    Nothing
  | Eps
  | Class "cls list"
  | Then core core
  | Or core core
  | Many core

fun core_of :: "re \<Rightarrow> core" where
  "core_of (Chr c) = Class [One c]"
| "core_of (Cls cs) = Class cs"
| "core_of (Cat rs) = foldr Then (map core_of rs) Eps"
| "core_of (Alt rs) = foldr Or (map core_of rs) Nothing"
| "core_of (Star r) = Many (core_of r)"
| "core_of (Plus r) = Then (core_of r) (Many (core_of r))"
| "core_of (Opt r) = Or Eps (core_of r)"
| "core_of (Rep r n) = (Then (core_of r) ^^ n) Eps"

fun nullable :: "core \<Rightarrow> bool" where
  "nullable Nothing = False"
| "nullable Eps = True"
| "nullable (Class cs) = False"
| "nullable (Then r s) = (nullable r \<and> nullable s)"
| "nullable (Or r s) = (nullable r \<or> nullable s)"
| "nullable (Many r) = True"

text \<open>The constructors \<open>and_then\<close> and \<open>or_else\<close> drop what can no longer match, so that the derivatives stay small.\<close>

definition and_then :: "core \<Rightarrow> core \<Rightarrow> core" where
  "and_then r s = (if r = Nothing then Nothing else if r = Eps then s else Then r s)"

definition or_else :: "core \<Rightarrow> core \<Rightarrow> core" where
  "or_else r s = (if r = Nothing then s else if s = Nothing \<or> s = r then r else Or r s)"

fun deriv :: "char \<Rightarrow> core \<Rightarrow> core" where
  "deriv c Nothing = Nothing"
| "deriv c Eps = Nothing"
| "deriv c (Class cs) = (if list_ex (in_cls c) cs then Eps else Nothing)"
| "deriv c (Then r s) =
     (if nullable r then or_else (and_then (deriv c r) s) (deriv c s) else and_then (deriv c r) s)"
| "deriv c (Or r s) = or_else (deriv c r) (deriv c s)"
| "deriv c (Many r) = and_then (deriv c r) (Many r)"

definition full_match :: "re \<Rightarrow> string \<Rightarrow> bool" where
  "full_match r s = nullable (foldl (\<lambda>q c. deriv c q) (core_of r) s)"

section \<open>Facts\<close>

fun core_lang :: "core \<Rightarrow> string set" where
  "core_lang Nothing = {}"
| "core_lang Eps = {[]}"
| "core_lang (Class cs) = {[c] | c. list_ex (in_cls c) cs}"
| "core_lang (Then r s) = conc (core_lang r) (core_lang s)"
| "core_lang (Or r s) = core_lang r \<union> core_lang s"
| "core_lang (Many r) = many (core_lang r)"

lemma concI [intro]: "u \<in> A \<Longrightarrow> v \<in> B \<Longrightarrow> u @ v \<in> conc A B"
  by (auto simp: conc_def)

lemma concE [elim]: "w \<in> conc A B \<Longrightarrow> (\<And>u v. w = u @ v \<Longrightarrow> u \<in> A \<Longrightarrow> v \<in> B \<Longrightarrow> P) \<Longrightarrow> P"
  by (auto simp: conc_def)

lemma many_Nil [simp, intro]: "[] \<in> many A"
  by (auto simp: many_def intro: exI [of _ "[]"])

lemma many_step: "u \<in> A \<Longrightarrow> v \<in> many A \<Longrightarrow> u @ v \<in> many A"
proof -
  assume u: "u \<in> A" and "v \<in> many A"
  then obtain ws where "v = concat ws" "set ws \<subseteq> A" by (auto simp: many_def)
  with u have "u @ v = concat (u # ws) \<and> set (u # ws) \<subseteq> A" by simp
  then show "u @ v \<in> many A" unfolding many_def by blast
qed

lemma many_Cons: "c # w \<in> many A \<longleftrightarrow> (\<exists>u v. w = u @ v \<and> c # u \<in> A \<and> v \<in> many A)"
proof
  assume "c # w \<in> many A"
  then obtain ws where ws: "c # w = concat ws" "set ws \<subseteq> A" by (auto simp: many_def)
  then show "\<exists>u v. w = u @ v \<and> c # u \<in> A \<and> v \<in> many A"
  proof (induction ws)
    case (Cons x ws)
    show ?case
    proof (cases x)
      case Nil
      with Cons show ?thesis by simp
    next
      case (Cons d u)
      with Cons.prems have "w = u @ concat ws" "c # u \<in> A" "concat ws \<in> many A" by (auto simp: many_def)
      then show ?thesis by blast
    qed
  qed simp
next
  assume "\<exists>u v. w = u @ v \<and> c # u \<in> A \<and> v \<in> many A"
  then obtain u v where uv: "w = u @ v" "c # u \<in> A" "v \<in> many A" by blast
  show "c # w \<in> many A" using many_step [OF uv(2,3)] uv(1) by simp
qed

lemma conc_Nil [simp]: "[] \<in> conc A B \<longleftrightarrow> [] \<in> A \<and> [] \<in> B"
  by (auto simp: conc_def)

lemma conc_empty [simp]: "conc {} B = {}" "conc A {} = {}"
  by (auto simp: conc_def)

lemma conc_eps [simp]: "conc {[]} B = B" "conc A {[]} = A"
  by (auto simp: conc_def)

lemma conc_Cons:
  "c # w \<in> conc A B \<longleftrightarrow> (\<exists>u v. w = u @ v \<and> c # u \<in> A \<and> v \<in> B) \<or> [] \<in> A \<and> c # w \<in> B"
  by (auto simp: conc_def Cons_eq_append_conv)

lemma core_lang_and_then [simp]: "core_lang (and_then r s) = conc (core_lang r) (core_lang s)"
  by (simp add: and_then_def)

lemma core_lang_or_else [simp]: "core_lang (or_else r s) = core_lang r \<union> core_lang s"
  by (auto simp: or_else_def)

lemma nullable_lang: "nullable r \<longleftrightarrow> [] \<in> core_lang r"
  by (induction r) auto

lemma deriv_lang: "w \<in> core_lang (deriv c r) \<longleftrightarrow> c # w \<in> core_lang r"
proof (induction r arbitrary: w)
  case (Then r s)
  have "w \<in> conc (core_lang (deriv c r)) (core_lang s) \<longleftrightarrow> (\<exists>u v. w = u @ v \<and> c # u \<in> core_lang r \<and> v \<in> core_lang s)"
    using Then(1) by (auto simp: conc_def)
  then show ?case using Then(2) by (simp add: conc_Cons nullable_lang)
next
  case (Many r)
  then show ?case by (auto simp: many_Cons conc_def)
qed auto

lemma core_of_lang: "core_lang (core_of r) = lang r"
proof (induction r)
  case (Cat rs)
  then show ?case by (induction rs) auto
next
  case (Alt rs)
  then show ?case by (induction rs) auto
next
  case (Rep r n)
  then show ?case by (induction n) auto
qed auto

text \<open>The matcher decides the language.\<close>

lemma full_match_lang: "full_match r s \<longleftrightarrow> s \<in> lang r"
proof -
  have "nullable (foldl (\<lambda>q c. deriv c q) q s) \<longleftrightarrow> s \<in> core_lang q" for q
    by (induction s arbitrary: q) (simp_all add: nullable_lang deriv_lang)
  then show ?thesis by (simp add: full_match_def core_of_lang)
qed

end
