(* ===== verification/AttrPatterns.thy ===== *)
theory AttrPatterns
  imports GoRegex
begin

section \<open>The shared attribute patterns\<close>

text \<open>
  Model of the regular expressions of \<open>functional_tests/internal/metricassert.go\<close> and of the table that
  gives the common Kubernetes attributes their pattern. Each constant of the source is the text of an
  expression (\<open>patterns_text\<close>), and the properties say which attribute values the expression matches.
\<close>

subsection \<open>The constants\<close>

definition ContainerIDRegex :: string where
  "ContainerIDRegex = ''(containerd://|cri-o://|docker://)?[0-9a-f]{64}''"

definition ContainerImageRegex :: string where
  "ContainerImageRegex = ''[-./:0-9a-z_]+''"

definition ContainerImageTagRegex :: string where
  "ContainerImageTagRegex = ''[-.0-9A-Za-z_]+''"

definition K8sNameRegex :: string where
  "K8sNameRegex = ''[a-z0-9]([-a-z0-9]*[a-z0-9])?('' @ CHR 0x5C # ''.[a-z0-9]([-a-z0-9]*[a-z0-9])?)*''"

definition K8sUIDRegex :: string where
  "K8sUIDRegex = ''[0-9a-f]{8}-[0-9a-f]{4}-[0-9a-f]{4}-[0-9a-f]{4}-[0-9a-f]{12}''"

definition K8sAPIVerbRegex :: string where
  "K8sAPIVerbRegex =
     ''^(APPLY|CONNECT|CREATE|DELETE|DELETECOLLECTION|GET|LIST|PATCH|POST|PROXY|PUT|UPDATE|WATCH|WATCHLIST|other)$''"

definition KubeletVersionRegex :: string where
  "KubeletVersionRegex =
     ''v[0-9]+'' @ CHR 0x5C # ''.[0-9]+'' @ CHR 0x5C # ''.[0-9]+([-+][-.0-9A-Za-z]+)?''"

definition OtelCollectorVersionRegex :: string where
  "OtelCollectorVersionRegex = ''v[0-9]+'' @ CHR 0x5C # ''.[0-9]+'' @ CHR 0x5C # ''.[0-9]+''"

definition CommonK8sMetricAssertionRegexAttrs :: "(string \<times> string) list" where
  "CommonK8sMetricAssertionRegexAttrs =
     [(''container.id'', ContainerIDRegex), (''container.image.name'', ContainerImageRegex),
      (''container.image.tag'', ContainerImageTagRegex), (''k8s.daemonset.uid'', K8sUIDRegex),
      (''k8s.deployment.uid'', K8sUIDRegex), (''k8s.kubelet.version'', KubeletVersionRegex),
      (''k8s.namespace.uid'', K8sUIDRegex), (''k8s.node.name'', K8sNameRegex), (''k8s.node.uid'', K8sUIDRegex),
      (''k8s.pod.name'', K8sNameRegex), (''k8s.pod.uid'', K8sUIDRegex), (''k8s.replicaset.name'', K8sNameRegex),
      (''k8s.replicaset.uid'', K8sUIDRegex)]"

subsection \<open>The expressions\<close>

definition lit :: "string \<Rightarrow> re" where
  "lit s = Cat (map Chr s)"

definition digits :: cls where "digits = Range (CHR ''0'') (CHR ''9'')"
definition lowers :: cls where "lowers = Range (CHR ''a'') (CHR ''z'')"
definition uppers :: cls where "uppers = Range (CHR ''A'') (CHR ''Z'')"
definition hex :: re where "hex = Cls [digits, Range (CHR ''a'') (CHR ''f'')]"

definition container_id :: re where
  "container_id = Cat [Opt (Alt [lit ''containerd://'', lit ''cri-o://'', lit ''docker://'']), Rep hex 64]"

definition container_image :: re where
  "container_image = Plus (Cls [One (CHR ''-''), One (CHR ''.''), One (CHR ''/''), One (CHR '':''), digits, lowers, One (CHR ''_'')])"

definition container_image_tag :: re where
  "container_image_tag = Plus (Cls [One (CHR ''-''), One (CHR ''.''), digits, uppers, lowers, One (CHR ''_'')])"

definition name_label :: re where
  "name_label =
     Cat [Cls [lowers, digits], Opt (Alt [Cat [Star (Cls [One (CHR ''-''), lowers, digits]), Cls [lowers, digits]]])]"

definition k8s_name :: re where
  "k8s_name = Cat [name_label, Star (Alt [Cat [Chr (CHR ''.''), name_label]])]"

definition k8s_uid :: re where
  "k8s_uid =
     Cat [Rep hex 8, Chr (CHR ''-''), Rep hex 4, Chr (CHR ''-''), Rep hex 4, Chr (CHR ''-''), Rep hex 4, Chr (CHR ''-''), Rep hex 12]"

definition api_verb :: re where
  "api_verb =
     Alt (map lit [''APPLY'', ''CONNECT'', ''CREATE'', ''DELETE'', ''DELETECOLLECTION'', ''GET'', ''LIST'', ''PATCH'', ''POST'',
       ''PROXY'', ''PUT'', ''UPDATE'', ''WATCH'', ''WATCHLIST'', ''other''])"

definition collector_version :: re where
  "collector_version =
     Cat [Chr (CHR ''v''), Plus (Cls [digits]), Chr (CHR ''.''), Plus (Cls [digits]), Chr (CHR ''.''), Plus (Cls [digits])]"

definition kubelet_version :: re where
  "kubelet_version =
     Cat [collector_version,
       Opt (Alt [Cat [Cls [One (CHR ''-''), One (CHR ''+'')],
         Plus (Cls [One (CHR ''-''), One (CHR ''.''), digits, uppers, lowers])]])]"

lemma patterns_text:
  "ContainerIDRegex = re_text container_id" "ContainerImageRegex = re_text container_image"
  "ContainerImageTagRegex = re_text container_image_tag" "K8sNameRegex = re_text k8s_name"
  "K8sUIDRegex = re_text k8s_uid" "K8sAPIVerbRegex = ''^'' @ re_text api_verb @ ''$''"
  "KubeletVersionRegex = re_text kubelet_version" "OtelCollectorVersionRegex = re_text collector_version"
  by code_simp+

section \<open>Facts about the languages\<close>

lemma many_class: "many {[c] | c. P c} = {s. \<forall>c \<in> set s. P c}"
proof (intro set_eqI)
  fix s
  show "s \<in> many {[c] | c. P c} \<longleftrightarrow> s \<in> {s. \<forall>c \<in> set s. P c}"
    by (induction s) (auto simp: many_Cons)
qed

lemma conc_class: "conc {[c] | c. P c} B = {c # s | c s. P c \<and> s \<in> B}"
proof (intro set_eqI)
  fix w
  show "w \<in> conc {[c] | c. P c} B \<longleftrightarrow> w \<in> {c # s | c s. P c \<and> s \<in> B}"
    by (cases w) (auto simp: conc_Cons)
qed

lemma rep_class: "(conc {[c] | c. P c} ^^ n) {[]} = {s. length s = n \<and> (\<forall>c \<in> set s. P c)}"
proof (induction n)
  case (Suc n)
  then show ?case by (auto simp: conc_class length_Suc_conv)
qed auto

lemma lit_lang [simp]: "lang (lit s) = {s}"
proof -
  have "foldr conc (map (\<lambda>c. {[c]}) s) {[]} = {s}" by (induction s) (auto simp: conc_def)
  then show ?thesis by (simp add: lit_def o_def)
qed

subsection \<open>Names\<close>

definition name_char :: "char \<Rightarrow> bool" where
  "name_char c = (in_cls c lowers \<or> in_cls c digits)"

text \<open>A DNS label as RFC 1123 has it, in lower case; a subdomain is such labels with dots between.\<close>

definition dns_label :: "string \<Rightarrow> bool" where
  "dns_label l =
     (l \<noteq> [] \<and> list_all (\<lambda>c. name_char c \<or> c = CHR ''-'') l \<and> name_char (hd l) \<and> name_char (last l))"

definition dns_subdomain :: "string \<Rightarrow> bool" where
  "dns_subdomain s = list_all dns_label (split_char (CHR ''.'') s)"

lemma name_label_lang: "lang name_label = {l. dns_label l}"
proof -
  have inner: "conc (many {[c] | c. c = CHR ''-'' \<or> name_char c}) {[c] | c. name_char c} =
      {u @ [d] | u d. list_all (\<lambda>c. name_char c \<or> c = CHR ''-'') u \<and> name_char d}"
    unfolding many_class by (auto simp: conc_def list_all_iff)
  have "lang name_label = {c # s | c s. name_char c \<and>
      (s = [] \<or> (\<exists>u d. s = u @ [d] \<and> list_all (\<lambda>c. name_char c \<or> c = CHR ''-'') u \<and> name_char d))}"
    using inner by (simp add: name_label_def conc_class name_char_def [symmetric])
  also have "\<dots> = {l. dns_label l}"
  proof (intro set_eqI iffI)
    fix l
    assume "l \<in> {l. dns_label l}"
    then obtain c s where l: "l = c # s" and d: "dns_label (c # s)" by (cases l) (auto simp: dns_label_def)
    then show "l \<in> {c # s | c s. name_char c \<and>
      (s = [] \<or> (\<exists>u d. s = u @ [d] \<and> list_all (\<lambda>c. name_char c \<or> c = CHR ''-'') u \<and> name_char d))}"
      by (cases s rule: rev_cases) (auto simp: dns_label_def)
  qed (auto simp: dns_label_def)
  finally show ?thesis .
qed

lemma dns_label_no_dot: "dns_label l \<Longrightarrow> CHR ''.'' \<notin> set l"
  by (auto simp: dns_label_def list_all_iff name_char_def lowers_def digits_def)

lemma many_dotted: "s \<in> many {CHR ''.'' # l | l. dns_label l} \<longleftrightarrow>
    (\<exists>ls. list_all dns_label ls \<and> s = concat (map ((#) (CHR ''.'')) ls))"
proof
  assume "s \<in> many {CHR ''.'' # l | l. dns_label l}"
  then obtain ws where ws: "s = concat ws" "\<forall>w \<in> set ws. \<exists>l. w = CHR ''.'' # l \<and> dns_label l"
    by (auto simp: many_def)
  have "ws = map ((#) (CHR ''.'')) (map tl ws)" and "list_all dns_label (map tl ws)"
    using ws(2) by (induction ws) auto
  with ws(1) show "\<exists>ls. list_all dns_label ls \<and> s = concat (map ((#) (CHR ''.'')) ls)" by metis
next
  assume "\<exists>ls. list_all dns_label ls \<and> s = concat (map ((#) (CHR ''.'')) ls)"
  then obtain ls where "list_all dns_label ls" "s = concat (map ((#) (CHR ''.'')) ls)" by blast
  then show "s \<in> many {CHR ''.'' # l | l. dns_label l}"
    by (auto simp: many_def list_all_iff intro!: exI [of _ "map ((#) (CHR ''.'')) ls"])
qed

lemma join_dot: "join [c] (l # ls) = l @ concat (map ((#) c) ls)"
  by (induction ls arbitrary: l) auto

lemma k8s_name_lang: "lang k8s_name = {s. dns_subdomain s}"
proof (intro set_eqI)
  fix s
  have "s \<in> lang k8s_name \<longleftrightarrow>
      (\<exists>l ls. dns_label l \<and> list_all dns_label ls \<and> s = l @ concat (map ((#) (CHR ''.'')) ls))"
  proof -
    have "conc {[CHR ''.'']} {l. dns_label l} = {CHR ''.'' # l | l. dns_label l}" by (auto simp: conc_def)
    then have "lang k8s_name = conc {l. dns_label l} (many {CHR ''.'' # l | l. dns_label l})"
      by (simp add: k8s_name_def name_label_lang)
    then show ?thesis using many_dotted by (auto simp: conc_def)
  qed
  also have "\<dots> \<longleftrightarrow> dns_subdomain s"
  proof
    assume "\<exists>l ls. dns_label l \<and> list_all dns_label ls \<and> s = l @ concat (map ((#) (CHR ''.'')) ls)"
    then obtain l ls where l: "dns_label l" "list_all dns_label ls" "s = join ''.'' (l # ls)" by (auto simp: join_dot)
    have "split_char (CHR ''.'') s = l # ls"
      unfolding l(3) by (rule split_char_join) (use l(1,2) dns_label_no_dot in \<open>auto simp: list_all_iff\<close>)
    with l(1,2) show "dns_subdomain s" by (simp add: dns_subdomain_def)
  next
    assume d: "dns_subdomain s"
    obtain l ls where sp: "split_char (CHR ''.'') s = l # ls" by (cases "split_char (CHR ''.'') s") auto
    then have "s = l @ concat (map ((#) (CHR ''.'')) ls)" by (metis join_split_char join_dot)
    with d sp show "\<exists>l ls. dns_label l \<and> list_all dns_label ls \<and> s = l @ concat (map ((#) (CHR ''.'')) ls)"
      by (auto simp: dns_subdomain_def)
  qed
  finally show "s \<in> lang k8s_name \<longleftrightarrow> s \<in> {s. dns_subdomain s}" by simp
qed

subsection \<open>Container and object ids\<close>

definition hex_char :: "char \<Rightarrow> bool" where
  "hex_char c = (in_cls c digits \<or> CHR ''a'' \<le> c \<and> c \<le> CHR ''f'')"

lemma hex_lang: "lang hex = {[c] | c. hex_char c}"
  by (simp add: hex_def hex_char_def)

lemma rep_hex_lang: "lang (Rep hex n) = {s. length s = n \<and> list_all hex_char s}"
  by (simp add: hex_lang rep_class list_all_iff del: funpow.simps)

section \<open>Properties\<close>

text \<open>
  C32: the name pattern matches, as a whole, exactly the DNS subdomain names: the pieces between the
  dots are labels of lower case letters, digits and hyphens that begin and end with a letter or digit.
\<close>

theorem K8sNameRegex_dns: "re_text k8s_name = K8sNameRegex \<and> full_match k8s_name s = dns_subdomain s"
  by (simp add: patterns_text(4) full_match_lang k8s_name_lang)

text \<open>
  The container id pattern matches, as a whole, exactly 64 lower case hexadecimal digits, bare or
  after the prefix of one of the three runtimes.
\<close>

theorem ContainerIDRegex_ids:
  "re_text container_id = ContainerIDRegex \<and> (full_match container_id s \<longleftrightarrow>
     (\<exists>p h. p \<in> {[], ''containerd://'', ''cri-o://'', ''docker://''} \<and> s = p @ h \<and> length h = 64 \<and> list_all hex_char h))"
proof
  have "lang container_id = conc {[], ''containerd://'', ''cri-o://'', ''docker://''} (lang (Rep hex 64))"
    by (simp add: container_id_def insert_commute del: lang.simps(8))
  then show "full_match container_id s \<longleftrightarrow>
     (\<exists>p h. p \<in> {[], ''containerd://'', ''cri-o://'', ''docker://''} \<and> s = p @ h \<and> length h = 64 \<and> list_all hex_char h)"
    unfolding full_match_lang by (simp add: rep_hex_lang conc_def del: lang.simps(8)) blast
qed (rule patterns_text(1) [symmetric])

text \<open>Every key of the common table has its pattern once, and none looks marked already.\<close>

lemma common_table_keys:
  "distinct (map fst CommonK8sMetricAssertionRegexAttrs) \<and>
   (\<forall>(k, p) \<in> set CommonK8sMetricAssertionRegexAttrs. \<not> has_suffix k ''/exists'' \<and> \<not> has_suffix k ''/regex'')"
  by code_simp

lemma sample_matches:
  "full_match k8s_name ''a1-b.b''" "\<not> full_match k8s_name ''Node_1''" "dns_subdomain ''sock-agent-7.node-1''"
  "full_match collector_version ''v0.140.0''" "full_match kubelet_version ''v1.35.0+k3s1''"
  by code_simp+

end
