(* ===== verification/Common.thy ===== *)
theory Common
  imports Pdata GoFiles
begin

section \<open>Shared test helpers\<close>

text \<open>
  Model of the stateless helpers of \<open>functional_tests/internal/common.go\<close>: the endpoint of the
  host (\<open>HostEndpoint\<close>, \<open>HostPort\<close>, \<open>HostPortHTTP\<close>), the normalisation of attribute maps and trace
  payloads, the choice of the volume mount that backs a file (\<open>findVolumeMountForPath\<close>) and the
  conditions polled by the file copies. The Docker client's answer and the result of a remote
  command are arguments.
\<close>

subsection \<open>Host endpoint\<close>

text \<open>An IPAM gateway address: not valid, an IPv4 address, or any other address, by its text.\<close>

datatype gateway = GInvalid | G4 string | G6 string

fun pick_gateway :: "string \<Rightarrow> gateway list \<Rightarrow> string result" where
  "pick_gateway fallback [] =
     (if fallback \<noteq> [] then Inr fallback else Inl ''failed to find host endpoint'')"
| "pick_gateway fallback (GInvalid # gs) = pick_gateway fallback gs"
| "pick_gateway fallback (G4 a # gs) = Inr a"
| "pick_gateway fallback (G6 a # gs) = pick_gateway (if fallback = [] then a else fallback) gs"

definition HostEndpoint :: "string option \<Rightarrow> string \<Rightarrow> gateway list result \<Rightarrow> string result" where
  "HostEndpoint host_env goos inspect =
     (case host_env of
        Some host \<Rightarrow> Inr host
      | None \<Rightarrow>
          if goos = ''darwin'' then Inr ''host.docker.internal''
          else bind_res inspect (pick_gateway []))"

text \<open>\<open>net.JoinHostPort\<close> puts a host that contains a colon between brackets.\<close>

definition JoinHostPort :: "string \<Rightarrow> string \<Rightarrow> string" where
  "JoinHostPort host port =
     (if CHR '':'' \<in> set host then ''['' @ host @ '']:'' @ port else host @ '':'' @ port)"

definition HostPort :: "string \<Rightarrow> int64 \<Rightarrow> string" where
  "HostPort host port = JoinHostPort host (itoa port)"

definition HostPortHTTP :: "string \<Rightarrow> int64 \<Rightarrow> string" where
  "HostPortHTTP host port = ''http://'' @ HostPort host port"

subsection \<open>Attributes and traces\<close>

text \<open>
  \<open>PutStr\<close> sets the first pair with the key, or appends one. \<open>Range\<close> visits the pairs in order;
  the keys do not change while \<open>NormalizeAttributes\<close> replaces values, so it visits the keys of
  the map it was given.
\<close>

fun put_str :: "attrs \<Rightarrow> string \<Rightarrow> string \<Rightarrow> attrs" where
  "put_str [] k s = [(k, VStr s)]"
| "put_str ((k', v) # m) k s = (if k' = k then (k', VStr s) # m else (k', v) # put_str m k s)"

definition NormalizeAttributes :: "attrs \<Rightarrow> string list \<Rightarrow> attrs" where
  "NormalizeAttributes m skipKeys =
     foldl (\<lambda>m k. if k \<in> set skipKeys then m else put_str m k ''abcd'') m (map fst m)"

definition FormatAttributes :: "attrs \<Rightarrow> string" where
  "FormatAttributes m = concat (map (\<lambda>(k, v). k @ ''='' @ attr_str v @ '';'') m)"

record trace_span =
  span_Parent :: string
  span_rest :: string

record scope_spans =
  ss_schema :: string
  ss_Version :: string
  ss_rest :: string
  ss_Spans :: "trace_span list"

record resource_spans =
  rs_schema :: string
  rs_Attributes :: attrs
  rs_rest :: string
  rs_scopes :: "scope_spans list"

definition ClearTraceSchemaURLs :: "resource_spans list \<Rightarrow> resource_spans list" where
  "ClearTraceSchemaURLs td =
     map (\<lambda>r. r\<lparr>rs_schema := [], rs_scopes := map (\<lambda>s. s\<lparr>ss_schema := []\<rparr>) (rs_scopes r)\<rparr>) td"

subsection \<open>Pods, and the mount behind a path\<close>

record volume_mount =
  vm_Name :: string
  vm_MountPath :: string
  vm_SubPath :: string
  vm_SubPathExpr :: string

record container =
  c_Name :: string
  c_VolumeMounts :: "volume_mount list"

text \<open>What the helpers read of a pod; the conditions are their types and statuses.\<close>

record pod =
  pod_Name :: string
  pod_NodeName :: string
  pod_Phase :: string
  pod_Conditions :: "(string \<times> string) list"
  pod_Deleting :: bool
  pod_Containers :: "container list"

definition covers_path :: "string \<Rightarrow> string \<Rightarrow> bool" where
  "covers_path clean mp = (clean = mp \<or> has_prefix clean (mp @ ''/''))"

fun scan_mounts :: "string \<Rightarrow> volume_mount list \<Rightarrow> string \<times> string \<Rightarrow> string \<times> string" where
  "scan_mounts clean [] best = best"
| "scan_mounts clean (vm # vms) (bestVolume, bestMount) =
     (if vm_SubPath vm \<noteq> [] \<or> vm_SubPathExpr vm \<noteq> [] then scan_mounts clean vms (bestVolume, bestMount)
      else
        (let mp = path_clean (vm_MountPath vm)
         in if \<not> covers_path clean mp then scan_mounts clean vms (bestVolume, bestMount)
            else if length mp > length bestMount then scan_mounts clean vms (vm_Name vm, mp)
            else scan_mounts clean vms (bestVolume, bestMount)))"

fun scan_containers :: "string \<Rightarrow> string \<Rightarrow> container list \<Rightarrow> string \<times> string \<Rightarrow> string \<times> string" where
  "scan_containers clean name [] best = best"
| "scan_containers clean name (c # cs) best =
     (if c_Name c \<noteq> name then scan_containers clean name cs best
      else scan_containers clean name cs (scan_mounts clean (c_VolumeMounts c) best))"

definition findVolumeMountForPath :: "pod \<Rightarrow> string \<Rightarrow> string \<Rightarrow> (string \<times> string) option" where
  "findVolumeMountForPath p containerName absPath =
     (case scan_containers (path_clean absPath) containerName (pod_Containers p) ([], []) of
        (bestVolume, bestMount) \<Rightarrow> if bestVolume = [] then None else Some (bestVolume, bestMount))"

subsection \<open>Copying files\<close>

text \<open>
  One check of the copy loops. \<open>streamed\<close> is the error of the remote command, if any, and
  \<open>filesize\<close> the size that \<open>Stat\<close> reports afterwards, if it succeeds.
\<close>

definition winControlCExitCode :: string where
  "winControlCExitCode = ''3221225786''"

definition copy_to_check :: "string option \<Rightarrow> string option \<Rightarrow> bool" where
  "copy_to_check opened streamed = (opened = None \<and> streamed = None)"

definition copy_from_check :: "bool \<Rightarrow> string option \<Rightarrow> string option \<Rightarrow> int option \<Rightarrow> bool" where
  "copy_from_check isWindows created streamed filesize =
     (if created \<noteq> None then False
      else
        (case streamed of
           Some e \<Rightarrow>
             isWindows \<and> contains e winControlCExitCode \<and> (case filesize of Some n \<Rightarrow> n > 0 | None \<Rightarrow> False)
         | None \<Rightarrow>
             (case filesize of
                None \<Rightarrow> False
              | Some n \<Rightarrow> if n = 0 then False else True)))"

text \<open>The command, and whether it runs in a helper container; paths without a leading slash are Windows paths.\<close>

definition copy_from_command :: "string \<Rightarrow> bool \<times> string list" where
  "copy_from_command podFilePath =
     (if \<not> has_prefix podFilePath ''/''
      then (False, [''cmd.exe'', ''/c'', ''type'', podFilePath])
      else (True, [''cat'', podFilePath]))"

section \<open>Facts\<close>

lemma pick_gateway_ipv4:
  "pick_gateway fb gs =
     (case List.find (\<lambda>g. \<exists>a. g = G4 a) gs of
        Some (G4 a) \<Rightarrow> Inr a
      | _ \<Rightarrow>
          (let rest = filter (\<lambda>a. a \<noteq> []) (fb # concat (map (\<lambda>g. case g of G6 a \<Rightarrow> [a] | _ \<Rightarrow> []) gs))
           in case rest of [] \<Rightarrow> Inl ''failed to find host endpoint'' | a # _ \<Rightarrow> Inr a))"
proof (induction gs arbitrary: fb)
  case (Cons g gs)
  then show ?case by (cases g) (auto simp: Let_def split: option.split gateway.split)
qed (simp add: Let_def)

definition addresses4 :: "gateway list \<Rightarrow> string list" where
  "addresses4 gs = concat (map (\<lambda>g. case g of G4 a \<Rightarrow> [a] | _ \<Rightarrow> []) gs)"

definition addresses6 :: "gateway list \<Rightarrow> string list" where
  "addresses6 gs = concat (map (\<lambda>g. case g of G6 a \<Rightarrow> [a] | _ \<Rightarrow> []) gs)"

lemma find_addresses4:
  "(case List.find (\<lambda>g. \<exists>a. g = G4 a) gs of Some (G4 a) \<Rightarrow> Some a | _ \<Rightarrow> None) =
     (case addresses4 gs of [] \<Rightarrow> None | a # _ \<Rightarrow> Some a)"
  by (induction gs) (auto simp: addresses4_def split: gateway.splits)

text \<open>
  The host endpoint: the environment variable wins, then the name Docker Desktop gives the host on
  macOS; otherwise the first IPv4 gateway of the network wherever it stands in the list, or, when
  there is none, the first other valid gateway, and an error exactly when there is no gateway.
\<close>

theorem HostEndpoint_prefers_ipv4:
  assumes "[] \<notin> set (addresses6 gs)"
  shows "HostEndpoint host_env goos (Inr gs) =
    (case host_env of
       Some host \<Rightarrow> Inr host
     | None \<Rightarrow>
         if goos = ''darwin'' then Inr ''host.docker.internal''
         else (case addresses4 gs @ addresses6 gs of
                 a # _ \<Rightarrow> Inr a
               | [] \<Rightarrow> Inl ''failed to find host endpoint''))"
proof -
  have f: "filter (\<lambda>a. a \<noteq> []) (addresses6 gs) = addresses6 gs"
    using assms by (auto simp: filter_id_conv)
  have "pick_gateway [] gs =
      (case addresses4 gs @ addresses6 gs of a # _ \<Rightarrow> Inr a | [] \<Rightarrow> Inl ''failed to find host endpoint'')"
    using find_addresses4 [of gs] f
    by (auto simp: pick_gateway_ipv4 Let_def addresses6_def [symmetric]
        split: list.splits option.splits gateway.splits)
  then show ?thesis by (simp add: HostEndpoint_def split: option.split)
qed

lemma HostEndpoint_prefers_ipv4_witness:
  "HostEndpoint None ''linux'' (Inr [G6 ''fc00::1'', GInvalid, G4 ''172.18.0.1'']) = Inr ''172.18.0.1''"
  using HostEndpoint_prefers_ipv4 [of "[G6 ''fc00::1'', GInvalid, G4 ''172.18.0.1'']" None "''linux''"]
  by (simp add: addresses4_def addresses6_def)

lemma itoa_no_colon: "CHR '':'' \<notin> set (itoa p)"
proof -
  have "CHR '':'' \<notin> set (nat_digits n)" for n
    using nat_digits_all [of n] by (auto simp: list_all_iff is_digit_def)
  then show ?thesis by (simp add: itoa_def itoa_int_def)
qed

lemma itoa_inject: "itoa p = itoa q \<Longrightarrow> p = q"
  by (metis atoi_itoa option.inject)

text \<open>
  \<open>HostPort\<close> is unambiguous: the bracketing of IPv6 hosts keeps the text of two different
  endpoints different.
\<close>

theorem HostPort_injective: "HostPort host port = HostPort host' port' \<longleftrightarrow> host = host' \<and> port = port'"
proof
  assume eq: "HostPort host port = HostPort host' port'"
  let ?h = "\<lambda>host :: string. if CHR '':'' \<in> set host then ''['' @ host @ '']'' else host"
  have split: "HostPort h p = ?h h @ CHR '':'' # itoa p" for h p
    by (simp add: HostPort_def JoinHostPort_def)
  from eq have "last_index (?h host @ CHR '':'' # itoa port) (CHR '':'') =
      last_index (?h host' @ CHR '':'' # itoa port') (CHR '':'')"
    by (simp only: split)
  then have "length (?h host) = length (?h host')"
    by (simp only: last_index_split [OF itoa_no_colon] option.inject)
  with eq have h: "?h host = ?h host'" and "itoa port = itoa port'"
    by (simp_all only: split append_eq_append_conv) simp_all
  from h have "host = host'" by (auto split: if_splits)
  with \<open>itoa port = itoa port'\<close> itoa_inject show "host = host' \<and> port = port'" by blast
qed simp

lemma attr_get_put_str: "attr_get (put_str m k s) q = (if q = k then Some (VStr s) else attr_get m q)"
  by (induction m) (auto simp: attr_get_def)

lemma keys_put_str: "k \<in> set (map fst m) \<Longrightarrow> map fst (put_str m k s) = map fst m"
  by (induction m) fastforce+

text \<open>
  \<open>NormalizeAttributes\<close> keeps the keys and the values of the skipped keys, and makes every
  other value the same string.
\<close>

theorem NormalizeAttributes_effect:
  "map fst (NormalizeAttributes m skipKeys) = map fst m \<and>
   attr_get (NormalizeAttributes m skipKeys) k =
     (if k \<in> set skipKeys then attr_get m k else map_option (\<lambda>_. VStr ''abcd'') (attr_get m k))"
proof -
  let ?f = "\<lambda>m k. if k \<in> set skipKeys then m else put_str m k ''abcd''"
  have "map fst (foldl ?f m ks) = map fst m \<and>
      attr_get (foldl ?f m ks) k = (if k \<in> set ks \<and> k \<notin> set skipKeys then Some (VStr ''abcd'') else attr_get m k)"
    if "set ks \<subseteq> set (map fst m)" for ks
    using that
  proof (induction ks arbitrary: m)
    case (Cons q ks)
    have "map fst (?f m q) = map fst m" using Cons.prems by (simp add: keys_put_str)
    moreover have "set ks \<subseteq> set (map fst (?f m q))" using Cons.prems \<open>map fst (?f m q) = map fst m\<close> by simp
    ultimately show ?case using Cons.IH [of "?f m q"] by (simp add: attr_get_put_str)
  qed simp
  from this [of "map fst m"] have "map fst (NormalizeAttributes m skipKeys) = map fst m"
    "attr_get (NormalizeAttributes m skipKeys) k =
      (if k \<in> set (map fst m) \<and> k \<notin> set skipKeys then Some (VStr ''abcd'') else attr_get m k)"
    by (simp_all add: NormalizeAttributes_def)
  moreover have "attr_get m k = None \<longleftrightarrow> k \<notin> set (map fst m)"
    by (simp add: attr_get_def map_of_eq_None_iff)
  ultimately show ?thesis by auto
qed

section \<open>The mount behind a path\<close>

text \<open>The mounts of the container that may be shared with a helper and hold the path.\<close>

definition backing_mounts :: "pod \<Rightarrow> string \<Rightarrow> string \<Rightarrow> (string \<times> string) list" where
  "backing_mounts p containerName absPath =
     concat (map (\<lambda>c. if c_Name c = containerName
       then map (\<lambda>vm. (vm_Name vm, path_clean (vm_MountPath vm)))
         (filter (\<lambda>vm. vm_SubPath vm = [] \<and> vm_SubPathExpr vm = [] \<and>
            covers_path (path_clean absPath) (path_clean (vm_MountPath vm))) (c_VolumeMounts c))
       else []) (pod_Containers p))"

fun longest :: "(string \<times> string) list \<Rightarrow> string \<times> string \<Rightarrow> string \<times> string" where
  "longest [] best = best"
| "longest (m # ms) best = longest ms (if length (snd m) > length (snd best) then m else best)"

lemma longest_append: "longest (xs @ ys) b = longest ys (longest xs b)"
  by (induction xs arbitrary: b) auto

lemma scan_mounts_longest:
  "scan_mounts clean vms best =
     longest (map (\<lambda>vm. (vm_Name vm, path_clean (vm_MountPath vm)))
       (filter (\<lambda>vm. vm_SubPath vm = [] \<and> vm_SubPathExpr vm = [] \<and> covers_path clean (path_clean (vm_MountPath vm))) vms))
       best"
proof (induction vms arbitrary: best)
  case (Cons vm vms)
  then show ?case by (cases best) (auto simp: Let_def)
qed simp

lemma scan_containers_longest:
  "scan_containers (path_clean absPath) name cs best = longest (backing_mounts (p\<lparr>pod_Containers := cs\<rparr>) name absPath) best"
  by (induction cs arbitrary: best) (auto simp: backing_mounts_def scan_mounts_longest longest_append)

lemma longest_in: "longest ms b = b \<or> longest ms b \<in> set ms"
proof (induction ms arbitrary: b)
  case (Cons m ms)
  show ?case using Cons.IH [of m] Cons.IH [of b] by auto
qed simp

lemma longest_le: "length (snd b) \<le> length (snd (longest ms b)) \<and> (\<forall>m \<in> set ms. length (snd m) \<le> length (snd (longest ms b)))"
proof (induction ms arbitrary: b)
  case (Cons m ms)
  show ?case using Cons.IH [of m] Cons.IH [of b] by auto
qed simp

lemma path_clean_nonempty [simp]: "path_clean p \<noteq> []"
proof -
  have "[] \<notin> set (clean_elems r es)" for r es
    using clean_elems_form [of r es] by (auto simp: clean_form_def)
  moreover have "join ''/'' es \<noteq> []" if "es \<noteq> []" "[] \<notin> set es" for es
  proof -
    from that obtain w ws where "es = w # ws" "w \<noteq> []" by (cases es) auto
    then show ?thesis by (cases ws) simp_all
  qed
  ultimately show ?thesis by (simp add: path_clean_def Let_def)
qed

text \<open>
  The mount chosen for a file: a volume is found exactly when some mount of the container
  holds the path and is no sub-path mount; the result is such a mount, and no other one has a longer
  path.
\<close>

theorem findVolumeMountForPath_longest:
  assumes "\<forall>c \<in> set (pod_Containers p). \<forall>vm \<in> set (c_VolumeMounts c). vm_Name vm \<noteq> []"
  shows "case findVolumeMountForPath p name absPath of
      None \<Rightarrow> backing_mounts p name absPath = []
    | Some (v, mp) \<Rightarrow> (v, mp) \<in> set (backing_mounts p name absPath) \<and>
        (\<forall>(v', mp') \<in> set (backing_mounts p name absPath). length mp' \<le> length mp)"
proof -
  let ?ms = "backing_mounts p name absPath"
  have scan: "scan_containers (path_clean absPath) name (pod_Containers p) ([], []) = longest ?ms ([], [])"
    using scan_containers_longest [of absPath name "pod_Containers p" "([], [])" p] by simp
  have named: "v \<noteq> []" "mp \<noteq> []" if "(v, mp) \<in> set ?ms" for v mp
    using that assms by (auto simp: backing_mounts_def split: if_splits)
  have empty: "?ms = []" if "longest ?ms ([], []) = ([], [])"
  proof (rule ccontr)
    assume "?ms \<noteq> []"
    then obtain v mp where m: "(v, mp) \<in> set ?ms" by (cases ?ms) auto
    with longest_le [where b = "([], [])" and ms = ?ms] that have "length mp \<le> 0" by fastforce
    with named(2) [OF m] show False by simp
  qed
  show ?thesis
  proof (cases "longest ?ms ([], [])")
    case (Pair v mp)
    from longest_in [of ?ms "([], [])"] Pair have "v = [] \<and> mp = [] \<or> (v, mp) \<in> set ?ms" by auto
    then show ?thesis
    proof
      assume n: "v = [] \<and> mp = []"
      with Pair empty have "?ms = []" by simp
      with n Pair show ?thesis by (simp add: findVolumeMountForPath_def scan)
    next
      assume m: "(v, mp) \<in> set ?ms"
      with named have "findVolumeMountForPath p name absPath = Some (v, mp)"
        by (simp add: findVolumeMountForPath_def scan Pair)
      moreover have "\<forall>m \<in> set ?ms. length (snd m) \<le> length mp"
        using longest_le [where b = "([], [])" and ms = ?ms] Pair by simp
      ultimately show ?thesis using m by auto
    qed
  qed
qed

definition sample_pod :: "string \<Rightarrow> pod" where
  "sample_pod mount =
     \<lparr>pod_Name = ''agent'', pod_NodeName = ''node'', pod_Phase = ''Running'', pod_Conditions = [(''Ready'', ''True'')],
      pod_Deleting = False, pod_Containers = [\<lparr>c_Name = ''otel-collector'',
        c_VolumeMounts = [\<lparr>vm_Name = ''data'', vm_MountPath = mount, vm_SubPath = [], vm_SubPathExpr = []\<rparr>,
          \<lparr>vm_Name = ''logs'', vm_MountPath = ''/var/log/'', vm_SubPath = [], vm_SubPathExpr = []\<rparr>]\<rparr>]\<rparr>"

lemma findVolumeMountForPath_longest_witness:
  "findVolumeMountForPath (sample_pod ''/var'') ''otel-collector'' ''/var/log/x'' = Some (''logs'', ''/var/log'') \<and>
   length ''/var'' \<le> length ''/var/log''"
proof -
  have "\<forall>c \<in> set (pod_Containers (sample_pod ''/var'')). \<forall>vm \<in> set (c_VolumeMounts c). vm_Name vm \<noteq> []"
    by (simp add: sample_pod_def)
  note spec = findVolumeMountForPath_longest [OF this, of "''otel-collector''" "''/var/log/x''"]
  have f: "findVolumeMountForPath (sample_pod ''/var'') ''otel-collector'' ''/var/log/x'' = Some (''logs'', ''/var/log'')"
    by code_simp
  have "(''data'', ''/var'') \<in> set (backing_mounts (sample_pod ''/var'') ''otel-collector'' ''/var/log/x'')" by code_simp
  with spec f show ?thesis by auto
qed

text \<open>A volume mounted at the root holds every path, but the prefix test appends a second slash to it.\<close>

lemma root_mount_not_found:
  "findVolumeMountForPath (sample_pod ''/'') ''otel-collector'' ''/etc/config.yaml'' = None"
  by code_simp

text \<open>When a copy from a pod is accepted.\<close>

lemma copy_from_check_iff:
  "copy_from_check isWindows created streamed filesize \<longleftrightarrow>
     created = None \<and> (\<exists>n. filesize = Some n \<and> (case streamed of
       None \<Rightarrow> n \<noteq> 0
     | Some e \<Rightarrow> n > 0 \<and> isWindows \<and> contains e winControlCExitCode))"
  by (auto simp: copy_from_check_def split: option.splits)

end
