(* ===== verification/Pods.thy ===== *)
theory Pods
  imports Common
begin

section \<open>Pods, logs and namespaces\<close>

text \<open>
  Model of the stateful helpers of \<open>functional_tests/internal/common.go\<close>: reading the logs of a pod
  (\<open>tryGetPodLogs\<close>, \<open>GetPodLogs\<close>), the conditions that \<open>require.Eventually\<close> polls in
  \<open>CheckPodsReady\<close>, \<open>WaitForTerminatingPods\<close> and \<open>startFileCopyHelper\<close>, and the read-modify-write
  helpers on namespaces. What the API server answers is an argument; a polled closure is a
  function of what it observes and of the variables it captures, which it returns updated.
\<close>

subsection \<open>Logs\<close>

text \<open>What one \<open>Read\<close> of the log stream returns: some bytes, and nil, \<open>io.EOF\<close> or another error.\<close>

datatype read_status = ReadMore | ReadEOF | ReadError string

type_synonym log_stream = "nat \<Rightarrow> string \<times> read_status"

text \<open>The loop does not return when the stream never ends, which is \<^const>\<open>None\<close>.\<close>

partial_function (option) read_loop :: "log_stream \<Rightarrow> nat \<Rightarrow> string \<Rightarrow> string result option" where
  "read_loop rd i sb =
     (case rd i of (bytes, status) \<Rightarrow>
        let sb' = (if length bytes > 0 then sb @ bytes else sb)
        in case status of
             ReadEOF \<Rightarrow> Some (Inr sb')
           | ReadError e \<Rightarrow> Some (Inl e)
           | ReadMore \<Rightarrow> read_loop rd (Suc i) sb')"

definition tryGetPodLogs :: "string \<Rightarrow> string \<Rightarrow> log_stream result \<Rightarrow> string result option" where
  "tryGetPodLogs namespace podName stream =
     (case stream of
        Inl e \<Rightarrow> Some (Inl (''error streaming logs from pod '' @ podName @ '' in namespace '' @ namespace @ '': '' @ e))
      | Inr rd \<Rightarrow>
          map_option (wrap_err (''error reading stream from pod '' @ podName @ '' in namespace '' @ namespace @ '': ''))
            (read_loop rd 0 []))"

definition maxRetries :: nat where
  "maxRetries = 3"

text \<open>\<open>for attempt := range maxRetries\<close>: \<open>err\<close> is the variable declared before the loop.\<close>

function get_logs_loop :: "(nat \<Rightarrow> string result option) \<Rightarrow> nat \<Rightarrow> string option \<Rightarrow> string result option" where
  "get_logs_loop try_logs attempt err =
     (if attempt < maxRetries
      then (case try_logs attempt of
              None \<Rightarrow> None
            | Some (Inr logs) \<Rightarrow> Some (Inr logs)
            | Some (Inl e) \<Rightarrow> get_logs_loop try_logs (Suc attempt) (Some e))
      else Some (case err of Some e \<Rightarrow> Inl e | None \<Rightarrow> Inr []))"
  by pat_completeness auto

termination
  by (relation "measure (\<lambda>(t, a, e). maxRetries - a)") auto

definition GetPodLogs :: "string \<Rightarrow> string \<Rightarrow> (nat \<Rightarrow> log_stream result) \<Rightarrow> string result option" where
  "GetPodLogs namespace podName streams =
     get_logs_loop (\<lambda>attempt. tryGetPodLogs namespace podName (streams attempt)) 0 None"

subsection \<open>Readiness\<close>

fun pod_ready_condition :: "(string \<times> string) list \<Rightarrow> bool" where
  "pod_ready_condition [] = False"
| "pod_ready_condition ((typ, status) # cs) =
     (if typ = ''Ready'' \<and> status = ''True'' then True else pod_ready_condition cs)"

text \<open>
  One check of \<open>CheckPodsReady\<close>: the answer to the list call, and the readings of the clock by
  \<open>time.Now()\<close> and by the last \<open>time.Since\<close>. \<open>readySince\<close> is the captured variable, \<^const>\<open>None\<close> for the
  zero time. A failed list call fails the test, which is \<open>Abort\<close>.
\<close>

datatype check = Abort string | Check bool

record ready_obs =
  ro_pods :: "pod list result"
  ro_now :: int
  ro_since :: int

definition all_pods_ready :: "pod list \<Rightarrow> bool" where
  "all_pods_ready pods =
     fold (\<lambda>p acc. if pod_Phase p \<noteq> ''Running'' \<or> \<not> pod_ready_condition (pod_Conditions p) then False else acc)
       pods True"

definition ready_check :: "int \<Rightarrow> ready_obs \<Rightarrow> int option \<Rightarrow> check \<times> int option" where
  "ready_check minReadyTime obs readySince =
     (case ro_pods obs of
        Inl e \<Rightarrow> (Abort e, readySince)
      | Inr pods \<Rightarrow>
          if length pods = 0 then (Check False, None)
          else if \<not> all_pods_ready pods then (Check False, None)
          else
            (let since = (case readySince of None \<Rightarrow> ro_now obs | Some r \<Rightarrow> r)
             in (Check (ro_since obs - since \<ge> minReadyTime), Some since)))"

text \<open>
  The checks \<open>require.Eventually\<close> makes until it gives up, in order: the first one that is met ends
  the wait, and so does a failed requirement inside a check.
\<close>

fun eventually_checks :: "('o \<Rightarrow> 's \<Rightarrow> check \<times> 's) \<Rightarrow> 'o list \<Rightarrow> 's \<Rightarrow> bool" where
  "eventually_checks f [] s = False"
| "eventually_checks f (obs # rest) s =
     (case f obs s of
        (Abort e, s') \<Rightarrow> False
      | (Check True, s') \<Rightarrow> True
      | (Check False, s') \<Rightarrow> eventually_checks f rest s')"

definition CheckPodsReady :: "int \<Rightarrow> ready_obs list \<Rightarrow> bool" where
  "CheckPodsReady minReadyTime obs = eventually_checks (ready_check minReadyTime) obs None"

definition terminating_pods :: "pod list \<Rightarrow> int" where
  "terminating_pods pods =
     fold (\<lambda>p n. if pod_Phase p = ''Running'' \<or> pod_Phase p = ''Pending'' then n
                 else if pod_Deleting p then n + 1 else n) pods 0"

definition terminating_check :: "pod list result \<Rightarrow> unit \<Rightarrow> check \<times> unit" where
  "terminating_check pods u =
     (case pods of Inl e \<Rightarrow> (Abort e, u) | Inr ps \<Rightarrow> (Check (terminating_pods ps = 0), u))"

definition WaitForTerminatingPods :: "pod list result list \<Rightarrow> bool" where
  "WaitForTerminatingPods obs = eventually_checks terminating_check obs ()"

text \<open>The state of an ephemeral container: terminated (with its reason), running, or waiting.\<close>

datatype container_state = Terminated string | Running | Waiting

fun helper_statuses :: "string \<Rightarrow> (string \<times> container_state) list \<Rightarrow> check" where
  "helper_statuses helperName [] = Check False"
| "helper_statuses helperName ((name, st) # rest) =
     (if name \<noteq> helperName then helper_statuses helperName rest
      else (case st of Terminated reason \<Rightarrow> Abort reason | _ \<Rightarrow> Check (st = Running)))"

definition helper_check :: "string \<Rightarrow> (string \<times> container_state) list result \<Rightarrow> unit \<Rightarrow> check \<times> unit" where
  "helper_check helperName st u =
     (case st of Inl e \<Rightarrow> (Check False, u) | Inr sts \<Rightarrow> (helper_statuses helperName sts, u))"

subsection \<open>Namespaces\<close>

text \<open>
  A namespace object as the helpers use it. \<open>get_ns\<close> and \<open>update_ns\<close> are the API calls: an update
  answers with an error or the new state of the cluster.
\<close>

record namespace_obj =
  ns_Name :: string
  ns_Labels :: "(string \<times> string) list"
  ns_Annotations :: "(string \<times> string) list"
  ns_rest :: string

record 'w ns_api =
  get_ns :: "'w \<Rightarrow> string \<Rightarrow> namespace_obj result"
  update_ns :: "'w \<Rightarrow> namespace_obj \<Rightarrow> 'w result"

definition LabelNamespace :: "'w ns_api \<Rightarrow> 'w \<Rightarrow> string \<Rightarrow> string \<Rightarrow> string \<Rightarrow> 'w result" where
  "LabelNamespace api w name key v =
     bind_res (get_ns api w name) (\<lambda>ns.
       update_ns api w (ns\<lparr>ns_Labels := AList.update key v (ns_Labels ns)\<rparr>))"

definition AnnotateNamespace :: "'w ns_api \<Rightarrow> 'w \<Rightarrow> string \<Rightarrow> string \<Rightarrow> string \<Rightarrow> 'w result" where
  "AnnotateNamespace api w name key v =
     bind_res (get_ns api w name) (\<lambda>ns.
       update_ns api w (ns\<lparr>ns_Annotations := AList.update key v (ns_Annotations ns)\<rparr>))"

text \<open>
  Deletions tolerate an object that is already gone: \<open>noMatch\<close> is \<open>meta.IsNoMatchError\<close>. Then the
  deletion polls until the object can no longer be read.
\<close>

definition delete_tolerated :: "(string \<Rightarrow> bool) \<Rightarrow> string option \<Rightarrow> bool" where
  "delete_tolerated noMatch err =
     (case err of None \<Rightarrow> True | Some e \<Rightarrow> noMatch e \<or> contains e ''not found'')"

definition gone_check :: "string option \<Rightarrow> unit \<Rightarrow> check \<times> unit" where
  "gone_check got u = (Check (got \<noteq> None), u)"

definition present_check :: "string option \<Rightarrow> unit \<Rightarrow> check \<times> unit" where
  "present_check got u = (Check (got = None), u)"

definition DeleteNamespace :: "(string \<Rightarrow> bool) \<Rightarrow> string option \<Rightarrow> string option list \<Rightarrow> bool" where
  "DeleteNamespace noMatch deleted gets =
     (if delete_tolerated noMatch deleted then eventually_checks gone_check gets () else False)"

definition DeletePod :: "string option \<Rightarrow> string option list \<Rightarrow> bool" where
  "DeletePod deleted gets = (if deleted = None then eventually_checks gone_check gets () else False)"

definition CreateNamespace :: "string option \<Rightarrow> string option list \<Rightarrow> bool" where
  "CreateNamespace created gets = (if created = None then eventually_checks present_check gets () else False)"

definition CreatePod :: "string option \<Rightarrow> string option list \<Rightarrow> bool" where
  "CreatePod created gets = (if created = None then eventually_checks present_check gets () else False)"

definition WaitForDefaultServiceAccount :: "string option list \<Rightarrow> bool" where
  "WaitForDefaultServiceAccount gets = eventually_checks present_check gets ()"

definition DeleteObject :: "(string \<Rightarrow> bool) \<Rightarrow> string option \<Rightarrow> string option \<Rightarrow> bool" where
  "DeleteObject noMatch unmarshalled deleted =
     (if unmarshalled \<noteq> None then False else delete_tolerated noMatch deleted)"

subsection \<open>Waiting for telemetry\<close>

text \<open>The sink lengths read by the successive checks.\<close>

definition entries_check :: "int \<Rightarrow> nat \<Rightarrow> unit \<Rightarrow> check \<times> unit" where
  "entries_check entriesNum n u = (Check (int n \<ge> entriesNum), u)"

definition WaitForEntries :: "int \<Rightarrow> nat list \<Rightarrow> bool" where
  "WaitForEntries entriesNum lens = eventually_checks (entries_check entriesNum) lens ()"

section \<open>Facts about logs\<close>

declare get_logs_loop.simps [simp del]

lemma read_loop_more:
  assumes "\<forall>k. i \<le> k \<and> k < n \<longrightarrow> snd (rd k) = ReadMore" and "i \<le> n"
  shows "read_loop rd i sb = read_loop rd n (sb @ concat (map (\<lambda>k. fst (rd k)) [i..<n]))"
  using assms
proof (induction "n - i" arbitrary: i sb)
  case (Suc d)
  then have "i < n" by simp
  then have m: "snd (rd i) = ReadMore" using Suc.prems by simp
  have "read_loop rd i sb = read_loop rd (Suc i) (sb @ fst (rd i))"
    using m by (subst read_loop.simps) (auto simp: Let_def split: prod.splits)
  also have "\<dots> = read_loop rd n ((sb @ fst (rd i)) @ concat (map (\<lambda>k. fst (rd k)) [Suc i..<n]))"
    using Suc.hyps(2) Suc.prems \<open>i < n\<close> by (intro Suc.hyps(1)) auto
  also have "(sb @ fst (rd i)) @ concat (map (\<lambda>k. fst (rd k)) [Suc i..<n]) =
      sb @ concat (map (\<lambda>k. fst (rd k)) [i..<n])"
    using \<open>i < n\<close> by (simp add: upt_conv_Cons)
  finally show ?case .
qed simp

text \<open>A stream that ends properly after its last bytes, and an attempt that fails.\<close>

definition delivers :: "log_stream result \<Rightarrow> string \<Rightarrow> bool" where
  "delivers stream logs \<longleftrightarrow>
     (\<exists>rd n. stream = Inr rd \<and> (\<forall>k < n. snd (rd k) = ReadMore) \<and> snd (rd n) = ReadEOF \<and>
        logs = concat (map (\<lambda>k. fst (rd k)) [0..<Suc n]))"

definition breaks :: "log_stream result \<Rightarrow> bool" where
  "breaks stream \<longleftrightarrow>
     (case stream of Inl e \<Rightarrow> True
      | Inr rd \<Rightarrow> \<exists>n e. (\<forall>k < n. snd (rd k) = ReadMore) \<and> snd (rd n) = ReadError e)"

lemma tryGetPodLogs_delivers: "delivers stream logs \<Longrightarrow> tryGetPodLogs ns p stream = Some (Inr logs)"
proof -
  assume "delivers stream logs"
  then obtain rd n where rd: "stream = Inr rd" "\<forall>k < n. snd (rd k) = ReadMore" "snd (rd n) = ReadEOF"
    "logs = concat (map (\<lambda>k. fst (rd k)) [0..<Suc n])" unfolding delivers_def by blast
  have "read_loop rd 0 [] = read_loop rd n (concat (map (\<lambda>k. fst (rd k)) [0..<n]))"
    using read_loop_more [of 0 n rd "[]"] rd(2) by simp
  also have "\<dots> = Some (Inr logs)"
    using rd(3,4) by (subst read_loop.simps) (auto simp: Let_def split: prod.splits)
  finally show ?thesis by (simp add: tryGetPodLogs_def rd(1))
qed

lemma tryGetPodLogs_breaks: "breaks stream \<Longrightarrow> \<exists>e. tryGetPodLogs ns p stream = Some (Inl e)"
proof (cases stream)
  case (Inr rd)
  assume "breaks stream"
  with Inr obtain n e where rd: "\<forall>k < n. snd (rd k) = ReadMore" "snd (rd n) = ReadError e"
    by (auto simp: breaks_def)
  have "read_loop rd 0 [] = read_loop rd n (concat (map (\<lambda>k. fst (rd k)) [0..<n]))"
    using read_loop_more [of 0 n rd "[]"] rd(1) by simp
  also have "\<dots> = Some (Inl e)"
    using rd(2) by (subst read_loop.simps) (auto simp: Let_def split: prod.splits)
  finally show ?thesis by (simp add: tryGetPodLogs_def Inr)
qed (simp add: tryGetPodLogs_def)

lemma get_logs_skip:
  assumes "\<forall>j. i \<le> j \<and> j < k \<longrightarrow> (\<exists>e. t j = Some (Inl e))" and "i \<le> k" and "k \<le> maxRetries"
  shows "\<exists>err'. get_logs_loop t i err = get_logs_loop t k err' \<and> (i < k \<longrightarrow> err' \<noteq> None) \<and> (i = k \<longrightarrow> err' = err)"
  using assms
proof (induction "k - i" arbitrary: i err)
  case (Suc d)
  then have "i < k" by simp
  then obtain e where e: "t i = Some (Inl e)" using Suc.prems by blast
  have "get_logs_loop t i err = get_logs_loop t (Suc i) (Some e)"
    using \<open>i < k\<close> Suc.prems(3) by (subst get_logs_loop.simps) (simp add: e)
  moreover have "d = k - Suc i" using Suc.hyps(2) by simp
  moreover have "\<forall>j. Suc i \<le> j \<and> j < k \<longrightarrow> (\<exists>e. t j = Some (Inl e))" using Suc.prems(1) by auto
  ultimately obtain err' where "get_logs_loop t i err = get_logs_loop t k err'"
    "Suc i < k \<longrightarrow> err' \<noteq> None" "Suc i = k \<longrightarrow> err' = Some e"
    using Suc.hyps(1) [of "Suc i" "Some e"] Suc.prems(3) \<open>i < k\<close> by auto
  then show ?case using \<open>i < k\<close> by (cases "Suc i = k") auto
qed auto

text \<open>
  C38: the logs of a pod are complete or an error: if a stream that ends properly comes within the
  first three attempts, after attempts that fail, the result is all the bytes of that stream in
  order, those that come together with the end of the stream included; if all three fail, it is an error.
\<close>

theorem GetPodLogs_first_complete:
  assumes "k \<le> 3" and "\<forall>j < k. breaks (streams j)" and "k < 3 \<longrightarrow> delivers (streams k) logs"
  shows "if k < 3 then GetPodLogs ns p streams = Some (Inr logs)
    else \<exists>e. GetPodLogs ns p streams = Some (Inl e)"
proof -
  let ?t = "\<lambda>attempt. tryGetPodLogs ns p (streams attempt)"
  have "\<forall>j. 0 \<le> j \<and> j < k \<longrightarrow> (\<exists>e. ?t j = Some (Inl e))"
    using assms(2) tryGetPodLogs_breaks by blast
  from get_logs_skip [OF this] assms(1) obtain err where
    e: "GetPodLogs ns p streams = get_logs_loop ?t k err" "0 < k \<longrightarrow> err \<noteq> None"
    unfolding GetPodLogs_def maxRetries_def by blast
  show ?thesis
  proof (cases "k < 3")
    case True
    with assms(3) have "?t k = Some (Inr logs)" by (simp add: tryGetPodLogs_delivers)
    with True show ?thesis by (simp add: e(1) get_logs_loop.simps maxRetries_def)
  next
    case False
    with assms(1) e(2) obtain e' where "k = 3" "err = Some e'" by auto
    with False show ?thesis by (simp add: e(1) get_logs_loop.simps maxRetries_def)
  qed
qed

lemma GetPodLogs_first_complete_witness:
  "GetPodLogs ''default'' ''agent'' (\<lambda>a. if a = 0 then Inl ''refused'' else
     Inr (\<lambda>i. if i = 0 then (''ab'', ReadMore) else (''c'', ReadEOF))) = Some (Inr ''abc'')"
proof -
  let ?s = "\<lambda>a :: nat. if a = 0 then Inl ''refused'' else
     Inr (\<lambda>i :: nat. if i = 0 then (''ab'', ReadMore) else (''c'', ReadEOF))"
  have "delivers (?s 1) ''abc''"
    unfolding delivers_def
    by (rule exI [of _ "\<lambda>i. if i = 0 then (''ab'', ReadMore) else (''c'', ReadEOF)"], rule exI [of _ 1]) simp
  then show ?thesis
    using GetPodLogs_first_complete [of 1 ?s "''abc''" "''default''" "''agent''"] by (simp add: breaks_def)
qed

section \<open>Facts about polling\<close>

text \<open>The captured variables after the first \<open>k\<close> checks.\<close>

definition state_after :: "('o \<Rightarrow> 's \<Rightarrow> check \<times> 's) \<Rightarrow> 's \<Rightarrow> 'o list \<Rightarrow> nat \<Rightarrow> 's" where
  "state_after f s obs k = foldl (\<lambda>s obs. snd (f obs s)) s (take k obs)"

lemma state_after_Suc: "k < length obs \<Longrightarrow> state_after f s obs (Suc k) = snd (f (obs ! k) (state_after f s obs k))"
  by (simp add: state_after_def take_Suc_conv_app_nth)

lemma eventually_checks_iff:
  "eventually_checks f obs s \<longleftrightarrow>
     (\<exists>j < length obs. fst (f (obs ! j) (state_after f s obs j)) = Check True \<and>
        (\<forall>k < j. fst (f (obs ! k) (state_after f s obs k)) = Check False))"
proof (induction obs arbitrary: s)
  case (Cons x xs)
  obtain c s' where x: "f x s = (c, s')" by (cases "f x s")
  have st: "state_after f s (x # xs) (Suc k) = state_after f s' xs k" for k
    by (simp add: state_after_def x)
  have st0: "state_after f s (x # xs) 0 = s" by (simp add: state_after_def)
  show ?case
  proof (cases "c = Check False")
    case True
    then have "eventually_checks f (x # xs) s = eventually_checks f xs s'" by (simp add: x)
    also note Cons.IH [of s']
    also have "(\<exists>j < length xs. fst (f (xs ! j) (state_after f s' xs j)) = Check True \<and>
        (\<forall>k < j. fst (f (xs ! k) (state_after f s' xs k)) = Check False)) \<longleftrightarrow>
      (\<exists>j < length (x # xs). fst (f ((x # xs) ! j) (state_after f s (x # xs) j)) = Check True \<and>
        (\<forall>k < j. fst (f ((x # xs) ! k) (state_after f s (x # xs) k)) = Check False))"
      using True by (auto simp: Ex_less_Suc2 All_less_Suc2 st st0 x)
    finally show ?thesis .
  next
    case False
    then show ?thesis
      by (cases c) (auto simp: x Ex_less_Suc2 All_less_Suc2 st st0 split: bool.splits)
  qed
qed simp

text \<open>A check without captured variables: some check is met before any fails the test.\<close>

lemma eventually_checks_pure:
  assumes "\<And>obs s. f obs s = (g obs, s)"
  shows "eventually_checks f obs s \<longleftrightarrow>
    (\<exists>j < length obs. g (obs ! j) = Check True \<and> (\<forall>k < j. g (obs ! k) = Check False))"
  by (simp add: eventually_checks_iff assms)

section \<open>Readiness\<close>

definition pod_running_ready :: "pod \<Rightarrow> bool" where
  "pod_running_ready p \<longleftrightarrow> pod_Phase p = ''Running'' \<and> (''Ready'', ''True'') \<in> set (pod_Conditions p)"

lemma pod_ready_condition_iff: "pod_ready_condition cs \<longleftrightarrow> (''Ready'', ''True'') \<in> set cs"
  by (induction cs rule: pod_ready_condition.induct) auto

lemma all_pods_ready_iff: "all_pods_ready ps \<longleftrightarrow> (\<forall>p \<in> set ps. pod_running_ready p)"
proof -
  have "fold (\<lambda>p acc. if pod_Phase p \<noteq> ''Running'' \<or> \<not> pod_ready_condition (pod_Conditions p) then False else acc) ps b \<longleftrightarrow>
      b \<and> (\<forall>p \<in> set ps. pod_running_ready p)" for b
    by (induction ps arbitrary: b) (auto simp: pod_running_ready_def pod_ready_condition_iff)
  then show ?thesis by (simp add: all_pods_ready_def)
qed

definition seen_ready :: "ready_obs \<Rightarrow> bool" where
  "seen_ready obs \<longleftrightarrow> (case ro_pods obs of Inl e \<Rightarrow> False | Inr ps \<Rightarrow> ps \<noteq> [] \<and> (\<forall>p \<in> set ps. pod_running_ready p))"

text \<open>Every check from \<open>i\<close> to \<open>j\<close> saw all pods ready, and \<open>i\<close> is the first of them.\<close>

definition ready_streak :: "ready_obs list \<Rightarrow> nat \<Rightarrow> nat \<Rightarrow> bool" where
  "ready_streak obs i j \<longleftrightarrow>
     i \<le> j \<and> (\<forall>k. i \<le> k \<and> k \<le> j \<longrightarrow> seen_ready (obs ! k)) \<and> (i = 0 \<or> \<not> seen_ready (obs ! (i - 1)))"

lemma ready_streak_unique: "ready_streak obs i j \<Longrightarrow> ready_streak obs i' j \<Longrightarrow> i = i'"
proof (rule ccontr)
  assume a: "ready_streak obs i j" "ready_streak obs i' j" "i \<noteq> i'"
  then consider "i < i'" | "i' < i" by linarith
  then show False
  proof cases
    case 1
    then have "i \<le> i' - 1" "i' - 1 \<le> j" "i' \<noteq> 0" using a(2) by (auto simp: ready_streak_def)
    then show False using a by (auto simp: ready_streak_def)
  next
    case 2
    then have "i' \<le> i - 1" "i - 1 \<le> j" "i \<noteq> 0" using a(1) by (auto simp: ready_streak_def)
    then show False using a by (auto simp: ready_streak_def)
  qed
qed

definition listed :: "ready_obs \<Rightarrow> bool" where
  "listed obs \<longleftrightarrow> (\<exists>ps. ro_pods obs = Inr ps)"

lemma ready_check_seen:
  "listed obs \<Longrightarrow> ready_check mr obs since =
     (if seen_ready obs
      then (let s = (case since of None \<Rightarrow> ro_now obs | Some r \<Rightarrow> r) in (Check (ro_since obs - s \<ge> mr), Some s))
      else (Check False, None))"
  by (auto simp: ready_check_def listed_def seen_ready_def all_pods_ready_iff)

lemma ready_check_abort: "\<not> listed obs \<Longrightarrow> \<exists>e. ready_check mr obs since = (Abort e, since)"
  by (auto simp: ready_check_def listed_def split: sum.split)

text \<open>The invariant of \<open>readySince\<close>: it is the clock at the start of the current streak.\<close>

lemma ready_state:
  assumes "\<forall>m < k. listed (obs ! m)" and "k \<le> length obs"
  shows "case state_after (ready_check mr) None obs k of
      None \<Rightarrow> k = 0 \<or> \<not> seen_ready (obs ! (k - 1))
    | Some r \<Rightarrow> \<exists>i < k. ready_streak obs i (k - 1) \<and> r = ro_now (obs ! i)"
  using assms
proof (induction k)
  case (Suc k)
  let ?s = "state_after (ready_check mr) None obs"
  have IH: "case ?s k of None \<Rightarrow> k = 0 \<or> \<not> seen_ready (obs ! (k - 1))
      | Some r \<Rightarrow> \<exists>i < k. ready_streak obs i (k - 1) \<and> r = ro_now (obs ! i)"
    using Suc by auto
  have s: "?s (Suc k) = snd (ready_check mr (obs ! k) (?s k))" "listed (obs ! k)"
    using Suc.prems by (auto simp: state_after_Suc)
  show ?case
  proof (cases "seen_ready (obs ! k)")
    case False
    with s show ?thesis by (simp add: ready_check_seen)
  next
    case True
    show ?thesis
    proof (cases "?s k")
      case None
      with IH True have "ready_streak obs k k" by (auto simp: ready_streak_def le_antisym)
      with None True s show ?thesis by (auto simp: ready_check_seen Let_def)
    next
      case (Some r)
      with IH obtain i where i: "i < k" "ready_streak obs i (k - 1)" "r = ro_now (obs ! i)" by auto
      have "m \<le> k - 1 \<or> m = k" if "m \<le> k" for m using that by auto
      with i True have "ready_streak obs i k" unfolding ready_streak_def
        by (metis less_imp_le)
      with Some True s i show ?thesis by (auto simp: ready_check_seen Let_def intro: less_SucI)
    qed
  qed
qed (simp add: state_after_def)

lemma ready_check_streak:
  assumes l: "\<forall>k \<le> j. listed (obs ! k)" "j < length obs"
  shows "fst (ready_check minReadyTime (obs ! j) (state_after (ready_check minReadyTime) None obs j)) = Check True \<longleftrightarrow>
    (\<exists>i. ready_streak obs i j \<and> ro_since (obs ! j) - ro_now (obs ! i) \<ge> minReadyTime)"
proof (cases "seen_ready (obs ! j)")
  case False
  with l show ?thesis by (auto simp: ready_check_seen ready_streak_def)
next
  case True
  have "\<forall>m < Suc j. listed (obs ! m)" "Suc j \<le> length obs" using l by auto
  from ready_state [OF this, of minReadyTime] True obtain i where
    i: "ready_streak obs i j" "state_after (ready_check minReadyTime) None obs (Suc j) = Some (ro_now (obs ! i))"
    by (auto split: option.splits)
  have "fst (ready_check minReadyTime (obs ! j) (state_after (ready_check minReadyTime) None obs j)) =
      Check (ro_since (obs ! j) - ro_now (obs ! i) \<ge> minReadyTime)"
    using i(2) True l by (auto simp: state_after_Suc ready_check_seen Let_def)
  with i(1) ready_streak_unique show ?thesis by auto
qed

lemma first_met:
  assumes "j < length obs" and "good j" and down: "\<And>j k. good j \<Longrightarrow> k \<le> j \<Longrightarrow> good k" and "c j"
  obtains i where "i < length obs" "good i" "c i" "\<forall>k < i. good k \<and> \<not> c k"
proof -
  let ?P = "\<lambda>j. j < length obs \<and> good j \<and> c j"
  let ?i = "LEAST j. ?P j"
  from assms have "?P ?i" by (intro LeastI [of ?P j]) simp
  moreover have "good k \<and> \<not> c k" if "k < ?i" for k
    using not_less_Least [OF that] that \<open>?P ?i\<close> down [of ?i k] by auto
  ultimately show thesis using that by blast
qed

text \<open>
  C11: the wait for ready pods ends well exactly when some check, with no failed listing up to it,
  ends a streak of checks that all saw at least one pod and every pod running and ready, and the
  minimal time has passed since the start of that very streak: a check that sees a pod not ready,
  or no pod, starts the time anew.
\<close>

theorem CheckPodsReady_streak:
  "CheckPodsReady minReadyTime obs \<longleftrightarrow>
     (\<exists>j < length obs. (\<forall>k \<le> j. listed (obs ! k)) \<and>
        (\<exists>i. ready_streak obs i j \<and> ro_since (obs ! j) - ro_now (obs ! i) \<ge> minReadyTime))"
  (is "?lhs \<longleftrightarrow> (\<exists>j < length obs. ?ok j)")
proof -
  let ?f = "ready_check minReadyTime"
  let ?c = "\<lambda>k. fst (?f (obs ! k) (state_after ?f None obs k))"
  have met: "?c j = Check True \<longleftrightarrow>
      (\<exists>i. ready_streak obs i j \<and> ro_since (obs ! j) - ro_now (obs ! i) \<ge> minReadyTime)"
    if "\<forall>k \<le> j. listed (obs ! k)" "j < length obs" for j
    using that by (rule ready_check_streak)
  have bool: "?c j = Check True \<or> ?c j = Check False" if "listed (obs ! j)" for j
    using that by (auto simp: ready_check_seen Let_def)
  have lst: "listed (obs ! j)" if "?c j = Check b" for j b
    using that ready_check_abort by (metis check.distinct(1) fst_conv)
  show ?thesis
  proof
    assume ?lhs
    then obtain j where j: "j < length obs" "?c j = Check True" "\<forall>k < j. ?c k = Check False"
      by (auto simp: CheckPodsReady_def eventually_checks_iff)
    then have l: "\<forall>k \<le> j. listed (obs ! k)" using lst le_neq_implies_less by metis
    with j met show "\<exists>j < length obs. ?ok j" by blast
  next
    assume "\<exists>j < length obs. ?ok j"
    then obtain j where j: "j < length obs" "\<forall>k \<le> j. listed (obs ! k)" "?c j = Check True"
      using met by blast
    obtain i where i: "i < length obs" "\<forall>k \<le> i. listed (obs ! k)" "?c i = Check True"
      "\<forall>k < i. (\<forall>m \<le> k. listed (obs ! m)) \<and> ?c k \<noteq> Check True"
      by (rule first_met [of j obs "\<lambda>j. \<forall>k \<le> j. listed (obs ! k)" "\<lambda>j. ?c j = Check True"])
        (use j in auto)
    then have "\<forall>k < i. ?c k = Check False" using bool by blast
    with i show ?lhs by (auto simp: CheckPodsReady_def eventually_checks_iff)
  qed
qed

definition sample_obs :: "int \<Rightarrow> ready_obs" where
  "sample_obs t = \<lparr>ro_pods = Inr [sample_pod ''/var''], ro_now = t, ro_since = t\<rparr>"

lemma CheckPodsReady_streak_witness: "CheckPodsReady 10 [sample_obs 0, sample_obs 5, sample_obs 10]"
proof -
  let ?obs = "[sample_obs 0, sample_obs 5, sample_obs 10]"
  have r: "seen_ready (sample_obs t)" for t
    by (simp add: seen_ready_def sample_obs_def pod_running_ready_def sample_pod_def)
  have "listed (?obs ! k) \<and> seen_ready (?obs ! k)" if "k \<le> 2" for k
  proof -
    from that have "k = 0 \<or> k = 1 \<or> k = 2" by auto
    then show ?thesis using r by (auto simp: listed_def) (simp_all add: sample_obs_def)
  qed
  then have "ready_streak ?obs 0 2" "\<forall>k \<le> 2. listed (?obs ! k)" by (auto simp: ready_streak_def)
  moreover have "ro_since (?obs ! 2) - ro_now (?obs ! 0) \<ge> 10" by (simp add: sample_obs_def)
  ultimately show ?thesis
    unfolding CheckPodsReady_streak by (intro exI [of _ 2]) auto
qed

section \<open>Pods that are going away\<close>

lemma terminating_pods_zero:
  "terminating_pods ps = 0 \<longleftrightarrow> (\<forall>p \<in> set ps. pod_Deleting p \<longrightarrow> pod_Phase p \<in> {''Running'', ''Pending''})"
proof -
  let ?f = "\<lambda>p n :: int. if pod_Phase p = ''Running'' \<or> pod_Phase p = ''Pending'' then n
    else if pod_Deleting p then n + 1 else n"
  have ge: "n \<le> fold ?f ps n" for n
  proof (induction ps arbitrary: n)
    case (Cons p ps)
    have "n \<le> ?f p n" by simp
    also have "\<dots> \<le> fold ?f ps (?f p n)" by (rule Cons.IH)
    finally show ?case by simp
  qed simp
  have "fold ?f ps n = n \<longleftrightarrow> (\<forall>p \<in> set ps. pod_Deleting p \<longrightarrow> pod_Phase p \<in> {''Running'', ''Pending''})" for n
  proof (induction ps arbitrary: n)
    case (Cons p ps)
    show ?case
    proof (cases "pod_Deleting p \<longrightarrow> pod_Phase p \<in> {''Running'', ''Pending''}")
      case True
      then have "?f p n = n" by auto
      with Cons.IH [of n] True show ?thesis by simp
    next
      case False
      then have "?f p n = n + 1" by auto
      moreover have "fold ?f ps (n + 1) \<noteq> n"
      proof -
        have "fold ?f (p # ps) n = fold ?f ps (?f p n)" by simp
        have mono: "m \<le> fold ?f qs m" for qs and m :: int
        proof (induction qs arbitrary: m)
          case (Cons q qs)
          have "m \<le> ?f q m" by simp
          also have "\<dots> \<le> fold ?f qs (?f q m)" by (rule Cons.IH)
          finally show ?case by simp
        qed simp
        from mono [of "n + 1" ps] show ?thesis by linarith
      qed
      ultimately show ?thesis using False by auto
    qed
  qed simp
  then show ?thesis by (simp add: terminating_pods_def)
qed

text \<open>A listing that makes the wait go on.\<close>

definition waiting_for :: "pod list result \<Rightarrow> bool" where
  "waiting_for r \<longleftrightarrow>
     (case r of Inl e \<Rightarrow> False
      | Inr ps \<Rightarrow> list_ex (\<lambda>p. pod_Deleting p \<and> pod_Phase p \<noteq> ''Running'' \<and> pod_Phase p \<noteq> ''Pending'') ps)"

text \<open>
  The wait for terminating pods goes on while a listing has a deleted pod in a phase other than
  Running or Pending, and ends well exactly when the next listing after those succeeds. Deleted pods in
  these two phases are not waited for.
\<close>

theorem WaitForTerminatingPods_iff:
  "WaitForTerminatingPods obs \<longleftrightarrow> (\<exists>ps later. dropWhile waiting_for obs = Inr ps # later)"
proof (induction obs)
  case (Cons r rs)
  show ?case
  proof (cases r)
    case (Inl e)
    then show ?thesis by (simp add: WaitForTerminatingPods_def terminating_check_def waiting_for_def)
  next
    case (Inr ps)
    have "waiting_for r \<longleftrightarrow> terminating_pods ps \<noteq> 0"
      by (auto simp: Inr waiting_for_def terminating_pods_zero list_ex_iff)
    with Cons show ?thesis
      by (auto simp: Inr WaitForTerminatingPods_def terminating_check_def split: bool.split)
  qed
qed (simp add: WaitForTerminatingPods_def)

text \<open>A pod that is being deleted while its containers still run is not waited for.\<close>

lemma terminating_running_pod_skipped:
  "WaitForTerminatingPods [Inr [(sample_pod ''/var'')\<lparr>pod_Deleting := True\<rparr>]]"
  by (simp add: WaitForTerminatingPods_def terminating_check_def terminating_pods_def sample_pod_def)

section \<open>Namespaces\<close>

text \<open>
  \<open>LabelNamespace\<close> is a precise update: when it succeeds, and the API returns the object that
  was last written, the namespace read afterwards has the new label, every other label as before,
  and the same name, annotations and content.
\<close>

theorem LabelNamespace_effect:
  assumes "LabelNamespace api w name key v = Inr w'"
    and "\<And>w ns w'. update_ns api w ns = Inr w' \<Longrightarrow> get_ns api w' (ns_Name ns) = Inr ns"
    and "\<And>w name ns. get_ns api w name = Inr ns \<Longrightarrow> ns_Name ns = name"
  shows "\<exists>ns ns'. get_ns api w name = Inr ns \<and> get_ns api w' name = Inr ns' \<and>
    map_of (ns_Labels ns') = (map_of (ns_Labels ns))(key \<mapsto> v) \<and>
    ns_Annotations ns' = ns_Annotations ns \<and> ns_rest ns' = ns_rest ns \<and> ns_Name ns' = name"
proof -
  from assms(1) obtain ns where ns: "get_ns api w name = Inr ns"
    "update_ns api w (ns\<lparr>ns_Labels := AList.update key v (ns_Labels ns)\<rparr>) = Inr w'"
    by (auto simp: LabelNamespace_def bind_res_Inr_iff)
  from assms(3) [OF ns(1)] assms(2) [OF ns(2)]
  have "get_ns api w' name = Inr (ns\<lparr>ns_Labels := AList.update key v (ns_Labels ns)\<rparr>)" by simp
  with ns(1) assms(3) show ?thesis by (auto simp: update_conv')
qed

definition sample_api :: "(string \<rightharpoonup> namespace_obj) ns_api" where
  "sample_api =
     \<lparr>get_ns = (\<lambda>w name. case w name of
         Some ns \<Rightarrow> if ns_Name ns = name then Inr ns else Inl ''not found'' | None \<Rightarrow> Inl ''not found''),
      update_ns = (\<lambda>w ns. Inr (w(ns_Name ns \<mapsto> ns)))\<rparr>"

lemma LabelNamespace_effect_witness:
  "\<exists>w' ns'. LabelNamespace sample_api [''default'' \<mapsto>
       \<lparr>ns_Name = ''default'', ns_Labels = [], ns_Annotations = [], ns_rest = []\<rparr>] ''default'' ''team'' ''a'' = Inr w' \<and>
     get_ns sample_api w' ''default'' = Inr ns' \<and> map_of (ns_Labels ns') ''team'' = Some ''a''"
proof -
  let ?w = "[''default'' \<mapsto> \<lparr>ns_Name = ''default'', ns_Labels = [], ns_Annotations = [], ns_rest = []\<rparr>]"
  have upd: "get_ns sample_api w' (ns_Name ns) = Inr ns" if "update_ns sample_api w ns = Inr w'" for w ns w'
    using that by (auto simp: sample_api_def)
  have nam: "ns_Name ns = name" if "get_ns sample_api w name = Inr ns" for w name ns
    using that by (auto simp: sample_api_def split: option.splits if_splits)
  obtain w' where w': "LabelNamespace sample_api ?w ''default'' ''team'' ''a'' = Inr w'"
    by (auto simp: LabelNamespace_def sample_api_def)
  from LabelNamespace_effect [OF w' upd nam] show ?thesis using w' by fastforce
qed

text \<open>
  The deletion of a namespace ends well exactly when the API call succeeded, or failed because there
  was nothing to delete, and one of the checks that follow cannot read the namespace any more.
\<close>

theorem DeleteNamespace_gone:
  "DeleteNamespace noMatch deleted gets \<longleftrightarrow>
     (deleted = None \<or> (\<exists>e. deleted = Some e \<and> (noMatch e \<or> contains e ''not found''))) \<and>
     (\<exists>e \<in> set gets. e \<noteq> None)"
proof -
  have "eventually_checks gone_check gets () \<longleftrightarrow> (\<exists>e \<in> set gets. e \<noteq> None)"
    by (induction gets) (auto simp: gone_check_def split: bool.split)
  then show ?thesis by (auto simp: DeleteNamespace_def delete_tolerated_def split: option.splits)
qed

end
