(* ===== verification/ComponentHealth.thy ===== *)
theory ComponentHealth
  imports Pods GoSort
begin

section \<open>Component health from logs\<close>

text \<open>
  Model of \<open>functional_tests/internal/component_health.go\<close>: the selection of pods, the search of a
  log for the error and warning lines of a component, and the checks built on them. Logs come from
  \<open>GetPodLogs\<close>; \<open>logs\<close> gives for each pod name what that call returns. \<open>uni\<close> is the Unicode part of
  \<open>strings.ToLower\<close>.
\<close>

subsection \<open>Lines of a log\<close>

text \<open>
  \<open>strings.TrimSpace(line) == ""\<close>: the line is a sequence of Unicode spaces in UTF-8.
\<close>

fun blank_bytes :: "nat list \<Rightarrow> bool" where
  "blank_bytes [] = True"
| "blank_bytes (b # bs) =
     (if b \<in> {9, 10, 11, 12, 13, 32} then blank_bytes bs
      else
        (case bs of
           [] \<Rightarrow> False
         | c # cs \<Rightarrow>
             if b = 0xC2 \<and> c \<in> {0x85, 0xA0} then blank_bytes cs
             else
               (case cs of
                  [] \<Rightarrow> False
                | d # ds \<Rightarrow>
                    if (b, c, d) \<in> {(0xE1, 0x9A, 0x80), (0xE2, 0x80, 0xA8), (0xE2, 0x80, 0xA9),
                         (0xE2, 0x80, 0xAF), (0xE2, 0x81, 0x9F), (0xE3, 0x80, 0x80)}
                       \<or> b = 0xE2 \<and> c = 0x80 \<and> 0x80 \<le> d \<and> d \<le> 0x8A
                    then blank_bytes ds else False)))"

definition blank :: "string \<Rightarrow> bool" where
  "blank line = blank_bytes (map of_char line)"

definition tab :: char where
  "tab = char_of (9 :: nat)"

definition newline :: char where
  "newline = char_of (10 :: nat)"

definition tabbed :: "string \<Rightarrow> string" where
  "tabbed w = tab # w @ [tab]"

definition line_matches :: "(string \<Rightarrow> string) \<Rightarrow> string \<Rightarrow> string \<Rightarrow> bool" where
  "line_matches uni lowerComponentName line =
     (if blank line then False
      else
        (let lowerLine = to_lower uni line;
             isErrorOrWarn = (contains lowerLine (tabbed ''error'') \<or> contains lowerLine (tabbed ''warn''))
         in if \<not> isErrorOrWarn then False else contains lowerLine lowerComponentName))"

text \<open>The text after the first tab, that is without the timestamp.\<close>

definition message_key :: "string \<Rightarrow> string" where
  "message_key line =
     (let parts = split_char2 tab line in if length parts = 2 then parts ! 1 else line)"

record log_entry =
  firstLine :: string
  seen_count :: int

text \<open>
  The Go map \<open>seenMessages\<close> is an association list in the order of insertion; the order in which
  the code ranges over it is a permutation of that, and the result is sorted.
\<close>

definition note_line :: "(string \<times> log_entry) list \<Rightarrow> string \<Rightarrow> (string \<times> log_entry) list" where
  "note_line seen line =
     (let messageKey = message_key line
      in case map_of seen messageKey of
           Some entry \<Rightarrow> AList.update messageKey (entry\<lparr>seen_count := seen_count entry + 1\<rparr>) seen
         | None \<Rightarrow> AList.update messageKey \<lparr>firstLine = line, seen_count = 1\<rparr> seen)"

definition seen_messages :: "(string \<Rightarrow> string) \<Rightarrow> string \<Rightarrow> string \<Rightarrow> (string \<times> log_entry) list" where
  "seen_messages uni logs componentName =
     foldl (\<lambda>seen line. if line_matches uni (to_lower uni componentName) line then note_line seen line else seen)
       [] (split_char newline logs)"

definition show_entry :: "log_entry \<Rightarrow> string" where
  "show_entry e =
     (if seen_count e > 1 then firstLine e @ '' (repeated '' @ itoa_int (seen_count e) @ '' times)''
      else firstLine e)"

definition findMatchingLogLines ::
  "((string \<times> log_entry) list \<Rightarrow> (string \<times> log_entry) list) \<Rightarrow> (string \<Rightarrow> string) \<Rightarrow> string \<Rightarrow> string \<Rightarrow> string list"
where
  "findMatchingLogLines range_order uni logs componentName =
     sort_strings (map (\<lambda>(k, e). show_entry e) (range_order (seen_messages uni logs componentName)))"

definition containsReceiverStartLog :: "(string \<Rightarrow> string) \<Rightarrow> string \<Rightarrow> string \<Rightarrow> bool" where
  "containsReceiverStartLog uni logs receiverName =
     (let lowerReceiver = to_lower uni receiverName
      in list_ex (\<lambda>line. let lowerLine = to_lower uni line
           in contains lowerLine ''starting receiver'' \<and> contains lowerLine lowerReceiver) (split_char newline logs))"

subsection \<open>Pods\<close>

definition CollectorContainerName :: string where
  "CollectorContainerName = ''otel-collector''"

fun has_container :: "string \<Rightarrow> container list \<Rightarrow> bool" where
  "has_container name [] = False"
| "has_container name (c # cs) = (if c_Name c = name then True else has_container name cs)"

definition GetRunningAgentPods :: "pod list result \<Rightarrow> pod list result" where
  "GetRunningAgentPods listing =
     bind_res listing (\<lambda>items.
       Inr (foldl (\<lambda>result p.
         if pod_Phase p \<noteq> ''Running'' then result
         else if has_container CollectorContainerName (pod_Containers p) then result @ [p] else result) [] items))"

record node =
  node_Name :: string
  node_Labels :: "(string \<times> string) list"

definition control_plane_label :: "string \<Rightarrow> bool" where
  "control_plane_label label =
     (label = ''node-role.kubernetes.io/control-plane'' \<or> label = ''node-role.kubernetes.io/master'')"

definition cp_nodes :: "node list \<Rightarrow> (string \<times> bool) list" where
  "cp_nodes nodes =
     foldl (\<lambda>m n. if list_ex (\<lambda>(label, _). control_plane_label label) (node_Labels n)
                  then AList.update (node_Name n) True m else m) [] nodes"

definition GetControlPlaneAgentPods :: "pod list result \<Rightarrow> node list result \<Rightarrow> pod list result" where
  "GetControlPlaneAgentPods listing node_listing =
     bind_res (GetRunningAgentPods listing) (\<lambda>allAgents.
     bind_res node_listing (\<lambda>nodes.
       Inr (filter (\<lambda>p. case map_of (cp_nodes nodes) (pod_NodeName p) of Some b \<Rightarrow> b | None \<Rightarrow> False) allAgents)))"

subsection \<open>Checks\<close>

text \<open>
  A check runs to its end and records errors, or a failed requirement stops it: the first component
  of the outcome is the failed requirement.
\<close>

record pod_errors =
  pe_pod :: string
  pe_lines :: "string list"
  pe_more :: int

type_synonym health_outcome = "string option \<times> pod_errors list"

definition pod_report :: "string list \<Rightarrow> string \<Rightarrow> pod_errors list" where
  "pod_report errorLines name =
     (if length errorLines > 0
      then (if length errorLines > 20
            then [\<lparr>pe_pod = name, pe_lines = take 20 errorLines, pe_more = int (length errorLines) - 20\<rparr>]
            else [\<lparr>pe_pod = name, pe_lines = errorLines, pe_more = 0\<rparr>])
      else [])"

fun check_pods ::
  "(string \<Rightarrow> string result) \<Rightarrow> (string \<Rightarrow> string list) \<Rightarrow> pod list \<Rightarrow> pod_errors list \<Rightarrow> health_outcome"
where
  "check_pods logs find_lines [] errs = (None, errs)"
| "check_pods logs find_lines (p # ps) errs =
     (if pod_Phase p \<noteq> ''Running'' then check_pods logs find_lines ps errs
      else if \<not> has_container CollectorContainerName (pod_Containers p) then check_pods logs find_lines ps errs
      else
        (case logs (pod_Name p) of
           Inl e \<Rightarrow> (Some (''failed to get logs for pod: '' @ pod_Name p), errs)
         | Inr text \<Rightarrow> check_pods logs find_lines ps (errs @ pod_report (find_lines text) (pod_Name p))))"

definition CheckComponentHealthForPods ::
  "((string \<times> log_entry) list \<Rightarrow> (string \<times> log_entry) list) \<Rightarrow> (string \<Rightarrow> string) \<Rightarrow>
     (string \<Rightarrow> string result) \<Rightarrow> pod list \<Rightarrow> string \<Rightarrow> health_outcome"
where
  "CheckComponentHealthForPods range_order uni logs pods componentName =
     (if pods = [] then (Some ''no pods provided to check for component'', [])
      else check_pods logs (\<lambda>text. findMatchingLogLines range_order uni text componentName) pods [])"

definition CheckComponentHealth ::
  "((string \<times> log_entry) list \<Rightarrow> (string \<times> log_entry) list) \<Rightarrow> (string \<Rightarrow> string) \<Rightarrow>
     (string \<Rightarrow> string result) \<Rightarrow> pod list result \<Rightarrow> string \<Rightarrow> health_outcome"
where
  "CheckComponentHealth range_order uni logs listing componentName =
     (case listing of
        Inl e \<Rightarrow> (Some ''failed to list pods'', [])
      | Inr items \<Rightarrow>
          if items = [] then (Some ''no pods found'', [])
          else CheckComponentHealthForPods range_order uni logs items componentName)"

fun receiver_started :: "(string \<Rightarrow> string) \<Rightarrow> (string \<Rightarrow> string result) \<Rightarrow> string \<Rightarrow> pod list \<Rightarrow> bool" where
  "receiver_started uni logs receiverName [] = False"
| "receiver_started uni logs receiverName (p # ps) =
     (case logs (pod_Name p) of
        Inl e \<Rightarrow> receiver_started uni logs receiverName ps
      | Inr text \<Rightarrow>
          if containsReceiverStartLog uni text receiverName then True
          else receiver_started uni logs receiverName ps)"

definition CheckReceiverStarted ::
  "(string \<Rightarrow> string) \<Rightarrow> (string \<Rightarrow> string result) \<Rightarrow> pod list \<Rightarrow> string \<Rightarrow> bool"
where
  "CheckReceiverStarted uni logs pods receiverName =
     (if pods = [] then False else receiver_started uni logs receiverName pods)"

section \<open>Facts about the search\<close>

definition matching_lines :: "(string \<Rightarrow> string) \<Rightarrow> string \<Rightarrow> string \<Rightarrow> string list" where
  "matching_lines uni logs componentName =
     filter (line_matches uni (to_lower uni componentName)) (split_char newline logs)"

text \<open>What is recorded for a message: its first line, and the number of its lines.\<close>

definition entry_for :: "string list \<Rightarrow> string \<Rightarrow> log_entry option" where
  "entry_for ls k =
     (case filter (\<lambda>l. message_key l = k) ls of
        [] \<Rightarrow> None
      | l # rest \<Rightarrow> Some \<lparr>firstLine = l, seen_count = 1 + int (length rest)\<rparr>)"

lemma foldl_if_filter: "foldl (\<lambda>a x. if P x then f a x else a) a xs = foldl f a (filter P xs)"
  by (induction xs arbitrary: a) auto

lemma seen_messages_fold: "seen_messages uni logs c = foldl note_line [] (matching_lines uni logs c)"
  by (simp add: seen_messages_def matching_lines_def foldl_if_filter)

lemma note_line_lookup:
  "map_of (note_line seen line) k =
     (if k = message_key line
      then Some (case map_of seen k of
          Some e \<Rightarrow> e\<lparr>seen_count := seen_count e + 1\<rparr> | None \<Rightarrow> \<lparr>firstLine = line, seen_count = 1\<rparr>)
      else map_of seen k)"
  by (auto simp: note_line_def Let_def update_conv' split: option.splits)

lemma note_lines_lookup: "map_of (foldl note_line [] ls) k = entry_for ls k"
proof (induction ls rule: rev_induct)
  case (snoc l ls)
  then show ?case by (auto simp: note_line_lookup entry_for_def split: list.splits)
qed (simp add: entry_for_def)

lemma note_lines_distinct: "distinct (map fst (foldl note_line [] ls))"
proof (induction ls rule: rev_induct)
  case (snoc l ls)
  then show ?case by (auto simp: note_line_def Let_def distinct_update split: option.split)
qed simp

lemma entry_for_None: "entry_for ls k = None \<longleftrightarrow> k \<notin> set (map message_key ls)"
proof (cases "filter (\<lambda>l. message_key l = k) ls")
  case Nil
  then show ?thesis by (auto simp: entry_for_def filter_empty_conv)
next
  case (Cons l rest)
  then have "l \<in> set (filter (\<lambda>l. message_key l = k) ls)" by simp
  then have "k \<in> set (map message_key ls)" by auto
  with Cons show ?thesis by (simp add: entry_for_def)
qed

lemma note_lines_keys: "set (map fst (foldl note_line [] ls)) = set (map message_key ls)"
proof -
  have "k \<in> set (map fst (foldl note_line [] ls)) \<longleftrightarrow> k \<in> set (map message_key ls)" for k
    using note_lines_lookup [of ls k] entry_for_None [of ls k] by (metis map_of_eq_None_iff list.set_map)
  then show ?thesis by blast
qed

lemma sum_seen_counts: "sum_list (map (\<lambda>(k, e). seen_count e) (foldl note_line [] ls)) = int (length ls)"
proof (induction ls rule: rev_induct)
  case (snoc l ls)
  let ?s = "foldl note_line [] ls" and ?k = "message_key l"
  have d: "distinct (map fst ?s)" by (rule note_lines_distinct)
  have upd: "sum_list (map (\<lambda>(k, e). seen_count e) (AList.update q e m)) =
      sum_list (map (\<lambda>(k, e). seen_count e) m) + seen_count e -
      (case map_of m q of Some e' \<Rightarrow> seen_count e' | None \<Rightarrow> 0)" for q e and m :: "(string \<times> log_entry) list"
    by (induction m) (auto split: option.splits)
  from snoc show ?case
    by (auto simp: note_line_def Let_def upd split: option.split)
qed simp

text \<open>
  Each message of the matching lines is reported once: the entry of a message has the first
  of its lines and the number of its lines, and the counts add up to the number of matching lines.
\<close>

theorem seen_messages_groups:
  "map_of (seen_messages uni logs c) k = entry_for (matching_lines uni logs c) k \<and>
   distinct (map fst (seen_messages uni logs c)) \<and>
   sum_list (map (\<lambda>(k, e). seen_count e) (seen_messages uni logs c)) = int (length (matching_lines uni logs c))"
  by (simp add: seen_messages_fold note_lines_lookup note_lines_distinct sum_seen_counts)

lemma findMatchingLogLines_perm:
  assumes "\<And>xs. mset (ro xs) = mset xs"
  shows "findMatchingLogLines ro uni logs c = findMatchingLogLines (\<lambda>xs. xs) uni logs c"
proof -
  have "mset (map (\<lambda>(k, e). show_entry e) (ro (seen_messages uni logs c))) =
      mset (map (\<lambda>(k, e). show_entry e) (seen_messages uni logs c))"
    by (simp add: assms)
  then show ?thesis unfolding findMatchingLogLines_def by (rule sort_strings_perm)
qed

lemma seen_messages_nil: "seen_messages uni logs c = [] \<longleftrightarrow> matching_lines uni logs c = []"
proof -
  have "set (map fst (seen_messages uni logs c)) = set (map message_key (matching_lines uni logs c))"
    by (simp only: seen_messages_fold note_lines_keys)
  then show ?thesis by (metis list.map_disc_iff set_empty)
qed

lemma findMatchingLogLines_nil:
  assumes "\<And>xs. mset (ro xs) = mset xs"
  shows "findMatchingLogLines ro uni logs c = [] \<longleftrightarrow> matching_lines uni logs c = []"
proof -
  have "set (findMatchingLogLines (\<lambda>xs. xs) uni logs c) = {} \<longleftrightarrow> seen_messages uni logs c = []"
    by (simp add: findMatchingLogLines_def)
  then show ?thesis by (simp add: findMatchingLogLines_perm [OF assms] seen_messages_nil)
qed

text \<open>
  The reported lines do not depend on the order in which the runtime ranges over the map of
  messages, are sorted, and there are as many as there are different messages.
\<close>

theorem findMatchingLogLines_canonical:
  assumes "\<And>xs. mset (ro xs) = mset xs"
  shows "findMatchingLogLines ro uni logs c =
      sort (map (\<lambda>(k, e). show_entry e) (seen_messages uni logs c)) \<and>
    length (findMatchingLogLines ro uni logs c) = card (set (map message_key (matching_lines uni logs c)))"
proof
  show eq: "findMatchingLogLines ro uni logs c = sort (map (\<lambda>(k, e). show_entry e) (seen_messages uni logs c))"
    by (simp only: findMatchingLogLines_perm [OF assms]) (simp add: findMatchingLogLines_def sort_strings_eq_sort)
  have "length (seen_messages uni logs c) = card (set (map fst (seen_messages uni logs c)))"
    using note_lines_distinct by (metis seen_messages_fold distinct_card length_map)
  then show "length (findMatchingLogLines ro uni logs c) = card (set (map message_key (matching_lines uni logs c)))"
    by (simp only: eq length_sort length_map seen_messages_fold note_lines_keys)
qed

section \<open>Facts about the checks\<close>

lemma has_container_iff: "has_container name cs \<longleftrightarrow> name \<in> c_Name ` set cs"
  by (induction cs) auto

definition agent_pod :: "pod \<Rightarrow> bool" where
  "agent_pod p \<longleftrightarrow> pod_Phase p = ''Running'' \<and> CollectorContainerName \<in> c_Name ` set (pod_Containers p)"

lemma running_agents:
  "foldl (\<lambda>result p.
      if pod_Phase p \<noteq> ''Running'' then result
      else if has_container CollectorContainerName (pod_Containers p) then result @ [p] else result) acc items =
    acc @ filter agent_pod items"
  by (induction items arbitrary: acc) (auto simp: agent_pod_def has_container_iff)

lemma GetRunningAgentPods_filter: "GetRunningAgentPods (Inr items) = Inr (filter agent_pod items)"
  by (simp add: GetRunningAgentPods_def running_agents)

definition control_plane :: "node list \<Rightarrow> string \<Rightarrow> bool" where
  "control_plane nodes name \<longleftrightarrow>
     (\<exists>n \<in> set nodes. node_Name n = name \<and> (\<exists>l \<in> fst ` set (node_Labels n). control_plane_label l))"

lemma cp_nodes_lookup: "map_of (cp_nodes nodes) q = (if control_plane nodes q then Some True else None)"
proof (induction nodes rule: rev_induct)
  case (snoc n ns)
  then show ?case
    by (auto simp: cp_nodes_def control_plane_def update_conv' list_ex_iff split_beta)
qed (simp add: cp_nodes_def control_plane_def)

text \<open>
  The control-plane agents are, in the order of the listing, the running pods with a collector
  container whose node has one of the two control-plane labels.
\<close>

theorem GetControlPlaneAgentPods_filter:
  "GetControlPlaneAgentPods (Inr items) (Inr nodes) =
     Inr (filter (\<lambda>p. agent_pod p \<and> control_plane nodes (pod_NodeName p)) items)"
  by (auto simp: GetControlPlaneAgentPods_def GetRunningAgentPods_filter cp_nodes_lookup intro: filter_cong)

lemma check_pods_clean:
  "check_pods logs f ps errs = (None, []) \<longleftrightarrow>
     errs = [] \<and> (\<forall>p \<in> set ps. agent_pod p \<longrightarrow> (\<exists>text. logs (pod_Name p) = Inr text \<and> f text = []))"
  by (induction ps arbitrary: errs) (auto simp: agent_pod_def has_container_iff pod_report_def split: sum.splits)

text \<open>
  C18: the health check passes, with no error recorded, exactly when pods were given and for every
  running collector pod the logs could be read and hold no error or warning line that mentions the
  component; other pods are skipped.
\<close>

theorem CheckComponentHealthForPods_passes:
  assumes "\<And>xs. mset (ro xs) = mset xs"
  shows "CheckComponentHealthForPods ro uni logs pods c = (None, []) \<longleftrightarrow>
    pods \<noteq> [] \<and> (\<forall>p \<in> set pods. agent_pod p \<longrightarrow>
      (\<exists>text. logs (pod_Name p) = Inr text \<and>
        (\<forall>line \<in> set (split_char newline text). blank line \<or>
           \<not> (contains (to_lower uni line) (tabbed ''error'') \<or> contains (to_lower uni line) (tabbed ''warn'')) \<or>
           \<not> contains (to_lower uni line) (to_lower uni c))))"
proof -
  have "line_matches uni (to_lower uni c) line \<longleftrightarrow> \<not> blank line \<and>
      (contains (to_lower uni line) (tabbed ''error'') \<or> contains (to_lower uni line) (tabbed ''warn'')) \<and>
      contains (to_lower uni line) (to_lower uni c)" for line
    by (simp add: line_matches_def Let_def)
  then show ?thesis
    by (simp add: CheckComponentHealthForPods_def check_pods_clean findMatchingLogLines_nil [OF assms]
        matching_lines_def filter_empty_conv)
qed

text \<open>
  A receiver counts as started exactly when some pod's logs could be read and have one line
  with both the start message and the receiver's name; unreadable logs are passed over.
\<close>

theorem CheckReceiverStarted_iff:
  "CheckReceiverStarted uni logs pods receiverName \<longleftrightarrow>
     (\<exists>p \<in> set pods. \<exists>text. logs (pod_Name p) = Inr text \<and>
        (\<exists>line \<in> set (split_char newline text). contains (to_lower uni line) ''starting receiver'' \<and>
           contains (to_lower uni line) (to_lower uni receiverName)))"
proof -
  have "receiver_started uni logs receiverName ps \<longleftrightarrow>
      (\<exists>p \<in> set ps. \<exists>text. logs (pod_Name p) = Inr text \<and> containsReceiverStartLog uni text receiverName)" for ps
    by (induction ps) (auto split: sum.splits)
  then show ?thesis
    by (auto simp: CheckReceiverStarted_def containsReceiverStartLog_def Let_def list_ex_iff)
qed

section \<open>Examples\<close>

definition sample_log :: string where
  "sample_log =
     join [newline] [''1'' @ tabbed ''error'' @ ''redis: no route'', ''2'' @ tabbed ''info'' @ ''redis'',
       ''3'' @ tabbed ''Error'' @ ''Redis: stopped'', ''4'' @ tabbed ''error'' @ ''redis: no route'']"

lemma findMatchingLogLines_canonical_witness:
  "findMatchingLogLines rev (\<lambda>s. s) sample_log ''redis'' =
     [''1'' @ tabbed ''error'' @ ''redis: no route (repeated 2 times)'', ''3'' @ tabbed ''Error'' @ ''Redis: stopped'']"
proof -
  have "mset (rev xs) = mset xs" for xs :: "(string \<times> log_entry) list" by simp
  note can = findMatchingLogLines_canonical [of rev "\<lambda>s. s" sample_log "''redis''", OF this]
  have "map (\<lambda>(k, e). show_entry e) (seen_messages (\<lambda>s. s) sample_log ''redis'') =
      [''1'' @ tabbed ''error'' @ ''redis: no route (repeated 2 times)'', ''3'' @ tabbed ''Error'' @ ''Redis: stopped'']"
    by code_simp
  moreover have "sort [''1'' @ tabbed ''error'' @ ''redis: no route (repeated 2 times)'', ''3'' @ tabbed ''Error'' @ ''Redis: stopped''] =
      [''1'' @ tabbed ''error'' @ ''redis: no route (repeated 2 times)'', ''3'' @ tabbed ''Error'' @ ''Redis: stopped'']"
    by code_simp
  ultimately show ?thesis using can by simp
qed

lemma CheckComponentHealthForPods_passes_witness:
  "CheckComponentHealthForPods rev (\<lambda>s. s) (\<lambda>_. Inr sample_log) [sample_pod ''/var''] ''postgres'' = (None, []) \<and>
   CheckComponentHealthForPods rev (\<lambda>s. s) (\<lambda>_. Inr sample_log) [sample_pod ''/var''] ''redis'' \<noteq> (None, [])"
proof -
  have perm: "mset (rev xs) = mset xs" for xs :: "(string \<times> log_entry) list" by simp
  let ?quiet = "\<lambda>c line. blank line \<or>
    \<not> (contains (to_lower (\<lambda>s. s) line) (tabbed ''error'') \<or> contains (to_lower (\<lambda>s. s) line) (tabbed ''warn'')) \<or>
    \<not> contains (to_lower (\<lambda>s. s) line) (to_lower (\<lambda>s. s) c)"
  have clean: "list_all (?quiet ''postgres'') (split_char newline sample_log)"
    by code_simp
  have dirty: "\<not> list_all (?quiet ''redis'') (split_char newline sample_log)"
    by code_simp
  have agent: "agent_pod (sample_pod ''/var'')"
    by (simp add: agent_pod_def sample_pod_def CollectorContainerName_def)
  show ?thesis
    using clean dirty agent
      CheckComponentHealthForPods_passes [of rev "\<lambda>s. s" "\<lambda>_. Inr sample_log" "[sample_pod ''/var'']" "''postgres''", OF perm]
      CheckComponentHealthForPods_passes [of rev "\<lambda>s. s" "\<lambda>_. Inr sample_log" "[sample_pod ''/var'']" "''redis''", OF perm]
    by (auto simp: list_all_iff)
qed

end
