(* ===== verification/GoRun.thy ===== *)
theory GoRun
  imports GoBase
begin

section \<open>Runs that act on the outside\<close>

text \<open>
  A test helper that calls out to Helm, kubectl or a server is a sequence of actions with decisions in
  between; a failed requirement (or a panic) ends it. A run collects the actions done, in order, and the
  value or the message it ended with.
\<close>

text \<open>Actions done so far, and the failed requirement or the value.\<close>

type_synonym ('x, 'a) run = "'x list \<times> 'a result"

definition bind_run :: "('x, 'a) run \<Rightarrow> ('a \<Rightarrow> ('x, 'b) run) \<Rightarrow> ('x, 'b) run" where
  "bind_run m f =
     (case m of
        (xs, Inl e) \<Rightarrow> (xs, Inl e)
      | (xs, Inr a) \<Rightarrow> (case f a of (ys, r) \<Rightarrow> (xs @ ys, r)))"

definition pure_run :: "'a result \<Rightarrow> ('x, 'a) run" where
  "pure_run r = ([], r)"

text \<open>One action, with the error it ends with, if any; a requirement on it stops the test.\<close>

definition act_run :: "('x \<Rightarrow> string option) \<Rightarrow> 'x \<Rightarrow> ('x, unit) run" where
  "act_run answer x = ([x], case answer x of Some e \<Rightarrow> Inl e | None \<Rightarrow> Inr ())"

section \<open>Facts about runs\<close>

lemma bind_run_Inr:
  "bind_run m f = (tr, Inr b) \<longleftrightarrow> (\<exists>xs a ys. m = (xs, Inr a) \<and> f a = (ys, Inr b) \<and> tr = xs @ ys)"
  by (auto simp: bind_run_def split: prod.splits sum.splits)

lemma pure_run_Inr: "pure_run r = (tr, Inr a) \<longleftrightarrow> tr = [] \<and> r = Inr a"
  by (auto simp: pure_run_def)

lemma act_run_Inr: "act_run answer x = (tr, Inr a) \<longleftrightarrow> tr = [x] \<and> answer x = None"
  by (auto simp: act_run_def split: option.splits)

text \<open>Nothing is done after an action that was refused.\<close>

definition orderly :: "('x \<Rightarrow> string option) \<Rightarrow> ('x, 'a) run \<Rightarrow> bool" where
  "orderly answer m \<longleftrightarrow>
     (\<forall>x \<in> set (butlast (fst m)). answer x = None) \<and>
     (\<forall>a. snd m = Inr a \<longrightarrow> (\<forall>x \<in> set (fst m). answer x = None))"

lemma orderly_pure: "orderly answer (pure_run r)"
  by (simp add: orderly_def pure_run_def)

lemma orderly_act: "orderly answer (act_run answer x)"
  by (simp add: orderly_def act_run_def split: option.split)

lemma orderly_bind:
  assumes "orderly answer m" and "\<And>a. orderly answer (f a)"
  shows "orderly answer (bind_run m f)"
proof (cases m)
  case (Pair xs r)
  show ?thesis
  proof (cases r)
    case (Inl e)
    with Pair assms(1) show ?thesis by (simp add: orderly_def bind_run_def)
  next
    case (Inr a)
    with Pair assms(1) have "\<forall>x \<in> set xs. answer x = None" by (simp add: orderly_def)
    with Pair Inr assms(2) [of a] show ?thesis
      by (cases "f a") (auto simp: orderly_def bind_run_def butlast_append split: if_splits dest: in_set_butlastD)
  qed
qed

named_theorems run_rules \<open>how a run can end well, and why it is orderly\<close>

lemmas [run_rules] = orderly_pure orderly_act orderly_bind

end
