(* ===== verification/Chart.thy ===== *)
theory Chart
  imports Pods AssertDoc GoRun
begin

section \<open>Installing, upgrading and removing the chart\<close>

text \<open>
  Model of \<open>functional_tests/internal/chart.go\<close>. Helm, kubectl, the template engine, the YAML decoder and
  the Kubernetes clients are arguments: a function is a sequence of actions on the outside, each of which the
  environment accepts or refuses, with the code's decisions in between. The actions performed are
  collected in order, so that the theorems can state what was done and in which order, also when a
  failed requirement ends the test half way.
\<close>

subsection \<open>Image overrides\<close>

definition parseCollectorImage :: "string \<Rightarrow> string \<times> string" where
  "parseCollectorImage img =
     (case last_index img (CHR '':'') of
        Some idx \<Rightarrow> (take idx img, drop (idx + 1) img)
      | None \<Rightarrow> (img, ''latest''))"

text \<open>The environment of the process: an unset variable reads as the empty string.\<close>

type_synonym proc_env = "string \<Rightarrow> string"

definition setCollectorImageOverrideEnv :: "proc_env \<Rightarrow> proc_env" where
  "setCollectorImageOverrideEnv env =
     (let img = env ''OTELCOL_IMAGE''
      in if img = [] then env
         else (case parseCollectorImage img of
                 (repo, tag) \<Rightarrow> env(''OTELCOL_IMAGE_REPO'' := repo, ''OTELCOL_IMAGE_TAG'' := tag)))"

text \<open>\<open>parse_into\<close> is \<open>strvals.ParseInto\<close>, which writes an assignment into the values.\<close>

definition applyEnvOverrides ::
  "(string \<Rightarrow> ymap \<Rightarrow> ymap result) \<Rightarrow> proc_env \<Rightarrow> ymap \<Rightarrow> (proc_env \<times> ymap) result"
where
  "applyEnvOverrides parse_into env0 values =
     (let env = setCollectorImageOverrideEnv env0;
          repo = env ''OTELCOL_IMAGE_REPO'';
          tag = env ''OTELCOL_IMAGE_TAG''
      in bind_res (if repo \<noteq> [] then parse_into (''image.otelcol.repository='' @ repo) values else Inr values)
        (\<lambda>values. bind_res (if tag \<noteq> [] then parse_into (''image.otelcol.tag='' @ tag) values else Inr values)
        (\<lambda>values. Inr (env, values))))"

subsection \<open>Values and dependencies\<close>

definition crdsInstallEnabled :: "ymap \<Rightarrow> bool" where
  "crdsInstallEnabled values =
     (case ylookup values ''operatorcrds'' of
        YMap operatorcrds \<Rightarrow> (case ylookup operatorcrds ''install'' of YBool install \<Rightarrow> install | _ \<Rightarrow> False)
      | _ \<Rightarrow> False)"

text \<open>A list element that is no map is read as the nil map, in which every key is nil.\<close>

fun dependency_version :: "string \<Rightarrow> string \<Rightarrow> yaml list \<Rightarrow> string result" where
  "dependency_version dependency file [] = Inl (''Dependency '' @ dependency @ '' not found in '' @ file)"
| "dependency_version dependency file (dep # deps) =
     (let depMap = (case dep of YMap m \<Rightarrow> m | _ \<Rightarrow> [])
      in if ylookup depMap ''name'' = YStr dependency
         then (case ylookup depMap ''version'' of
                 YStr v \<Rightarrow> Inr v
               | _ \<Rightarrow> Inl ''Dependency version not found or invalid'')
         else dependency_version dependency file deps)"

definition getDependencyVersion :: "(string \<Rightarrow> ymap result) \<Rightarrow> fs \<Rightarrow> string \<Rightarrow> string \<Rightarrow> string result" where
  "getDependencyVersion unmarshal d dependency chartPath =
     (let chartFilePath = path_join [chartPath, ''Chart.yaml'']
      in bind_res (wrap_err (''Failed to read '' @ chartFilePath) (ReadFile d chartFilePath)) (\<lambda>content.
         bind_res (wrap_err (''Failed to parse '' @ chartFilePath) (unmarshal content)) (\<lambda>chartData.
           (case ylookup chartData ''dependencies'' of
              YList dependencies \<Rightarrow> dependency_version dependency chartFilePath dependencies
            | _ \<Rightarrow> Inl (''No dependencies found in '' @ chartFilePath)))))"

subsection \<open>Actions\<close>

record ChartOptions =
  ChartNamespace :: string
  ChartReleaseName :: string
  WaitStrategy :: string
  ChartTimeout :: int
  ForceConflicts :: bool
  UpgradeFromValues :: string
  UpgradeFromChartDir :: string

datatype chart_action =
    HelmInstall string ChartOptions "(string \<times> string) list" ymap \<comment> \<open>chart, settings, release labels, values\<close>
  | HelmUpgrade string ChartOptions ymap
  | KubectlApply string string \<comment> \<open>directory, kube config\<close>
  | WaitPodsReady string string int int \<comment> \<open>namespace, selector, timeout, minimal ready time\<close>

definition DefaultNamespace :: string where
  "DefaultNamespace = ''default''"

definition DefaultChartReleaseName :: string where
  "DefaultChartReleaseName = ''sock''"

definition chartLabelKey :: string where
  "chartLabelKey = ''helm.sh/chart-name''"

definition HelmActionTimeout :: int where
  "HelmActionTimeout = 15 * 60 * 1000000000"

definition defaultChartPath :: string where
  "defaultChartPath = ''helm-charts/splunk-otel-collector''"

text \<open>The argument is Helm's \<open>kube.StatusWatcherStrategy\<close>.\<close>

definition GetDefaultChartOptions :: "string \<Rightarrow> ChartOptions" where
  "GetDefaultChartOptions statusWatcher =
     \<lparr>ChartNamespace = DefaultNamespace, ChartReleaseName = DefaultChartReleaseName,
      WaitStrategy = statusWatcher, ChartTimeout = HelmActionTimeout, ForceConflicts = False, UpgradeFromValues = [], UpgradeFromChartDir = []\<rparr>"

record chart_env =
  ce_disk :: fs
  ce_render :: "string \<Rightarrow> (string \<times> yaml) list \<Rightarrow> string result" \<comment> \<open>the template with its data, a map to \<open>any\<close>\<close>
  ce_unmarshal :: "string \<Rightarrow> ymap result"
  ce_parse_into :: "string \<Rightarrow> ymap \<Rightarrow> ymap result"
  ce_load :: "string \<Rightarrow> string option"
  ce_helm_init :: "string option"
  ce_client :: "string option"
  ce_answer :: "chart_action \<Rightarrow> string option"

text \<open>Replacements that are all strings.\<close>

definition string_values :: "(string \<times> string) list \<Rightarrow> (string \<times> yaml) list" where
  "string_values kvs = map (\<lambda>(k, s). (k, YStr s)) kvs"

definition load_chart :: "chart_env \<Rightarrow> string \<Rightarrow> string result" where
  "load_chart ce dir =
     (let chartPath = path_join [''..'', ''..'', dir]
      in case ce_load ce chartPath of Some e \<Rightarrow> Inl e | None \<Rightarrow> Inr chartPath)"

definition UpdateOperatorCRDs :: "chart_env \<Rightarrow> string \<Rightarrow> string \<Rightarrow> string \<Rightarrow> (chart_action, unit) run" where
  "UpdateOperatorCRDs ce oldChartPath newChartPath kubeConfig =
     bind_run (pure_run (getDependencyVersion (ce_unmarshal ce) (ce_disk ce) ''opentelemetry-operator-crds'' oldChartPath))
       (\<lambda>oldCrdsVer.
     bind_run (pure_run (getDependencyVersion (ce_unmarshal ce) (ce_disk ce) ''opentelemetry-operator-crds'' newChartPath))
       (\<lambda>newCrdsVer.
       if oldCrdsVer = newCrdsVer then pure_run (Inr ())
       else act_run (ce_answer ce)
         (KubectlApply (path_join [newChartPath, ''charts'', ''opentelemetry-operator-crds'', ''crds'']) kubeConfig)))"

definition load_values :: "chart_env \<Rightarrow> proc_env \<Rightarrow> string \<Rightarrow> (string \<times> yaml) list \<Rightarrow> (proc_env \<times> ymap) result" where
  "load_values ce env valuesFile replacements =
     bind_res (ReadFile (ce_disk ce) valuesFile) (\<lambda>valuesBytes.
     bind_res (ce_render ce valuesBytes replacements) (\<lambda>buf.
     bind_res (ce_unmarshal ce buf) (\<lambda>values.
       applyEnvOverrides (ce_parse_into ce) env values)))"

definition run_install :: "chart_env \<Rightarrow> ChartOptions \<Rightarrow> string \<Rightarrow> ymap \<Rightarrow> (chart_action, unit) run" where
  "run_install ce options chart values =
     act_run (ce_answer ce) (HelmInstall chart options [(chartLabelKey, DefaultChartReleaseName)] values)"

definition run_upgrade :: "chart_env \<Rightarrow> ChartOptions \<Rightarrow> string \<Rightarrow> ymap \<Rightarrow> (chart_action, unit) run" where
  "run_upgrade ce options chart values =
     act_run (ce_answer ce) (HelmUpgrade chart options values)"

definition install_base_and_upgrade ::
  "chart_env \<Rightarrow> string \<Rightarrow> string \<Rightarrow> string \<Rightarrow> string \<Rightarrow> ymap \<Rightarrow> ChartOptions \<Rightarrow> (chart_action, unit) run"
where
  "install_base_and_upgrade ce kubeConfig valuesFile upgradeFromValues oldChartDir values options =
     (let oldChartPath = path_join [''..'', ''..'', oldChartDir];
          newChartPath = path_join [''..'', ''..'', defaultChartPath];
          valuesDir = path_dir valuesFile
      in bind_run (pure_run (ReadFile (ce_disk ce) (path_join [valuesDir, upgradeFromValues]))) (\<lambda>initValuesBytes.
         bind_run (pure_run (load_chart ce oldChartDir)) (\<lambda>initChart.
         bind_run (pure_run (ce_unmarshal ce initValuesBytes)) (\<lambda>initValues.
         bind_run (run_install ce options initChart initValues) (\<lambda>_.
         bind_run (if crdsInstallEnabled values then UpdateOperatorCRDs ce oldChartPath newChartPath kubeConfig
                   else pure_run (Inr ())) (\<lambda>_.
         bind_run (pure_run (load_chart ce defaultChartPath)) (\<lambda>chart.
           run_upgrade ce options chart values)))))))"

definition ChartInstallOrUpgrade ::
  "chart_env \<Rightarrow> proc_env \<Rightarrow> string \<Rightarrow> string \<Rightarrow> (string \<times> yaml) list \<Rightarrow> int \<Rightarrow> ChartOptions \<Rightarrow> (chart_action, unit) run"
where
  "ChartInstallOrUpgrade ce env0 kubeConfig valuesFile replacements minReadyTime options =
     bind_run (pure_run (load_values ce env0 valuesFile replacements)) (\<lambda>(env, values).
     bind_run (pure_run (case ce_helm_init ce of Some e \<Rightarrow> Inl e | None \<Rightarrow> Inr ())) (\<lambda>_.
       (let upgradeFromValues =
              (if UpgradeFromValues options = [] then env ''UPGRADE_FROM_VALUES'' else UpgradeFromValues options);
            oldChartDir =
              (if UpgradeFromChartDir options = [] then env ''UPGRADE_FROM_CHART_DIR'' else UpgradeFromChartDir options)
        in bind_run
             (if upgradeFromValues \<noteq> []
              then install_base_and_upgrade ce kubeConfig valuesFile upgradeFromValues oldChartDir values options
              else bind_run (pure_run (load_chart ce defaultChartPath)) (\<lambda>chart. run_install ce options chart values))
           (\<lambda>_. bind_run (pure_run (case ce_client ce of Some e \<Rightarrow> Inl e | None \<Rightarrow> Inr ()))
           (\<lambda>_. act_run (ce_answer ce)
             (WaitPodsReady (ChartNamespace options) (''release='' @ ChartReleaseName options)
               (ChartTimeout options) minReadyTime))))))"

subsection \<open>Removing custom resources and definitions\<close>

record crd_version =
  cv_Name :: string
  cv_Served :: bool

record crd =
  crd_Group :: string
  crd_Plural :: string
  crd_Versions :: "crd_version list"

record gvr =
  gvr_Group :: string
  gvr_Version :: string
  gvr_Resource :: string

fun first_served :: "crd_version list \<Rightarrow> string option" where
  "first_served [] = None"
| "first_served (ver # vers) = (if cv_Served ver then Some (cv_Name ver) else first_served vers)"

fun served_gvrs :: "crd list \<Rightarrow> gvr list \<Rightarrow> gvr list" where
  "served_gvrs [] gvrs = gvrs"
| "served_gvrs (c # cs) gvrs =
     (if crd_Group c \<noteq> ''opentelemetry.io'' then served_gvrs cs gvrs
      else
        (case first_served (crd_Versions c) of
           Some v \<Rightarrow> served_gvrs cs (gvrs @ [\<lparr>gvr_Group = crd_Group c, gvr_Version = v, gvr_Resource = crd_Plural c\<rparr>])
         | None \<Rightarrow> served_gvrs cs gvrs))"

definition otelServedGVRs :: "crd list result \<Rightarrow> gvr list result" where
  "otelServedGVRs listing = bind_res listing (\<lambda>items. Inr (served_gvrs items []))"

text \<open>
  What the removal of a chart does to the cluster. A custom resource is named by its namespace and
  name. \<open>WaitCRsGone\<close> and \<open>WaitCRDGone\<close> are waits that end well.
\<close>

datatype removal =
    DeleteCR gvr string string
  | WaitCRsGone gvr
  | HelmUninstall string "string option" \<comment> \<open>release, and the error of the action, which is only logged\<close>
  | DeleteSecret string string
  | DeleteCRD string
  | WaitCRDGone string

text \<open>A listed release: \<open>*releasev1.Release\<close> with name and namespace, or another type, by its text.\<close>

datatype releaser = Release string string | OtherRelease string

text \<open>A deletion's answer, and what a poll for a definition sees.\<close>

datatype deletion = Deleted | NotFound | Refused string

datatype crd_get = CRDNotFound | CRDError | CRDPresent

text \<open>
  The environment: \<open>re_crds n\<close> is the answer to the \<open>n\<close>-th listing of the definitions, \<open>re_crs\<close> lists the custom
  resources, \<open>re_cr_polls\<close> and \<open>re_crd_polls\<close> are what the checks of the waits see until they give up.
\<close>

record removal_env =
  re_init :: "string option"
  re_releases :: "releaser list result"
  re_uninstall :: "string \<Rightarrow> string option"
  re_crds :: "nat \<Rightarrow> crd list result"
  re_crs :: "gvr \<Rightarrow> (string \<times> string) list result"
  re_cr_polls :: "gvr \<Rightarrow> nat result list"
  re_secret :: "string \<Rightarrow> string \<Rightarrow> deletion"
  re_delete_crd :: "string \<Rightarrow> deletion"
  re_crd_polls :: "string \<Rightarrow> crd_get list"

definition crs_check :: "nat result \<Rightarrow> unit \<Rightarrow> check \<times> unit" where
  "crs_check polled u = (case polled of Inl e \<Rightarrow> (Check False, u) | Inr n \<Rightarrow> (Check (n = 0), u))"

definition crd_check :: "crd_get \<Rightarrow> unit \<Rightarrow> check \<times> unit" where
  "crd_check got u =
     (case got of CRDNotFound \<Rightarrow> (Check True, u) | CRDError \<Rightarrow> (Check False, u) | CRDPresent \<Rightarrow> (Check False, u))"

text \<open>One wait per element, in order; the first one that times out stops the test.\<close>

fun wait_each :: "('a \<Rightarrow> bool) \<Rightarrow> ('a \<Rightarrow> 'x) \<Rightarrow> ('a \<Rightarrow> string) \<Rightarrow> 'a list \<Rightarrow> ('x, unit) run" where
  "wait_each ok act msg [] = ([], Inr ())"
| "wait_each ok act msg (x # xs) =
     (if ok x then bind_run ([act x], Inr ()) (\<lambda>_. wait_each ok act msg xs) else ([], Inl (msg x)))"

definition delete_crs_of :: "removal_env \<Rightarrow> gvr \<Rightarrow> removal list" where
  "delete_crs_of re g =
     (case re_crs re g of Inl e \<Rightarrow> [] | Inr items \<Rightarrow> map (\<lambda>(ns, name). DeleteCR g ns name) items)"

definition deleteOperatorCRs :: "removal_env \<Rightarrow> crd list result \<Rightarrow> (removal, unit) run" where
  "deleteOperatorCRs re listing =
     (case otelServedGVRs listing of
        Inl e \<Rightarrow> ([], Inr ())
      | Inr gvrs \<Rightarrow>
          if length gvrs = 0 then ([], Inr ())
          else bind_run (concat (map (delete_crs_of re) gvrs), Inr ()) (\<lambda>_.
            wait_each (\<lambda>g. eventually_checks crs_check (re_cr_polls re g) ()) WaitCRsGone
              (\<lambda>g. ''CRs for '' @ gvr_Resource g @ '' were not removed in time'') gvrs))"

definition crd_name :: "gvr \<Rightarrow> string" where
  "crd_name g = gvr_Resource g @ ''.'' @ gvr_Group g"

definition deleteOperatorCRDs :: "removal_env \<Rightarrow> crd list result \<Rightarrow> (removal, unit) run" where
  "deleteOperatorCRDs re listing =
     (case otelServedGVRs listing of
        Inl e \<Rightarrow> ([], Inr ())
      | Inr gvrs \<Rightarrow>
          if length gvrs = 0 then ([], Inr ())
          else
            (let names = map crd_name gvrs;
                 deleted = filter (\<lambda>n. re_delete_crd re n = Deleted) names
             in bind_run (map DeleteCRD names, Inr ()) (\<lambda>_.
               wait_each (\<lambda>n. eventually_checks crd_check (re_crd_polls re n) ()) WaitCRDGone
                 (\<lambda>n. ''CRD '' @ n @ '' was not removed in time'') deleted)))"

definition secret_name :: "string \<Rightarrow> string" where
  "secret_name releaseName = releaseName @ ''-operator-controller-manager-service-cert''"

definition deleteCertSecret :: "removal_env \<Rightarrow> string \<Rightarrow> string \<Rightarrow> (removal, unit) run" where
  "deleteCertSecret re releaseName namespace =
     ([DeleteSecret (secret_name releaseName) namespace],
      case re_secret re (secret_name releaseName) namespace of
        NotFound \<Rightarrow> Inr ()
      | Refused e \<Rightarrow> Inl e
      | Deleted \<Rightarrow> Inr ())"

text \<open>An error of the uninstall action itself is only logged; a release of another type fails the test.\<close>

fun uninstall_releases :: "removal_env \<Rightarrow> releaser list \<Rightarrow> (removal, unit) run" where
  "uninstall_releases re [] = ([], Inr ())"
| "uninstall_releases re (Release name namespace # rels) =
     bind_run ([HelmUninstall name (re_uninstall re name)], Inr ()) (\<lambda>_.
     bind_run (deleteCertSecret re name namespace) (\<lambda>_. uninstall_releases re rels))"
| "uninstall_releases re (OtherRelease goType # rels) = ([], Inl (''expected *releasev1.Release, got '' @ goType))"

definition ChartUninstall :: "removal_env \<Rightarrow> (removal, unit) run" where
  "ChartUninstall re =
     (case re_init re of
        Some e \<Rightarrow> ([], Inl e)
      | None \<Rightarrow>
          bind_run (pure_run (re_releases re)) (\<lambda>releases.
          bind_run (deleteOperatorCRs re (re_crds re 0)) (\<lambda>_.
            if length releases = 0
            then bind_run (deleteCertSecret re DefaultChartReleaseName DefaultNamespace) (\<lambda>_.
              deleteOperatorCRDs re (re_crds re 1))
            else bind_run (uninstall_releases re releases) (\<lambda>_.
              deleteOperatorCRDs re (re_crds re 2)))))"

section \<open>Order of the installation\<close>

lemma orderly_chart: "orderly (ce_answer ce) (ChartInstallOrUpgrade ce env0 kubeConfig valuesFile replacements minReadyTime options)"
  unfolding ChartInstallOrUpgrade_def install_base_and_upgrade_def UpdateOperatorCRDs_def run_install_def run_upgrade_def Let_def
  by (auto intro!: run_rules split: prod.split)

section \<open>Installing\<close>

text \<open>
  The collector image override keeps the image: the repository and tag put into the values render back
  to the very reference that was given, with the tag \<open>latest\<close> added when it has no colon, and
  the tag has no colon.
\<close>

theorem parseCollectorImage_rejoin:
  "case parseCollectorImage img of (repo, tag) \<Rightarrow>
     repo @ '':'' @ tag = (if CHR '':'' \<in> set img then img else img @ '':latest'') \<and> CHR '':'' \<notin> set tag"
proof (cases "last_index img (CHR '':'')")
  case None
  then have "CHR '':'' \<notin> set img" using last_index_None by blast
  then show ?thesis unfolding parseCollectorImage_def None by simp
next
  case (Some i)
  then have i: "i < length img" "img ! i = CHR '':''" "CHR '':'' \<notin> set (drop (Suc i) img)"
    by (simp_all add: last_index_Some)
  then have "img = take i img @ CHR '':'' # drop (Suc i) img" by (metis id_take_nth_drop)
  moreover have "CHR '':'' \<in> set img" using i by (metis nth_mem)
  ultimately show ?thesis using Some i(3) by (simp add: parseCollectorImage_def)
qed

text \<open>A registry port is taken for a tag: no tag is added to this reference, and the tag is not one.\<close>

lemma parseCollectorImage_port: "parseCollectorImage ''localhost:5000/otelcol'' = (''localhost'', ''5000/otelcol'')"
  by code_simp

text \<open>
  After a failed action the installer does nothing more: in the sequence of Helm, kubectl and waiting
  actions that \<open>ChartInstallOrUpgrade\<close> performs, every action but the last was accepted, and when the test
  goes on all of them were.
\<close>

theorem ChartInstallOrUpgrade_orderly:
  "ChartInstallOrUpgrade ce env0 kubeConfig valuesFile replacements minReadyTime options = (tr, r) \<Longrightarrow>
     (\<forall>x \<in> set (butlast tr). ce_answer ce x = None) \<and> (r = Inr () \<longrightarrow> (\<forall>x \<in> set tr. ce_answer ce x = None))"
  using orderly_chart [of ce env0 kubeConfig valuesFile replacements minReadyTime options]
  by (auto simp: orderly_def)

text \<open>What an upgrade test does before the wait, and its base release.\<close>

definition crd_actions :: "chart_env \<Rightarrow> string \<Rightarrow> string \<Rightarrow> chart_action list" where
  "crd_actions ce kubeConfig oldChartDir =
     (let version = getDependencyVersion (ce_unmarshal ce) (ce_disk ce) ''opentelemetry-operator-crds''
      in if version (path_join [''..'', ''..'', oldChartDir]) = version (path_join [''..'', ''..'', defaultChartPath])
         then []
         else [KubectlApply (path_join [path_join [''..'', ''..'', defaultChartPath], ''charts'', ''opentelemetry-operator-crds'', ''crds''])
                 kubeConfig])"

lemma UpdateOperatorCRDs_done:
  "UpdateOperatorCRDs ce (path_join [''..'', ''..'', old]) (path_join [''..'', ''..'', defaultChartPath]) kubeConfig = (tr, Inr u) \<Longrightarrow>
     tr = crd_actions ce kubeConfig old"
  by (auto simp: UpdateOperatorCRDs_def crd_actions_def bind_run_Inr pure_run_Inr act_run_Inr Let_def split: if_splits)

lemma upgrade_done:
  assumes "install_base_and_upgrade ce kubeConfig valuesFile from oldChartDir values options = (tr, Inr ())"
  shows "\<exists>initChart content initValues chart. load_chart ce oldChartDir = Inr initChart \<and> load_chart ce defaultChartPath = Inr chart \<and>
    ReadFile (ce_disk ce) (path_join [path_dir valuesFile, from]) = Inr content \<and> ce_unmarshal ce content = Inr initValues \<and>
    tr = HelmInstall initChart options [(chartLabelKey, DefaultChartReleaseName)] initValues #
      (if crdsInstallEnabled values then crd_actions ce kubeConfig oldChartDir else []) @ [HelmUpgrade chart options values]"
  using assms
  by (auto simp: install_base_and_upgrade_def Let_def bind_run_Inr pure_run_Inr run_install_def run_upgrade_def act_run_Inr
      dest!: UpdateOperatorCRDs_done split: if_splits)

lemma plain_install_done:
  assumes "ChartInstallOrUpgrade ce env0 kubeConfig valuesFile replacements minReadyTime options = (tr, Inr ())"
    and "load_values ce env0 valuesFile replacements = Inr (env, vals)"
    and "(if UpgradeFromValues options = [] then env ''UPGRADE_FROM_VALUES'' else UpgradeFromValues options) = []"
  shows "\<exists>chart. load_chart ce defaultChartPath = Inr chart \<and>
    tr = [HelmInstall chart options [(chartLabelKey, DefaultChartReleaseName)] vals,
      WaitPodsReady (ChartNamespace options) (''release='' @ ChartReleaseName options) (ChartTimeout options) minReadyTime]"
  using assms
  by (auto simp: ChartInstallOrUpgrade_def Let_def bind_run_Inr pure_run_Inr act_run_Inr run_install_def split: if_splits)

text \<open>
  C6: when \<open>ChartInstallOrUpgrade\<close> succeeds it has done exactly this, in this order: a plain install
  of the chart under test with the rendered and overridden values; or, if a base release is named by the options or the
  environment, an install of the base chart with the values of the named file next to the values file, as they are, the new
  definitions if the values enable them and their version differs, and the upgrade to the chart under test with the rendered values.
  Then it has waited for the pods of the release.
\<close>

theorem ChartInstallOrUpgrade_plan:
  assumes "ChartInstallOrUpgrade ce env0 kubeConfig valuesFile replacements minReadyTime options = (tr, Inr ())"
  shows "\<exists>env values chart. load_values ce env0 valuesFile replacements = Inr (env, values) \<and>
    load_chart ce defaultChartPath = Inr chart \<and>
    (let labels = [(chartLabelKey, DefaultChartReleaseName)];
         base = (if UpgradeFromValues options = [] then env ''UPGRADE_FROM_VALUES'' else UpgradeFromValues options);
         dir = (if UpgradeFromChartDir options = [] then env ''UPGRADE_FROM_CHART_DIR'' else UpgradeFromChartDir options);
         wait = WaitPodsReady (ChartNamespace options) (''release='' @ ChartReleaseName options) (ChartTimeout options) minReadyTime
     in if base = [] then tr = [HelmInstall chart options labels values, wait]
        else \<exists>initChart content initValues. load_chart ce dir = Inr initChart \<and>
          ReadFile (ce_disk ce) (path_join [path_dir valuesFile, base]) = Inr content \<and> ce_unmarshal ce content = Inr initValues \<and>
          tr = HelmInstall initChart options labels initValues #
            (if crdsInstallEnabled values then crd_actions ce kubeConfig dir else []) @
            [HelmUpgrade chart options values, wait])"
proof -
  let ?base = "\<lambda>env. if UpgradeFromValues options = [] then env ''UPGRADE_FROM_VALUES'' else UpgradeFromValues options"
  let ?dir = "\<lambda>env. if UpgradeFromChartDir options = [] then env ''UPGRADE_FROM_CHART_DIR'' else UpgradeFromChartDir options"
  let ?wait = "WaitPodsReady (ChartNamespace options) (''release='' @ ChartReleaseName options) (ChartTimeout options) minReadyTime"
  from assms obtain env vals xs where v: "load_values ce env0 valuesFile replacements = Inr (env, vals)"
    and m: "(if ?base env \<noteq> []
        then install_base_and_upgrade ce kubeConfig valuesFile (?base env) (?dir env) vals options
        else bind_run (pure_run (load_chart ce defaultChartPath)) (\<lambda>chart. run_install ce options chart vals)) = (xs, Inr ())"
    and tr: "tr = xs @ [?wait]"
    by (auto simp: ChartInstallOrUpgrade_def Let_def bind_run_Inr pure_run_Inr act_run_Inr split: prod.splits)
  show ?thesis
  proof (cases "?base env = []")
    case True
    with m obtain chart where "load_chart ce defaultChartPath = Inr chart"
      "xs = [HelmInstall chart options [(chartLabelKey, DefaultChartReleaseName)] vals]"
      by (auto simp: bind_run_Inr pure_run_Inr run_install_def act_run_Inr)
    with v tr True show ?thesis by (intro exI [of _ env] exI [of _ vals] exI [of _ chart]) (simp add: Let_def)
  next
    case False
    with m have "install_base_and_upgrade ce kubeConfig valuesFile (?base env) (?dir env) vals options = (xs, Inr ())"
      by (simp only: if_True not_False_eq_True)
    from upgrade_done [OF this] obtain initChart content initValues chart where
      "load_chart ce (?dir env) = Inr initChart" "load_chart ce defaultChartPath = Inr chart"
      "ReadFile (ce_disk ce) (path_join [path_dir valuesFile, ?base env]) = Inr content" "ce_unmarshal ce content = Inr initValues"
      "xs = HelmInstall initChart options [(chartLabelKey, DefaultChartReleaseName)] initValues #
        (if crdsInstallEnabled vals then crd_actions ce kubeConfig (?dir env) else []) @ [HelmUpgrade chart options vals]"
      by blast
    with v tr False show ?thesis
      unfolding Let_def by (intro exI [of _ env] exI [of _ vals] exI [of _ chart]) simp
  qed
qed

section \<open>Removing\<close>

lemma first_served_find: "first_served vers = map_option cv_Name (List.find cv_Served vers)"
  by (induction vers) auto

definition otel_gvr :: "crd \<Rightarrow> gvr option" where
  "otel_gvr c =
     (if crd_Group c = ''opentelemetry.io''
      then map_option (\<lambda>v. \<lparr>gvr_Group = crd_Group c, gvr_Version = cv_Name v, gvr_Resource = crd_Plural c\<rparr>)
        (List.find cv_Served (crd_Versions c))
      else None)"

lemma served_gvrs_filter: "served_gvrs cs acc = acc @ List.map_filter otel_gvr cs"
  by (induction cs arbitrary: acc) (auto simp: otel_gvr_def first_served_find List.map_filter_simps split: option.split)

text \<open>
  The resources of the operator are those of the definitions in its group that serve some version, each
  with the first version it serves, in the order of the listing; no other definition is touched.
\<close>

theorem otelServedGVRs_first_served:
  "otelServedGVRs (Inr crds) = Inr (List.map_filter otel_gvr crds)"
  by (simp add: otelServedGVRs_def served_gvrs_filter)

text \<open>The phase of a removal: resources, then their waits, then releases, then definitions.\<close>

fun phase :: "removal \<Rightarrow> nat" where
  "phase (DeleteCR g ns name) = 0"
| "phase (WaitCRsGone g) = 1"
| "phase (HelmUninstall name e) = 2"
| "phase (DeleteSecret name ns) = 2"
| "phase (DeleteCRD name) = 3"
| "phase (WaitCRDGone name) = 4"

definition in_phases :: "nat set \<Rightarrow> (removal, 'a) run \<Rightarrow> bool" where
  "in_phases P m \<longleftrightarrow> sorted (map phase (fst m)) \<and> phase ` set (fst m) \<subseteq> P"

lemma in_phases_bind:
  assumes "in_phases P m" and "\<And>a. in_phases Q (f a)" and "\<forall>p \<in> P. \<forall>q \<in> Q. p \<le> q"
  shows "in_phases (P \<union> Q) (bind_run m f)"
proof (cases m)
  case (Pair xs r)
  show ?thesis
  proof (cases r)
    case (Inl e)
    with Pair assms(1) show ?thesis by (auto simp: in_phases_def bind_run_def)
  next
    case (Inr a)
    obtain ys r' where f: "f a = (ys, r')" by (cases "f a")
    with Pair Inr assms(1) assms(2) [of a] have "sorted (map phase xs)" "sorted (map phase ys)"
      "phase ` set xs \<subseteq> P" "phase ` set ys \<subseteq> Q" by (auto simp: in_phases_def)
    moreover from this(3,4) have "\<forall>x \<in> set xs. \<forall>y \<in> set ys. phase x \<le> phase y"
      using assms(3) by (simp add: image_subset_iff)
    ultimately show ?thesis using Pair Inr f by (auto simp: in_phases_def bind_run_def sorted_append)
  qed
qed

lemma in_phases_mono: "in_phases P m \<Longrightarrow> P \<subseteq> Q \<Longrightarrow> in_phases Q m"
  by (auto simp: in_phases_def)

lemma in_phases_const: "\<forall>x \<in> set xs. phase x = n \<Longrightarrow> in_phases {n} (xs, r)"
proof -
  assume "\<forall>x \<in> set xs. phase x = n"
  then have "map phase xs = replicate (length xs) n" by (induction xs) auto
  with \<open>\<forall>x \<in> set xs. phase x = n\<close> show ?thesis by (auto simp: in_phases_def)
qed

lemma wait_each_trace:
  "\<exists>ys zs. xs = ys @ zs \<and> fst (wait_each ok act msg xs) = map act ys \<and> (\<forall>y \<in> set ys. ok y) \<and>
     (\<forall>u. snd (wait_each ok act msg xs) = Inr u \<longrightarrow> zs = [])"
proof (induction xs)
  case (Cons x xs)
  show ?case
  proof (cases "ok x")
    case True
    from Cons obtain ys zs where "xs = ys @ zs" "fst (wait_each ok act msg xs) = map act ys" "\<forall>y \<in> set ys. ok y"
      "\<forall>u. snd (wait_each ok act msg xs) = Inr u \<longrightarrow> zs = []" by blast
    with True show ?thesis
      by (intro exI [of _ "x # ys"] exI [of _ zs]) (auto simp: bind_run_def split: prod.splits)
  next
    case False
    then show ?thesis by (intro exI [of _ "[]"] exI [of _ "x # xs"]) auto
  qed
qed auto

lemma in_phases_wait_each: "(\<And>x. phase (act x) = n) \<Longrightarrow> in_phases {n} (wait_each ok act msg xs)"
proof -
  assume p: "\<And>x. phase (act x) = n"
  from wait_each_trace [of xs ok act msg] obtain ys where "fst (wait_each ok act msg xs) = map act ys" by blast
  then show ?thesis using in_phases_const [of "map act ys" n "snd (wait_each ok act msg xs)"] p
    by (metis (no_types, lifting) imageE list.set_map prod.collapse)
qed

lemma in_phases_CRs: "in_phases {0, 1} (deleteOperatorCRs re listing)"
proof -
  have "in_phases {0} (concat (map (delete_crs_of re) gvrs), Inr () :: unit result)" for gvrs
    by (rule in_phases_const) (auto simp: delete_crs_of_def split: sum.splits)
  then have "in_phases ({0} \<union> {1}) (bind_run (concat (map (delete_crs_of re) gvrs), Inr ()) (\<lambda>_ :: unit.
      wait_each ok WaitCRsGone msg gvrs))" for gvrs ok msg
    by (rule in_phases_bind) (auto intro: in_phases_wait_each)
  then have "in_phases {0, 1} (bind_run (concat (map (delete_crs_of re) gvrs), Inr ()) (\<lambda>_ :: unit.
      wait_each ok WaitCRsGone msg gvrs))" for gvrs ok msg by (simp add: insert_commute)
  moreover have "in_phases {0, 1} ([], Inr () :: unit result)" by (simp add: in_phases_def)
  ultimately show ?thesis unfolding deleteOperatorCRs_def by (simp split: sum.split)
qed

lemma in_phases_CRDs: "in_phases {3, 4} (deleteOperatorCRDs re listing)"
proof -
  have "in_phases {3} (map DeleteCRD names, Inr () :: unit result)" for names
    by (rule in_phases_const) auto
  then have "in_phases ({3} \<union> {4}) (bind_run (map DeleteCRD names, Inr ()) (\<lambda>_ :: unit.
      wait_each ok WaitCRDGone msg ns))" for names ok msg ns
    by (rule in_phases_bind) (auto intro: in_phases_wait_each)
  then have "in_phases {3, 4} (bind_run (map DeleteCRD names, Inr ()) (\<lambda>_ :: unit.
      wait_each ok WaitCRDGone msg ns))" for names ok msg ns by (simp add: insert_commute)
  moreover have "in_phases {3, 4} ([], Inr () :: unit result)" by (simp add: in_phases_def)
  ultimately show ?thesis unfolding deleteOperatorCRDs_def Let_def by (simp del: map_map split: sum.split)
qed

lemma in_phases_secret: "in_phases {2} (deleteCertSecret re name ns)"
  unfolding deleteCertSecret_def by (rule in_phases_const) simp

lemma in_phases_releases: "in_phases {2} (uninstall_releases re rels)"
proof (induction rels)
  case (Cons rel rels)
  show ?case
  proof (cases rel)
    case (Release name ns)
    have "in_phases ({2} \<union> {2}) (bind_run (deleteCertSecret re name ns) (\<lambda>_. uninstall_releases re rels))"
      by (rule in_phases_bind [OF in_phases_secret Cons]) simp
    then have i: "in_phases {2} (bind_run (deleteCertSecret re name ns) (\<lambda>_. uninstall_releases re rels))" by simp
    have "in_phases ({2} \<union> {2}) (bind_run ([HelmUninstall name (re_uninstall re name)], Inr ()) (\<lambda>_ :: unit.
        bind_run (deleteCertSecret re name ns) (\<lambda>_. uninstall_releases re rels)))"
      by (rule in_phases_bind [OF _ i]) (auto intro: in_phases_const)
    with Release show ?thesis by simp
  qed (simp add: in_phases_def)
qed (simp add: in_phases_def)

lemma wait_each_Inr: "wait_each ok act msg xs = (tr, Inr u) \<longleftrightarrow> tr = map act xs \<and> (\<forall>x \<in> set xs. ok x)"
  by (induction xs arbitrary: tr) (auto simp: bind_run_Inr)

subsection \<open>When a removal succeeds\<close>

text \<open>
  The types of the operator that a listing of the definitions shows: each with the first version it serves. Nothing is
  served by a listing that failed.
\<close>

definition served :: "crd list result \<Rightarrow> gvr set" where
  "served listing =
     (case listing of
        Inl e \<Rightarrow> {}
      | Inr crds \<Rightarrow>
          {g. \<exists>c \<in> set crds. crd_Group c = ''opentelemetry.io'' \<and>
             (\<exists>xs ver ys. crd_Versions c = xs @ ver # ys \<and> list_all (\<lambda>w. \<not> cv_Served w) xs \<and> cv_Served ver \<and>
               g = \<lparr>gvr_Group = crd_Group c, gvr_Version = cv_Name ver, gvr_Resource = crd_Plural c\<rparr>)})"

text \<open>The releases whose certificate secrets are removed: those listed, or the default one if there is none.\<close>

definition secret_owners :: "releaser list \<Rightarrow> (string \<times> string) set" where
  "secret_owners releases =
     (if releases = [] then {(''sock'', ''default'')} else {(name, ns). Release name ns \<in> set releases})"

lemma find_split: "List.find P xs = Some x \<longleftrightarrow> (\<exists>as bs. xs = as @ x # bs \<and> list_all (\<lambda>y. \<not> P y) as \<and> P x)"
proof
  show "List.find P xs = Some x \<Longrightarrow> \<exists>as bs. xs = as @ x # bs \<and> list_all (\<lambda>y. \<not> P y) as \<and> P x"
  proof (induction xs)
    case (Cons y ys)
    show ?case
    proof (cases "P y")
      case True
      with Cons.prems show ?thesis by (intro exI [of _ "[]"] exI [of _ ys]) simp
    next
      case False
      with Cons obtain as bs where "ys = as @ x # bs" "list_all (\<lambda>y. \<not> P y) as" "P x" by auto
      with False show ?thesis by (intro exI [of _ "y # as"] exI [of _ bs]) simp
    qed
  qed simp
next
  assume "\<exists>as bs. xs = as @ x # bs \<and> list_all (\<lambda>y. \<not> P y) as \<and> P x"
  then obtain as bs where xs: "xs = as @ x # bs" and none: "list_all (\<lambda>y. \<not> P y) as" "P x" by blast
  from none show "List.find P xs = Some x" unfolding xs by (induction as) auto
qed

lemma wait_each_done:
  "snd (wait_each ok act msg xs) = Inr () \<longleftrightarrow> (\<forall>x \<in> set xs. ok x)"
  "snd (wait_each ok act msg xs) = Inr () \<Longrightarrow> fst (wait_each ok act msg xs) = map act xs"
  using wait_each_Inr [of ok act msg xs "fst (wait_each ok act msg xs)" "()"]
    wait_each_Inr [of ok act msg xs "map act xs" "()"] by (cases "wait_each ok act msg xs"; auto)+

lemma otel_gvr_Some:
  "otel_gvr c = Some g \<longleftrightarrow> crd_Group c = ''opentelemetry.io'' \<and>
     (\<exists>xs ver ys. crd_Versions c = xs @ ver # ys \<and> list_all (\<lambda>w. \<not> cv_Served w) xs \<and> cv_Served ver \<and>
       g = \<lparr>gvr_Group = crd_Group c, gvr_Version = cv_Name ver, gvr_Resource = crd_Plural c\<rparr>)"
  by (auto simp: otel_gvr_def find_split)

lemma served_gvrs_set: "otelServedGVRs listing = Inr gvrs \<Longrightarrow> set gvrs = served listing"
proof -
  assume "otelServedGVRs listing = Inr gvrs"
  then obtain crds where "listing = Inr crds" "gvrs = List.map_filter otel_gvr crds"
    by (cases listing) (auto simp: otelServedGVRs_def served_gvrs_filter)
  moreover have "set (List.map_filter otel_gvr crds) = {g. \<exists>c \<in> set crds. otel_gvr c = Some g}"
    by (force simp: List.map_filter_def)
  ultimately show ?thesis by (auto simp: served_def otel_gvr_Some)
qed

lemma otelServedGVRs_Inl: "otelServedGVRs listing = Inl e \<Longrightarrow> served listing = {}"
  by (cases listing) (simp_all add: otelServedGVRs_def served_def)

lemma crs_gone_iff: "eventually_checks crs_check polls () \<longleftrightarrow> Inr 0 \<in> set polls"
  by (induction polls) (auto simp: crs_check_def split: sum.splits bool.splits)

lemma crd_gone_iff: "eventually_checks crd_check polls () \<longleftrightarrow> CRDNotFound \<in> set polls"
  by (induction polls) (auto simp: crd_check_def split: crd_get.splits)

text \<open>The steps of a removal that ends well, each with what it has done.\<close>

lemma deleteOperatorCRs_done:
  "snd (deleteOperatorCRs re listing) = Inr () \<longleftrightarrow> (\<forall>g \<in> served listing. Inr 0 \<in> set (re_cr_polls re g))"
  "snd (deleteOperatorCRs re listing) = Inr () \<Longrightarrow>
     set (fst (deleteOperatorCRs re listing)) =
       {DeleteCR g ns name | g ns name. g \<in> served listing \<and> (\<exists>items. re_crs re g = Inr items \<and> (ns, name) \<in> set items)} \<union>
       WaitCRsGone ` served listing"
proof -
  consider (failed) e where "otelServedGVRs listing = Inl e" | (listed) gvrs where "otelServedGVRs listing = Inr gvrs"
    by (cases "otelServedGVRs listing")
  then have "(snd (deleteOperatorCRs re listing) = Inr () \<longleftrightarrow> (\<forall>g \<in> served listing. Inr 0 \<in> set (re_cr_polls re g))) \<and>
    (snd (deleteOperatorCRs re listing) = Inr () \<longrightarrow>
     set (fst (deleteOperatorCRs re listing)) =
       {DeleteCR g ns name | g ns name. g \<in> served listing \<and> (\<exists>items. re_crs re g = Inr items \<and> (ns, name) \<in> set items)} \<union>
       WaitCRsGone ` served listing)"
  proof cases
    case failed
    then show ?thesis using otelServedGVRs_Inl [OF failed] by (simp add: deleteOperatorCRs_def)
  next
    case listed
    let ?wait = "wait_each (\<lambda>g. eventually_checks crs_check (re_cr_polls re g) ()) WaitCRsGone
              (\<lambda>g. ''CRs for '' @ gvr_Resource g @ '' were not removed in time'') gvrs"
    have run: "deleteOperatorCRs re listing = (concat (map (delete_crs_of re) gvrs) @ fst ?wait, snd ?wait)"
      using listed by (cases "gvrs = []") (auto simp: deleteOperatorCRs_def bind_run_def split: prod.split)
    have ok: "snd ?wait = Inr () \<longleftrightarrow> (\<forall>g \<in> set gvrs. Inr 0 \<in> set (re_cr_polls re g))"
      by (simp add: wait_each_done crs_gone_iff)
    have waits: "fst ?wait = map WaitCRsGone gvrs" if "snd ?wait = Inr ()"
      using that by (rule wait_each_done(2))
    have deletes: "set (concat (map (delete_crs_of re) gvrs)) =
        {DeleteCR g ns name | g ns name. g \<in> set gvrs \<and> (\<exists>items. re_crs re g = Inr items \<and> (ns, name) \<in> set items)}"
      by (force simp: delete_crs_of_def split: sum.splits)
    show ?thesis unfolding run fst_conv snd_conv set_append deletes ok served_gvrs_set [OF listed, symmetric]
      using waits ok by simp
  qed
  then show "snd (deleteOperatorCRs re listing) = Inr () \<longleftrightarrow> (\<forall>g \<in> served listing. Inr 0 \<in> set (re_cr_polls re g))"
    "snd (deleteOperatorCRs re listing) = Inr () \<Longrightarrow>
     set (fst (deleteOperatorCRs re listing)) =
       {DeleteCR g ns name | g ns name. g \<in> served listing \<and> (\<exists>items. re_crs re g = Inr items \<and> (ns, name) \<in> set items)} \<union>
       WaitCRsGone ` served listing" by blast+
qed

lemma deleteOperatorCRDs_done:
  "snd (deleteOperatorCRDs re listing) = Inr () \<longleftrightarrow>
     (\<forall>g \<in> served listing. re_delete_crd re (crd_name g) = Deleted \<longrightarrow> CRDNotFound \<in> set (re_crd_polls re (crd_name g)))"
  "snd (deleteOperatorCRDs re listing) = Inr () \<Longrightarrow>
     set (fst (deleteOperatorCRDs re listing)) =
       (DeleteCRD \<circ> crd_name) ` served listing \<union> (WaitCRDGone \<circ> crd_name) ` {g \<in> served listing. re_delete_crd re (crd_name g) = Deleted}"
proof -
  consider (failed) e where "otelServedGVRs listing = Inl e" | (listed) gvrs where "otelServedGVRs listing = Inr gvrs"
    by (cases "otelServedGVRs listing")
  then have "(snd (deleteOperatorCRDs re listing) = Inr () \<longleftrightarrow>
      (\<forall>g \<in> served listing. re_delete_crd re (crd_name g) = Deleted \<longrightarrow> CRDNotFound \<in> set (re_crd_polls re (crd_name g)))) \<and>
    (snd (deleteOperatorCRDs re listing) = Inr () \<longrightarrow>
     set (fst (deleteOperatorCRDs re listing)) =
       (DeleteCRD \<circ> crd_name) ` served listing \<union> (WaitCRDGone \<circ> crd_name) ` {g \<in> served listing. re_delete_crd re (crd_name g) = Deleted})"
  proof cases
    case failed
    then show ?thesis using otelServedGVRs_Inl [OF failed] by (simp add: deleteOperatorCRDs_def)
  next
    case listed
    let ?names = "map crd_name gvrs"
    let ?deleted = "filter (\<lambda>n. re_delete_crd re n = Deleted) ?names"
    let ?wait = "wait_each (\<lambda>n. eventually_checks crd_check (re_crd_polls re n) ()) WaitCRDGone
                 (\<lambda>n. ''CRD '' @ n @ '' was not removed in time'') ?deleted"
    have run: "deleteOperatorCRDs re listing = (map DeleteCRD ?names @ fst ?wait, snd ?wait)"
      using listed by (cases "gvrs = []") (auto simp: deleteOperatorCRDs_def bind_run_def Let_def split: prod.split)
    have ok: "snd ?wait = Inr () \<longleftrightarrow> (\<forall>n \<in> set ?deleted. CRDNotFound \<in> set (re_crd_polls re n))"
      by (simp only: wait_each_done crd_gone_iff)
    have waits: "fst ?wait = map WaitCRDGone ?deleted" if "snd ?wait = Inr ()"
      using that by (rule wait_each_done(2))
    show ?thesis unfolding run fst_conv snd_conv set_append ok served_gvrs_set [OF listed, symmetric]
      using waits ok by auto
  qed
  then show "snd (deleteOperatorCRDs re listing) = Inr () \<longleftrightarrow>
     (\<forall>g \<in> served listing. re_delete_crd re (crd_name g) = Deleted \<longrightarrow> CRDNotFound \<in> set (re_crd_polls re (crd_name g)))"
    "snd (deleteOperatorCRDs re listing) = Inr () \<Longrightarrow>
     set (fst (deleteOperatorCRDs re listing)) =
       (DeleteCRD \<circ> crd_name) ` served listing \<union> (WaitCRDGone \<circ> crd_name) ` {g \<in> served listing. re_delete_crd re (crd_name g) = Deleted}"
    by blast+
qed

lemma deleteCertSecret_simps:
  "fst (deleteCertSecret re name ns) = [DeleteSecret (secret_name name) ns]"
  "snd (deleteCertSecret re name ns) = Inr () \<longleftrightarrow> (\<forall>e. re_secret re (secret_name name) ns \<noteq> Refused e)"
  by (auto simp: deleteCertSecret_def split: deletion.split)

lemma uninstall_releases_done:
  "snd (uninstall_releases re rels) = Inr () \<longleftrightarrow>
     (\<forall>rel \<in> set rels. \<exists>name ns. rel = Release name ns \<and> (\<forall>e. re_secret re (secret_name name) ns \<noteq> Refused e))"
  "snd (uninstall_releases re rels) = Inr () \<Longrightarrow>
     set (fst (uninstall_releases re rels)) =
       {HelmUninstall name (re_uninstall re name) | name. \<exists>ns. Release name ns \<in> set rels} \<union>
       {DeleteSecret (secret_name name) ns | name ns. Release name ns \<in> set rels}"
proof (induction rels)
  case (Cons rel rels)
  have step: "uninstall_releases re (Release name ns # rels) =
      (HelmUninstall name (re_uninstall re name) # DeleteSecret (secret_name name) ns #
         (if snd (deleteCertSecret re name ns) = Inr () then fst (uninstall_releases re rels) else []),
       if snd (deleteCertSecret re name ns) = Inr () then snd (uninstall_releases re rels) else snd (deleteCertSecret re name ns))" for name ns
    by (auto simp: bind_run_def deleteCertSecret_def split: prod.split deletion.split)
  { case 1 show ?case using Cons.IH(1) deleteCertSecret_simps(2) by (cases rel) (auto simp: step simp del: uninstall_releases.simps(2)) }
  { case 2 then show ?case using Cons.IH deleteCertSecret_simps(2)
      by (cases rel) (auto simp: step simp del: uninstall_releases.simps(2) split: if_splits) }
qed simp_all

text \<open>
  C23: a removal succeeds exactly when Helm can be used and lists the releases, all of them of the expected type; for
  each type of the operator that was served at the start, a poll has seen no custom resource of it; no certificate secret of a listed
  release (of the default one, if there is none) refused its deletion; and each definition found at the end, if its deletion was
  accepted, has been polled until it was gone. What a successful removal has done is exactly this: it asked for the
  deletion of every listed custom resource and waited for each type, uninstalled every listed release, whether Helm
  reported an error or not, deleted the secrets, asked for the deletion of every definition found at the end, and waited
  for those that were accepted.
\<close>

theorem ChartUninstall_succeeds:
  "(snd (ChartUninstall re) = Inr () \<longleftrightarrow>
     re_init re = None \<and>
     (\<exists>releases. re_releases re = Inr releases \<and> list_all (\<lambda>rel. \<exists>name ns. rel = Release name ns) releases \<and>
        (\<forall>g \<in> served (re_crds re 0). Inr 0 \<in> set (re_cr_polls re g)) \<and>
        (\<forall>(name, ns) \<in> secret_owners releases. \<forall>e. re_secret re (name @ ''-operator-controller-manager-service-cert'') ns \<noteq> Refused e) \<and>
        (\<forall>g \<in> served (re_crds re (if releases = [] then 1 else 2)).
           re_delete_crd re (gvr_Resource g @ ''.'' @ gvr_Group g) = Deleted \<longrightarrow>
           CRDNotFound \<in> set (re_crd_polls re (gvr_Resource g @ ''.'' @ gvr_Group g))))) \<and>
   (\<forall>releases x. snd (ChartUninstall re) = Inr () \<and> re_releases re = Inr releases \<longrightarrow>
     (x \<in> set (fst (ChartUninstall re)) \<longleftrightarrow>
      (let defined = (\<lambda>g. gvr_Resource g @ ''.'' @ gvr_Group g) ` served (re_crds re (if releases = [] then 1 else 2))
       in case x of
            DeleteCR g ns name \<Rightarrow> g \<in> served (re_crds re 0) \<and> (\<exists>items. re_crs re g = Inr items \<and> (ns, name) \<in> set items)
          | WaitCRsGone g \<Rightarrow> g \<in> served (re_crds re 0)
          | HelmUninstall name e \<Rightarrow> (\<exists>ns. Release name ns \<in> set releases) \<and> e = re_uninstall re name
          | DeleteSecret s ns \<Rightarrow> (\<exists>name. (name, ns) \<in> secret_owners releases \<and> s = name @ ''-operator-controller-manager-service-cert'')
          | DeleteCRD n \<Rightarrow> n \<in> defined
          | WaitCRDGone n \<Rightarrow> n \<in> defined \<and> re_delete_crd re n = Deleted)))"
proof (cases "re_init re = None \<and> (\<exists>releases. re_releases re = Inr releases)")
  case False
  then have "snd (ChartUninstall re) \<noteq> Inr ()"
    by (auto simp: ChartUninstall_def bind_run_def pure_run_def split: option.split sum.splits)
  with False show ?thesis by auto
next
  case True
  then obtain releases where rel: "re_init re = None" "re_releases re = Inr releases" by blast
  let ?listing = "re_crds re (if releases = [] then 1 else 2)"
  let ?crs = "deleteOperatorCRs re (re_crds re 0)" and ?crds = "deleteOperatorCRDs re ?listing"
  let ?rels = "if releases = [] then deleteCertSecret re DefaultChartReleaseName DefaultNamespace else uninstall_releases re releases"
  have run: "ChartUninstall re = bind_run ?crs (\<lambda>_. bind_run ?rels (\<lambda>_. ?crds))"
    using rel by (simp add: ChartUninstall_def bind_run_def pure_run_def)
  have parts: "snd (ChartUninstall re) = Inr () \<longleftrightarrow> snd ?crs = Inr () \<and> snd ?rels = Inr () \<and> snd ?crds = Inr ()"
    "snd (ChartUninstall re) = Inr () \<Longrightarrow> set (fst (ChartUninstall re)) = set (fst ?crs) \<union> set (fst ?rels) \<union> set (fst ?crds)"
    unfolding run by (auto simp: bind_run_def split: prod.splits sum.splits)
  have rels: "snd ?rels = Inr () \<longleftrightarrow> list_all (\<lambda>rel. \<exists>name ns. rel = Release name ns) releases \<and>
      (\<forall>(name, ns) \<in> secret_owners releases. \<forall>e. re_secret re (secret_name name) ns \<noteq> Refused e)"
    using uninstall_releases_done(1) [of re releases]
    by (auto simp: deleteCertSecret_simps secret_owners_def list_all_iff DefaultChartReleaseName_def DefaultNamespace_def)
  have done_rels: "snd ?rels = Inr () \<Longrightarrow> set (fst ?rels) =
      {HelmUninstall name (re_uninstall re name) | name. \<exists>ns. Release name ns \<in> set releases} \<union>
      {DeleteSecret (secret_name name) ns | name ns. (name, ns) \<in> secret_owners releases}"
    using uninstall_releases_done(2) [of re releases]
    by (cases "releases = []") (simp_all add: deleteCertSecret_simps secret_owners_def DefaultChartReleaseName_def DefaultNamespace_def)
  have succeeds: "snd (ChartUninstall re) = Inr () \<longleftrightarrow>
      (\<forall>g \<in> served (re_crds re 0). Inr 0 \<in> set (re_cr_polls re g)) \<and> snd ?rels = Inr () \<and>
      (\<forall>g \<in> served ?listing. re_delete_crd re (crd_name g) = Deleted \<longrightarrow> CRDNotFound \<in> set (re_crd_polls re (crd_name g)))"
    unfolding parts(1) deleteOperatorCRs_done(1) deleteOperatorCRDs_done(1) by simp
  have did: "x \<in> set (fst (ChartUninstall re)) \<longleftrightarrow>
      (let defined = crd_name ` served ?listing
       in case x of
            DeleteCR g ns name \<Rightarrow> g \<in> served (re_crds re 0) \<and> (\<exists>items. re_crs re g = Inr items \<and> (ns, name) \<in> set items)
          | WaitCRsGone g \<Rightarrow> g \<in> served (re_crds re 0)
          | HelmUninstall name e \<Rightarrow> (\<exists>ns. Release name ns \<in> set releases) \<and> e = re_uninstall re name
          | DeleteSecret s ns \<Rightarrow> (\<exists>name. (name, ns) \<in> secret_owners releases \<and> s = secret_name name)
          | DeleteCRD n \<Rightarrow> n \<in> defined
          | WaitCRDGone n \<Rightarrow> n \<in> defined \<and> re_delete_crd re n = Deleted)"
    if ok: "snd (ChartUninstall re) = Inr ()" for x
  proof -
    from ok parts(1) have all: "snd ?crs = Inr ()" "snd ?rels = Inr ()" "snd ?crds = Inr ()" by blast+
    show ?thesis
      unfolding parts(2) [OF ok] deleteOperatorCRs_done(2) [OF all(1)] done_rels [OF all(2)] deleteOperatorCRDs_done(2) [OF all(3)] Let_def
      by (cases x) auto
  qed
  show ?thesis unfolding secret_name_def [symmetric] crd_name_def [symmetric]
  proof (intro conjI allI impI; (elim conjE)?)
    show "snd (ChartUninstall re) = Inr () \<longleftrightarrow> re_init re = None \<and>
     (\<exists>releases. re_releases re = Inr releases \<and> list_all (\<lambda>rel. \<exists>name ns. rel = Release name ns) releases \<and>
        (\<forall>g \<in> served (re_crds re 0). Inr 0 \<in> set (re_cr_polls re g)) \<and>
        (\<forall>(name, ns) \<in> secret_owners releases. \<forall>e. re_secret re (secret_name name) ns \<noteq> Refused e) \<and>
        (\<forall>g \<in> served (re_crds re (if releases = [] then 1 else 2)).
           re_delete_crd re (crd_name g) = Deleted \<longrightarrow> CRDNotFound \<in> set (re_crd_polls re (crd_name g))))"
      unfolding succeeds rels using rel by auto
    fix releases' x
    assume ok: "snd (ChartUninstall re) = Inr ()" and "re_releases re = Inr releases'"
    then have e: "releases' = releases" using rel(2) by simp
    show "x \<in> set (fst (ChartUninstall re)) \<longleftrightarrow>
      (let defined = crd_name ` served (re_crds re (if releases' = [] then 1 else 2))
       in case x of
            DeleteCR g ns name \<Rightarrow> g \<in> served (re_crds re 0) \<and> (\<exists>items. re_crs re g = Inr items \<and> (ns, name) \<in> set items)
          | WaitCRsGone g \<Rightarrow> g \<in> served (re_crds re 0)
          | HelmUninstall name e \<Rightarrow> (\<exists>ns. Release name ns \<in> set releases') \<and> e = re_uninstall re name
          | DeleteSecret s ns \<Rightarrow> (\<exists>name. (name, ns) \<in> secret_owners releases' \<and> s = secret_name name)
          | DeleteCRD n \<Rightarrow> n \<in> defined
          | WaitCRDGone n \<Rightarrow> n \<in> defined \<and> re_delete_crd re n = Deleted)"
      unfolding e by (rule did [OF ok])
  qed
qed

lemma in_phases_removal:
  assumes "in_phases {2} x"
  shows "in_phases {2, 3, 4} (bind_run x (\<lambda>_. deleteOperatorCRDs re l))"
proof -
  have "in_phases ({2} \<union> {3, 4}) (bind_run x (\<lambda>_. deleteOperatorCRDs re l))"
    by (rule in_phases_bind [OF assms in_phases_CRDs]) simp
  then show ?thesis by (rule in_phases_mono) auto
qed

lemma later_phases_wait:
  assumes tr: "(tr, r) = bind_run (deleteOperatorCRs re l) (\<lambda>_. rest)"
    and x: "\<exists>x \<in> set tr. 2 \<le> phase x" and g: "otelServedGVRs l = Inr gvrs"
  shows "WaitCRsGone ` set gvrs \<subseteq> set tr"
proof -
  obtain xs c where c: "deleteOperatorCRs re l = (xs, c)" by (cases "deleteOperatorCRs re l")
  have "phase ` set xs \<subseteq> {0, 1}" using in_phases_CRs [of re l] c by (simp add: in_phases_def)
  moreover have "c = Inl e \<Longrightarrow> tr = xs" for e using tr c by (simp add: bind_run_def)
  ultimately have "c \<noteq> Inl e" for e using x by fastforce
  then obtain u where u: "c = Inr u" by (cases c) auto
  obtain ys r' where rr: "rest = (ys, r')" by (cases rest)
  have "tr = xs @ ys" using tr unfolding rr c u by (simp add: bind_run_def)
  moreover have "WaitCRsGone ` served l \<subseteq> set xs" using deleteOperatorCRs_done(2) [of re l] c u by simp
  ultimately show ?thesis using served_gvrs_set [OF g] by auto
qed

text \<open>
  C13: whatever fails on the way, the removal keeps its order: no release is uninstalled before the deletions of
  custom resources, no definition is deleted before the releases, and unless the served types could not be listed
  nothing but custom resources is touched before the waits for all of them have ended well.
\<close>

theorem ChartUninstall_ordered:
  assumes "ChartUninstall re = (tr, r)"
  shows "sorted (map phase tr) \<and>
    ((\<exists>x \<in> set tr. 2 \<le> phase x) \<longrightarrow> (\<forall>gvrs. otelServedGVRs (re_crds re 0) = Inr gvrs \<longrightarrow> WaitCRsGone ` set gvrs \<subseteq> set tr))"
proof -
  let ?rest = "\<lambda>releases. if length releases = 0
      then bind_run (deleteCertSecret re DefaultChartReleaseName DefaultNamespace) (\<lambda>_. deleteOperatorCRDs re (re_crds re 1))
      else bind_run (uninstall_releases re releases) (\<lambda>_. deleteOperatorCRDs re (re_crds re 2))"
  have rest: "in_phases {2, 3, 4} (?rest releases)" for releases
    using in_phases_removal [OF in_phases_secret] in_phases_removal [OF in_phases_releases] by simp
  show ?thesis
  proof (cases "re_init re = None \<and> (\<exists>releases. re_releases re = Inr releases)")
    case False
    with assms have "tr = []" by (auto simp: ChartUninstall_def bind_run_def pure_run_def split: option.splits sum.splits)
    then show ?thesis by simp
  next
    case True
    then obtain releases where rel: "re_init re = None" "re_releases re = Inr releases" by blast
    with assms have tr: "(tr, r) = bind_run (deleteOperatorCRs re (re_crds re 0)) (\<lambda>_. ?rest releases)"
      by (simp add: ChartUninstall_def bind_run_def pure_run_def)
    have "in_phases ({0, 1} \<union> {2, 3, 4}) (tr, r)"
      unfolding tr by (rule in_phases_bind [OF in_phases_CRs rest]) auto
    then have "sorted (map phase tr)" by (simp add: in_phases_def)
    moreover have "WaitCRsGone ` set gvrs \<subseteq> set tr"
      if "\<exists>x \<in> set tr. 2 \<le> phase x" and "otelServedGVRs (re_crds re 0) = Inr gvrs" for gvrs
      using later_phases_wait [OF tr that] .
    ultimately show ?thesis by blast
  qed
qed

section \<open>Examples\<close>

definition sample_gvr :: gvr where
  "sample_gvr = \<lparr>gvr_Group = ''opentelemetry.io'', gvr_Version = ''v1'', gvr_Resource = ''instrumentations''\<rparr>"

definition sample_removal :: removal_env where
  "sample_removal =
     \<lparr>re_init = None, re_releases = Inr [Release ''sock'' ''default''], re_uninstall = (\<lambda>_. None),
      re_crds = (\<lambda>_. Inr [\<lparr>crd_Group = ''opentelemetry.io'', crd_Plural = ''instrumentations'',
        crd_Versions = [\<lparr>cv_Name = ''v0'', cv_Served = False\<rparr>, \<lparr>cv_Name = ''v1'', cv_Served = True\<rparr>]\<rparr>]),
      re_crs = (\<lambda>_. Inr [(''default'', ''java'')]), re_cr_polls = (\<lambda>_. [Inr 1, Inr 0]),
      re_secret = (\<lambda>_ _. NotFound), re_delete_crd = (\<lambda>_. Deleted), re_crd_polls = (\<lambda>_. [CRDPresent, CRDNotFound])\<rparr>"

lemma ChartUninstall_succeeds_witness:
  "snd (ChartUninstall sample_removal) = Inr () \<and> HelmUninstall ''sock'' None \<in> set (fst (ChartUninstall sample_removal)) \<and>
   DeleteSecret ''sock-operator-controller-manager-service-cert'' ''default'' \<in> set (fst (ChartUninstall sample_removal))"
proof -
  have ok: "snd (ChartUninstall sample_removal) = Inr ()" by code_simp
  have "re_releases sample_removal = Inr [Release ''sock'' ''default'']" by (simp add: sample_removal_def)
  note did = conjunct2 [OF ChartUninstall_succeeds, rule_format, OF conjI, OF ok this]
  have "HelmUninstall ''sock'' None \<in> set (fst (ChartUninstall sample_removal))"
    unfolding did by (simp add: sample_removal_def)
  moreover have "DeleteSecret ''sock-operator-controller-manager-service-cert'' ''default'' \<in> set (fst (ChartUninstall sample_removal))"
    unfolding did by (simp add: secret_owners_def)
  ultimately show ?thesis using ok by blast
qed

lemma ChartUninstall_ordered_witness:
  "sorted (map phase (fst (ChartUninstall (sample_removal\<lparr>re_cr_polls := \<lambda>_. [Inr 1]\<rparr>))))"
proof -
  obtain tr r where "ChartUninstall (sample_removal\<lparr>re_cr_polls := \<lambda>_. [Inr 1]\<rparr>) = (tr, r)" by fastforce
  from ChartUninstall_ordered [OF this] this show ?thesis by simp
qed

text \<open>An environment in which a base release is installed and upgraded.\<close>

definition sample_chart_env :: chart_env where
  "sample_chart_env =
     \<lparr>ce_disk = \<lparr>files = (\<lambda>p. Some p), read_fault = (\<lambda>_. None), write_fault = (\<lambda>_. None)\<rparr>,
      ce_render = (\<lambda>b rs. Inr b),
      ce_unmarshal = (\<lambda>b. if has_suffix b ''Chart.yaml''
        then Inr [(''dependencies'', YList [YMap [(''name'', YStr ''opentelemetry-operator-crds''), (''version'', YStr b)]])]
        else Inr [(''operatorcrds'', YMap [(''install'', YBool True)])]),
      ce_parse_into = (\<lambda>s v. Inr v), ce_load = (\<lambda>_. None), ce_helm_init = None, ce_client = None, ce_answer = (\<lambda>_. None)\<rparr>"

definition sample_options :: ChartOptions where
  "sample_options = (GetDefaultChartOptions ''watcher'')\<lparr>UpgradeFromValues := ''base.yaml'', UpgradeFromChartDir := ''old''\<rparr>"

lemma sample_install:
  "snd (ChartInstallOrUpgrade sample_chart_env (\<lambda>_. []) ''kc'' ''testdata/values.yaml'' [] 0 sample_options) = Inr ()"
  by code_simp

lemma ChartInstallOrUpgrade_plan_witness:
  "\<exists>tr initChart labels rest.
     ChartInstallOrUpgrade sample_chart_env (\<lambda>_. []) ''kc'' ''testdata/values.yaml'' [] 0 sample_options = (tr, Inr ()) \<and>
     tr = HelmInstall initChart sample_options labels [(''operatorcrds'', YMap [(''install'', YBool True)])] # rest"
proof -
  obtain tr where tr: "ChartInstallOrUpgrade sample_chart_env (\<lambda>_. []) ''kc'' ''testdata/values.yaml'' [] 0 sample_options = (tr, Inr ())"
    using sample_install by (metis prod.collapse)
  have base: "path_join [path_dir ''testdata/values.yaml'', ''base.yaml''] = ''testdata/base.yaml''"
    "ReadFile (ce_disk sample_chart_env) ''testdata/base.yaml'' = Inr ''testdata/base.yaml''"
    "ce_unmarshal sample_chart_env ''testdata/base.yaml'' = Inr [(''operatorcrds'', YMap [(''install'', YBool True)])]"
    by code_simp+
  from ChartInstallOrUpgrade_plan [OF tr] have
    "\<exists>initChart labels rest. tr = HelmInstall initChart sample_options labels [(''operatorcrds'', YMap [(''install'', YBool True)])] # rest"
    by (auto simp: sample_options_def Let_def base)
  with tr show ?thesis by blast
qed

lemma ChartInstallOrUpgrade_orderly_witness:
  "length (fst (ChartInstallOrUpgrade (sample_chart_env\<lparr>ce_answer := (\<lambda>x. Some ''down'')\<rparr>) (\<lambda>_. []) ''kc'' ''testdata/values.yaml'' [] 0
     sample_options)) \<le> 1"
proof -
  obtain tr r where tr: "ChartInstallOrUpgrade (sample_chart_env\<lparr>ce_answer := (\<lambda>x. Some ''down'')\<rparr>) (\<lambda>_. []) ''kc''
     ''testdata/values.yaml'' [] 0 sample_options = (tr, r)" by fastforce
  have "\<forall>x \<in> set (butlast tr). ce_answer (sample_chart_env\<lparr>ce_answer := (\<lambda>x. Some ''down'')\<rparr>) x = None"
    using ChartInstallOrUpgrade_orderly [OF tr] by blast
  then have "butlast tr = []" by (cases "butlast tr") auto
  then have "length (butlast tr) = 0" by simp
  then show ?thesis by (simp add: tr)
qed

end
