(* ===== verification/Sinks.thy ===== *)
theory Sinks
  imports GoNumbers GoRun
begin

section \<open>Telemetry sinks\<close>

text \<open>
  Model of \<open>functional_tests/internal/sinks.go\<close>: the receivers that the tests start, as configurations,
  and the order in which a receiver is built, started and registered for shutdown. The receivers and the
  bearer token extension are not part of the repository: their default configurations and what they
  answer are the fields of \<open>sink_env\<close>. A configuration field that the file never writes is kept as its
  text (\<open>_rest\<close>, empty in a literal that leaves it out).
\<close>

subsection \<open>Configurations\<close>

record net_addr =
  na_Endpoint :: string
  na_Transport :: string

record server_config =
  sc_NetAddr :: net_addr
  sc_Auth :: "string option" \<comment> \<open>the authenticator's id\<close>
  sc_rest :: string

record otlp_http_config =
  oh_Server :: server_config
  oh_TracesURLPath :: string
  oh_LogsURLPath :: string

record otlp_config =
  oc_GRPC :: "net_addr option"
  oc_HTTP :: "otlp_http_config option"
  oc_rest :: string

datatype receiver_config = HEC server_config | OTLP otlp_config | SignalFx server_config

datatype telemetry = LogsSink | MetricsSink | TracesSink

record bearer_config =
  bt_BearerToken :: string
  bt_Header :: string
  bt_Scheme :: string
  bt_rest :: string

text \<open>The host of a receiver is given by its extensions.\<close>

type_synonym mockHost = "(string \<times> bearer_config) list"

datatype sink_action =
    CreateBearer bearer_config
  | CreateReceiver telemetry receiver_config
  | StartReceiver telemetry receiver_config mockHost
  | ShutdownAtCleanup telemetry receiver_config

record sink_env =
  se_hec :: server_config
  se_otlp :: otlp_config
  se_signalfx :: server_config
  se_bearer :: bearer_config
  se_answer :: "sink_action \<Rightarrow> string option"

definition HECLogsReceiverPort :: int64 where "HECLogsReceiverPort = 8090"
definition HECMetricsReceiverPort :: int64 where "HECMetricsReceiverPort = 8091"
definition HECObjectsReceiverPort :: int64 where "HECObjectsReceiverPort = 8092"
definition OTLPGRPCReceiverPort :: int64 where "OTLPGRPCReceiverPort = 4317"
definition OTLPHTTPReceiverPort :: int64 where "OTLPHTTPReceiverPort = 4318"
definition SignalFxReceiverPort :: int64 where "SignalFxReceiverPort = 9943"
definition SecureAppLogsReceiverPort :: int64 where "SecureAppLogsReceiverPort = 4320"

definition listen_on :: "int64 \<Rightarrow> net_addr" where
  "listen_on port = \<lparr>na_Endpoint = ''0.0.0.0:'' @ itoa port, na_Transport = ''tcp''\<rparr>"

definition http_on :: "int64 \<Rightarrow> string option \<Rightarrow> server_config" where
  "http_on port auth = \<lparr>sc_NetAddr = listen_on port, sc_Auth = auth, sc_rest = []\<rparr>"

subsection \<open>Setting up\<close>

text \<open>The common end of every setup.\<close>

definition run_receiver :: "sink_env \<Rightarrow> telemetry \<Rightarrow> receiver_config \<Rightarrow> mockHost \<Rightarrow> (sink_action, unit) run" where
  "run_receiver se sig cfg host =
     bind_run (act_run (se_answer se) (CreateReceiver sig cfg)) (\<lambda>_.
     bind_run (act_run (se_answer se) (StartReceiver sig cfg host)) (\<lambda>_.
       ([ShutdownAtCleanup sig cfg], Inr ())))"

definition setupHECLogsSink :: "sink_env \<Rightarrow> int64 \<Rightarrow> (sink_action, unit) run" where
  "setupHECLogsSink se port =
     run_receiver se LogsSink (HEC ((se_hec se)\<lparr>sc_NetAddr := listen_on port\<rparr>)) []"

definition SetupHECLogsSink :: "sink_env \<Rightarrow> (sink_action, unit) run" where
  "SetupHECLogsSink se = setupHECLogsSink se HECLogsReceiverPort"

definition SetupHECObjectsSink :: "sink_env \<Rightarrow> (sink_action, unit) run" where
  "SetupHECObjectsSink se = setupHECLogsSink se HECObjectsReceiverPort"

definition SetupHECMetricsSink :: "sink_env \<Rightarrow> (sink_action, unit) run" where
  "SetupHECMetricsSink se =
     run_receiver se MetricsSink (HEC ((se_hec se)\<lparr>sc_NetAddr := listen_on HECMetricsReceiverPort\<rparr>)) []"

definition SetupOTLPTracesSink :: "sink_env \<Rightarrow> (sink_action, unit) run" where
  "SetupOTLPTracesSink se =
     run_receiver se TracesSink (OTLP ((se_otlp se)\<lparr>oc_GRPC := Some (listen_on OTLPGRPCReceiverPort),
       oc_HTTP := Some \<lparr>oh_Server = http_on OTLPHTTPReceiverPort None, oh_TracesURLPath = ''/v1/traces'',
         oh_LogsURLPath = []\<rparr>\<rparr>)) []"

definition authenticator :: string where
  "authenticator = ''bearertokenauth/passthroughValidation''"

definition bearer_for :: "sink_env \<Rightarrow> string \<Rightarrow> bearer_config" where
  "bearer_for se token =
     (se_bearer se)\<lparr>bt_BearerToken := token, bt_Header := ''X-Sf-Token'', bt_Scheme := []\<rparr>"

definition SetupOTLPTracesSinkWithTokenAndPorts ::
  "sink_env \<Rightarrow> string \<Rightarrow> int64 \<Rightarrow> int64 \<Rightarrow> (sink_action, unit) run"
where
  "SetupOTLPTracesSinkWithTokenAndPorts se token grpcPort httpPort =
     bind_run (act_run (se_answer se) (CreateBearer (bearer_for se token))) (\<lambda>_.
       run_receiver se TracesSink (OTLP ((se_otlp se)\<lparr>oc_GRPC := Some (listen_on grpcPort),
         oc_HTTP := Some \<lparr>oh_Server = http_on httpPort (Some authenticator), oh_TracesURLPath = ''/v2/trace/otlp'',
           oh_LogsURLPath = []\<rparr>\<rparr>)) [(authenticator, bearer_for se token)])"

definition SetupOTLPTracesSinkWithToken :: "sink_env \<Rightarrow> string \<Rightarrow> (sink_action, unit) run" where
  "SetupOTLPTracesSinkWithToken se token =
     SetupOTLPTracesSinkWithTokenAndPorts se token OTLPGRPCReceiverPort OTLPHTTPReceiverPort"

definition SetupOTLPLogsSink :: "sink_env \<Rightarrow> (sink_action, unit) run" where
  "SetupOTLPLogsSink se =
     run_receiver se LogsSink (OTLP ((se_otlp se)\<lparr>oc_GRPC := Some (listen_on OTLPGRPCReceiverPort),
       oc_HTTP := Some \<lparr>oh_Server = http_on OTLPHTTPReceiverPort None, oh_TracesURLPath = [],
         oh_LogsURLPath = ''/v1/logs''\<rparr>\<rparr>)) []"

definition SetupOTLPLogsSinkOnPort :: "sink_env \<Rightarrow> int64 \<Rightarrow> string \<Rightarrow> (sink_action, unit) run" where
  "SetupOTLPLogsSinkOnPort se port logsPath =
     run_receiver se LogsSink (OTLP ((se_otlp se)\<lparr>oc_GRPC := None,
       oc_HTTP := Some \<lparr>oh_Server = http_on port None, oh_TracesURLPath = [], oh_LogsURLPath = logsPath\<rparr>\<rparr>)) []"

definition setupSignalfxReceiverSink ::
  "sink_env \<Rightarrow> mockHost \<Rightarrow> int64 \<Rightarrow> string option \<Rightarrow> (sink_action, unit) run"
where
  "setupSignalfxReceiverSink se host port auth =
     (let cfg = (se_signalfx se)\<lparr>sc_NetAddr := listen_on port\<rparr>;
          cfg' = (case auth of None \<Rightarrow> cfg | Some a \<Rightarrow> cfg\<lparr>sc_Auth := Some a\<rparr>)
      in run_receiver se MetricsSink (SignalFx cfg') host)"

definition SetupSignalfxReceiver :: "sink_env \<Rightarrow> int64 \<Rightarrow> (sink_action, unit) run" where
  "SetupSignalfxReceiver se port = setupSignalfxReceiverSink se [] port None"

definition SetupSignalFxReceiverWithToken :: "sink_env \<Rightarrow> int64 \<Rightarrow> string \<Rightarrow> (sink_action, unit) run" where
  "SetupSignalFxReceiverWithToken se port token =
     bind_run (act_run (se_answer se) (CreateBearer (bearer_for se token))) (\<lambda>_.
       setupSignalfxReceiverSink se [(authenticator, bearer_for se token)] port (Some authenticator))"

section \<open>Facts\<close>

lemma port_texts:
  "itoa HECLogsReceiverPort = ''8090''" "itoa HECMetricsReceiverPort = ''8091''" "itoa HECObjectsReceiverPort = ''8092''"
  "itoa OTLPGRPCReceiverPort = ''4317''" "itoa OTLPHTTPReceiverPort = ''4318''" "itoa SignalFxReceiverPort = ''9943''"
  by (simp_all add: HECLogsReceiverPort_def HECMetricsReceiverPort_def HECObjectsReceiverPort_def OTLPGRPCReceiverPort_def
      OTLPHTTPReceiverPort_def SignalFxReceiverPort_def itoa_def itoa_int_def nat_digits.simps digit_char_def) code_simp+

lemma run_receiver_Inr:
  "run_receiver se sig cfg host = (tr, Inr u) \<longleftrightarrow>
     se_answer se (CreateReceiver sig cfg) = None \<and> se_answer se (StartReceiver sig cfg host) = None \<and>
     tr = [CreateReceiver sig cfg, StartReceiver sig cfg host, ShutdownAtCleanup sig cfg]"
  by (auto simp: run_receiver_def bind_run_def act_run_def split: option.splits)

text \<open>
  A shutdown is registered only for a receiver that was created and started, and only as the last
  thing: a setup that fails half way has created at most one receiver and leaves none to shut down.
\<close>

lemma run_receiver_shutdown:
  assumes "run_receiver se sig cfg host = (tr, r)"
  shows "(\<exists>sig' cfg'. ShutdownAtCleanup sig' cfg' \<in> set tr) \<longleftrightarrow> r = Inr ()"
  using assms by (auto simp: run_receiver_def bind_run_def act_run_def split: option.splits)

section \<open>Properties\<close>

text \<open>The endpoints a receiver listens on, and the authenticator each of them asks for.\<close>

fun endpoints :: "receiver_config \<Rightarrow> (string \<times> string option) list" where
  "endpoints (HEC sc) = [(na_Endpoint (sc_NetAddr sc), sc_Auth sc)]"
| "endpoints (SignalFx sc) = [(na_Endpoint (sc_NetAddr sc), sc_Auth sc)]"
| "endpoints (OTLP oc) =
     (case oc_GRPC oc of None \<Rightarrow> [] | Some a \<Rightarrow> [(na_Endpoint a, None)]) @
     (case oc_HTTP oc of None \<Rightarrow> [] | Some h \<Rightarrow> [(na_Endpoint (sc_NetAddr (oh_Server h)), sc_Auth (oh_Server h))])"

text \<open>
  The sinks with a token: a successful setup has created the extension, then the receiver, and started it
  on a host that has the extension, with the given token and the header X-Sf-Token, under the very id
  that the configuration asks for on its HTTP endpoint. The gRPC endpoint of the trace sink asks
  for no token.
\<close>

theorem token_sinks_guarded:
  "(SetupSignalFxReceiverWithToken se port token = (tr, Inr ()) \<longrightarrow>
     (\<exists>cfg b. tr = [CreateBearer b, CreateReceiver MetricsSink cfg, StartReceiver MetricsSink cfg [(authenticator, b)],
          ShutdownAtCleanup MetricsSink cfg] \<and>
        bt_BearerToken b = token \<and> bt_Header b = ''X-Sf-Token'' \<and> bt_Scheme b = [] \<and>
        endpoints cfg = [(''0.0.0.0:'' @ itoa port, Some authenticator)])) \<and>
   (SetupOTLPTracesSinkWithTokenAndPorts se token grpcPort httpPort = (tr, Inr ()) \<longrightarrow>
     (\<exists>cfg b. tr = [CreateBearer b, CreateReceiver TracesSink cfg, StartReceiver TracesSink cfg [(authenticator, b)],
          ShutdownAtCleanup TracesSink cfg] \<and>
        bt_BearerToken b = token \<and> bt_Header b = ''X-Sf-Token'' \<and> bt_Scheme b = [] \<and>
        endpoints cfg = [(''0.0.0.0:'' @ itoa grpcPort, None), (''0.0.0.0:'' @ itoa httpPort, Some authenticator)]))"
proof -
  have b: "bt_BearerToken (bearer_for se token) = token" "bt_Header (bearer_for se token) = ''X-Sf-Token''"
    "bt_Scheme (bearer_for se token) = []" by (simp_all add: bearer_for_def)
  show ?thesis
    by (auto simp: SetupSignalFxReceiverWithToken_def SetupOTLPTracesSinkWithTokenAndPorts_def
        setupSignalfxReceiverSink_def bind_run_Inr act_run_Inr run_receiver_Inr listen_on_def http_on_def b)
qed

definition sample_sinks :: sink_env where
  "sample_sinks =
     \<lparr>se_hec = http_on 8088 None, se_otlp = \<lparr>oc_GRPC = None, oc_HTTP = None, oc_rest = []\<rparr>,
      se_signalfx = http_on 9000 None, se_bearer = \<lparr>bt_BearerToken = [], bt_Header = ''Authorization'', bt_Scheme = ''Bearer'', bt_rest = []\<rparr>,
      se_answer = (\<lambda>_. None)\<rparr>"

lemma token_sinks_guarded_witness:
  "\<exists>cfg b. StartReceiver MetricsSink cfg [(authenticator, b)] \<in>
       set (fst (SetupSignalFxReceiverWithToken sample_sinks SignalFxReceiverPort ''secret'')) \<and>
     bt_BearerToken b = ''secret'' \<and> endpoints cfg = [(''0.0.0.0:9943'', Some authenticator)]"
proof -
  have ok: "snd (SetupSignalFxReceiverWithToken sample_sinks SignalFxReceiverPort ''secret'') = Inr ()"
    by (simp add: SetupSignalFxReceiverWithToken_def setupSignalfxReceiverSink_def run_receiver_def bind_run_def
        act_run_def sample_sinks_def Let_def)
  obtain tr where tr: "SetupSignalFxReceiverWithToken sample_sinks SignalFxReceiverPort ''secret'' = (tr, Inr ())"
    using ok by (metis prod.collapse)
  from token_sinks_guarded [THEN conjunct1, THEN mp, OF tr] obtain cfg b where
    "tr = [CreateBearer b, CreateReceiver MetricsSink cfg, StartReceiver MetricsSink cfg [(authenticator, b)],
       ShutdownAtCleanup MetricsSink cfg]"
    "bt_BearerToken b = ''secret''" "endpoints cfg = [(''0.0.0.0:'' @ ''9943'', Some authenticator)]"
    unfolding port_texts by blast
  with tr show ?thesis by auto
qed

text \<open>
  The sinks without a port argument, and the SignalFx sink on its default port, can run side by side: they
  listen on different endpoints. The two OTLP sinks cannot.
\<close>

definition listeners :: "(sink_action, unit) run \<Rightarrow> string list" where
  "listeners m =
     concat (map (\<lambda>x. case x of ShutdownAtCleanup sig cfg \<Rightarrow> map fst (endpoints cfg) | _ \<Rightarrow> []) (fst m))"

lemma listeners_run_receiver:
  "set (listeners (run_receiver se sig cfg host)) \<subseteq> set (map fst (endpoints cfg))"
  by (auto simp: listeners_def run_receiver_def bind_run_def act_run_def split: option.splits)

lemma listeners_running:
  "(\<And>x. se_answer se x = None) \<Longrightarrow> listeners (run_receiver se sig cfg host) = map fst (endpoints cfg)"
  by (simp add: listeners_def run_receiver_def bind_run_def act_run_def)

lemma default_sinks_disjoint:
  assumes "\<And>x. se_answer se x = None"
  shows "distinct (listeners (SetupHECLogsSink se) @ listeners (SetupHECObjectsSink se) @ listeners (SetupHECMetricsSink se) @
      listeners (SetupOTLPTracesSink se) @ listeners (SetupSignalfxReceiver se SignalFxReceiverPort)) \<and>
    listeners (SetupOTLPLogsSink se) = listeners (SetupOTLPTracesSink se)"
  by (simp add: SetupHECLogsSink_def SetupHECObjectsSink_def SetupHECMetricsSink_def SetupOTLPTracesSink_def SetupOTLPLogsSink_def
      SetupSignalfxReceiver_def setupHECLogsSink_def setupSignalfxReceiverSink_def listeners_running [OF assms] listen_on_def
      http_on_def port_texts)

end
