(* ===== verification/ApiServer.thy ===== *)
theory ApiServer
  imports GoNumbers
begin

section \<open>The mock API server\<close>

text \<open>
  Model of \<open>SetupSignalFxAPIServer\<close> in \<open>functional_tests/internal/api_server.go\<close>: the goroutine that
  serves and reports on an unbuffered channel, and the cleanup that closes the server and receives
  one report. A send and a receive on an unbuffered channel are one step of both sides. What the
  code relies on in \<open>net/http\<close> is in the rules: \<open>ListenAndServe\<close> returns only with an error, which is
  \<open>ErrServerClosed\<close> only when \<open>Close\<close> has been called; a server that is closed while it starts to listen may still
  return the error of listening.
\<close>

definition SignalFxAPIPort :: int64 where
  "SignalFxAPIPort = 8881"

record http_server =
  hs_Addr :: string
  hs_ReadHeaderTimeout :: int \<comment> \<open>in nanoseconds\<close>

definition api_server :: http_server where
  "api_server = \<lparr>hs_Addr = ''0.0.0.0:'' @ itoa SignalFxAPIPort, hs_ReadHeaderTimeout = 60 * 60 * 1000000000\<rparr>"

text \<open>Every request, whatever its path, is answered with the status OK.\<close>

definition api_handler :: "string \<Rightarrow> nat" where
  "api_handler request = 200"

datatype server_pc =
    Serving
  | SendErr string \<comment> \<open>at \<open>errCh <- err\<close>\<close>
  | SendNil \<comment> \<open>at \<open>errCh <- nil\<close>\<close>
  | Exited

datatype cleanup_pc =
    BeforeClose
  | Receiving \<comment> \<open>at \<open>err = <-errCh\<close>\<close>
  | CloseFailed string
  | Finished "string option" \<comment> \<open>the received error\<close>

record api_state =
  srv :: server_pc
  cln :: cleanup_pc
  closed :: bool

definition SetupSignalFxAPIServer :: api_state where
  "SetupSignalFxAPIServer = \<lparr>srv = Serving, cln = BeforeClose, closed = False\<rparr>"

inductive api_step :: "api_state \<Rightarrow> api_state \<Rightarrow> bool" where
  serve_error: "srv s = Serving \<Longrightarrow> api_step s (s\<lparr>srv := SendErr e\<rparr>)"
| serve_closed: "srv s = Serving \<Longrightarrow> closed s \<Longrightarrow> api_step s (s\<lparr>srv := SendNil\<rparr>)"
| close_ok: "cln s = BeforeClose \<Longrightarrow> api_step s (s\<lparr>closed := True, cln := Receiving\<rparr>)"
| close_error: "cln s = BeforeClose \<Longrightarrow> api_step s (s\<lparr>closed := True, cln := CloseFailed e\<rparr>)"
| receive_error: "srv s = SendErr e \<Longrightarrow> cln s = Receiving \<Longrightarrow>
    api_step s (s\<lparr>srv := SendNil, cln := Finished (Some e)\<rparr>)"
| receive_nil: "srv s = SendNil \<Longrightarrow> cln s = Receiving \<Longrightarrow>
    api_step s (s\<lparr>srv := Exited, cln := Finished None\<rparr>)"

inductive_cases api_stepE: "api_step s s'"

inductive_simps api_step_iff: "api_step s s'"

definition api_reachable :: "api_state \<Rightarrow> bool" where
  "api_reachable s \<longleftrightarrow> api_step\<^sup>*\<^sup>* SetupSignalFxAPIServer s"

section \<open>Facts\<close>

text \<open>What the two sides know of each other.\<close>

definition api_inv :: "api_state \<Rightarrow> bool" where
  "api_inv s \<longleftrightarrow>
     (case cln s of
        BeforeClose \<Rightarrow> \<not> closed s \<and> (srv s = Serving \<or> (\<exists>e. srv s = SendErr e))
      | Receiving \<Rightarrow> closed s \<and> srv s \<noteq> Exited
      | CloseFailed e \<Rightarrow> closed s \<and> srv s \<noteq> Exited
      | Finished None \<Rightarrow> closed s \<and> srv s = Exited
      | Finished (Some e) \<Rightarrow> closed s \<and> srv s = SendNil)"

lemma api_inv_step: "api_step s s' \<Longrightarrow> api_inv s \<Longrightarrow> api_inv s'"
  by (induction rule: api_step.induct) (auto simp: api_inv_def split: cleanup_pc.splits option.splits)

lemma api_inv_reachable: "api_reachable s \<Longrightarrow> api_inv s"
  unfolding api_reachable_def
proof (induction rule: rtranclp_induct)
  case base
  then show ?case by (simp add: SetupSignalFxAPIServer_def api_inv_def)
next
  case (step s s')
  then show ?case using api_inv_step by blast
qed

text \<open>The cleanup finishes in at most two steps.\<close>

lemma receive_now:
  assumes "cln s = Receiving" and "srv s = SendErr e \<or> srv s = SendNil"
  shows "\<exists>s' r. api_step s s' \<and> cln s' = Finished r"
proof -
  from assms(2) have "api_step s (s\<lparr>srv := SendNil, cln := Finished (Some e)\<rparr>) \<or>
      api_step s (s\<lparr>srv := Exited, cln := Finished None\<rparr>)"
    using receive_error [of s e] receive_nil [of s] assms(1) by blast
  then show ?thesis by fastforce
qed

text \<open>
  C39: the cleanup of the mock server is never stuck: from any reachable state in which it waits for the
  report it can receive one, at once or after the server has noticed that it was closed.
\<close>

theorem api_cleanup_finishes:
  assumes "api_reachable s" and "cln s = Receiving"
  shows "\<exists>s' r. api_step\<^sup>*\<^sup>* s s' \<and> cln s' = Finished r"
proof (cases "srv s")
  case Serving
  have "closed s" using api_inv_reachable [OF assms(1)] assms(2) by (simp add: api_inv_def)
  with Serving have "api_step s (s\<lparr>srv := SendNil\<rparr>)" by (rule serve_closed)
  moreover obtain s' r where "api_step (s\<lparr>srv := SendNil\<rparr>) s'" "cln s' = Finished r"
    using receive_now [of "s\<lparr>srv := SendNil\<rparr>"] assms(2) by auto
  ultimately show ?thesis by (meson converse_rtranclp_into_rtranclp r_into_rtranclp)
next
  case (SendErr e)
  with receive_now assms(2) show ?thesis by (meson r_into_rtranclp)
next
  case SendNil
  with receive_now assms(2) show ?thesis by (meson r_into_rtranclp)
next
  case Exited
  with api_inv_reachable [OF assms(1)] assms(2) show ?thesis by (simp add: api_inv_def)
qed

lemma api_reachable_receiving: "api_reachable \<lparr>srv = Serving, cln = Receiving, closed = True\<rparr>"
proof -
  have "api_step SetupSignalFxAPIServer (SetupSignalFxAPIServer\<lparr>closed := True, cln := Receiving\<rparr>)"
    by (rule close_ok) (simp add: SetupSignalFxAPIServer_def)
  then show ?thesis by (auto simp: api_reachable_def SetupSignalFxAPIServer_def)
qed

lemma api_cleanup_finishes_witness:
  "\<exists>s' r. api_step\<^sup>*\<^sup>* \<lparr>srv = Serving, cln = Receiving, closed = True\<rparr> s' \<and> cln s' = Finished r"
  by (rule api_cleanup_finishes [OF api_reachable_receiving]) simp

text \<open>
  The report is right: when the cleanup has received nil the server ended because it was closed and its
  goroutine has ended; when it has received an error, the goroutine is at its second send, which
  nobody will receive: no step is possible any more and the goroutine is leaked.
\<close>

theorem api_report:
  assumes "api_reachable s" and "cln s = Finished r"
  shows "case r of None \<Rightarrow> srv s = Exited | Some e \<Rightarrow> srv s = SendNil \<and> \<not> (\<exists>s'. api_step s s')"
proof -
  from api_inv_reachable [OF assms(1)] assms(2)
  have "case r of None \<Rightarrow> srv s = Exited | Some e \<Rightarrow> srv s = SendNil"
    by (auto simp: api_inv_def split: option.splits)
  with assms(2) show ?thesis by (auto split: option.splits elim: api_stepE)
qed

lemma api_reachable_leak: "api_reachable \<lparr>srv = SendNil, cln = Finished (Some ''address in use''), closed = True\<rparr>"
proof -
  let ?s0 = SetupSignalFxAPIServer
  let ?s1 = "?s0\<lparr>srv := SendErr ''address in use''\<rparr>"
  let ?s2 = "?s1\<lparr>closed := True, cln := Receiving\<rparr>"
  have "api_step ?s0 ?s1" by (rule serve_error) (simp_all add: SetupSignalFxAPIServer_def)
  moreover have "api_step ?s1 ?s2" by (rule close_ok) (simp add: SetupSignalFxAPIServer_def)
  moreover have "api_step ?s2 (?s2\<lparr>srv := SendNil, cln := Finished (Some ''address in use'')\<rparr>)"
    by (rule receive_error) simp_all
  ultimately have "api_step\<^sup>*\<^sup>* ?s0 (?s2\<lparr>srv := SendNil, cln := Finished (Some ''address in use'')\<rparr>)"
    by (meson converse_rtranclp_into_rtranclp r_into_rtranclp)
  then show ?thesis by (simp add: api_reachable_def SetupSignalFxAPIServer_def)
qed

lemma api_report_witness:
  "\<not> (\<exists>s'. api_step \<lparr>srv = SendNil, cln = Finished (Some ''address in use''), closed = True\<rparr> s')"
  using api_report [OF api_reachable_leak, of "Some ''address in use''"] by simp

end
