(* ===== verification/CollectorInstall.thy ===== *)
theory CollectorInstall
  imports Chart Sinks ApiServer
begin

section \<open>The usual installation\<close>

text \<open>
  Model of \<open>BasicCollectorChartInstall\<close> in \<open>functional_tests/internal/chart.go\<close>: the installation that most
  tests start with, which points the chart at the mock servers and sinks of the test host.
\<close>

text \<open>
  The clients: building a configuration and a clientset, and initialising Helm's configuration, are
  arguments. Helm gets the default namespace twice, and the storage driver from the environment.
\<close>

definition GetKubeClient :: "(string \<Rightarrow> 'c result) \<Rightarrow> ('c \<Rightarrow> 'k result) \<Rightarrow> string \<Rightarrow> 'k result" where
  "GetKubeClient BuildConfigFromFlags NewForConfig kubeConfig =
     bind_res (BuildConfigFromFlags kubeConfig) NewForConfig"

record helm_config =
  hc_FlagNamespace :: string
  hc_KubeConfig :: string
  hc_Namespace :: string
  hc_Driver :: string

definition InitHelmActionConfig :: "(helm_config \<Rightarrow> string option) \<Rightarrow> proc_env \<Rightarrow> string \<Rightarrow> helm_config result" where
  "InitHelmActionConfig Init env kubeConfig =
     (let cfg = \<lparr>hc_FlagNamespace = DefaultNamespace, hc_KubeConfig = kubeConfig, hc_Namespace = DefaultNamespace,
          hc_Driver = env ''HELM_DRIVER''\<rparr>
      in case Init cfg of Some e \<Rightarrow> Inl e | None \<Rightarrow> Inr cfg)"

text \<open>\<open>filepath.Abs\<close> with the answer of \<open>os.Getwd\<close>.\<close>

definition path_abs :: "string result \<Rightarrow> string \<Rightarrow> string result" where
  "path_abs cwd p =
     (if has_prefix p ''/'' then Inr (path_clean p) else bind_res cwd (\<lambda>wd. Inr (path_join [wd, p])))"

definition sink_urls :: "string \<Rightarrow> (string \<times> string) list" where
  "sink_urls hostEp =
     [(''ApiURL'', HostPortHTTP hostEp SignalFxAPIPort),
      (''EventsURL'', HostPortHTTP hostEp OTLPHTTPReceiverPort),
      (''IngestURL'', HostPortHTTP hostEp SignalFxReceiverPort),
      (''OTLPSink'', HostPortHTTP hostEp OTLPHTTPReceiverPort)]"

text \<open>\<open>host\<close> is the result of \<open>HostEndpoint\<close>.\<close>

definition BasicCollectorChartInstall ::
  "chart_env \<Rightarrow> proc_env \<Rightarrow> string result \<Rightarrow> string result \<Rightarrow> string \<Rightarrow> string \<Rightarrow> string \<Rightarrow> (chart_action, unit) run"
where
  "BasicCollectorChartInstall ce env host cwd statusWatcher kubeConfig valuesTmpl =
     (if env ''SKIP_SETUP'' = ''true'' then ([], Inr ())
      else
        bind_run (pure_run host) (\<lambda>hostEp.
        bind_run (pure_run (path_abs cwd (path_join [''testdata'', valuesTmpl]))) (\<lambda>valuesFile.
          ChartInstallOrUpgrade ce env kubeConfig valuesFile (string_values (sink_urls hostEp)) 0 (GetDefaultChartOptions statusWatcher))))"

section \<open>Properties\<close>

text \<open>A setup that is skipped does nothing.\<close>

lemma BasicCollectorChartInstall_skipped:
  "env ''SKIP_SETUP'' = ''true'' \<Longrightarrow> BasicCollectorChartInstall ce env host cwd sw kubeConfig tmpl = ([], Inr ())"
  by (simp add: BasicCollectorChartInstall_def)

lemma setCollectorImageOverrideEnv_other:
  "k \<noteq> ''OTELCOL_IMAGE_REPO'' \<Longrightarrow> k \<noteq> ''OTELCOL_IMAGE_TAG'' \<Longrightarrow> setCollectorImageOverrideEnv env k = env k"
  by (auto simp: setCollectorImageOverrideEnv_def Let_def split: prod.split)

lemma load_values_env:
  "load_values ce env file repl = Inr (env', values) \<Longrightarrow> env' = setCollectorImageOverrideEnv env"
  by (auto simp: load_values_def applyEnvOverrides_def Let_def bind_res_Inr_iff split: if_splits)

lemma api_port_text: "itoa SignalFxAPIPort = ''8881''"
  by (simp add: SignalFxAPIPort_def itoa_def itoa_int_def nat_digits.simps digit_char_def) code_simp

text \<open>
  The usual installation, when no upgrade is asked for: a successful run has rendered the values template
  with URLs of the host endpoint whose ports are those of the API server and of the OTLP and SignalFx
  sinks, has installed the chart of the repository once with the values of that rendering, under the default
  release, and has then waited for the pods of that release.
\<close>

theorem BasicCollectorChartInstall_plan:
  assumes "BasicCollectorChartInstall ce env (Inr ep) (Inr wd) sw kubeConfig tmpl = (tr, Inr ())"
    and "env ''SKIP_SETUP'' \<noteq> ''true''" and "env ''UPGRADE_FROM_VALUES'' = []"
  shows "\<exists>file raw buf values. path_abs (Inr wd) (path_join [''testdata'', tmpl]) = Inr file \<and>
    ReadFile (ce_disk ce) file = Inr raw \<and>
    ce_render ce raw (string_values
      [(''ApiURL'', ''http://'' @ JoinHostPort ep ''8881''), (''EventsURL'', ''http://'' @ JoinHostPort ep ''4318''),
       (''IngestURL'', ''http://'' @ JoinHostPort ep ''9943''), (''OTLPSink'', ''http://'' @ JoinHostPort ep ''4318'')]) = Inr buf \<and>
    (\<exists>plain. ce_unmarshal ce buf = Inr plain \<and>
       applyEnvOverrides (ce_parse_into ce) env plain = Inr (setCollectorImageOverrideEnv env, values)) \<and>
    tr = [HelmInstall ''../../helm-charts/splunk-otel-collector'' (GetDefaultChartOptions sw)
            [(''helm.sh/chart-name'', ''sock'')] values,
          WaitPodsReady ''default'' ''release=sock'' HelmActionTimeout 0]"
proof -
  from assms obtain vf where vf: "path_abs (Inr wd) (path_join [''testdata'', tmpl]) = Inr vf"
    and run: "ChartInstallOrUpgrade ce env kubeConfig vf (string_values (sink_urls ep)) 0 (GetDefaultChartOptions sw) = (tr, Inr ())"
    by (auto simp: BasicCollectorChartInstall_def bind_run_Inr pure_run_Inr)
  from run obtain env' vals where v: "load_values ce env vf (string_values (sink_urls ep)) = Inr (env', vals)"
    by (auto simp: ChartInstallOrUpgrade_def bind_run_Inr pure_run_Inr)
  have e: "env' = setCollectorImageOverrideEnv env" using load_values_env [OF v] .
  then have "env' ''UPGRADE_FROM_VALUES'' = []" using assms(3) by (simp add: setCollectorImageOverrideEnv_other)
  with plain_install_done [OF run v] obtain chart where c: "load_chart ce defaultChartPath = Inr chart"
    "tr = [HelmInstall chart (GetDefaultChartOptions sw) [(''helm.sh/chart-name'', ''sock'')] vals,
       WaitPodsReady ''default'' ''release=sock'' HelmActionTimeout 0]"
    by (auto simp: GetDefaultChartOptions_def chartLabelKey_def DefaultChartReleaseName_def DefaultNamespace_def)
  have "path_join [''..'', ''..'', defaultChartPath] = ''../../helm-charts/splunk-otel-collector''" by code_simp
  with c(1) have "chart = ''../../helm-charts/splunk-otel-collector''"
    by (auto simp: load_chart_def Let_def split: option.splits)
  moreover from v obtain raw buf plain where "ReadFile (ce_disk ce) vf = Inr raw" "ce_render ce raw (string_values (sink_urls ep)) = Inr buf"
    "ce_unmarshal ce buf = Inr plain" "applyEnvOverrides (ce_parse_into ce) env plain = Inr (setCollectorImageOverrideEnv env, vals)"
    unfolding e by (auto simp: load_values_def bind_res_Inr_iff)
  ultimately show ?thesis
    using vf c(2) unfolding sink_urls_def HostPortHTTP_def HostPort_def port_texts api_port_text by blast
qed

lemma sample_basic_install:
  "snd (BasicCollectorChartInstall sample_chart_env (\<lambda>_. []) (Inr ''::1'') (Inr ''/t'') ''watcher'' ''kc'' ''v.yaml'') = Inr ()"
  by (simp add: BasicCollectorChartInstall_def sink_urls_def HostPortHTTP_def HostPort_def port_texts api_port_text) code_simp

lemma BasicCollectorChartInstall_plan_witness:
  "\<exists>values. fst (BasicCollectorChartInstall sample_chart_env (\<lambda>_. []) (Inr ''::1'') (Inr ''/t'') ''watcher'' ''kc'' ''v.yaml'') =
     [HelmInstall ''../../helm-charts/splunk-otel-collector'' (GetDefaultChartOptions ''watcher'')
        [(''helm.sh/chart-name'', ''sock'')] values,
      WaitPodsReady ''default'' ''release=sock'' HelmActionTimeout 0]"
proof -
  obtain tr where tr: "BasicCollectorChartInstall sample_chart_env (\<lambda>_. []) (Inr ''::1'') (Inr ''/t'') ''watcher'' ''kc'' ''v.yaml'' =
      (tr, Inr ())"
    using sample_basic_install by (metis prod.collapse)
  from BasicCollectorChartInstall_plan [OF tr] show ?thesis unfolding tr by auto
qed

text \<open>
  What the chart is told to send to is listened on: each URL of the usual installation has the port of
  the mock API server or of a sink of the default set-up.
\<close>

theorem sink_urls_served:
  assumes "\<And>x. se_answer se x = None"
  shows "\<forall>(name, url) \<in> set (sink_urls hostEp). \<exists>port. url = ''http://'' @ JoinHostPort hostEp port \<and>
    ''0.0.0.0:'' @ port \<in> set (hs_Addr api_server # listeners (SetupOTLPTracesSink se) @
      listeners (SetupSignalfxReceiver se SignalFxReceiverPort))"
  by (auto simp: sink_urls_def HostPortHTTP_def HostPort_def api_server_def SetupOTLPTracesSink_def SetupSignalfxReceiver_def
      setupSignalfxReceiverSink_def listeners_running [OF assms] listen_on_def http_on_def Let_def)

lemma sink_urls_served_witness:
  "''0.0.0.0:8881'' \<in> set (hs_Addr api_server # listeners (SetupOTLPTracesSink sample_sinks) @
      listeners (SetupSignalfxReceiver sample_sinks SignalFxReceiverPort)) \<and>
   (\<forall>(name, url) \<in> set (sink_urls ''::1''). \<exists>port. url = ''http://[::1]:'' @ port)"
proof -
  have "se_answer sample_sinks x = None" for x by (simp add: sample_sinks_def)
  note served = sink_urls_served [OF this, of "''::1''"]
  have "''0.0.0.0:8881'' = hs_Addr api_server" by (simp add: api_server_def api_port_text)
  moreover have "JoinHostPort ''::1'' port = ''[::1]:'' @ port" for port by (simp add: JoinHostPort_def)
  ultimately show ?thesis using served by fastforce
qed

end
