(* ===== verification/PodExec.thy ===== *)
theory PodExec
  imports Pods GoRun
begin

section \<open>Commands in pods and file copies\<close>

text \<open>
  Model of the remote commands of \<open>functional_tests/internal/common.go\<close>: \<open>streamExec\<close>, \<open>ExecInPod\<close>,
  \<open>startFileCopyHelper\<close>, \<open>CopyFileToPod\<close> and \<open>CopyFileFromPod\<close>. The API server and the SPDY executor are
  arguments. The copies are runs: the requests they make are collected in order.
\<close>

subsection \<open>Text\<close>

text \<open>
  \<open>strings.TrimSpace\<close> on UTF-8. \<open>space_at\<close> is the number of bytes of the white space character that
  a text starts with, and \<open>space_before\<close> the same for the end of a text, given in reverse.
\<close>

fun space_rune :: "nat list \<Rightarrow> bool" where
  "space_rune [b] = (b \<in> {9, 10, 11, 12, 13, 32})"
| "space_rune [b, c] = (b = 0xC2 \<and> c \<in> {0x85, 0xA0})"
| "space_rune [b, c, d] =
     ((b, c, d) \<in> {(0xE1, 0x9A, 0x80), (0xE2, 0x80, 0xA8), (0xE2, 0x80, 0xA9),
        (0xE2, 0x80, 0xAF), (0xE2, 0x81, 0x9F), (0xE3, 0x80, 0x80)}
      \<or> b = 0xE2 \<and> c = 0x80 \<and> 0x80 \<le> d \<and> d \<le> 0x8A)"
| "space_rune _ = False"

definition space_at :: "string \<Rightarrow> nat" where
  "space_at s =
     (case List.find (\<lambda>n. n \<le> length s \<and> space_rune (map of_char (take n s))) [1, 2, 3] of
        Some n \<Rightarrow> n | None \<Rightarrow> 0)"

definition space_before :: "string \<Rightarrow> nat" where
  "space_before r =
     (case List.find (\<lambda>n. n \<le> length r \<and> space_rune (map of_char (rev (take n r)))) [1, 2, 3] of
        Some n \<Rightarrow> n | None \<Rightarrow> 0)"

function drop_while_n :: "(string \<Rightarrow> nat) \<Rightarrow> string \<Rightarrow> string" where
  "drop_while_n f s = (if f s = 0 \<or> s = [] then s else drop_while_n f (drop (f s) s))"
  by pat_completeness auto
termination
  by (relation "measure (\<lambda>(f, s). length s)") auto

declare drop_while_n.simps [simp del]

definition trim_space :: "string \<Rightarrow> string" where
  "trim_space s = rev (drop_while_n space_before (rev (drop_while_n space_at s)))"

text \<open>The verb \<open>%v\<close> on a string slice.\<close>

definition show_strings :: "string list \<Rightarrow> string" where
  "show_strings xs = ''['' @ join '' '' xs @ '']''"

text \<open>
  The verb \<open>%q\<close>: a double-quoted Go string literal. Bytes outside ASCII need Go's tables of printable
  characters, which are the argument \<open>uni\<close>.
\<close>

definition hex_digit :: "nat \<Rightarrow> char" where
  "hex_digit n = ''0123456789abcdef'' ! n"

definition quote_char :: "char \<Rightarrow> string" where
  "quote_char c =
     (let b = (of_char c :: nat); esc = CHR 0x5C
      in if b = 0x22 \<or> b = 0x5C then [esc, c]
         else if 0x20 \<le> b \<and> b < 0x7F then [c]
         else if b = 7 then [esc, CHR ''a'']
         else if b = 8 then [esc, CHR ''b'']
         else if b = 12 then [esc, CHR ''f'']
         else if b = 10 then [esc, CHR ''n'']
         else if b = 13 then [esc, CHR ''r'']
         else if b = 9 then [esc, CHR ''t'']
         else if b = 11 then [esc, CHR ''v'']
         else [esc, CHR ''x'', hex_digit (b div 16), hex_digit (b mod 16)])"

definition go_quote :: "(string \<Rightarrow> string) \<Rightarrow> string \<Rightarrow> string" where
  "go_quote uni s =
     CHR 0x22 # (if list_all is_ascii s then concat (map quote_char s) else uni s) @ [CHR 0x22]"

subsection \<open>Remote commands\<close>

record exec_request =
  xr_namespace :: string
  xr_pod :: string
  xr_container :: string
  xr_command :: "string list"
  xr_stdin :: bool
  xr_stdout :: bool
  xr_stderr :: bool
  xr_tty :: bool

text \<open>
  What becomes of a request: the executor cannot be built, or the stream ends with an error or
  well, after bytes on the standard output (and on the error output).
\<close>

datatype exec_answer =
    NoExecutor string
  | StreamError string string string \<comment> \<open>output, error output, error\<close>
  | StreamEnd string

definition exec_request_of :: "string \<Rightarrow> string \<Rightarrow> string \<Rightarrow> string list \<Rightarrow> bool \<Rightarrow> exec_request" where
  "exec_request_of namespace podName containerName command stdin =
     \<lparr>xr_namespace = namespace, xr_pod = podName, xr_container = containerName, xr_command = command,
      xr_stdin = stdin, xr_stdout = True, xr_stderr = True, xr_tty = False\<rparr>"

text \<open>The bytes that reach the writer \<open>stdout\<close>, and the returned error.\<close>

definition streamExec ::
  "(exec_request \<Rightarrow> exec_answer) \<Rightarrow> string \<Rightarrow> string \<Rightarrow> string \<Rightarrow> string list \<Rightarrow> bool \<Rightarrow> string \<times> string option"
where
  "streamExec cluster namespace podName containerName command stdin =
     (case cluster (exec_request_of namespace podName containerName command stdin) of
        NoExecutor e \<Rightarrow> ([], Some (''failed to create SPDY executor: '' @ e))
      | StreamError out stderr e \<Rightarrow>
          (out, Some (''exec '' @ show_strings command @ '' failed: '' @ e @ '' (stderr: '' @ trim_space stderr @ '')''))
      | StreamEnd out \<Rightarrow> (out, None))"

definition ExecInPod ::
  "(exec_request \<Rightarrow> exec_answer) \<Rightarrow> string \<Rightarrow> string \<Rightarrow> string \<Rightarrow> string list \<Rightarrow> string \<times> string option"
where
  "ExecInPod cluster namespace podName containerName command =
     (case streamExec cluster namespace podName containerName command False of
        (stdout, err) \<Rightarrow> (stdout, err))"

subsection \<open>The helper container\<close>

record ephemeral_container =
  ec_Name :: string
  ec_Image :: string
  ec_ImagePullPolicy :: string
  ec_Command :: "string list"
  ec_VolumeMounts :: "(string \<times> string) list"
  ec_AllowPrivilegeEscalation :: "bool option"
  ec_ReadOnlyRootFilesystem :: "bool option"
  ec_Drop :: "string list"
  ec_Seccomp :: string

definition fileCopyHelperImage :: string where
  "fileCopyHelperImage = ''busybox:1.38.0''"

definition boolPtr :: "bool \<Rightarrow> bool option" where
  "boolPtr b = Some b"

definition copy_helper :: "string \<Rightarrow> string \<Rightarrow> string \<Rightarrow> ephemeral_container" where
  "copy_helper helperName volumeName mountPath =
     \<lparr>ec_Name = helperName, ec_Image = fileCopyHelperImage, ec_ImagePullPolicy = ''IfNotPresent'',
      ec_Command = [''sleep'', ''600''], ec_VolumeMounts = [(volumeName, mountPath)],
      ec_AllowPrivilegeEscalation = boolPtr False, ec_ReadOnlyRootFilesystem = boolPtr True,
      ec_Drop = [''ALL''], ec_Seccomp = ''RuntimeDefault''\<rparr>"

datatype pod_action =
    UpdateEphemeral string string "ephemeral_container list" \<comment> \<open>namespace, pod, containers\<close>
  | Exec exec_request string \<comment> \<open>with what is sent to the standard input\<close>

text \<open>
  The environment of a copy: the pod with the ephemeral containers it has already, the clock in
  nanoseconds, the answer to the update, and the statuses seen by the polls until they give up.
\<close>

record helper_env =
  he_pod :: "(pod \<times> ephemeral_container list) result"
  he_now :: int
  he_update :: "ephemeral_container list \<Rightarrow> string option"
  he_polls :: "(string \<times> container_state) list result list"

definition startFileCopyHelper ::
  "helper_env \<Rightarrow> string \<Rightarrow> string \<Rightarrow> string \<Rightarrow> string \<Rightarrow> (pod_action, string) run"
where
  "startFileCopyHelper he namespace podName targetContainer absPath =
     bind_run (pure_run (he_pod he)) (\<lambda>(p, ephemeral).
     bind_run (pure_run (case findVolumeMountForPath p targetContainer absPath of
         None \<Rightarrow> Inl (''no volume mount in container '' @ targetContainer @ '' backs path '' @ absPath)
       | Some v \<Rightarrow> Inr v)) (\<lambda>(volumeName, mountPath).
       (let helperName = ''file-copy-helper-'' @ itoa_int (he_now he);
            containers = ephemeral @ [copy_helper helperName volumeName mountPath]
        in bind_run ([UpdateEphemeral namespace podName containers],
             case he_update he containers of Some e \<Rightarrow> Inl e | None \<Rightarrow> Inr ()) (\<lambda>_.
           pure_run (if eventually_checks (helper_check helperName) (he_polls he) ()
             then Inr helperName
             else Inl (''ephemeral helper '' @ helperName @ '' did not start in pod '' @ podName))))))"

subsection \<open>Copies\<close>

text \<open>
  One attempt to copy from a pod: the error of \<open>os.Create\<close>, the answer of the cluster, and the error of
  \<open>Stat\<close>. \<open>Create\<close> empties the local file, so that its size afterwards is what the command printed.
\<close>

record copy_from_obs =
  cf_created :: "string option"
  cf_cluster :: "exec_request \<Rightarrow> exec_answer"
  cf_stat :: "string option"

text \<open>The request that is made; without an executor there is none.\<close>

definition exec_action :: "exec_answer \<Rightarrow> exec_request \<Rightarrow> string \<Rightarrow> pod_action list" where
  "exec_action answer req stdin = (case answer of NoExecutor e \<Rightarrow> [] | _ \<Rightarrow> [Exec req stdin])"

text \<open>The value of the run is the content of the local file.\<close>

fun copy_from_loop ::
  "bool \<Rightarrow> string \<Rightarrow> string \<Rightarrow> string \<Rightarrow> string list \<Rightarrow> copy_from_obs list \<Rightarrow> (pod_action, string) run"
where
  "copy_from_loop isWindows namespace podName execContainer command [] =
     ([], Inl (''failed to copy file from pod '' @ podName))"
| "copy_from_loop isWindows namespace podName execContainer command (ob # obs) =
     (case cf_created ob of
        Some e \<Rightarrow> copy_from_loop isWindows namespace podName execContainer command obs
      | None \<Rightarrow>
          (case streamExec (cf_cluster ob) namespace podName execContainer command False of
             (out, err) \<Rightarrow>
               let req = exec_request_of namespace podName execContainer command False
               in bind_run (exec_action (cf_cluster ob req) req [], Inr ()) (\<lambda>_.
                 if copy_from_check isWindows None err (case cf_stat ob of Some e \<Rightarrow> None | None \<Rightarrow> Some (int (length out)))
                 then pure_run (Inr out)
                 else copy_from_loop isWindows namespace podName execContainer command obs)))"

definition CopyFileFromPod ::
  "helper_env \<Rightarrow> string \<Rightarrow> string \<Rightarrow> string \<Rightarrow> string \<Rightarrow> copy_from_obs list \<Rightarrow> (pod_action, string) run"
where
  "CopyFileFromPod he namespace podName containerName podFilePath obs =
     (case copy_from_command podFilePath of
        (inHelper, command) \<Rightarrow>
          bind_run (if inHelper then startFileCopyHelper he namespace podName containerName podFilePath
                    else pure_run (Inr containerName)) (\<lambda>execContainer.
            copy_from_loop (\<not> inHelper) namespace podName execContainer command obs))"

text \<open>One attempt to copy to a pod: the content of the local file, if it opens, and the cluster's answer.\<close>

record copy_to_obs =
  ct_opened :: "string result"
  ct_cluster :: "exec_request \<Rightarrow> exec_answer"

definition copy_to_command :: "(string \<Rightarrow> string) \<Rightarrow> string \<Rightarrow> string list" where
  "copy_to_command uni remoteFilePath =
     [''sh'', ''-c'', ''mkdir -p '' @ go_quote uni (path_dir remoteFilePath) @ '' && cat > '' @ go_quote uni remoteFilePath]"

fun copy_to_loop ::
  "string \<Rightarrow> string \<Rightarrow> string \<Rightarrow> string list \<Rightarrow> copy_to_obs list \<Rightarrow> (pod_action, unit) run"
where
  "copy_to_loop namespace podName helper command [] = ([], Inl (''failed to copy file to pod '' @ podName))"
| "copy_to_loop namespace podName helper command (ob # obs) =
     (case ct_opened ob of
        Inl e \<Rightarrow> copy_to_loop namespace podName helper command obs
      | Inr content \<Rightarrow>
          let req = exec_request_of namespace podName helper command True
          in bind_run (exec_action (ct_cluster ob req) req content, Inr ()) (\<lambda>_.
            if copy_to_check None (snd (streamExec (ct_cluster ob) namespace podName helper command True))
            then pure_run (Inr ())
            else copy_to_loop namespace podName helper command obs))"

definition CopyFileToPod ::
  "(string \<Rightarrow> string) \<Rightarrow> helper_env \<Rightarrow> string \<Rightarrow> string \<Rightarrow> string \<Rightarrow> string \<Rightarrow> copy_to_obs list \<Rightarrow> (pod_action, unit) run"
where
  "CopyFileToPod uni he namespace podName containerName remoteFilePath obs =
     bind_run (startFileCopyHelper he namespace podName containerName remoteFilePath) (\<lambda>helper.
       copy_to_loop namespace podName helper (copy_to_command uni remoteFilePath) obs)"

section \<open>Facts\<close>

lemma startFileCopyHelper_Inr:
  assumes "startFileCopyHelper he namespace podName c path = (tr, Inr helper)"
  obtains p ephemeral v mp where "he_pod he = Inr (p, ephemeral)" "findVolumeMountForPath p c path = Some (v, mp)"
    "helper = ''file-copy-helper-'' @ itoa_int (he_now he)"
    "tr = [UpdateEphemeral namespace podName (ephemeral @ [copy_helper helper v mp])]"
  using assms
  by (auto simp: startFileCopyHelper_def bind_run_Inr pure_run_Inr Let_def split: option.splits if_splits sum.splits)

lemma helper_runs:
  assumes "startFileCopyHelper he namespace podName c path = (tr, Inr helper)"
  shows "\<exists>sts. Inr sts \<in> set (he_polls he) \<and> List.find (\<lambda>(n, st). n = helper) sts = Some (helper, Running)"
proof -
  have "helper_statuses helper sts = Check True \<Longrightarrow> List.find (\<lambda>(n, st). n = helper) sts = Some (helper, Running)" for sts
    by (induction sts) (auto split: if_splits container_state.splits)
  then have "eventually_checks (helper_check helper) polls () \<Longrightarrow>
      \<exists>sts. Inr sts \<in> set polls \<and> List.find (\<lambda>(n, st). n = helper) sts = Some (helper, Running)" for polls
    by (induction polls) (auto simp: helper_check_def split: sum.splits check.splits bool.splits)
  with assms show ?thesis
    by (auto simp: startFileCopyHelper_def bind_run_Inr pure_run_Inr Let_def split: option.splits if_splits sum.splits)
qed

lemma copy_from_loop_Inr:
  assumes "copy_from_loop w namespace podName ex command obs = (tr, Inr content)"
  shows "(\<exists>k > 0. tr = replicate k (Exec (exec_request_of namespace podName ex command False) [])) \<and>
    (\<exists>ob \<in> set obs. cf_created ob = None \<and> cf_stat ob = None \<and> content \<noteq> [] \<and>
       (\<exists>err. streamExec (cf_cluster ob) namespace podName ex command False = (content, err) \<and>
          (case err of None \<Rightarrow> True | Some e \<Rightarrow> w \<and> contains e winControlCExitCode)))"
  using assms
proof (induction obs arbitrary: tr)
  case (Cons ob obs)
  let ?req = "exec_request_of namespace podName ex command False"
  let ?x = "Exec ?req []"
  show ?case
  proof (cases "cf_created ob")
    case None
    obtain out err where se: "streamExec (cf_cluster ob) namespace podName ex command False = (out, err)" by fastforce
    let ?size = "case cf_stat ob of Some e \<Rightarrow> None | None \<Rightarrow> Some (int (length out))"
    show ?thesis
    proof (cases "copy_from_check w None err ?size")
      case True
      then have "out \<noteq> []" by (auto simp: copy_from_check_def split: option.splits if_splits)
      with se have "exec_action (cf_cluster ob ?req) ?req [] = [?x]"
        by (auto simp: exec_action_def streamExec_def split: exec_answer.splits)
      with Cons.prems None se True have "tr = replicate 1 ?x" "content = out" by (simp_all add: bind_run_def pure_run_def Let_def)
      with True None se show ?thesis by (force simp: copy_from_check_def split: option.splits if_splits)
    next
      case False
      with Cons.prems None se obtain ys where ys:
        "copy_from_loop w namespace podName ex command obs = (ys, Inr content)" "tr = ys \<or> tr = ?x # ys"
        by (auto simp: bind_run_def exec_action_def Let_def split: prod.splits exec_answer.splits)
      with Cons.IH [of ys] obtain k where "0 < k" "ys = replicate k ?x" by blast
      with ys(2) have "\<exists>k > 0. tr = replicate k ?x" by (metis replicate_Suc zero_less_Suc)
      with Cons.IH [OF ys(1)] show ?thesis by (metis list.set_intros(2))
    qed
  next
    case (Some e)
    with Cons show ?thesis by auto
  qed
qed simp

lemma copy_to_loop_Inr:
  assumes "copy_to_loop namespace podName ex command obs = (tr, Inr ())"
  shows "\<exists>ob content out. ob \<in> set obs \<and> ct_opened ob = Inr content \<and>
    ct_cluster ob (exec_request_of namespace podName ex command True) = StreamEnd out \<and>
    tr \<noteq> [] \<and> last tr = Exec (exec_request_of namespace podName ex command True) content \<and>
    (\<forall>x \<in> set tr. \<exists>content. x = Exec (exec_request_of namespace podName ex command True) content)"
  using assms
proof (induction obs arbitrary: tr)
  case (Cons ob obs)
  let ?req = "exec_request_of namespace podName ex command True"
  let ?x = "Exec ?req"
  show ?case
  proof (cases "ct_opened ob")
    case (Inr content)
    show ?thesis
    proof (cases "copy_to_check None (snd (streamExec (ct_cluster ob) namespace podName ex command True))")
      case True
      then have "exec_action (ct_cluster ob ?req) ?req content = [?x content]"
        by (auto simp: copy_to_check_def streamExec_def exec_action_def split: exec_answer.splits)
      with True Cons.prems Inr have "tr = [?x content]" by (simp add: bind_run_def pure_run_def Let_def)
      with True Inr show ?thesis
        by (auto simp: copy_to_check_def streamExec_def split: exec_answer.splits)
    next
      case False
      with Cons.prems Inr obtain ys where
        "copy_to_loop namespace podName ex command obs = (ys, Inr ())" "tr = ys \<or> tr = ?x content # ys"
        by (auto simp: bind_run_def exec_action_def Let_def split: prod.splits exec_answer.splits)
      with Cons.IH [of ys] show ?thesis by fastforce
    qed
  next
    case (Inl e)
    with Cons show ?thesis by fastforce
  qed
qed simp

lemma copy_from_helper:
  assumes "has_prefix path ''/''" and "CopyFileFromPod he namespace podName c path obs = (tr, Inr content)"
  shows "content \<noteq> [] \<and>
    (\<exists>p ephemeral v mp helper k ob. he_pod he = Inr (p, ephemeral) \<and> findVolumeMountForPath p c path = Some (v, mp) \<and>
       tr = UpdateEphemeral namespace podName (ephemeral @ [copy_helper helper v mp]) #
         replicate (Suc k) (Exec (exec_request_of namespace podName helper [''cat'', path] False) []) \<and>
       ob \<in> set obs \<and> cf_cluster ob (exec_request_of namespace podName helper [''cat'', path] False) = StreamEnd content)"
proof -
  from assms obtain xs helper ys where
    h: "startFileCopyHelper he namespace podName c path = (xs, Inr helper)"
    and l: "copy_from_loop False namespace podName helper [''cat'', path] obs = (ys, Inr content)" "tr = xs @ ys"
    by (auto simp: CopyFileFromPod_def copy_from_command_def bind_run_Inr)
  from copy_from_loop_Inr [OF l(1)] obtain k ob where
    k: "0 < k" "ys = replicate k (Exec (exec_request_of namespace podName helper [''cat'', path] False) [])"
    and ob: "ob \<in> set obs" "content \<noteq> []" "streamExec (cf_cluster ob) namespace podName helper [''cat'', path] False = (content, None)"
    by (auto split: option.splits)
  from ob(3) have "cf_cluster ob (exec_request_of namespace podName helper [''cat'', path] False) = StreamEnd content"
    by (auto simp: streamExec_def split: exec_answer.splits)
  moreover from k obtain n where "ys = replicate (Suc n) (Exec (exec_request_of namespace podName helper [''cat'', path] False) [])"
    using gr0_implies_Suc by blast
  ultimately obtain n where n: "ys = replicate (Suc n) (Exec (exec_request_of namespace podName helper [''cat'', path] False) [])"
    and e: "cf_cluster ob (exec_request_of namespace podName helper [''cat'', path] False) = StreamEnd content" by blast
  obtain p ephemeral v mp where "he_pod he = Inr (p, ephemeral)" "findVolumeMountForPath p c path = Some (v, mp)"
    "xs = [UpdateEphemeral namespace podName (ephemeral @ [copy_helper helper v mp])]"
    using startFileCopyHelper_Inr [OF h] by metis
  then have "he_pod he = Inr (p, ephemeral) \<and> findVolumeMountForPath p c path = Some (v, mp) \<and>
      tr = UpdateEphemeral namespace podName (ephemeral @ [copy_helper helper v mp]) #
        replicate (Suc n) (Exec (exec_request_of namespace podName helper [''cat'', path] False) []) \<and>
      ob \<in> set obs \<and> cf_cluster ob (exec_request_of namespace podName helper [''cat'', path] False) = StreamEnd content"
    using n e ob(1) l(2) by (simp del: replicate.simps)
  with ob(2) show ?thesis by blast
qed

lemma copy_from_windows:
  assumes "\<not> has_prefix path ''/''" and "CopyFileFromPod he namespace podName c path obs = (tr, Inr content)"
  shows "content \<noteq> [] \<and>
    (\<exists>k ob err. tr = replicate (Suc k)
         (Exec (exec_request_of namespace podName c [''cmd.exe'', ''/c'', ''type'', path] False) []) \<and>
       ob \<in> set obs \<and>
       streamExec (cf_cluster ob) namespace podName c [''cmd.exe'', ''/c'', ''type'', path] False = (content, err) \<and>
       (case err of None \<Rightarrow> True | Some e \<Rightarrow> contains e ''3221225786''))"
proof -
  from assms have "copy_from_loop True namespace podName c [''cmd.exe'', ''/c'', ''type'', path] obs = (tr, Inr content)"
    by (auto simp: CopyFileFromPod_def copy_from_command_def bind_run_Inr pure_run_Inr)
  from copy_from_loop_Inr [OF this] obtain k ob err where
    k: "0 < k" "tr = replicate k (Exec (exec_request_of namespace podName c [''cmd.exe'', ''/c'', ''type'', path] False) [])"
    and ob: "ob \<in> set obs" "content \<noteq> []"
      "streamExec (cf_cluster ob) namespace podName c [''cmd.exe'', ''/c'', ''type'', path] False = (content, err)"
      "case err of None \<Rightarrow> True | Some e \<Rightarrow> contains e ''3221225786''"
    by (force simp: winControlCExitCode_def split: option.splits)
  from k(1) obtain n where "k = Suc n" using gr0_implies_Suc by blast
  with k(2) ob show ?thesis by blast
qed

section \<open>Properties\<close>

text \<open>
  C29: a successful copy from a pod: the local file holds, not empty, all that the command of one attempt
  printed. For an absolute path it was \<open>cat\<close> of that path and it ended well, in a helper container
  that was attached first, next to the ones there were, and mounts a volume that backs the path. For any
  other path it was the Windows command in the container itself, with nothing attached, and it ended
  well or with the benign exit code in its error.
\<close>

theorem CopyFileFromPod_copies:
  assumes "CopyFileFromPod he namespace podName c path obs = (tr, Inr content)"
  shows "content \<noteq> [] \<and>
    (if has_prefix path ''/''
     then \<exists>p ephemeral v mp helper k ob. he_pod he = Inr (p, ephemeral) \<and> findVolumeMountForPath p c path = Some (v, mp) \<and>
       tr = UpdateEphemeral namespace podName (ephemeral @ [copy_helper helper v mp]) #
         replicate (Suc k) (Exec (exec_request_of namespace podName helper [''cat'', path] False) []) \<and>
       ob \<in> set obs \<and> cf_cluster ob (exec_request_of namespace podName helper [''cat'', path] False) = StreamEnd content
     else \<exists>k ob err. tr = replicate (Suc k)
         (Exec (exec_request_of namespace podName c [''cmd.exe'', ''/c'', ''type'', path] False) []) \<and>
       ob \<in> set obs \<and>
       streamExec (cf_cluster ob) namespace podName c [''cmd.exe'', ''/c'', ''type'', path] False = (content, err) \<and>
       (case err of None \<Rightarrow> True | Some e \<Rightarrow> contains e ''3221225786''))"
  using copy_from_helper [OF _ assms] copy_from_windows [OF _ assms]
  by (cases "has_prefix path ''/''") (simp_all del: replicate.simps)

definition sample_helper :: helper_env where
  "sample_helper =
     \<lparr>he_pod = Inr (sample_pod ''/var'', []), he_now = 7, he_update = (\<lambda>_. None),
      he_polls = [Inr [], Inr [(''file-copy-helper-7'', Running)]]\<rparr>"

definition sample_copy_from :: "copy_from_obs list" where
  "sample_copy_from =
     [\<lparr>cf_created = None, cf_cluster = (\<lambda>_. StreamEnd []), cf_stat = None\<rparr>,
      \<lparr>cf_created = None, cf_cluster = (\<lambda>_. StreamEnd ''log''), cf_stat = None\<rparr>]"

lemma CopyFileFromPod_copies_witness:
  "\<exists>v mp. findVolumeMountForPath (sample_pod ''/var'') ''otel-collector'' ''/var/log/x'' = Some (v, mp) \<and>
     hd (fst (CopyFileFromPod sample_helper ''default'' ''agent'' ''otel-collector'' ''/var/log/x'' sample_copy_from)) =
       UpdateEphemeral ''default'' ''agent'' [copy_helper ''file-copy-helper-7'' v mp]"
proof -
  have r: "snd (CopyFileFromPod sample_helper ''default'' ''agent'' ''otel-collector'' ''/var/log/x'' sample_copy_from) = Inr ''log''"
    by code_simp
  obtain tr where tr: "CopyFileFromPod sample_helper ''default'' ''agent'' ''otel-collector'' ''/var/log/x'' sample_copy_from = (tr, Inr ''log'')"
    using r by (metis prod.collapse)
  have h: "hd (fst (CopyFileFromPod sample_helper ''default'' ''agent'' ''otel-collector'' ''/var/log/x'' sample_copy_from)) =
      UpdateEphemeral ''default'' ''agent'' [copy_helper ''file-copy-helper-7'' ''logs'' ''/var/log'']"
    by code_simp
  have "has_prefix ''/var/log/x'' ''/''" by code_simp
  with CopyFileFromPod_copies [OF tr] obtain p ephemeral v mp helper k where
    p: "he_pod sample_helper = Inr (p, ephemeral)" "findVolumeMountForPath p ''otel-collector'' ''/var/log/x'' = Some (v, mp)"
    and t: "tr = UpdateEphemeral ''default'' ''agent'' (ephemeral @ [copy_helper helper v mp]) #
      replicate (Suc k) (Exec (exec_request_of ''default'' ''agent'' helper [''cat'', ''/var/log/x''] False) [])"
    by (simp del: replicate.simps) blast
  from t h tr have "copy_helper helper v mp = copy_helper ''file-copy-helper-7'' ''logs'' ''/var/log''" by simp
  then have "v = ''logs''" "mp = ''/var/log''" by (simp_all add: copy_helper_def)
  with p h show ?thesis by (simp add: sample_helper_def)
qed

text \<open>
  A successful copy to a pod: a helper container that mounts a volume backing the path was attached and
  seen running, and the last request piped the content of the local file, as it was read for that
  attempt, into the command, which ended well. Nothing but that command was run, and only in the helper.
\<close>

theorem CopyFileToPod_sends:
  assumes "CopyFileToPod uni he namespace podName c path obs = (tr, Inr ())"
  shows "\<exists>p ephemeral v mp helper xs ob content out.
    he_pod he = Inr (p, ephemeral) \<and> findVolumeMountForPath p c path = Some (v, mp) \<and>
    tr = UpdateEphemeral namespace podName (ephemeral @ [copy_helper helper v mp]) # xs \<and>
    (\<exists>sts. Inr sts \<in> set (he_polls he) \<and> (helper, Running) \<in> set sts) \<and>
    ob \<in> set obs \<and> ct_opened ob = Inr content \<and>
    ct_cluster ob (exec_request_of namespace podName helper (copy_to_command uni path) True) = StreamEnd out \<and>
    xs \<noteq> [] \<and> last xs = Exec (exec_request_of namespace podName helper (copy_to_command uni path) True) content \<and>
    list_all (\<lambda>x. \<exists>content. x = Exec (exec_request_of namespace podName helper (copy_to_command uni path) True) content) xs"
proof -
  from assms obtain as helper xs where h: "startFileCopyHelper he namespace podName c path = (as, Inr helper)"
    and l: "copy_to_loop namespace podName helper (copy_to_command uni path) obs = (xs, Inr ())" and tr: "tr = as @ xs"
    by (auto simp: CopyFileToPod_def bind_run_Inr)
  obtain p ephemeral v mp where p: "he_pod he = Inr (p, ephemeral)" "findVolumeMountForPath p c path = Some (v, mp)"
    "as = [UpdateEphemeral namespace podName (ephemeral @ [copy_helper helper v mp])]"
    using startFileCopyHelper_Inr [OF h] by metis
  from helper_runs [OF h] obtain sts where sts: "Inr sts \<in> set (he_polls he)" "(helper, Running) \<in> set sts"
    by (metis find_Some_iff nth_mem)
  from copy_to_loop_Inr [OF l] obtain ob content out where
    o: "ob \<in> set obs" "ct_opened ob = Inr content"
      "ct_cluster ob (exec_request_of namespace podName helper (copy_to_command uni path) True) = StreamEnd out"
      "xs \<noteq> []" "last xs = Exec (exec_request_of namespace podName helper (copy_to_command uni path) True) content"
      "list_all (\<lambda>x. \<exists>content. x = Exec (exec_request_of namespace podName helper (copy_to_command uni path) True) content) xs"
    unfolding list_all_iff by blast
  have "tr = UpdateEphemeral namespace podName (ephemeral @ [copy_helper helper v mp]) # xs" using tr p(3) by simp
  with p sts o show ?thesis by blast
qed

definition sample_copy_to :: "copy_to_obs list" where
  "sample_copy_to =
     [\<lparr>ct_opened = Inl ''locked'', ct_cluster = (\<lambda>_. StreamEnd [])\<rparr>, \<lparr>ct_opened = Inr ''data'', ct_cluster = (\<lambda>_. StreamEnd [])\<rparr>]"

lemma CopyFileToPod_sends_witness:
  "\<exists>helper. fst (CopyFileToPod (\<lambda>s. s) sample_helper ''default'' ''agent'' ''otel-collector'' ''/var/log/x'' sample_copy_to) \<noteq> [] \<and>
     last (fst (CopyFileToPod (\<lambda>s. s) sample_helper ''default'' ''agent'' ''otel-collector'' ''/var/log/x'' sample_copy_to)) =
       Exec (exec_request_of ''default'' ''agent'' helper (copy_to_command (\<lambda>s. s) ''/var/log/x'') True) ''data''"
proof -
  let ?run = "CopyFileToPod (\<lambda>s. s) sample_helper ''default'' ''agent'' ''otel-collector'' ''/var/log/x'' sample_copy_to"
  have "snd ?run = Inr ()" by code_simp
  then obtain tr where tr: "?run = (tr, Inr ())" by (metis prod.collapse)
  from CopyFileToPod_sends [OF tr] obtain xs helper ob content as where
    x: "tr = as # xs" "ob \<in> set sample_copy_to" "ct_opened ob = Inr content" "xs \<noteq> []"
      "last xs = Exec (exec_request_of ''default'' ''agent'' helper (copy_to_command (\<lambda>s. s) ''/var/log/x'') True) content"
    by blast
  from x(2,3) have "content = ''data''" by (auto simp: sample_copy_to_def)
  with x tr show ?thesis by auto
qed

text \<open>What \<open>%q\<close> makes of a text of plain characters, and of a dollar sign, which the shell then expands.\<close>

lemma go_quote_plain:
  assumes "list_all (\<lambda>c. 0x20 \<le> (of_char c :: nat) \<and> (of_char c :: nat) < 0x7F \<and> c \<noteq> CHR 0x22 \<and> c \<noteq> CHR 0x5C) s"
  shows "go_quote uni s = CHR 0x22 # s @ [CHR 0x22]"
proof -
  have "list_all is_ascii s"
    by (rule list.pred_mono_strong [OF assms]) (simp add: is_ascii_def)
  moreover have "quote_char c = [c]" if "c \<in> set s" for c
  proof -
    have c: "0x20 \<le> (of_char c :: nat)" "(of_char c :: nat) < 0x7F" "c \<noteq> CHR 0x22" "c \<noteq> CHR 0x5C"
      using assms that unfolding list_all_iff by blast+
    have q: "(of_char c :: nat) \<noteq> of_char (CHR 0x22)" "(of_char c :: nat) \<noteq> of_char (CHR 0x5C)"
      using c(3,4) by (simp_all only: of_char_eq_iff not_False_eq_True)
    have n: "(of_char (CHR 0x22) :: nat) = 0x22" "(of_char (CHR 0x5C) :: nat) = 0x5C" by simp_all
    from q have "(of_char c :: nat) \<noteq> 0x22" "(of_char c :: nat) \<noteq> 0x5C" unfolding n by blast+
    with c(1,2) show ?thesis by (simp add: quote_char_def Let_def)
  qed
  then have "concat (map quote_char s) = s" by (induction s) auto
  ultimately show ?thesis by (simp add: go_quote_def)
qed

lemma copy_to_dollar:
  "copy_to_command uni ''/d/$x'' =
     [''sh'', ''-c'', ''mkdir -p '' @ [CHR 0x22] @ ''/d'' @ [CHR 0x22] @ '' && cat > '' @ [CHR 0x22] @ ''/d/$x'' @ [CHR 0x22]]"
  by (simp add: copy_to_command_def go_quote_plain) code_simp

end
