(* ===== verification/Helpers.thy ===== *)
theory Helpers
  imports Pods DataProcessing
begin

section \<open>Metric checks of the functional tests\<close>

text \<open>
  Model of \<open>functional_tests/functional/helpers.go\<close>: the predicates on attributes and data points, and
  \<open>checkMetrics\<close>, whose polled closure remembers in \<open>metricsToFind\<close> what earlier checks have found.
\<close>

definition requireEnv :: "(string \<rightharpoonup> string) \<Rightarrow> string \<Rightarrow> string result" where
  "requireEnv env key =
     (case env key of
        Some value \<Rightarrow> Inr value
      | None \<Rightarrow> Inl (''the environment variable '' @ key @ '' must be set''))"

definition hasAttrMatch :: "attrs \<Rightarrow> string \<Rightarrow> string \<Rightarrow> bool" where
  "hasAttrMatch m key expected = (case attr_get m key of Some v \<Rightarrow> attr_str v = expected | None \<Rightarrow> False)"

fun any_point :: "(attrs \<Rightarrow> bool) \<Rightarrow> datapoint list \<Rightarrow> bool" where
  "any_point predicate [] = False"
| "any_point predicate (dp # dps) = (if predicate (dp_attributes dp) then True else any_point predicate dps)"

fun any_data_point :: "(attrs \<Rightarrow> bool) \<Rightarrow> metric_data \<Rightarrow> bool" where
  "any_data_point predicate (Gauge dps) = any_point predicate dps"
| "any_data_point predicate (Sum dps) = any_point predicate dps"
| "any_data_point predicate (Histogram dps) = any_point predicate dps"
| "any_data_point predicate (Summary dps) = any_point predicate dps"
| "any_data_point predicate (ExponentialHistogram dps) = any_point predicate dps"
| "any_data_point predicate NoData = False"

definition anyDataPointMatches :: "metric \<Rightarrow> (attrs \<Rightarrow> bool) \<Rightarrow> bool" where
  "anyDataPointMatches m predicate = any_data_point predicate (metric_data m)"

definition metricDataPointsHaveKey :: "metric \<Rightarrow> string \<Rightarrow> bool" where
  "metricDataPointsHaveKey m key = anyDataPointMatches m (\<lambda>a. attr_get a key \<noteq> None)"

text \<open>The loop steps over pairs; a last key without a value is not looked at.\<close>

fun have_pairs :: "attrs \<Rightarrow> string list \<Rightarrow> bool" where
  "have_pairs a (k # v # rest) = (if \<not> hasAttrMatch a k v then False else have_pairs a rest)"
| "have_pairs a _ = True"

definition metricDataPointsHaveAttrs :: "metric \<Rightarrow> string list \<Rightarrow> bool" where
  "metricDataPointsHaveAttrs m kvPairs = anyDataPointMatches m (\<lambda>a. have_pairs a kvPairs)"

text \<open>
  \<open>metricsToFind\<close> is a Go map from names to booleans. A check walks the whole sink and marks the
  names of the metrics that match; \<open>match\<close> is \<^const>\<open>None\<close> for a nil function.
\<close>

type_synonym to_find = "(string \<times> bool) list"

type_synonym match_fn = "(attrs \<Rightarrow> metric \<Rightarrow> bool) option"

definition accepts :: "match_fn \<Rightarrow> attrs \<Rightarrow> metric \<Rightarrow> bool" where
  "accepts match resAttrs m = (case match of None \<Rightarrow> True | Some f \<Rightarrow> f resAttrs m)"

definition mark_found :: "match_fn \<Rightarrow> attrs \<Rightarrow> to_find \<Rightarrow> metric \<Rightarrow> to_find" where
  "mark_found match resAttrs found m =
     (if accepts match resAttrs m then AList.update (metric_name m) True found else found)"

definition scan_resource :: "match_fn \<Rightarrow> to_find \<Rightarrow> resource_metrics \<Rightarrow> to_find" where
  "scan_resource match found rm =
     foldl (\<lambda>found sm. foldl (mark_found match (rm_attributes rm)) found (sm_metrics sm)) found (rm_scopes rm)"

definition scan_sink :: "match_fn \<Rightarrow> to_find \<Rightarrow> metrics list \<Rightarrow> to_find" where
  "scan_sink match found payloads = foldl (\<lambda>found m. foldl (scan_resource match) found m) found payloads"

definition is_found :: "to_find \<Rightarrow> string \<Rightarrow> bool" where
  "is_found found name = (case map_of found name of Some b \<Rightarrow> b | None \<Rightarrow> False)"

definition find_check :: "string list \<Rightarrow> match_fn \<Rightarrow> metrics list \<Rightarrow> to_find \<Rightarrow> check \<times> to_find" where
  "find_check metricNames match payloads found =
     (let found' = scan_sink match found payloads;
          stillMissing = filter (\<lambda>name. \<not> is_found found' name) metricNames
      in (Check (length stillMissing = 0), found'))"

definition checkMetrics :: "string list \<Rightarrow> match_fn \<Rightarrow> metrics list list \<Rightarrow> bool" where
  "checkMetrics metricNames match sinks =
     eventually_checks (find_check metricNames match) sinks
       (foldl (\<lambda>m name. AList.update name False m) [] metricNames)"

definition checkMetricsAreEmitted :: "string list \<Rightarrow> metrics list list \<Rightarrow> bool" where
  "checkMetricsAreEmitted metricNames sinks = checkMetrics metricNames None sinks"

section \<open>Facts\<close>

lemma any_point_iff: "any_point P dps \<longleftrightarrow> (\<exists>dp \<in> set dps. P (dp_attributes dp))"
  by (induction dps) auto

lemma anyDataPointMatches_iff:
  "anyDataPointMatches m P \<longleftrightarrow> (\<exists>dp \<in> set (data_points (metric_data m)). P (dp_attributes dp))"
  by (cases "metric_data m") (auto simp: anyDataPointMatches_def any_point_iff)

lemma have_pairs_iff:
  "have_pairs a kvs \<longleftrightarrow> (\<forall>i < length kvs div 2. hasAttrMatch a (kvs ! (2 * i)) (kvs ! (2 * i + 1)))"
proof (induction a kvs rule: have_pairs.induct)
  case (1 a k v rest)
  have "(\<forall>i < Suc (length rest div 2). hasAttrMatch a ((k # v # rest) ! (2 * i)) ((k # v # rest) ! (2 * i + 1))) \<longleftrightarrow>
      hasAttrMatch a k v \<and> (\<forall>i < length rest div 2. hasAttrMatch a (rest ! (2 * i)) (rest ! (2 * i + 1)))"
    by (simp add: All_less_Suc2)
  with 1 show ?case by simp
qed auto

text \<open>A name is found if it was before, or if the payloads have a matching metric with it.\<close>

definition emits :: "match_fn \<Rightarrow> metrics list \<Rightarrow> string \<Rightarrow> bool" where
  "emits match payloads name \<longleftrightarrow>
     (\<exists>ms \<in> set payloads. \<exists>r \<in> set ms. \<exists>s \<in> set (rm_scopes r). \<exists>m \<in> set (sm_metrics s).
        metric_name m = name \<and> accepts match (rm_attributes r) m)"

lemma found_metrics:
  "is_found (foldl (mark_found match a) found ms) name \<longleftrightarrow>
     is_found found name \<or> (\<exists>m \<in> set ms. metric_name m = name \<and> accepts match a m)"
  by (induction ms arbitrary: found) (auto simp: mark_found_def is_found_def update_conv')

lemma found_resource:
  "is_found (scan_resource match found r) name \<longleftrightarrow>
     is_found found name \<or> (\<exists>s \<in> set (rm_scopes r). \<exists>m \<in> set (sm_metrics s).
       metric_name m = name \<and> accepts match (rm_attributes r) m)"
proof -
  have "is_found (foldl (\<lambda>found sm. foldl (mark_found match a) found (sm_metrics sm)) found ss) name \<longleftrightarrow>
      is_found found name \<or> (\<exists>s \<in> set ss. \<exists>m \<in> set (sm_metrics s). metric_name m = name \<and> accepts match a m)" for a ss
    by (induction ss arbitrary: found) (auto simp: found_metrics)
  then show ?thesis by (simp add: scan_resource_def)
qed

lemma found_payload:
  "is_found (foldl (scan_resource match) found ms) name \<longleftrightarrow>
     is_found found name \<or> (\<exists>r \<in> set ms. \<exists>s \<in> set (rm_scopes r). \<exists>m \<in> set (sm_metrics s).
       metric_name m = name \<and> accepts match (rm_attributes r) m)"
  by (induction ms arbitrary: found) (auto simp: found_resource)

lemma found_sink: "is_found (scan_sink match found payloads) name \<longleftrightarrow> is_found found name \<or> emits match payloads name"
proof -
  have "is_found (foldl (\<lambda>found m. foldl (scan_resource match) found m) found payloads) name \<longleftrightarrow>
      is_found found name \<or> emits match payloads name"
    by (induction payloads arbitrary: found) (auto simp: found_payload emits_def)
  then show ?thesis by (simp add: scan_sink_def)
qed

lemma found_after:
  "k \<le> length sinks \<Longrightarrow> is_found (state_after (find_check names match) found sinks k) name \<longleftrightarrow>
     is_found found name \<or> (\<exists>j < k. emits match (sinks ! j) name)"
proof (induction k)
  case (Suc k)
  then show ?case by (auto simp: state_after_Suc find_check_def Let_def found_sink less_Suc_eq)
qed (simp add: state_after_def)

lemma none_found: "\<not> is_found (foldl (\<lambda>m name. AList.update name False m) [] names) name"
proof -
  have "\<not> is_found m name \<Longrightarrow> \<not> is_found (foldl (\<lambda>m name. AList.update name False m) m names) name" for m
    by (induction names arbitrary: m) (auto simp: is_found_def update_conv')
  then show ?thesis by (simp add: is_found_def)
qed

text \<open>
  Waiting for metrics ends well exactly when, up to some check, every wanted name was carried by
  a matching metric in what the sink held at that or an earlier check; a name found once stays
  found even if the sink is emptied in between.
\<close>

theorem checkMetrics_iff:
  "checkMetrics metricNames match sinks \<longleftrightarrow>
     (\<exists>j < length sinks. \<forall>name \<in> set metricNames. \<exists>k \<le> j. emits match (sinks ! k) name)"
proof -
  let ?f = "find_check metricNames match" and ?s = "foldl (\<lambda>m name. AList.update name False m) [] metricNames"
  define A where "A j \<longleftrightarrow> (\<forall>name \<in> set metricNames. \<exists>k \<le> j. emits match (sinks ! k) name)" for j
  have c: "fst (?f (sinks ! j) (state_after ?f ?s sinks j)) = Check (A j)" if "j < length sinks" for j
    using that none_found
    by (auto simp: A_def find_check_def Let_def found_sink found_after filter_empty_conv le_less)
  have "(\<exists>j < length sinks. A j \<and> (\<forall>k < j. \<not> A k)) \<longleftrightarrow> (\<exists>j < length sinks. A j)"
  proof
    assume ex: "\<exists>j < length sinks. A j"
    define j where "j = (LEAST j. j < length sinks \<and> A j)"
    have "j < length sinks \<and> A j" unfolding j_def by (rule LeastI_ex [OF ex])
    moreover from this have "\<not> A k" if "k < j" for k
      using not_less_Least [of k "\<lambda>j. j < length sinks \<and> A j"] that by (auto simp: j_def)
    ultimately show "\<exists>j < length sinks. A j \<and> (\<forall>k < j. \<not> A k)" by blast
  qed auto
  moreover have "checkMetrics metricNames match sinks \<longleftrightarrow> (\<exists>j < length sinks. A j \<and> (\<forall>k < j. \<not> A k))"
    using c by (auto simp: checkMetrics_def eventually_checks_iff)
  ultimately show ?thesis by (simp only: A_def)
qed

lemma checkMetrics_iff_witness:
  "checkMetrics [''a''] None [[], [sample_metrics], []] \<and> \<not> checkMetrics [''zz''] None [[], [sample_metrics], []]"
proof -
  have "emits None [sample_metrics] ''a''" "\<not> emits None [sample_metrics] ''zz''"
    by (simp_all add: emits_def accepts_def sample_metrics_def)
  moreover have "\<not> emits None [] n" for n by (simp add: emits_def)
  moreover have "checkMetrics [''a''] None [[], [sample_metrics], []] \<longleftrightarrow>
      (\<exists>j < 3. \<exists>k \<le> j. emits None ([[], [sample_metrics], []] ! k) ''a'')"
    using checkMetrics_iff [of "[''a'']" None "[[], [sample_metrics], []]"] by (simp add: numeral_3_eq_3)
  moreover have "checkMetrics [''zz''] None [[], [sample_metrics], []] \<longleftrightarrow>
      (\<exists>j < 3. \<exists>k \<le> j. emits None ([[], [sample_metrics], []] ! k) ''zz'')"
    using checkMetrics_iff [of "[''zz'']" None "[[], [sample_metrics], []]"] by (simp add: numeral_3_eq_3)
  moreover have "emits None ([[], [sample_metrics], []] ! 1) ''a''" using calculation(1) by simp
  moreover have "\<not> emits None ([[], [sample_metrics], []] ! k) ''zz''" if "k < 3" for k
  proof -
    from that have "k = 0 \<or> k = 1 \<or> k = 2" by auto
    then show ?thesis using calculation(2,3) by auto
  qed
  moreover have "(1 :: nat) < 3 \<and> (1 :: nat) \<le> 1" by simp
  ultimately show ?thesis using le_less_trans by blast
qed

text \<open>
  A metric has the given attributes exactly when one of its data points, of whatever type,
  carries all the pairs; keys and values alternate in the argument.
\<close>

theorem metricDataPointsHaveAttrs_iff:
  "metricDataPointsHaveAttrs m kvPairs \<longleftrightarrow>
     (\<exists>dp \<in> set (data_points (metric_data m)).
        list_all (\<lambda>i. hasAttrMatch (dp_attributes dp) (kvPairs ! (2 * i)) (kvPairs ! (2 * i + 1)))
          [0..<length kvPairs div 2])"
  by (simp add: metricDataPointsHaveAttrs_def anyDataPointMatches_iff have_pairs_iff list_all_iff lessThan_iff Ball_def)

text \<open>An attribute of another type has the empty string for its text.\<close>

lemma hasAttrMatch_empty: "hasAttrMatch [(''code'', VInt 7)] ''code'' []"
  by (simp add: hasAttrMatch_def attr_get_def)

end
