(* ===== verification/Lease.thy ===== *)
theory Lease
  imports GoBase
begin

section \<open>The cluster-wide test lease\<close>

text \<open>
  Model of \<open>AcquireLeaseForTest\<close> in \<open>functional_tests/internal/concurrency.go\<close>: the test goroutine with its
  select and its cleanup, the two channels closed by the callbacks, and the leader elector, which is
  not part of the repository. Its rules state what the \<open>leaderelection\<close> package documents: \<open>Run\<close> campaigns
  until it acquires the lease or its context is cancelled, calls \<open>OnStartedLeading\<close> in a goroutine of its own,
  renews until it loses the lease or the context is cancelled, and always calls \<open>OnStoppedLeading\<close>
  before it returns. The lease object is given up on a cancelled context only if
  \<open>ReleaseOnCancel\<close> is set, which is the parameter \<open>release\<close>; the code leaves it unset.
\<close>

datatype elector_pc = Campaigning | Leading | Stopped

datatype test_pc =
    Selecting \<comment> \<open>at the select\<close>
  | Body
  | AwaitLost \<comment> \<open>in the cleanup, at the receive on \<open>lostLeaderCh\<close>\<close>
  | Released
  | Aborted

record lease_state =
  elector :: elector_pc
  test_at :: test_pc
  has_led :: bool
  became_leader :: bool
  lost_leader :: bool
  cancelled :: bool
  lease_held :: bool \<comment> \<open>the lease object names this test and has not expired\<close>

definition AcquireLeaseForTest :: lease_state where
  "AcquireLeaseForTest =
     \<lparr>elector = Campaigning, test_at = Selecting, has_led = False, became_leader = False, lost_leader = False,
      cancelled = False, lease_held = False\<rparr>"

definition ReleaseOnCancel :: bool where
  "ReleaseOnCancel = False"

inductive lease_step :: "bool \<Rightarrow> lease_state \<Rightarrow> lease_state \<Rightarrow> bool" for release where
  acquire: "elector s = Campaigning \<Longrightarrow> \<not> cancelled s \<Longrightarrow>
    lease_step release s (s\<lparr>elector := Leading, has_led := True, lease_held := True\<rparr>)"
| started: "has_led s \<Longrightarrow> \<not> became_leader s \<Longrightarrow>
    lease_step release s (s\<lparr>became_leader := True\<rparr>)"
| lose: "elector s = Leading \<Longrightarrow>
    lease_step release s (s\<lparr>elector := Stopped, lost_leader := True, lease_held := False\<rparr>)"
| stop: "elector s \<noteq> Stopped \<Longrightarrow> cancelled s \<Longrightarrow>
    lease_step release s (s\<lparr>elector := Stopped, lost_leader := True, lease_held := lease_held s \<and> \<not> release\<rparr>)"
| expire: "elector s = Stopped \<Longrightarrow> lease_step release s (s\<lparr>lease_held := False\<rparr>)"
| proceed: "test_at s = Selecting \<Longrightarrow> became_leader s \<Longrightarrow> lease_step release s (s\<lparr>test_at := Body\<rparr>)"
| abort: "test_at s = Selecting \<Longrightarrow> lease_step release s (s\<lparr>test_at := Aborted, cancelled := True\<rparr>)"
| cleanup: "test_at s = Body \<Longrightarrow> lease_step release s (s\<lparr>test_at := AwaitLost, cancelled := True\<rparr>)"
| done_waiting: "test_at s = AwaitLost \<Longrightarrow> lost_leader s \<Longrightarrow> lease_step release s (s\<lparr>test_at := Released\<rparr>)"

inductive_cases lease_stepE: "lease_step release s s'"

definition lease_reachable :: "bool \<Rightarrow> lease_state \<Rightarrow> bool" where
  "lease_reachable release s \<longleftrightarrow> (lease_step release)\<^sup>*\<^sup>* AcquireLeaseForTest s"

section \<open>Facts\<close>

definition lease_inv :: "lease_state \<Rightarrow> bool" where
  "lease_inv s \<longleftrightarrow>
     (lost_leader s \<longleftrightarrow> elector s = Stopped) \<and>
     (became_leader s \<longrightarrow> has_led s) \<and>
     (has_led s \<longrightarrow> elector s \<noteq> Campaigning) \<and>
     (elector s = Leading \<longrightarrow> lease_held s) \<and>
     (test_at s \<in> {Body, AwaitLost, Released} \<longrightarrow> became_leader s) \<and>
     (test_at s \<in> {AwaitLost, Released, Aborted} \<longleftrightarrow> cancelled s) \<and>
     (test_at s = Released \<longrightarrow> lost_leader s)"

lemma lease_inv_step: "lease_step release s s' \<Longrightarrow> lease_inv s \<Longrightarrow> lease_inv s'"
  by (induction rule: lease_step.induct) (auto simp: lease_inv_def)

lemma lease_inv_reachable: "lease_reachable release s \<Longrightarrow> lease_inv s"
  unfolding lease_reachable_def
proof (induction rule: rtranclp_induct)
  case base
  then show ?case by (simp add: AcquireLeaseForTest_def lease_inv_def)
next
  case (step s s')
  then show ?case using lease_inv_step by blast
qed

text \<open>
  The test body runs only after this very test has become the leader, and the cleanup is over only after
  the elector has stopped; until the body ends the election is not cancelled, so that the elector keeps
  the lease unless it loses it.
\<close>

theorem lease_body_after_leading:
  assumes "lease_reachable release s"
  shows "(test_at s = Body \<longrightarrow> became_leader s \<and> \<not> cancelled s \<and> (elector s = Leading \<and> lease_held s \<or> elector s = Stopped)) \<and>
    (test_at s = Released \<longrightarrow> elector s = Stopped)"
proof -
  have "elector s = Campaigning \<or> elector s = Leading \<or> elector s = Stopped" by (cases "elector s") auto
  with lease_inv_reachable [OF assms] show ?thesis by (auto simp: lease_inv_def)
qed

text \<open>A run of the test up to its body, and up to the end of its cleanup.\<close>

definition in_body :: lease_state where
  "in_body =
     \<lparr>elector = Leading, test_at = Body, has_led = True, became_leader = True, lost_leader = False, cancelled = False, lease_held = True\<rparr>"

lemma in_body_reachable: "lease_reachable release in_body"
proof -
  let ?s0 = AcquireLeaseForTest
  let ?s1 = "?s0\<lparr>elector := Leading, has_led := True, lease_held := True\<rparr>"
  let ?s2 = "?s1\<lparr>became_leader := True\<rparr>"
  have "lease_step release ?s0 ?s1" by (rule acquire) (simp_all add: AcquireLeaseForTest_def)
  moreover have "lease_step release ?s1 ?s2" by (rule started) (simp_all add: AcquireLeaseForTest_def)
  moreover have "lease_step release ?s2 (?s2\<lparr>test_at := Body\<rparr>)" by (rule proceed) (simp_all add: AcquireLeaseForTest_def)
  ultimately have "(lease_step release)\<^sup>*\<^sup>* ?s0 (?s2\<lparr>test_at := Body\<rparr>)"
    by (meson converse_rtranclp_into_rtranclp r_into_rtranclp)
  then show ?thesis by (simp add: lease_reachable_def AcquireLeaseForTest_def in_body_def)
qed

lemma lease_body_after_leading_witness: "became_leader in_body \<and> \<not> cancelled in_body"
  using lease_body_after_leading [OF in_body_reachable] by (simp add: in_body_def)

text \<open>
  The cleanup of the lease is never stuck: once it waits for the end of the leadership it can finish,
  whatever the elector has done before.
\<close>

theorem lease_cleanup_finishes:
  assumes "lease_reachable release s" and "test_at s = AwaitLost"
  shows "\<exists>s'. (lease_step release)\<^sup>*\<^sup>* s s' \<and> test_at s' = Released"
proof (cases "lost_leader s")
  case True
  with assms(2) have "lease_step release s (s\<lparr>test_at := Released\<rparr>)" by (rule done_waiting)
  then show ?thesis by (intro exI [of _ "s\<lparr>test_at := Released\<rparr>"]) auto
next
  case False
  let ?s1 = "s\<lparr>elector := Stopped, lost_leader := True, lease_held := lease_held s \<and> \<not> release\<rparr>"
  from lease_inv_reachable [OF assms(1)] False assms(2) have "elector s \<noteq> Stopped" "cancelled s"
    by (auto simp: lease_inv_def)
  then have "lease_step release s ?s1" by (rule stop)
  moreover have "lease_step release ?s1 (?s1\<lparr>test_at := Released\<rparr>)" using assms(2) by (intro done_waiting) simp_all
  ultimately have "(lease_step release)\<^sup>*\<^sup>* s (?s1\<lparr>test_at := Released\<rparr>)"
    by (meson converse_rtranclp_into_rtranclp r_into_rtranclp)
  then show ?thesis by (intro exI [of _ "?s1\<lparr>test_at := Released\<rparr>"]) simp
qed

definition in_cleanup :: lease_state where
  "in_cleanup = in_body\<lparr>test_at := AwaitLost, cancelled := True\<rparr>"

lemma in_cleanup_reachable: "lease_reachable release in_cleanup"
proof -
  have "lease_step release in_body in_cleanup"
    unfolding in_cleanup_def by (rule cleanup) (simp add: in_body_def)
  with in_body_reachable [of release] show ?thesis
    unfolding lease_reachable_def by (rule rtranclp.rtrancl_into_rtrancl)
qed

lemma lease_cleanup_finishes_witness:
  "\<exists>s'. (lease_step ReleaseOnCancel)\<^sup>*\<^sup>* in_cleanup s' \<and> test_at s' = Released"
  using lease_cleanup_finishes [OF in_cleanup_reachable] by (simp add: in_cleanup_def)

text \<open>The lease may be lost while the body runs, and nothing in the test notices.\<close>

lemma lease_lost_in_body: "\<exists>s. lease_reachable ReleaseOnCancel s \<and> test_at s = Body \<and> \<not> lease_held s"
proof -
  let ?s = "in_body\<lparr>elector := Stopped, lost_leader := True, lease_held := False\<rparr>"
  have "lease_step ReleaseOnCancel in_body ?s" by (rule lose) (simp add: in_body_def)
  with in_body_reachable [of ReleaseOnCancel] have "lease_reachable ReleaseOnCancel ?s"
    unfolding lease_reachable_def by (rule rtranclp.rtrancl_into_rtrancl)
  then show ?thesis by (intro exI [of _ ?s]) (simp add: in_body_def)
qed

text \<open>The lease object may still name the test when its cleanup is over.\<close>

lemma lease_held_after_cleanup: "\<exists>s. lease_reachable ReleaseOnCancel s \<and> test_at s = Released \<and> lease_held s"
proof -
  let ?s1 = "in_cleanup\<lparr>elector := Stopped, lost_leader := True, lease_held := lease_held in_cleanup \<and> \<not> ReleaseOnCancel\<rparr>"
  let ?s2 = "?s1\<lparr>test_at := Released\<rparr>"
  have "lease_step ReleaseOnCancel in_cleanup ?s1" by (rule stop) (simp_all add: in_cleanup_def in_body_def)
  moreover have "lease_step ReleaseOnCancel ?s1 ?s2" by (rule done_waiting) (simp_all add: in_cleanup_def)
  ultimately have "lease_reachable ReleaseOnCancel ?s2"
    using in_cleanup_reachable [of ReleaseOnCancel] unfolding lease_reachable_def by (meson rtranclp.rtrancl_into_rtrancl)
  then show ?thesis
    by (intro exI [of _ ?s2]) (simp add: in_cleanup_def in_body_def ReleaseOnCancel_def)
qed

text \<open>
  With \<open>ReleaseOnCancel\<close> unset, as in the code, a test may finish its cleanup while the lease object still
  names it, so that the next test has to wait for the expiry; with the option set the lease is always free
  by then, except that the elector may have lost it before.
\<close>

theorem lease_release_needs_option:
  "(\<exists>s. lease_reachable ReleaseOnCancel s \<and> test_at s = Released \<and> lease_held s) \<and>
   \<not> (\<exists>s. lease_reachable True s \<and> test_at s = Released \<and> lease_held s)"
proof
  show "\<exists>s. lease_reachable ReleaseOnCancel s \<and> test_at s = Released \<and> lease_held s"
    by (rule lease_held_after_cleanup)
  have "elector s = Stopped \<longrightarrow> \<not> lease_held s" if "lease_reachable True s" for s
    using that unfolding lease_reachable_def
  proof (induction rule: rtranclp_induct)
    case base
    then show ?case by (simp add: AcquireLeaseForTest_def)
  next
    case (step s s')
    from step.hyps(2) step.IH show ?case by (auto elim: lease_stepE)
  qed
  then show "\<not> (\<exists>s. lease_reachable True s \<and> test_at s = Released \<and> lease_held s)"
    using lease_inv_reachable by (auto simp: lease_inv_def)
qed

end
