(* ===== verification/LeaseSetup.thy ===== *)
theory LeaseSetup
  imports Lease GoNumbers
begin

section \<open>Setting up the lease\<close>

text \<open>
  What \<open>AcquireLeaseForTest\<close> in \<open>functional_tests/internal/concurrency.go\<close> does before the goroutine of
  the elector starts: the client with its rate limits, the identity of the holder, the lock and the elector's
  configuration. Durations are in nanoseconds, as Go has them. The clients and \<open>NewLeaderElector\<close> are fields
  of the environment.
\<close>

definition seconds :: "int \<Rightarrow> int" where
  "seconds n = n * 1000000000"

definition leaseName :: string where "leaseName = ''functional-test-lock''"
definition leaseNamespace :: string where "leaseNamespace = ''default''"
definition leaseDuration :: int where "leaseDuration = seconds 60"
definition renewDeadline :: int where "renewDeadline = seconds 40"
definition retryPeriod :: int where "retryPeriod = seconds 5"

record kube_config =
  kc_QPS :: nat
  kc_Burst :: nat
  kc_Timeout :: int
  kc_rest :: string

record lease_lock =
  ll_Name :: string
  ll_Namespace :: string
  ll_Identity :: string

record elector_config =
  el_Lock :: lease_lock
  el_LeaseDuration :: int
  el_RenewDeadline :: int
  el_RetryPeriod :: int
  el_ReleaseOnCancel :: bool

record lease_env =
  le_config :: "kube_config result"
  le_client :: "kube_config \<Rightarrow> string option"
  le_hostname :: "string result"
  le_filename :: string
  le_now :: int
  le_elector :: "elector_config \<Rightarrow> string option"

definition holderIdentity :: "string \<Rightarrow> string \<Rightarrow> string \<Rightarrow> int \<Rightarrow> string" where
  "holderIdentity hostname filename name now =
     hostname @ '':'' @ filename @ '':'' @ name @ '':'' @ itoa_int now"

definition lease_lock_of :: "string \<Rightarrow> lease_lock" where
  "lease_lock_of identity = \<lparr>ll_Name = leaseName, ll_Namespace = leaseNamespace, ll_Identity = identity\<rparr>"

definition elector_config_of :: "lease_lock \<Rightarrow> elector_config" where
  "elector_config_of lock =
     \<lparr>el_Lock = lock, el_LeaseDuration = leaseDuration, el_RenewDeadline = renewDeadline, el_RetryPeriod = retryPeriod,
      el_ReleaseOnCancel = ReleaseOnCancel\<rparr>"

definition lease_setup :: "lease_env \<Rightarrow> string \<Rightarrow> elector_config result" where
  "lease_setup le testName =
     bind_res (le_config le) (\<lambda>kubeConfig.
       (case le_client le (kubeConfig\<lparr>kc_QPS := 50, kc_Burst := 100, kc_Timeout := seconds 20\<rparr>) of
          Some e \<Rightarrow> Inl e
        | None \<Rightarrow>
            bind_res (le_hostname le) (\<lambda>hostname.
              let cfg = elector_config_of (lease_lock_of (holderIdentity hostname (le_filename le) testName (le_now le)))
              in case le_elector le cfg of
                   Some e \<Rightarrow> Inl (''Failed to create leader elector: '' @ e)
                 | None \<Rightarrow> Inr cfg)))"

section \<open>Facts\<close>

text \<open>
  What \<open>NewLeaderElector\<close> documents to ask of a configuration: the lease outlasts the renewal deadline,
  which outlasts a jittered retry (a factor of 1.2), all of them positive, and the identity is not empty.
\<close>

definition elector_valid :: "elector_config \<Rightarrow> bool" where
  "elector_valid cfg =
     (el_LeaseDuration cfg > el_RenewDeadline cfg \<and> 5 * el_RenewDeadline cfg > 6 * el_RetryPeriod cfg \<and>
      el_LeaseDuration cfg \<ge> 1 \<and> el_RenewDeadline cfg \<ge> 1 \<and> el_RetryPeriod cfg \<ge> 1 \<and> ll_Identity (el_Lock cfg) \<noteq> [])"

lemma elector_config_valid: "elector_valid (elector_config_of (lease_lock_of (holderIdentity h f n now)))"
  by (simp add: elector_valid_def elector_config_of_def lease_lock_of_def holderIdentity_def leaseDuration_def
      renewDeadline_def retryPeriod_def seconds_def)

lemma itoa_int_no_colon: "CHR '':'' \<notin> set (itoa_int n)"
  using itoa_int_chars [of "CHR '':''" n] by (auto simp: is_digit_def)

lemma last_piece:
  assumes "a @ c # b = a' @ c # b'" and "c \<notin> set b" and "c \<notin> set b'"
  shows "b = b'"
proof -
  have t: "takeWhile (\<lambda>x. x \<noteq> c) (rev (u @ c # v)) = rev v" if "c \<notin> set v" for u v
    using that by (auto simp: takeWhile_append)
  from t [OF assms(2), of a] t [OF assms(3), of a'] assms(1) show ?thesis by simp
qed

lemma holderIdentity_now:
  assumes "holderIdentity h f n now = holderIdentity h' f' n' now'"
  shows "now = now'"
proof -
  have "(h @ '':'' @ f @ '':'' @ n) @ CHR '':'' # itoa_int now = (h' @ '':'' @ f' @ '':'' @ n') @ CHR '':'' # itoa_int now'"
    using assms by (simp add: holderIdentity_def)
  then have "itoa_int now = itoa_int now'" by (rule last_piece) (rule itoa_int_no_colon)+
  then show ?thesis by (metis parse_itoa_int option.inject)
qed

text \<open>
  With an elector that accepts every valid configuration the setup fails only for want of a client or a
  host name; the lock is then that of all tests, in one place, and two set-ups that use the same identity
  happened at the same instant.
\<close>

theorem lease_setup_identity:
  assumes accepts: "\<And>cfg. elector_valid cfg \<Longrightarrow> le_elector le cfg = None"
    and client: "le_config le = Inr kc" "\<And>c. le_client le c = None" "le_hostname le = Inr h"
  shows "\<exists>cfg. lease_setup le name = Inr cfg \<and> elector_valid cfg \<and>
    ll_Name (el_Lock cfg) = ''functional-test-lock'' \<and> ll_Namespace (el_Lock cfg) = ''default'' \<and>
    (\<forall>h' f' n' now'. ll_Identity (el_Lock cfg) = holderIdentity h' f' n' now' \<longrightarrow> now' = le_now le)"
proof -
  let ?id = "holderIdentity h (le_filename le) name (le_now le)"
  let ?cfg = "elector_config_of (lease_lock_of ?id)"
  have "now' = le_now le" if "?id = holderIdentity h' f' n' now'" for h' f' n' now'
    using holderIdentity_now [OF that] by simp
  moreover have "lease_setup le name = Inr ?cfg"
    using client by (simp add: lease_setup_def Let_def accepts elector_config_valid)
  ultimately show ?thesis
    by (intro exI [of _ ?cfg]) (simp add: elector_config_valid, simp add: elector_config_of_def lease_lock_of_def leaseName_def leaseNamespace_def)
qed

definition sample_lease_env :: lease_env where
  "sample_lease_env =
     \<lparr>le_config = Inr \<lparr>kc_QPS = 5, kc_Burst = 10, kc_Timeout = 0, kc_rest = []\<rparr>, le_client = (\<lambda>_. None),
      le_hostname = Inr ''ci'', le_filename = ''t.go'', le_now = 7,
      le_elector = (\<lambda>cfg. if elector_valid cfg then None else Some ''invalid'')\<rparr>"

lemma lease_setup_identity_witness:
  "\<exists>cfg. lease_setup sample_lease_env ''Test_A'' = Inr cfg \<and> ll_Name (el_Lock cfg) = ''functional-test-lock''"
proof -
  have "le_elector sample_lease_env cfg = None" if "elector_valid cfg" for cfg
    using that by (simp add: sample_lease_env_def)
  moreover have "le_config sample_lease_env = Inr \<lparr>kc_QPS = 5, kc_Burst = 10, kc_Timeout = 0, kc_rest = []\<rparr>"
    "\<And>c. le_client sample_lease_env c = None" "le_hostname sample_lease_env = Inr ''ci''"
    by (simp_all add: sample_lease_env_def)
  ultimately show ?thesis using lease_setup_identity [of sample_lease_env _ "''ci''" "''Test_A''"] by blast
qed

end
