(* ===== verification/SplunkSearch.thy ===== *)
theory SplunkSearch
  imports GoRun AssertDoc
begin

section \<open>Searches on a Splunk instance\<close>

text \<open>
  Model of \<open>test/config.go\<close> and \<open>test/splunk_search.go\<close>: the configuration from environment variables
  and the three requests of a search (create the job, ask for its status, fetch its events). Every error is a panic,
  which is \<^const>\<open>Inl\<close>. The HTTP client, the JSON decoder (whose values are those of a decoded document) and
  the escaping of form fields are arguments: \<open>sp_new req\<close> is the error of building a request, which is then not made, and
  \<open>sp_answer req n\<close> the body of the \<open>n\<close>-th answer to it.
\<close>

definition GetConfigVariable :: "(string \<Rightarrow> string) \<Rightarrow> string \<Rightarrow> string result" where
  "GetConfigVariable getenv variableName =
     (let envVariableName =
            (if variableName = ''HOST'' then ''CI_SPLUNK_HOST''
             else if variableName = ''USER'' then ''CI_SPLUNK_USERNAME''
             else if variableName = ''PASSWORD'' then ''CI_SPLUNK_PASSWORD''
             else if variableName = ''MANAGEMENT_PORT'' then ''CI_SPLUNK_PORT''
             else []);
          v = getenv envVariableName
      in if v \<noteq> [] then Inr v else Inl (envVariableName @ '' environment variable is not set''))"

datatype http_method = GET | POST

record http_request =
  rq_method :: http_method
  rq_url :: string
  rq_auth :: "string \<times> string"
  rq_form :: "(string \<times> string) list"

record splunk_env =
  sp_getenv :: "string \<Rightarrow> string"
  sp_new :: "http_request \<Rightarrow> string option"
  sp_answer :: "http_request \<Rightarrow> nat \<Rightarrow> string result"
  sp_json :: "string \<Rightarrow> ymap result"

text \<open>A request whose answer must be read and decoded.\<close>

definition request_json :: "splunk_env \<Rightarrow> http_request \<Rightarrow> nat \<Rightarrow> (http_request, ymap) run" where
  "request_json sp req n =
     (case sp_new sp req of
        Some e \<Rightarrow> ([], Inl e)
      | None \<Rightarrow> ([req], bind_res (sp_answer sp req n) (sp_json sp)))"

text \<open>
  \<open>url.Values.Encode\<close> sorts the fields by key. How a field is escaped is left to the reader of \<open>rq_form\<close>, which holds
  the fields in the order of the encoded body.
\<close>

definition encoded_form :: "(string \<times> string) list \<Rightarrow> (string \<times> string) list" where
  "encoded_form kvs = insertion_sort (\<lambda>x y. fst x < fst y) kvs"

definition post_request :: "string \<Rightarrow> string \<Rightarrow> string \<Rightarrow> string \<Rightarrow> string \<Rightarrow> string \<Rightarrow> http_request" where
  "post_request user password baseURL searchQuery startTime endTime =
     \<lparr>rq_method = POST, rq_url = baseURL @ ''/services/search/jobs?output_mode=json'', rq_auth = (user, password),
      rq_form = encoded_form [(''search'', searchQuery), (''earliest_time'', startTime), (''latest_time'', endTime)]\<rparr>"

definition postSearchRequest ::
  "splunk_env \<Rightarrow> string \<Rightarrow> string \<Rightarrow> string \<Rightarrow> string \<Rightarrow> string \<Rightarrow> string \<Rightarrow> (http_request, string) run"
where
  "postSearchRequest sp user password baseURL searchQuery startTime endTime =
     bind_run (request_json sp (post_request user password baseURL searchQuery startTime endTime) 0) (\<lambda>json.
       pure_run (case ylookup json ''sid'' of YStr sid \<Rightarrow> Inr sid | _ \<Rightarrow> Inl ''interface conversion''))"

definition status_request :: "string \<Rightarrow> string \<Rightarrow> string \<Rightarrow> string \<Rightarrow> http_request" where
  "status_request user password baseURL jobID =
     \<lparr>rq_method = GET, rq_url = baseURL @ ''/services/search/jobs/'' @ jobID @ ''?output_mode=json'',
      rq_auth = (user, password), rq_form = []\<rparr>"

text \<open>\<open>json["entry"].([]any)[0].(map[string]any)["content"].(map[string]any)["isDone"]\<close>.\<close>

definition is_done_field :: "ymap \<Rightarrow> yaml result" where
  "is_done_field json =
     (case ylookup json ''entry'' of
        YList [] \<Rightarrow> Inl ''index out of range''
      | YList (YMap entry # _) \<Rightarrow>
          (case ylookup entry ''content'' of
             YMap content \<Rightarrow> Inr (ylookup content ''isDone'')
           | _ \<Rightarrow> Inl ''interface conversion'')
      | _ \<Rightarrow> Inl ''interface conversion'')"

definition checkSearchJobStatusCode ::
  "splunk_env \<Rightarrow> string \<Rightarrow> string \<Rightarrow> string \<Rightarrow> string \<Rightarrow> nat \<Rightarrow> (http_request, yaml) run"
where
  "checkSearchJobStatusCode sp user password baseURL jobID n =
     bind_run (request_json sp (status_request user password baseURL jobID) n) (\<lambda>json. pure_run (is_done_field json))"

definition events_request :: "string \<Rightarrow> string \<Rightarrow> string \<Rightarrow> string \<Rightarrow> http_request" where
  "events_request user password baseURL jobID =
     \<lparr>rq_method = GET, rq_url = baseURL @ ''/services/search/jobs/'' @ jobID @ ''/events?output_mode=json'',
      rq_auth = (user, password), rq_form = []\<rparr>"

definition getSplunkSearchResults ::
  "splunk_env \<Rightarrow> string \<Rightarrow> string \<Rightarrow> string \<Rightarrow> string \<Rightarrow> (http_request, yaml list) run"
where
  "getSplunkSearchResults sp user password baseURL jobID =
     bind_run (request_json sp (events_request user password baseURL jobID) 0) (\<lambda>json.
       pure_run (case ylookup json ''results'' of YList rs \<Rightarrow> Inr rs | _ \<Rightarrow> Inl ''interface conversion''))"

definition maxStatusChecks :: nat where
  "maxStatusChecks = 20"

text \<open>The status loop: \<open>n\<close> turns are left of the limit.\<close>

fun wait_done :: "(nat \<Rightarrow> ('x, yaml) run) \<Rightarrow> nat \<Rightarrow> ('x, unit) run" where
  "wait_done status 0 = pure_run (Inr ())"
| "wait_done status (Suc n) =
     bind_run (status (maxStatusChecks - Suc n)) (\<lambda>isDone.
       if isDone = YBool True then pure_run (Inr ()) else wait_done status n)"

definition CheckEventsFromSplunk ::
  "splunk_env \<Rightarrow> string \<Rightarrow> string \<Rightarrow> string list \<Rightarrow> (http_request, yaml list) run"
where
  "CheckEventsFromSplunk sp searchQuery startTime endTimeOptional =
     bind_run (pure_run (GetConfigVariable (sp_getenv sp) ''USER'')) (\<lambda>user.
     bind_run (pure_run (GetConfigVariable (sp_getenv sp) ''PASSWORD'')) (\<lambda>password.
     bind_run (pure_run (GetConfigVariable (sp_getenv sp) ''HOST'')) (\<lambda>host.
     bind_run (pure_run (GetConfigVariable (sp_getenv sp) ''MANAGEMENT_PORT'')) (\<lambda>port.
       (let baseURL = ''https://'' @ host @ '':'' @ port;
            endTime = (case endTimeOptional of [] \<Rightarrow> ''now'' | e # _ \<Rightarrow> e)
        in bind_run (postSearchRequest sp user password baseURL searchQuery startTime endTime) (\<lambda>jobID.
           bind_run (wait_done (checkSearchJobStatusCode sp user password baseURL jobID) maxStatusChecks) (\<lambda>_.
             getSplunkSearchResults sp user password baseURL jobID)))))))"

section \<open>Facts\<close>

lemma encoded_search_form:
  "encoded_form [(''search'', q), (''earliest_time'', from_time), (''latest_time'', to_time)] =
     [(''earliest_time'', from_time), (''latest_time'', to_time), (''search'', q)]"
  by (simp add: encoded_form_def insertion_sort_def)

text \<open>What a status check reads from its answer.\<close>

definition status_field :: "splunk_env \<Rightarrow> http_request \<Rightarrow> nat \<Rightarrow> yaml result" where
  "status_field sp req n = bind_res (bind_res (sp_answer sp req n) (sp_json sp)) is_done_field"

lemma request_json_Inr:
  "request_json sp req n = (tr, Inr json) \<longleftrightarrow>
     sp_new sp req = None \<and> tr = [req] \<and> bind_res (sp_answer sp req n) (sp_json sp) = Inr json"
  by (auto simp: request_json_def split: option.splits)

lemma status_Inr:
  "checkSearchJobStatusCode sp user password url jobID n = (tr, Inr d) \<Longrightarrow>
     tr = [status_request user password url jobID] \<and> status_field sp (status_request user password url jobID) n = Inr d"
  by (auto simp: checkSearchJobStatusCode_def bind_run_Inr pure_run_Inr request_json_Inr status_field_def)

lemma asserted_Inr:
  "(case y of YStr sid \<Rightarrow> Inr sid | _ \<Rightarrow> Inl e) = Inr s \<longleftrightarrow> y = YStr s"
  "(case y of YList rs \<Rightarrow> Inr rs | _ \<Rightarrow> Inl e) = Inr ys \<longleftrightarrow> y = YList ys"
  by (cases y; auto)+

lemma postSearchRequest_Inr:
  "postSearchRequest sp user password url q startTime endTime = (tr, Inr jobID) \<Longrightarrow>
     tr = [post_request user password url q startTime endTime] \<and>
     (\<exists>json. bind_res (sp_answer sp (post_request user password url q startTime endTime) 0) (sp_json sp) = Inr json \<and>
       ylookup json ''sid'' = YStr jobID)"
  by (auto simp: postSearchRequest_def bind_run_Inr pure_run_Inr request_json_Inr asserted_Inr)

lemma getSplunkSearchResults_Inr:
  "getSplunkSearchResults sp user password url jobID = (tr, Inr results) \<Longrightarrow>
     tr = [events_request user password url jobID] \<and>
     (\<exists>json. bind_res (sp_answer sp (events_request user password url jobID) 0) (sp_json sp) = Inr json \<and>
       ylookup json ''results'' = YList results)"
  by (auto simp: getSplunkSearchResults_def bind_run_Inr pure_run_Inr request_json_Inr asserted_Inr)

text \<open>
  The status loop makes at most \<open>n\<close> checks: every one but the last said that the job is not done, and so did the last one
  only if it was the \<open>n\<close>-th.
\<close>

lemma wait_done_Inr:
  assumes "wait_done status n = (tr, Inr u)" and "n \<le> maxStatusChecks"
    and "\<And>i xs d. status i = (xs, Inr d) \<Longrightarrow> xs = [req] \<and> field i = Inr d"
  shows "\<exists>k \<le> n. tr = replicate k req \<and> (n \<noteq> 0 \<longrightarrow> k \<noteq> 0) \<and>
    (\<forall>i < k. \<exists>d. field (maxStatusChecks - n + i) = Inr d \<and> (if Suc i < k then d \<noteq> YBool True else k < n \<longrightarrow> d = YBool True))"
  using assms(1,2)
proof (induction n arbitrary: tr u)
  case (Suc n)
  from Suc.prems(1) obtain d ys where d: "tr = req # ys" "field (maxStatusChecks - Suc n) = Inr d"
    "(if d = YBool True then pure_run (Inr ()) else wait_done status n) = (ys, Inr u)"
    using assms(3) by (fastforce simp: bind_run_Inr)
  show ?case
  proof (cases "d = YBool True")
    case True
    with d show ?thesis by (intro exI [of _ 1]) (auto simp: pure_run_def)
  next
    case False
    with d(3) have "wait_done status n = (ys, Inr u)" by simp
    from Suc.IH [OF this Suc_leD [OF Suc.prems(2)]] obtain k where k: "k \<le> n" "ys = replicate k req" "n \<noteq> 0 \<longrightarrow> k \<noteq> 0"
      "\<forall>i < k. \<exists>d. field (maxStatusChecks - n + i) = Inr d \<and> (if Suc i < k then d \<noteq> YBool True else k < n \<longrightarrow> d = YBool True)"
      by blast
    have "\<exists>d. field (maxStatusChecks - Suc n + i) = Inr d \<and>
        (if Suc i < Suc k then d \<noteq> YBool True else Suc k < Suc n \<longrightarrow> d = YBool True)" if "i < Suc k" for i
    proof (cases i)
      case 0
      with d(2) False k(1,3) show ?thesis by auto
    next
      case (Suc j)
      then have i: "maxStatusChecks - Suc n + i = maxStatusChecks - n + j" using Suc.prems(2) by simp
      from k(4) \<open>i = Suc j\<close> that obtain d' where "field (maxStatusChecks - n + j) = Inr d'"
        "if Suc j < k then d' \<noteq> YBool True else k < n \<longrightarrow> d' = YBool True" by fastforce
      then show ?thesis unfolding i using \<open>i = Suc j\<close> by (intro exI [of _ d']) simp
    qed
    with k(1,2) d(1) show ?thesis by (intro exI [of _ "Suc k"]) simp
  qed
qed (simp add: pure_run_def)

text \<open>
  C40: a search that returns has made exactly these requests, in this order, to the host and port and with the user of the
  environment: one that creates the job with the query and the time range, whose answer names the job; between one and
  twenty status checks of that job, which stop at the first one that says it is done; and one for its events, whose
  answer holds the results. After twenty checks the events are fetched whether the job is done or not.
\<close>

theorem CheckEventsFromSplunk_requests:
  assumes "CheckEventsFromSplunk sp searchQuery startTime endTimeOptional = (tr, Inr results)"
  shows "\<exists>jobID k.
    (let user = sp_getenv sp ''CI_SPLUNK_USERNAME''; password = sp_getenv sp ''CI_SPLUNK_PASSWORD'';
         jobs = ''https://'' @ sp_getenv sp ''CI_SPLUNK_HOST'' @ '':'' @ sp_getenv sp ''CI_SPLUNK_PORT'' @ ''/services/search/jobs'';
         until = (case endTimeOptional of [] \<Rightarrow> ''now'' | e # _ \<Rightarrow> e);
         create = \<lparr>rq_method = POST, rq_url = jobs @ ''?output_mode=json'', rq_auth = (user, password),
           rq_form = [(''earliest_time'', startTime), (''latest_time'', until), (''search'', searchQuery)]\<rparr>;
         get = (\<lambda>path. \<lparr>rq_method = GET, rq_url = jobs @ ''/'' @ jobID @ path @ ''?output_mode=json'', rq_auth = (user, password),
           rq_form = []\<rparr>)
     in tr = create # replicate k (get []) @ [get ''/events''] \<and> 1 \<le> k \<and> k \<le> 20 \<and>
        (\<exists>json. bind_res (sp_answer sp create 0) (sp_json sp) = Inr json \<and> ylookup json ''sid'' = YStr jobID) \<and>
        (\<forall>i < k. \<exists>d. status_field sp (get []) i = Inr d \<and> (if Suc i < k then d \<noteq> YBool True else k < 20 \<longrightarrow> d = YBool True)) \<and>
        (\<exists>json. bind_res (sp_answer sp (get ''/events'') 0) (sp_json sp) = Inr json \<and> ylookup json ''results'' = YList results) \<and>
        list_all (\<lambda>v. v \<noteq> []) [user, password, sp_getenv sp ''CI_SPLUNK_HOST'', sp_getenv sp ''CI_SPLUNK_PORT''])"
proof -
  note requests = post_request_def status_request_def events_request_def encoded_search_form
  let ?host = "sp_getenv sp ''CI_SPLUNK_HOST''" and ?port = "sp_getenv sp ''CI_SPLUNK_PORT''"
  let ?user = "sp_getenv sp ''CI_SPLUNK_USERNAME''" and ?password = "sp_getenv sp ''CI_SPLUNK_PASSWORD''"
  let ?base = "''https://'' @ ?host @ '':'' @ ?port"
  let ?until = "case endTimeOptional of [] \<Rightarrow> ''now'' | e # _ \<Rightarrow> e"
  from assms obtain xs ys zs jobID where
    set: "list_all (\<lambda>v. v \<noteq> []) [?user, ?password, ?host, ?port]"
    and p: "postSearchRequest sp ?user ?password ?base searchQuery startTime ?until = (xs, Inr jobID)"
    and w: "wait_done (checkSearchJobStatusCode sp ?user ?password ?base jobID) maxStatusChecks = (ys, Inr ())"
    and g: "getSplunkSearchResults sp ?user ?password ?base jobID = (zs, Inr results)" and tr: "tr = xs @ ys @ zs"
    by (auto simp: CheckEventsFromSplunk_def Let_def bind_run_Inr pure_run_Inr GetConfigVariable_def split: if_splits)
  note p' = postSearchRequest_Inr [OF p] and g' = getSplunkSearchResults_Inr [OF g]
  from wait_done_Inr [OF w order.refl, where field = "status_field sp (status_request ?user ?password ?base jobID)", OF status_Inr]
  obtain k where "1 \<le> k" "k \<le> 20" "ys = replicate k (status_request ?user ?password ?base jobID)"
    "\<forall>i < k. \<exists>d. status_field sp (status_request ?user ?password ?base jobID) i = Inr d \<and>
       (if Suc i < k then d \<noteq> YBool True else k < 20 \<longrightarrow> d = YBool True)"
    by (force simp: maxStatusChecks_def)
  with set p' g' tr show ?thesis
    unfolding Let_def by (intro exI [of _ jobID] exI [of _ k])
      (simp add: requests)
qed

text \<open>A server that never finishes the job still gives a result.\<close>

definition sample_splunk :: "bool \<Rightarrow> splunk_env" where
  "sample_splunk finishes =
     \<lparr>sp_getenv = (\<lambda>_. ''x''), sp_new = (\<lambda>_. None), sp_answer = (\<lambda>req n. Inr (rq_url req)),
      sp_json = (\<lambda>b. if has_suffix b ''jobs?output_mode=json'' then Inr [(''sid'', YStr ''1'')]
        else if has_suffix b ''events?output_mode=json'' then Inr [(''results'', YList [YStr ''e''])]
        else Inr [(''entry'', YList [YMap [(''content'', YMap [(''isDone'', YBool finishes)])]])])\<rparr>"

lemma search_unfinished: "snd (CheckEventsFromSplunk (sample_splunk False) ''q'' ''-1h'' []) = Inr [YStr ''e'']"
  by code_simp

lemma CheckEventsFromSplunk_requests_witness:
  "length (fst (CheckEventsFromSplunk (sample_splunk False) ''q'' ''-1h'' [])) \<le> 22"
proof -
  obtain tr where tr: "CheckEventsFromSplunk (sample_splunk False) ''q'' ''-1h'' [] = (tr, Inr [YStr ''e''])"
    using search_unfinished by (metis prod.collapse)
  from CheckEventsFromSplunk_requests [OF tr] have "length tr \<le> 22" by (auto simp: Let_def)
  with tr show ?thesis by simp
qed

end
