(* ===== verification/Plog.thy ===== *)
theory Plog
  imports Common
begin

section \<open>Log payloads\<close>

text \<open>
  Log payloads as the test suites read them: resources with attributes, scopes with attributes, records
  with attributes and a body. As in the metrics payloads, a field that no modelled code reads is
  kept as its text; a record that the code makes has the empty one.
\<close>

record log_record =
  lr_Attributes :: attrs
  lr_Body :: attr_value
  lr_rest :: string

record scope_logs =
  sl_Attributes :: attrs
  sl_rest :: string
  sl_Records :: "log_record list"

record resource_logs =
  rl_Attributes :: attrs
  rl_rest :: string
  rl_Scopes :: "scope_logs list"

type_synonym logs = "resource_logs list"

text \<open>The records in the order of the nested loops, and a pass over all of them.\<close>

definition all_records :: "logs \<Rightarrow> log_record list" where
  "all_records ls = concat (map (\<lambda>r. concat (map sl_Records (rl_Scopes r))) ls)"

definition map_records :: "(log_record \<Rightarrow> log_record) \<Rightarrow> logs \<Rightarrow> logs" where
  "map_records f ls =
     map (\<lambda>r. r\<lparr>rl_Scopes := map (\<lambda>s. s\<lparr>sl_Records := map f (sl_Records s)\<rparr>) (rl_Scopes r)\<rparr>) ls"

lemma all_records_map: "all_records (map_records f ls) = map f (all_records ls)"
  by (simp add: all_records_def map_records_def map_concat o_def)

text \<open>Attribute maps whose values Go compares without a panic and by value: no floats, maps, slices or bytes.\<close>

fun scalar :: "attr_value \<Rightarrow> bool" where
  "scalar (VDouble d) = False"
| "scalar (VMap m) = False"
| "scalar (VSlice vs) = False"
| "scalar (VBytes b) = False"
| "scalar v = True"

definition plain_attrs :: "attrs \<Rightarrow> bool" where
  "plain_attrs m \<longleftrightarrow> distinct (map fst m) \<and> list_all (scalar \<circ> snd) m"

end
