(* ===== verification/SuiteHelpers.thy ===== *)
theory SuiteHelpers
  imports Plog
begin

section \<open>Helpers of the other suites\<close>

text \<open>
  Model of the self-contained functions of \<open>functional_tests/functional/functional_test.go\<close> (names, images and
  the target allocator's resources) and of \<open>functional_tests/configuration_switching/configuration_switching_test.go\<close>
  (the values of an attribute over the received payloads). \<open>AsString\<close> of a value is part of \<open>pdata\<close> and an
  argument.
\<close>

subsection \<open>Names\<close>

definition kindAgentPodNamePrefix :: string where
  "kindAgentPodNamePrefix = ''sock-splunk-otel-collector-agent''"

definition short_names :: "string list" where
  "short_names =
     [''kube-proxy'', ''local-path-provisioner'', ''kindnet'', ''coredns'', ''otelcol'', kindAgentPodNamePrefix,
      ''sock-splunk-otel-collector-k8s-cluster-receiver'', ''sock-operator'', ''nodejs-test'']"

definition shortenNames :: "string \<Rightarrow> string" where
  "shortenNames v = (case List.find (has_prefix v) short_names of Some p \<Rightarrow> p | None \<Rightarrow> v)"

text \<open>The pattern \<open>archRe\<close> matches at the end of the text only.\<close>

definition strip_arch :: "string \<Rightarrow> string" where
  "strip_arch s =
     (case List.find (has_suffix s) [''-amd64'', ''-arm64'', ''-ppc64le''] of
        Some a \<Rightarrow> take (length s - length a) s
      | None \<Rightarrow> s)"

definition containerImageShorten :: "string \<Rightarrow> string" where
  "containerImageShorten v =
     strip_arch (case last_index v (CHR ''/'') of Some i \<Rightarrow> drop (i + 1) v | None \<Rightarrow> v)"

definition checkPodExists :: "pod list \<Rightarrow> string \<Rightarrow> bool" where
  "checkPodExists pods podNamePrefix = list_ex (\<lambda>p. has_prefix (pod_Name p) podNamePrefix) pods"

subsection \<open>The target allocator's resources\<close>

text \<open>A resource is its name, or nothing for a value that does not expose one.\<close>

definition splunkOtelCollectorTAResourceName :: string where
  "splunkOtelCollectorTAResourceName = ''splunk-otel-collector-ta''"

definition taResourceName :: string where
  "taResourceName = ''targetallocator-ta''"

definition unnamed :: "string \<Rightarrow> string" where
  "unnamed kind = ''expected '' @ kind @ '' resource to expose a Kubernetes name''"

fun validateOldTargetAllocatorResourceDoesNotExist :: "string \<Rightarrow> string option list \<Rightarrow> unit result" where
  "validateOldTargetAllocatorResourceDoesNotExist kind [] = Inr ()"
| "validateOldTargetAllocatorResourceDoesNotExist kind (None # rs) = Inl (unnamed kind)"
| "validateOldTargetAllocatorResourceDoesNotExist kind (Some n # rs) =
     (if contains n splunkOtelCollectorTAResourceName
      then Inl (''expected old '' @ kind @ '' resource '' @ n @ '' to no longer exist'')
      else validateOldTargetAllocatorResourceDoesNotExist kind rs)"

fun validateNewTargetAllocatorResourceExists :: "string \<Rightarrow> string option list \<Rightarrow> unit result" where
  "validateNewTargetAllocatorResourceExists kind [] =
     Inl (''expected at least one new '' @ kind @ '' resource with '' @ taResourceName @ '' in the name'')"
| "validateNewTargetAllocatorResourceExists kind (None # rs) = Inl (unnamed kind)"
| "validateNewTargetAllocatorResourceExists kind (Some n # rs) =
     (if contains n taResourceName then Inr () else validateNewTargetAllocatorResourceExists kind rs)"

definition validateTargetAllocatorResourceUpgrade :: "string \<Rightarrow> string option list \<Rightarrow> unit result" where
  "validateTargetAllocatorResourceUpgrade kind rs =
     bind_res (validateOldTargetAllocatorResourceDoesNotExist kind rs) (\<lambda>_.
       validateNewTargetAllocatorResourceExists kind rs)"

subsection \<open>The values of an attribute\<close>

fun list_contains :: "string list \<Rightarrow> string \<Rightarrow> bool" where
  "list_contains [] newValue = False"
| "list_contains (v # vs) newValue = (v = newValue \<or> list_contains vs newValue)"

definition add_value :: "string list \<Rightarrow> string \<Rightarrow> string list" where
  "add_value vs v = (if \<not> list_contains vs v then vs @ [v] else vs)"

definition values_of :: "(attr_value \<Rightarrow> string) \<Rightarrow> string \<Rightarrow> attrs list \<Rightarrow> string list" where
  "values_of AsString name ms =
     foldl (\<lambda>vs m. case attr_get m name of Some v \<Rightarrow> add_value vs (AsString v) | None \<Rightarrow> vs) [] ms"

definition getLogsIndexAndSourceType :: "(attr_value \<Rightarrow> string) \<Rightarrow> logs list \<Rightarrow> string list \<times> string list" where
  "getLogsIndexAndSourceType AsString ls =
     (values_of AsString ''com.splunk.sourcetype'' (map rl_Attributes (concat ls)),
      values_of AsString ''com.splunk.index'' (map rl_Attributes (concat ls)))"

text \<open>\<open>At(0)\<close> panics, which is \<^const>\<open>None\<close>, on a payload without resources.\<close>

definition getMetricsIndexAndSourceType :: "(attr_value \<Rightarrow> string) \<Rightarrow> metrics list \<Rightarrow> (string list \<times> string list) option" where
  "getMetricsIndexAndSourceType AsString ms =
     (if list_ex (\<lambda>m. m = []) ms then None
      else Some (values_of AsString ''com.splunk.sourcetype'' (map (\<lambda>m. rm_attributes (hd m)) ms),
        values_of AsString ''com.splunk.index'' (map (\<lambda>m. rm_attributes (hd m)) ms)))"

definition not_found :: "string \<Rightarrow> attrs list \<Rightarrow> nat" where
  "not_found name ms = length (filter (\<lambda>m. attr_get m name = None) ms)"

definition getLogsAttributes :: "(attr_value \<Rightarrow> string) \<Rightarrow> logs list \<Rightarrow> string \<Rightarrow> string list \<times> nat" where
  "getLogsAttributes AsString ls name =
     (let ms = map lr_Attributes (all_records (concat ls)) in (values_of AsString name ms, not_found name ms))"

definition prefixesForMetricsToSkip :: "string list" where
  "prefixesForMetricsToSkip =
     [''system.'', ''k8s.node.'', ''k8s.deployment.'', ''k8s.namespace.'', ''k8s.replicaset.'', ''k8s.daemonset.'']"

text \<open>\<open>Gauge\<close> of a metric of another type is an invalid value, whose use panics.\<close>

fun gauge_points :: "metric_data \<Rightarrow> datapoint list option" where
  "gauge_points (Gauge ds) = Some ds"
| "gauge_points d = None"

definition counted_metrics :: "metrics list \<Rightarrow> metric list" where
  "counted_metrics ms =
     filter (\<lambda>m. \<not> list_ex (has_prefix (metric_name m)) prefixesForMetricsToSkip) (all_metrics (concat ms))"

definition getMetricsAttributes :: "(attr_value \<Rightarrow> string) \<Rightarrow> metrics list \<Rightarrow> string \<Rightarrow> (string list \<times> nat) option" where
  "getMetricsAttributes AsString ms name =
     (if list_ex (\<lambda>m. gauge_points (metric_data m) = None) (counted_metrics ms) then None
      else (let as = map dp_attributes (concat (map (\<lambda>m. the (gauge_points (metric_data m))) (counted_metrics ms)))
            in Some (values_of AsString name as, not_found name as)))"

section \<open>Facts\<close>

lemma shortenNames_cases: "shortenNames v = v \<or> shortenNames v \<in> set short_names \<and> has_prefix v (shortenNames v)"
  by (auto simp: shortenNames_def find_Some_iff split: option.splits)

text \<open>Shortening is stable: the short names are their own short names.\<close>

lemma shortenNames_idempotent: "shortenNames (shortenNames v) = shortenNames v"
proof -
  have "list_all (\<lambda>p. shortenNames p = p) short_names" by code_simp
  then show ?thesis using shortenNames_cases [of v] by (auto simp: list_all_iff)
qed

lemma containerImageShorten_no_slash: "CHR ''/'' \<notin> set (containerImageShorten v)"
proof -
  have "CHR ''/'' \<notin> set (case last_index v (CHR ''/'') of Some i \<Rightarrow> drop (i + 1) v | None \<Rightarrow> v)"
    by (simp add: last_index_Some split: option.split)
  moreover have "set (strip_arch s) \<subseteq> set s" for s
    by (auto simp: strip_arch_def dest: in_set_takeD split: option.split)
  ultimately show ?thesis unfolding containerImageShorten_def by blast
qed

text \<open>When the resources of a kind pass the upgrade check: all have names, none an old one, and one the new one.\<close>

lemma old_gone: "validateOldTargetAllocatorResourceDoesNotExist kind rs = Inr () \<longleftrightarrow>
    (\<forall>r \<in> set rs. \<exists>n. r = Some n \<and> \<not> contains n splunkOtelCollectorTAResourceName)"
  by (induction kind rs rule: validateOldTargetAllocatorResourceDoesNotExist.induct) auto

lemma new_there: "(\<forall>r \<in> set rs. r \<noteq> None) \<Longrightarrow> validateNewTargetAllocatorResourceExists kind rs = Inr () \<longleftrightarrow>
    (\<exists>n. Some n \<in> set rs \<and> contains n taResourceName)"
  by (induction kind rs rule: validateNewTargetAllocatorResourceExists.induct) auto

theorem target_allocator_upgraded:
  "validateTargetAllocatorResourceUpgrade kind rs = Inr () \<longleftrightarrow>
     (\<forall>r \<in> set rs. \<exists>n. r = Some n \<and> \<not> contains n splunkOtelCollectorTAResourceName) \<and>
     (\<exists>n. Some n \<in> set rs \<and> contains n taResourceName)"
proof (cases "\<forall>r \<in> set rs. \<exists>n. r = Some n \<and> \<not> contains n splunkOtelCollectorTAResourceName")
  case True
  then have "\<forall>r \<in> set rs. r \<noteq> None" by auto
  with True new_there [OF this] show ?thesis
    by (simp add: validateTargetAllocatorResourceUpgrade_def bind_res_Inr_iff old_gone)
next
  case False
  then have "validateOldTargetAllocatorResourceDoesNotExist kind rs \<noteq> Inr ()" by (simp only: old_gone not_False_eq_True)
  then have "validateOldTargetAllocatorResourceDoesNotExist kind rs \<noteq> Inr u" for u by (cases u) simp
  with False show ?thesis unfolding validateTargetAllocatorResourceUpgrade_def bind_res_Inr_iff by blast
qed

text \<open>The values are those that occur, each once, in the order of their first occurrence.\<close>

lemma list_contains_iff: "list_contains vs v \<longleftrightarrow> v \<in> set vs"
  by (induction vs) auto

definition texts_of :: "(attr_value \<Rightarrow> string) \<Rightarrow> string \<Rightarrow> attrs list \<Rightarrow> string list" where
  "texts_of AsString name ms = map AsString (List.map_filter (\<lambda>m. attr_get m name) ms)"

lemma texts_of_snoc:
  "texts_of f k (ms @ [m]) = texts_of f k ms @ (case attr_get m k of Some v \<Rightarrow> [f v] | None \<Rightarrow> [])"
  by (simp add: texts_of_def map_filter_def split: option.split)

theorem values_of_first: "values_of AsString name ms = rev (remdups (rev (texts_of AsString name ms)))"
proof (induction ms rule: rev_induct)
  case Nil
  show ?case by (simp add: values_of_def texts_of_def map_filter_def)
next
  case (snoc m ms)
  have s: "values_of AsString name (ms @ [m]) =
      (case attr_get m name of Some v \<Rightarrow> add_value (values_of AsString name ms) (AsString v) | None \<Rightarrow> values_of AsString name ms)"
    unfolding values_of_def foldl_append by simp
  show ?case unfolding s texts_of_snoc
    by (simp add: snoc add_value_def list_contains_iff split: option.split)
qed

lemma getMetricsIndexAndSourceType_panic: "getMetricsIndexAndSourceType AsString [[]] = None"
  by (simp add: getMetricsIndexAndSourceType_def)

end
