(* ===== verification/K8sEvents.thy ===== *)
theory K8sEvents
  imports Plog
begin

section \<open>Kubernetes events\<close>

text \<open>
  Model of the log processing of \<open>functional_tests/k8sevents/k8sevents_test.go\<close>: selecting the event logs,
  normalising their bodies so that the Kubernetes versions agree, collapsing them by resource and
  scope, and overwriting the fields of object logs that change from run to run.
\<close>

subsection \<open>Bodies\<close>

text \<open>
  \<open>ReplaceAllString\<close> for a pattern that matches no empty text: at each position from the left, the
  matcher says what replaces a match that starts there and how long the match is.
\<close>

fun replace_all :: "(string \<Rightarrow> (string \<times> nat) option) \<Rightarrow> string \<Rightarrow> string" where
  "replace_all f [] = []"
| "replace_all f (c # cs) =
     (case f (c # cs) of
        Some (out, n) \<Rightarrow> out @ replace_all f (drop (n - 1) cs)
      | None \<Rightarrow> c # replace_all f cs)"

definition first_line :: "string \<Rightarrow> string" where
  "first_line s = takeWhile (\<lambda>c. c \<noteq> CHR 0x0A) s"

definition pulled_literal :: "string \<Rightarrow> string" where
  "pulled_literal img =
     ''Successfully pulled image '' @ CHR 0x22 # img @ '':latest'' @ CHR 0x22 # '' in ''"

text \<open>The pattern of \<open>rePulledImage\<close>; a dot matches anything but a newline.\<close>

definition pulled_as :: "string \<Rightarrow> string \<Rightarrow> bool" where
  "pulled_as img s =
     (has_prefix (first_line s) (pulled_literal img) \<and>
      (case after_first '' ('' (drop (length (pulled_literal img)) (first_line s)) of
         Some r \<Rightarrow> contains r '' including waiting)''
       | None \<Rightarrow> False))"

definition pulled_match :: "string \<Rightarrow> (string \<times> nat) option" where
  "pulled_match s =
     (case List.find (\<lambda>img. pulled_as img s) [''busybox'', ''alpine''] of
        Some img \<Rightarrow> Some (pulled_literal img @ ''<time> (<time> including waiting)'', length (first_line s))
      | None \<Rightarrow> None)"

text \<open>The patterns of \<open>reCreatedContainer\<close> and \<open>reStartedContainer\<close>.\<close>

definition created_match :: "string \<Rightarrow> (string \<times> nat) option" where
  "created_match s =
     (if has_prefix s ''Created container: '' then Some (''Container created'', length (first_line s)) else None)"

definition started_match :: "string \<Rightarrow> (string \<times> nat) option" where
  "started_match s =
     (if has_prefix s ''Started container '' then Some (''Container started'', length (first_line s))
      else if has_prefix s ''Started container'' then Some (''Container started'', length ''Started container'')
      else None)"

definition capitalise :: "string \<Rightarrow> string" where
  "capitalise s =
     (case s of
        [] \<Rightarrow> []
      | c # cs \<Rightarrow>
          if 97 \<le> (of_char c :: nat) \<and> (of_char c :: nat) \<le> 122 then char_of ((of_char c :: nat) - 97 + 65) # cs else s)"

definition event_body :: "string \<Rightarrow> string" where
  "event_body body =
     replace_all started_match (replace_all created_match (replace_all pulled_match (capitalise body)))"

subsection \<open>Selecting\<close>

text \<open>
  \<open>regexp.MatchString\<close> for the two patterns that are used: a literal text, whose last character may be
  starred, somewhere in the value.
\<close>

definition pattern_in :: "string \<Rightarrow> string \<Rightarrow> bool" where
  "pattern_in pattern s =
     (if has_suffix pattern ''*'' then contains s (take (length pattern - 2) pattern) else contains s pattern)"

definition selectResLogs :: "string \<Rightarrow> string \<Rightarrow> logs list \<Rightarrow> logs" where
  "selectResLogs attributeName attributeValue sink =
     filter (\<lambda>r. case attr_get (rl_Attributes r) attributeName of
         Some attr \<Rightarrow> pattern_in attributeValue (attr_str attr)
       | None \<Rightarrow> False) (concat sink)"

text \<open>
  \<open>v1 != v2\<close> on two values of type \<open>any\<close>: Go panics, which is \<^const>\<open>None\<close>, when both have the same type and that
  type has no equality. \<open>AsRaw\<close> makes maps, slices and byte slices of such values.
\<close>

fun same_uncomparable :: "attr_value \<Rightarrow> attr_value \<Rightarrow> bool" where
  "same_uncomparable (VMap m) (VMap n) = True"
| "same_uncomparable (VSlice m) (VSlice n) = True"
| "same_uncomparable (VBytes m) (VBytes n) = True"
| "same_uncomparable v w = False"

definition raw_equal :: "attr_value \<Rightarrow> attr_value \<Rightarrow> bool option" where
  "raw_equal v w =
     (if same_uncomparable v w then None
      else Some (case (v, w) of (VDouble a, VDouble b) \<Rightarrow> f64_eq a b | _ \<Rightarrow> v = w))"

definition AsRaw :: "attrs \<Rightarrow> attrs" where
  "AsRaw m = foldl (\<lambda>raw (k, v). AList.update k v raw) [] m"

fun compare_entries :: "attrs \<Rightarrow> attrs \<Rightarrow> bool option" where
  "compare_entries [] raw2 = Some True"
| "compare_entries ((k1, v1) # es) raw2 =
     (case map_of raw2 k1 of
        None \<Rightarrow> Some False
      | Some v2 \<Rightarrow>
          (case raw_equal v1 v2 of
             None \<Rightarrow> None
           | Some eq \<Rightarrow> if \<not> eq then Some False else compare_entries es raw2))"

text \<open>\<open>ro\<close> is the order in which the runtime walks the map.\<close>

definition compareAttributes :: "(attrs \<Rightarrow> attrs) \<Rightarrow> attrs \<Rightarrow> attrs \<Rightarrow> bool option" where
  "compareAttributes ro attr1 attr2 =
     (if length (AsRaw attr1) \<noteq> length (AsRaw attr2) then Some False
      else compare_entries (ro (AsRaw attr1)) (AsRaw attr2))"

text \<open>
  The first group whose attributes compare equal takes the new members; if there is none, a new group
  with a copy of the attributes does. This is the shape of both loops of \<open>selectLogs\<close>.
\<close>

fun place :: "('g \<Rightarrow> bool option) \<Rightarrow> 'g \<Rightarrow> ('g \<Rightarrow> 'g option) \<Rightarrow> 'g list \<Rightarrow> 'g list option" where
  "place same new fill [] = map_option (\<lambda>g. [g]) (fill new)"
| "place same new fill (g # gs) =
     (case same g of
        None \<Rightarrow> None
      | Some True \<Rightarrow> map_option (\<lambda>g'. g' # gs) (fill g)
      | Some False \<Rightarrow> map_option ((#) g) (place same new fill gs))"

definition wanted_record :: "string \<Rightarrow> string \<Rightarrow> log_record \<Rightarrow> bool" where
  "wanted_record attributeName attributeValue r =
     (case attr_get (lr_Attributes r) attributeName of Some attr \<Rightarrow> attr_str attr = attributeValue | None \<Rightarrow> False)"

definition modify_body :: "(string \<Rightarrow> string) \<Rightarrow> log_record \<Rightarrow> log_record" where
  "modify_body f r = r\<lparr>lr_Body := VStr (f (attr_str (lr_Body r)))\<rparr>"

definition chosen_records :: "string \<Rightarrow> string \<Rightarrow> (string \<Rightarrow> string) \<Rightarrow> scope_logs \<Rightarrow> log_record list" where
  "chosen_records n v f s = map (modify_body f) (filter (wanted_record n v) (sl_Records s))"

definition add_scope ::
  "(attrs \<Rightarrow> attrs) \<Rightarrow> string \<Rightarrow> string \<Rightarrow> (string \<Rightarrow> string) \<Rightarrow> scope_logs \<Rightarrow> scope_logs list \<Rightarrow> scope_logs list option"
where
  "add_scope ro n v f s scopes =
     place (\<lambda>g. compareAttributes ro (sl_Attributes s) (sl_Attributes g))
       \<lparr>sl_Attributes = sl_Attributes s, sl_rest = [], sl_Records = []\<rparr>
       (\<lambda>g. Some (g\<lparr>sl_Records := sl_Records g @ chosen_records n v f s\<rparr>)) scopes"

fun add_scopes ::
  "(attrs \<Rightarrow> attrs) \<Rightarrow> string \<Rightarrow> string \<Rightarrow> (string \<Rightarrow> string) \<Rightarrow> scope_logs list \<Rightarrow> scope_logs list \<Rightarrow> scope_logs list option"
where
  "add_scopes ro n v f [] scopes = Some scopes"
| "add_scopes ro n v f (s # ss) scopes =
     (case add_scope ro n v f s scopes of None \<Rightarrow> None | Some scopes' \<Rightarrow> add_scopes ro n v f ss scopes')"

definition add_resource ::
  "(attrs \<Rightarrow> attrs) \<Rightarrow> string \<Rightarrow> string \<Rightarrow> (string \<Rightarrow> string) \<Rightarrow> resource_logs \<Rightarrow> logs \<Rightarrow> logs option"
where
  "add_resource ro n v f r selected =
     place (\<lambda>g. compareAttributes ro (rl_Attributes r) (rl_Attributes g))
       \<lparr>rl_Attributes = rl_Attributes r, rl_rest = [], rl_Scopes = []\<rparr>
       (\<lambda>g. map_option (\<lambda>scopes. g\<lparr>rl_Scopes := scopes\<rparr>) (add_scopes ro n v f (rl_Scopes r) (rl_Scopes g))) selected"

fun select_loop ::
  "(attrs \<Rightarrow> attrs) \<Rightarrow> string \<Rightarrow> string \<Rightarrow> (string \<Rightarrow> string) \<Rightarrow> logs \<Rightarrow> logs \<Rightarrow> logs option"
where
  "select_loop ro n v f [] selected = Some selected"
| "select_loop ro n v f (r # rs) selected =
     (case add_resource ro n v f r selected of None \<Rightarrow> None | Some selected' \<Rightarrow> select_loop ro n v f rs selected')"

text \<open>The bodies of the selected records are modified in the input too, which is the second component.\<close>

definition selectLogs ::
  "(attrs \<Rightarrow> attrs) \<Rightarrow> string \<Rightarrow> string \<Rightarrow> logs \<Rightarrow> (string \<Rightarrow> string) \<Rightarrow> (logs \<times> logs) option"
where
  "selectLogs ro attributeName attributeValue inLogs modifyBodyFunc =
     map_option (\<lambda>selected. (selected,
         map_records (\<lambda>r. if wanted_record attributeName attributeValue r then modify_body modifyBodyFunc r else r) inLogs))
       (select_loop ro attributeName attributeValue modifyBodyFunc inLogs [])"

subsection \<open>Overwriting fields\<close>

text \<open>
  \<^const>\<open>None\<close> is a panic: an index that \<open>Atoi\<close> reads as negative passes the bounds test. \<open>updateSlice\<close> takes the path
  after the index; with two or more keys left it goes on with all but the first of them.
\<close>

function updateMap :: "attrs \<Rightarrow> string list \<Rightarrow> string \<Rightarrow> attrs option"
  and updateSlice :: "attr_value list \<Rightarrow> string list \<Rightarrow> string \<Rightarrow> int \<Rightarrow> attr_value list option"
where
  "updateMap m [] newValue = Some m"
| "updateMap m [key] newValue = Some (put_str m key newValue)"
| "updateMap m (key # p1 # path) newValue =
     (case attr_get m key of
        Some (VMap nested) \<Rightarrow>
          map_option (\<lambda>n. set_first key (\<lambda>_. VMap n) m) (updateMap nested (p1 # path) newValue)
      | Some (VSlice s) \<Rightarrow>
          (case atoi p1 of
             None \<Rightarrow> Some m
           | Some index \<Rightarrow>
               if sint index < int (length s)
               then map_option (\<lambda>n. set_first key (\<lambda>_. VSlice n) m) (updateSlice s path newValue (sint index))
               else Some m)
      | _ \<Rightarrow> Some m)"
| "updateSlice s [] newValue index = Some s"
| "updateSlice s [key] newValue index =
     (if index < 0 then None
      else case s ! nat index of
             VMap n \<Rightarrow> Some (s[nat index := VMap (put_str n key newValue)])
           | _ \<Rightarrow> Some s)"
| "updateSlice s (key # p1 # path) newValue index =
     (if index < 0 then None
      else case s ! nat index of
             VMap n \<Rightarrow> map_option (\<lambda>n'. s[nat index := VMap n']) (updateMap n (p1 # path) newValue)
           | _ \<Rightarrow> Some s)"
  by pat_completeness auto
termination
  by (relation "measure (\<lambda>x. case x of Inl (m, path, v) \<Rightarrow> length path | Inr (s, path, v, i) \<Rightarrow> length path)") auto

definition update_body :: "string list \<Rightarrow> string \<Rightarrow> log_record \<Rightarrow> log_record option" where
  "update_body path newValue r =
     (case lr_Body r of
        VMap m \<Rightarrow> map_option (\<lambda>m'. r\<lparr>lr_Body := VMap m'\<rparr>) (updateMap m path newValue)
      | _ \<Rightarrow> Some r)"

definition updateLogRecordBody :: "logs \<Rightarrow> string list \<Rightarrow> string \<Rightarrow> logs option" where
  "updateLogRecordBody ls path newValue =
     (if list_all (\<lambda>r. update_body path newValue r \<noteq> None) (all_records ls)
      then Some (map_records (\<lambda>r. the (update_body path newValue r)) ls) else None)"

section \<open>Facts about bodies\<close>

lemma after_first_at: "\<exists>u. after_first p (a @ p @ b) = Some (u @ b)"
proof (induction a)
  case Nil
  show ?case
  proof (cases "p @ b")
    case (Cons c s)
    then have "drop (length p) (c # s) = b" "has_prefix (c # s) p" by (metis append_eq_conv_conj, metis has_prefix_append)
    then show ?thesis using Cons by auto
  qed simp
next
  case (Cons c a)
  have "drop (length p) ((c # a @ p) @ b) = drop (length p) (c # a @ p) @ b" by (subst drop_append) simp
  then have "drop (length p) (c # a @ p @ b) = drop (length p) (c # a @ p) @ b" by simp
  with Cons show ?case by auto
qed

lemma first_line_whole: "CHR 0x0A \<notin> set s \<Longrightarrow> first_line s = s"
  by (auto simp: first_line_def takeWhile_eq_all_conv)

lemma replace_all_lines:
  assumes "\<And>t out n. f t = Some (out, n) \<Longrightarrow> c \<notin> set out" and "c \<notin> set s"
  shows "c \<notin> set (replace_all f s)"
  using assms
proof (induction f s rule: replace_all.induct)
  case (2 f d cs)
  show ?case
  proof (cases "f (d # cs)")
    case None
    with 2(1) [OF None 2(3)] 2(4) show ?thesis by simp
  next
    case (Some q)
    then obtain out n where q: "f (d # cs) = Some (out, n)" by (cases q) auto
    have "c \<notin> set (drop (n - 1) cs)" using 2(4) by (auto dest: in_set_dropD)
    with 2(2) [OF Some _ 2(3)] q Some 2(3) [OF q] show ?thesis by (cases q) auto
  qed
qed simp

lemma replace_all_whole: "f s = Some (out, length s) \<Longrightarrow> s \<noteq> [] \<Longrightarrow> replace_all f s = out"
  by (cases s) auto

lemma pulled_match_other: "c \<noteq> CHR ''S'' \<or> d \<noteq> CHR ''u'' \<Longrightarrow> pulled_match (c # d # s) = None"
  by (auto simp: pulled_match_def pulled_as_def pulled_literal_def first_line_def)

lemma pulled_match_start: "c \<noteq> CHR ''S'' \<Longrightarrow> pulled_match (c # s) = None"
  by (simp add: pulled_match_def pulled_as_def pulled_literal_def first_line_def)

lemma pulled_match_lines: "pulled_match t = Some (out, n) \<Longrightarrow> CHR 0x0A \<notin> set out"
  by (auto simp: pulled_match_def pulled_literal_def split: if_splits)

lemma created_match_other: "c \<noteq> CHR ''C'' \<Longrightarrow> created_match (c # s) = None"
  by (simp add: created_match_def)

lemma created_match_lines: "created_match t = Some (out, n) \<Longrightarrow> CHR 0x0A \<notin> set out"
  by (auto simp: created_match_def split: if_splits)

lemma pulled_lines: "CHR 0x0A \<notin> set x \<Longrightarrow> CHR 0x0A \<notin> set (replace_all pulled_match x)"
  by (rule replace_all_lines) (rule pulled_match_lines)

lemma created_lines: "CHR 0x0A \<notin> set x \<Longrightarrow> CHR 0x0A \<notin> set (replace_all created_match x)"
  by (rule replace_all_lines) (rule created_match_lines)

lemmas skip_match = pulled_match_start pulled_match_other created_match_other

lemma started_body:
  assumes "CHR 0x0A \<notin> set x"
  shows "event_body (''Started container '' @ x) = ''Container started''"
proof -
  let ?y = "replace_all created_match (replace_all pulled_match x)"
  have "CHR 0x0A \<notin> set ?y"
    using assms by (intro created_lines pulled_lines)
  then have "CHR 0x0A \<notin> set (''Started container '' @ ?y)" by simp
  then have "first_line (''Started container '' @ ?y) = ''Started container '' @ ?y" by (rule first_line_whole)
  then have m: "started_match (''Started container '' @ ?y) = Some (''Container started'', length (''Started container '' @ ?y))"
    unfolding started_match_def by (simp only: has_prefix_append if_True)
  have p: "replace_all pulled_match (''Started container '' @ x) = ''Started container '' @ replace_all pulled_match x"
    by (simp add: skip_match)
  have c: "replace_all created_match (''Started container '' @ z) = ''Started container '' @ replace_all created_match z" for z
    by (simp add: skip_match)
  have cap: "capitalise (''Started container '' @ x) = ''Started container '' @ x" by (simp add: capitalise_def)
  show ?thesis unfolding event_body_def cap p c by (rule replace_all_whole [of started_match, OF m]) simp
qed

lemma created_body:
  assumes "CHR 0x0A \<notin> set x"
  shows "event_body (''Created container: '' @ x) = ''Container created''"
proof -
  let ?y = "replace_all pulled_match x"
  have "CHR 0x0A \<notin> set ?y" using assms by (rule pulled_lines)
  then have "CHR 0x0A \<notin> set (''Created container: '' @ ?y)" by simp
  then have "first_line (''Created container: '' @ ?y) = ''Created container: '' @ ?y" by (rule first_line_whole)
  then have m: "created_match (''Created container: '' @ ?y) = Some (''Container created'', length (''Created container: '' @ ?y))"
    unfolding created_match_def by (simp only: has_prefix_append if_True)
  have p: "replace_all pulled_match (''Created container: '' @ x) = ''Created container: '' @ ?y"
    by (simp add: skip_match)
  have cap: "capitalise (''Created container: '' @ x) = ''Created container: '' @ x" by (simp add: capitalise_def)
  have c: "replace_all created_match (''Created container: '' @ ?y) = ''Container created''"
    by (rule replace_all_whole [of created_match, OF m]) simp
  show ?thesis unfolding event_body_def cap p c by code_simp
qed

lemma pulled_body:
  assumes "img \<in> {''busybox'', ''alpine''}" and "CHR 0x0A \<notin> set (d @ w @ r)"
  shows "event_body (pulled_literal img @ d @ '' ('' @ w @ '' including waiting)'' @ r) =
    pulled_literal img @ ''<time> (<time> including waiting)''"
proof -
  let ?s = "pulled_literal img @ d @ '' ('' @ w @ '' including waiting)'' @ r"
  have nl: "CHR 0x0A \<notin> set ?s" using assms by (auto simp: pulled_literal_def)
  have line: "first_line ?s = ?s" using nl by (rule first_line_whole)
  obtain u where "after_first '' ('' (d @ '' ('' @ w @ '' including waiting)'' @ r) = Some (u @ w @ '' including waiting)'' @ r)"
    using after_first_at [of "'' (''" d "w @ '' including waiting)'' @ r"] by blast
  moreover have "contains (u @ w @ '' including waiting)'' @ r) '' including waiting)''"
    by (intro contains_append2 contains_append1 contains_refl)
  ultimately have as: "pulled_as img ?s" unfolding pulled_as_def line by (simp only: has_prefix_append) simp
  have other: "\<not> pulled_as ''busybox'' (pulled_literal ''alpine'' @ t)" if "CHR 0x0A \<notin> set (pulled_literal ''alpine'' @ t)" for t
    unfolding pulled_as_def first_line_whole [OF that] by (simp add: pulled_literal_def)
  have m: "pulled_match ?s = Some (pulled_literal img @ ''<time> (<time> including waiting)'', length ?s)"
    using assms(1) as other nl unfolding pulled_match_def line by auto
  have "capitalise ?s = ?s" by (simp add: capitalise_def pulled_literal_def)
  then have "event_body ?s = replace_all started_match (replace_all created_match
      (pulled_literal img @ ''<time> (<time> including waiting)''))"
    using replace_all_whole [of pulled_match ?s, OF m] by (simp add: event_body_def pulled_literal_def)
  also have "\<dots> = pulled_literal img @ ''<time> (<time> including waiting)''"
    using assms(1) by auto code_simp+
  finally show ?thesis .
qed

section \<open>Facts about selecting\<close>

lemma AsRaw_distinct: "distinct (map fst m) \<Longrightarrow> AsRaw m = m"
proof -
  have upd: "k \<notin> set (map fst acc) \<Longrightarrow> AList.update k v acc = acc @ [(k, v)]" for k v and acc :: attrs
    by (induction acc) auto
  have "foldl (\<lambda>raw (k, v). AList.update k v raw) acc m = acc @ m" if "distinct (map fst (acc @ m))" for acc
    using that by (induction m arbitrary: acc) (auto simp: upd)
  from this [of "[]"] show "distinct (map fst m) \<Longrightarrow> AsRaw m = m" by (simp add: AsRaw_def)
qed

lemma raw_equal_scalar: "scalar v \<Longrightarrow> raw_equal v w = Some (v = w)"
  by (cases v; cases w) (auto simp: raw_equal_def)

lemma compare_entries_scalar:
  "list_all (scalar \<circ> snd) es \<Longrightarrow>
     compare_entries es raw2 = Some (\<forall>(k, v) \<in> set es. map_of raw2 k = Some v)"
  by (induction es) (auto simp: raw_equal_scalar split: option.splits)

lemma map_of_eq_entries:
  assumes "distinct (map fst a)" and "distinct (map fst b)"
  shows "map_of a = map_of b \<longleftrightarrow> length a = length b \<and> (\<forall>(k, v) \<in> set a. map_of b k = Some v)"
proof -
  have c: "length m = card (set m)" if "distinct (map fst m)" for m :: "('x \<times> 'y) list"
    using that by (metis distinct_card distinct_map)
  have sub: "(\<forall>(k, v) \<in> set a. map_of b k = Some v) \<longleftrightarrow> set a \<subseteq> set b"
    using assms(2) by (auto simp: map_of_eq_Some_iff)
  have "set a = set b \<longleftrightarrow> card (set a) = card (set b) \<and> set a \<subseteq> set b"
    by (metis card_subset_eq List.finite_set order_refl)
  then show ?thesis using assms c map_of_inject_set [OF assms] sub by metis
qed

lemma compareAttributes_plain:
  assumes "mset (ro (AsRaw a)) = mset (AsRaw a)" and "plain_attrs a" and "plain_attrs b"
  shows "compareAttributes ro a b = Some (map_of a = map_of b)"
proof -
  have d: "distinct (map fst a)" "distinct (map fst b)" and r: "AsRaw a = a" "AsRaw b = b"
    using assms(2,3) by (simp_all add: plain_attrs_def AsRaw_distinct)
  have "set (ro a) = set a" using assms(1) r by (metis mset_eq_setD)
  moreover from this have "list_all (scalar \<circ> snd) (ro a)" using assms(2) by (simp add: plain_attrs_def list_all_iff)
  ultimately show ?thesis
    by (simp add: compareAttributes_def r map_of_eq_entries [OF d] compare_entries_scalar)
qed

text \<open>One group takes the new members, and the groups keep different keys.\<close>

lemma place_spec:
  assumes "\<forall>g \<in> set gs. same g = Some (key g = key new)" and "distinct (map key gs)"
    and "\<forall>g \<in> set gs. ok g" and "ok new"
    and fill: "\<And>g. ok g \<Longrightarrow> \<exists>g'. fill g = Some g' \<and> key g' = key g \<and> ok g' \<and>
      (key g = key new \<longrightarrow> content g' = content g + added)"
    and "content new = {#}"
  shows "\<exists>gs'. place same new fill gs = Some gs' \<and> distinct (map key gs') \<and>
    key ` set gs' = insert (key new) (key ` set gs) \<and> (\<forall>g \<in> set gs'. ok g) \<and>
    (\<Sum>g\<leftarrow>gs'. content g) = (\<Sum>g\<leftarrow>gs. content g) + added"
  using assms(1-3)
proof (induction gs)
  case Nil
  from fill [OF assms(4)] assms(6) show ?case by auto
next
  case (Cons g gs)
  show ?case
  proof (cases "key g = key new")
    case True
    have "ok g" using Cons.prems(3) by simp
    from fill [OF this] True obtain g' where g': "fill g = Some g'" "key g' = key g" "ok g'" "content g' = content g + added"
      by blast
    have p: "place same new fill (g # gs) = Some (g' # gs)" using Cons.prems(1) True g'(1) by simp
    have "(\<Sum>g\<leftarrow>g' # gs. content g) = (\<Sum>g\<leftarrow>g # gs. content g) + added" using g'(4) by (simp add: ac_simps)
    moreover have "distinct (map key (g' # gs))" "\<forall>g \<in> set (g' # gs). ok g" using Cons.prems(2,3) g'(2,3) by simp_all
    moreover have "key ` set (g' # gs) = insert (key new) (key ` set (g # gs))" using g'(2) True by simp
    ultimately show ?thesis using p by blast
  next
    case False
    with Cons obtain gs' where "place same new fill gs = Some gs'" "distinct (map key gs')"
      "key ` set gs' = insert (key new) (key ` set gs)" "\<forall>g \<in> set gs'. ok g"
      "(\<Sum>g\<leftarrow>gs'. content g) = (\<Sum>g\<leftarrow>gs. content g) + added" by auto
    moreover from this have "place same new fill (g # gs) = Some (g # gs')" using Cons.prems(1) False by simp
    ultimately show ?thesis using Cons.prems(2,3) False by (intro exI [of _ "g # gs'"]) (auto simp: ac_simps)
  qed
qed

text \<open>The records of a payload with the attributes of their resource and scope, read as maps.\<close>

type_synonym attr_map = "string \<Rightarrow> attr_value option"

definition placed_scope :: "scope_logs \<Rightarrow> (attr_map \<times> log_record) multiset" where
  "placed_scope s = image_mset (Pair (map_of (sl_Attributes s))) (mset (sl_Records s))"

definition placed_resource :: "resource_logs \<Rightarrow> (attr_map \<times> attr_map \<times> log_record) multiset" where
  "placed_resource r =
     image_mset (Pair (map_of (rl_Attributes r))) (\<Sum>s\<leftarrow>rl_Scopes r. placed_scope s)"

definition placed :: "logs \<Rightarrow> (attr_map \<times> attr_map \<times> log_record) multiset" where
  "placed ls = (\<Sum>r\<leftarrow>ls. placed_resource r)"

definition plain_logs :: "logs \<Rightarrow> bool" where
  "plain_logs ls \<longleftrightarrow>
     list_all (\<lambda>r. plain_attrs (rl_Attributes r) \<and> list_all (\<lambda>s. plain_attrs (sl_Attributes s)) (rl_Scopes r)) ls"

definition chosen_scope :: "string \<Rightarrow> string \<Rightarrow> (string \<Rightarrow> string) \<Rightarrow> scope_logs \<Rightarrow> (attr_map \<times> log_record) multiset" where
  "chosen_scope n v f s = image_mset (Pair (map_of (sl_Attributes s))) (mset (chosen_records n v f s))"

definition grouped_scopes :: "scope_logs list \<Rightarrow> bool" where
  "grouped_scopes ss \<longleftrightarrow> distinct (map (map_of \<circ> sl_Attributes) ss) \<and> (\<forall>s \<in> set ss. plain_attrs (sl_Attributes s))"

lemma add_scope_spec:
  assumes ro: "\<And>m. mset (ro m) = mset m" and "plain_attrs (sl_Attributes s)" and "grouped_scopes ss"
  shows "\<exists>ss'. add_scope ro n v f s ss = Some ss' \<and> grouped_scopes ss' \<and>
    (\<Sum>s\<leftarrow>ss'. placed_scope s) = (\<Sum>s\<leftarrow>ss. placed_scope s) + chosen_scope n v f s"
proof -
  let ?new = "\<lparr>sl_Attributes = sl_Attributes s, sl_rest = [], sl_Records = []\<rparr>"
  let ?key = "map_of \<circ> sl_Attributes"
  have "\<exists>ss'. add_scope ro n v f s ss = Some ss' \<and> distinct (map ?key ss') \<and>
      ?key ` set ss' = insert (?key ?new) (?key ` set ss) \<and> (\<forall>g \<in> set ss'. plain_attrs (sl_Attributes g)) \<and>
      (\<Sum>g\<leftarrow>ss'. placed_scope g) = (\<Sum>g\<leftarrow>ss. placed_scope g) + chosen_scope n v f s"
    unfolding add_scope_def
  proof (rule place_spec [where key = ?key and ok = "\<lambda>g. plain_attrs (sl_Attributes g)"])
    show "\<forall>g \<in> set ss. compareAttributes ro (sl_Attributes s) (sl_Attributes g) = Some (?key g = ?key ?new)"
      using assms by (auto simp: grouped_scopes_def compareAttributes_plain)
    show "placed_scope ?new = {#}" by (simp add: placed_scope_def)
  qed (use assms in \<open>auto simp: grouped_scopes_def placed_scope_def chosen_scope_def\<close>)
  then show ?thesis by (auto simp: grouped_scopes_def)
qed

lemma add_scopes_spec:
  assumes ro: "\<And>m. mset (ro m) = mset m" and "\<forall>s \<in> set new. plain_attrs (sl_Attributes s)" and "grouped_scopes ss"
  shows "\<exists>ss'. add_scopes ro n v f new ss = Some ss' \<and> grouped_scopes ss' \<and>
    (\<Sum>s\<leftarrow>ss'. placed_scope s) = (\<Sum>s\<leftarrow>ss. placed_scope s) + (\<Sum>s\<leftarrow>new. chosen_scope n v f s)"
  using assms(2,3)
proof (induction new arbitrary: ss)
  case (Cons s new)
  from add_scope_spec [OF ro, of s ss n v f] Cons.prems obtain ss1 where
    s1: "add_scope ro n v f s ss = Some ss1" "grouped_scopes ss1"
      "(\<Sum>s\<leftarrow>ss1. placed_scope s) = (\<Sum>s\<leftarrow>ss. placed_scope s) + chosen_scope n v f s" by auto
  from Cons.IH [of ss1] Cons.prems(1) s1(2) obtain ss2 where
    "add_scopes ro n v f new ss1 = Some ss2" "grouped_scopes ss2"
    "(\<Sum>s\<leftarrow>ss2. placed_scope s) = (\<Sum>s\<leftarrow>ss1. placed_scope s) + (\<Sum>s\<leftarrow>new. chosen_scope n v f s)" by auto
  moreover from this s1 have "(\<Sum>s\<leftarrow>ss2. placed_scope s) =
      (\<Sum>s\<leftarrow>ss. placed_scope s) + (\<Sum>s\<leftarrow>s # new. chosen_scope n v f s)" by (simp only: list.map sum_list.Cons add.assoc)
  ultimately show ?case using s1(1) by (intro exI [of _ ss2]) simp
qed simp

definition grouped :: "logs \<Rightarrow> bool" where
  "grouped ls \<longleftrightarrow> distinct (map (map_of \<circ> rl_Attributes) ls) \<and>
     (\<forall>r \<in> set ls. plain_attrs (rl_Attributes r) \<and> grouped_scopes (rl_Scopes r))"

definition chosen_resource ::
  "string \<Rightarrow> string \<Rightarrow> (string \<Rightarrow> string) \<Rightarrow> resource_logs \<Rightarrow> (attr_map \<times> attr_map \<times> log_record) multiset"
where
  "chosen_resource n v f r =
     image_mset (Pair (map_of (rl_Attributes r))) (\<Sum>s\<leftarrow>rl_Scopes r. chosen_scope n v f s)"

lemma add_resource_spec:
  assumes ro: "\<And>m. mset (ro m) = mset m" and r: "plain_attrs (rl_Attributes r)"
    "\<forall>s \<in> set (rl_Scopes r). plain_attrs (sl_Attributes s)" and "grouped ls"
  shows "\<exists>ls'. add_resource ro n v f r ls = Some ls' \<and> grouped ls' \<and> placed ls' = placed ls + chosen_resource n v f r"
proof -
  let ?new = "\<lparr>rl_Attributes = rl_Attributes r, rl_rest = [], rl_Scopes = []\<rparr>"
  let ?key = "map_of \<circ> rl_Attributes"
  let ?ok = "\<lambda>g. plain_attrs (rl_Attributes g) \<and> grouped_scopes (rl_Scopes g)"
  let ?fill = "\<lambda>g. map_option (\<lambda>scopes. g\<lparr>rl_Scopes := scopes\<rparr>) (add_scopes ro n v f (rl_Scopes r) (rl_Scopes g))"
  have fill: "\<exists>g'. ?fill g = Some g' \<and> ?key g' = ?key g \<and> ?ok g' \<and>
      (?key g = ?key ?new \<longrightarrow> placed_resource g' = placed_resource g + chosen_resource n v f r)" if ok: "?ok g" for g :: resource_logs
  proof -
    from add_scopes_spec [OF ro r(2), of "rl_Scopes g" n v f] ok obtain ss where
      "add_scopes ro n v f (rl_Scopes r) (rl_Scopes g) = Some ss" "grouped_scopes ss"
      "(\<Sum>s\<leftarrow>ss. placed_scope s) = (\<Sum>s\<leftarrow>rl_Scopes g. placed_scope s) + (\<Sum>s\<leftarrow>rl_Scopes r. chosen_scope n v f s)" by auto
    with ok show ?thesis by (simp add: placed_resource_def chosen_resource_def)
  qed
  have "\<exists>ls'. add_resource ro n v f r ls = Some ls' \<and> distinct (map ?key ls') \<and>
      ?key ` set ls' = insert (?key ?new) (?key ` set ls) \<and> (\<forall>g \<in> set ls'. ?ok g) \<and>
      (\<Sum>g\<leftarrow>ls'. placed_resource g) = (\<Sum>g\<leftarrow>ls. placed_resource g) + chosen_resource n v f r"
    unfolding add_resource_def
  proof (rule place_spec [where key = ?key and ok = ?ok])
    show "\<forall>g \<in> set ls. compareAttributes ro (rl_Attributes r) (rl_Attributes g) = Some (?key g = ?key ?new)"
      using assms by (auto simp: grouped_def compareAttributes_plain)
    show "?ok g \<Longrightarrow> \<exists>g'. ?fill g = Some g' \<and> ?key g' = ?key g \<and> ?ok g' \<and>
      (?key g = ?key ?new \<longrightarrow> placed_resource g' = placed_resource g + chosen_resource n v f r)" for g by (rule fill)
    show "?ok ?new" using r(1) by (simp add: grouped_scopes_def)
    show "placed_resource ?new = {#}" by (simp add: placed_resource_def)
  qed (use assms in \<open>auto simp: grouped_def\<close>)
  then show ?thesis by (auto simp: grouped_def placed_def)
qed

lemma select_loop_spec:
  assumes ro: "\<And>m. mset (ro m) = mset m" and "plain_logs rs" and "grouped ls"
  shows "\<exists>ls'. select_loop ro n v f rs ls = Some ls' \<and> grouped ls' \<and>
    placed ls' = placed ls + (\<Sum>r\<leftarrow>rs. chosen_resource n v f r)"
  using assms(2,3)
proof (induction rs arbitrary: ls)
  case (Cons r rs)
  then have "plain_attrs (rl_Attributes r)" "\<forall>s \<in> set (rl_Scopes r). plain_attrs (sl_Attributes s)"
    by (auto simp: plain_logs_def list_all_iff)
  from add_resource_spec [OF ro this Cons.prems(2), of n v f] obtain l1 where
    l1: "add_resource ro n v f r ls = Some l1" "grouped l1" "placed l1 = placed ls + chosen_resource n v f r" by auto
  from Cons.IH [of l1] Cons.prems(1) l1(2) obtain l2 where
    l2: "select_loop ro n v f rs l1 = Some l2" "grouped l2" "placed l2 = placed l1 + (\<Sum>r\<leftarrow>rs. chosen_resource n v f r)"
    by (auto simp: plain_logs_def)
  have "placed l2 = placed ls + (\<Sum>r\<leftarrow>r # rs. chosen_resource n v f r)"
    unfolding l2(3) l1(3) by (simp only: list.map sum_list.Cons add.assoc)
  with l1(1) l2 show ?case by (intro exI [of _ l2]) simp
qed simp

lemma image_mset_sum_list: "image_mset f (\<Sum>x\<leftarrow>xs. g x) = (\<Sum>x\<leftarrow>xs. image_mset f (g x))"
  by (induction xs) auto

lemma filter_mset_sum_list: "filter_mset P (\<Sum>x\<leftarrow>xs. g x) = (\<Sum>x\<leftarrow>xs. filter_mset P (g x))"
  by (induction xs) auto

lemma chosen_scope_placed:
  "chosen_scope n v f s =
     image_mset (\<lambda>(a, r). (a, modify_body f r)) (filter_mset (\<lambda>(a, r). wanted_record n v r) (placed_scope s))"
  by (simp add: chosen_scope_def placed_scope_def chosen_records_def filter_mset_image_mset image_mset.compositionality o_def)

lemma chosen_resource_placed:
  "chosen_resource n v f r =
     image_mset (\<lambda>(ra, sa, r). (ra, sa, modify_body f r)) (filter_mset (\<lambda>(ra, sa, r). wanted_record n v r) (placed_resource r))"
  by (simp add: chosen_resource_def placed_resource_def chosen_scope_placed filter_mset_image_mset image_mset.compositionality
      o_def case_prod_beta' filter_mset_sum_list image_mset_sum_list)

section \<open>Properties\<close>

text \<open>
  The messages of one event agree across the Kubernetes versions: whatever the container, the
  image and the times are, the older and the newer spelling of a message become the same body.
\<close>

theorem event_body_versions:
  assumes "CHR 0x0A \<notin> set x" and "CHR 0x0A \<notin> set (d @ w @ r)" and "img \<in> {''busybox'', ''alpine''}"
  shows "event_body (''Created container: '' @ x) = event_body ''Container created'' \<and>
    event_body ''container created'' = event_body ''Container created'' \<and>
    event_body (''Started container '' @ x) = event_body ''Container started'' \<and>
    event_body ''container started'' = event_body ''Container started'' \<and>
    event_body (pulled_literal img @ d @ '' ('' @ w @ '' including waiting)'' @ r) =
      pulled_literal img @ ''<time> (<time> including waiting)''"
proof -
  have "event_body ''Container created'' = ''Container created''" "event_body ''container created'' = ''Container created''"
    "event_body ''Container started'' = ''Container started''" "event_body ''container started'' = ''Container started''"
    by code_simp+
  with created_body [OF assms(1)] started_body [OF assms(1)] pulled_body [OF assms(3,2)] show ?thesis by simp
qed

lemma event_body_versions_witness:
  "event_body (''Created container: '' @ ''nginx'') = ''Container created'' \<and>
   event_body (pulled_literal ''alpine'' @ ''1.2s'' @ '' ('' @ ''1.2s'' @ '' including waiting)'' @ ''.'') =
     pulled_literal ''alpine'' @ ''<time> (<time> including waiting)''"
proof -
  have "event_body ''Container created'' = ''Container created''" by code_simp
  with event_body_versions [of "''nginx''" "''1.2s''" "''1.2s''" "''.''" "''alpine''"] show ?thesis by simp
qed

text \<open>
  C28: collapsing: on attributes that Go can compare, the selection never panics; the selected payload has
  each set of resource attributes once and below it each set of scope attributes once; and it holds exactly
  the wanted records of the input, with modified bodies, each under the resource and scope attributes
  it had. In the input the same records get the same new bodies.
\<close>

theorem selectLogs_collapses:
  assumes "\<And>m. mset (ro m) = mset m" and "plain_logs inLogs"
  shows "\<exists>selected inLogs'. selectLogs ro n v inLogs f = Some (selected, inLogs') \<and>
    distinct (map (map_of \<circ> rl_Attributes) selected) \<and>
    list_all (\<lambda>r. distinct (map (map_of \<circ> sl_Attributes) (rl_Scopes r))) selected \<and>
    placed selected = image_mset (\<lambda>(ra, sa, r). (ra, sa, modify_body f r))
      (filter_mset (\<lambda>(ra, sa, r). wanted_record n v r) (placed inLogs)) \<and>
    all_records inLogs' = map (\<lambda>r. if wanted_record n v r then modify_body f r else r) (all_records inLogs)"
proof -
  have "grouped []" by (simp add: grouped_def)
  from select_loop_spec [OF assms this, of n v f] obtain ls where
    "select_loop ro n v f inLogs [] = Some ls" "grouped ls" "placed ls = placed [] + (\<Sum>r\<leftarrow>inLogs. chosen_resource n v f r)"
    by auto
  moreover have "(\<Sum>r\<leftarrow>inLogs. chosen_resource n v f r) = image_mset (\<lambda>(ra, sa, r). (ra, sa, modify_body f r))
      (filter_mset (\<lambda>(ra, sa, r). wanted_record n v r) (placed inLogs))"
    by (simp add: placed_def chosen_resource_placed filter_mset_sum_list image_mset_sum_list)
  ultimately show ?thesis
    by (simp add: selectLogs_def all_records_map grouped_def grouped_scopes_def list_all_iff placed_def)
qed

text \<open>Attributes with a map value under the same key make the comparison panic.\<close>

lemma compareAttributes_panic:
  "compareAttributes (\<lambda>m. m) [(''labels'', VMap [])] [(''labels'', VMap [])] = None"
  by code_simp

definition sample_logs :: logs where
  "sample_logs =
     (let r = (\<lambda>ns b. \<lparr>lr_Attributes = [(''k8s.namespace.name'', VStr ns)], lr_Body = VStr b, lr_rest = []\<rparr>);
          res = (\<lambda>rs. \<lparr>rl_Attributes = [(''host.name'', VStr ''h'')], rl_rest = [],
            rl_Scopes = [\<lparr>sl_Attributes = [], sl_rest = [], sl_Records = rs\<rparr>]\<rparr>)
      in [res [r ''k8sevents-test'' ''started container'', r ''default'' ''Pulled''],
          res [r ''k8sevents-test'' ''Created container: nginx'']])"

lemma selectLogs_collapses_witness:
  "\<exists>selected inLogs'. selectLogs rev ''k8s.namespace.name'' ''k8sevents-test'' sample_logs event_body = Some (selected, inLogs') \<and>
     length selected = 1 \<and> size (placed selected) = 2"
proof -
  have m: "mset (rev m) = mset m" for m :: attrs by simp
  have p: "plain_logs sample_logs" by code_simp
  from selectLogs_collapses [of rev, OF m p, of "''k8s.namespace.name''" "''k8sevents-test''" event_body]
  obtain sel inL where sel: "selectLogs rev ''k8s.namespace.name'' ''k8sevents-test'' sample_logs event_body = Some (sel, inL)"
    and pl: "placed sel = image_mset (\<lambda>(ra, sa, r). (ra, sa, modify_body event_body r))
      (filter_mset (\<lambda>(ra, sa, r). wanted_record ''k8s.namespace.name'' ''k8sevents-test'' r) (placed sample_logs))"
    by blast
  have "map_option (length \<circ> fst) (selectLogs rev ''k8s.namespace.name'' ''k8sevents-test'' sample_logs event_body) = Some 1"
    by code_simp
  with sel have "length sel = 1" by simp
  moreover have "size (placed sel) = 2" unfolding pl
    by (simp add: placed_def placed_resource_def placed_scope_def sample_logs_def wanted_record_def attr_get_def)
  ultimately show ?thesis using sel by blast
qed

text \<open>What is found along a path of keys, through maps only.\<close>

fun at_path :: "attrs \<Rightarrow> string list \<Rightarrow> attr_value option" where
  "at_path m [] = Some (VMap m)"
| "at_path m (k # ks) =
     (case attr_get m k of
        Some (VMap n) \<Rightarrow> at_path n ks
      | Some v \<Rightarrow> if ks = [] then Some v else None
      | None \<Rightarrow> None)"

fun map_path :: "attrs \<Rightarrow> string list \<Rightarrow> bool" where
  "map_path m [] = False"
| "map_path m [k] = True"
| "map_path m (k # k' # ks) = (case attr_get m k of Some (VMap n) \<Rightarrow> map_path n (k' # ks) | _ \<Rightarrow> False)"

lemma put_str_again: "put_str (put_str m k s) k s = put_str m k s"
  by (induction m) auto

lemma set_first_again: "set_first k (\<lambda>_. v) (set_first k (\<lambda>_. w) m) = set_first k (\<lambda>_. v) m"
  by (induction m) auto

lemma updateSlice_length: "updateSlice s path v i = Some s' \<Longrightarrow> length s' = length s"
  by (cases "(s, path, v, i)" rule: updateSlice.cases) (auto split: if_splits attr_value.splits)

text \<open>
  Along a path of maps the new text is what is found at the path afterwards, also when the last key was
  missing, and nothing that is neither on the path nor below it has changed.
\<close>

theorem updateMap_at_path:
  assumes "map_path m path"
  shows "\<exists>m'. updateMap m path newValue = Some m' \<and> at_path m' path = Some (VStr newValue) \<and>
    (\<forall>other. \<not> prefix path other \<and> \<not> prefix other path \<longrightarrow> at_path m' other = at_path m other)"
  using assms
proof (induction m path rule: map_path.induct)
  case (2 m k)
  show ?case
  proof (intro exI conjI allI impI)
    show "updateMap m [k] newValue = Some (put_str m k newValue)" by simp
    show "at_path (put_str m k newValue) [k] = Some (VStr newValue)" by (simp add: attr_get_put_str)
    show "at_path (put_str m k newValue) other = at_path m other" if "\<not> prefix [k] other \<and> \<not> prefix other [k]" for other
      using that by (cases other) (auto simp: attr_get_put_str)
  qed
next
  case (3 m k k' ks)
  then obtain n where n: "attr_get m k = Some (VMap n)" and p: "map_path n (k' # ks)"
    by (auto split: option.splits attr_value.splits)
  from 3(1) [OF n refl p] obtain n' where n': "updateMap n (k' # ks) newValue = Some n'"
    "at_path n' (k' # ks) = Some (VStr newValue)"
    "\<And>other. \<not> prefix (k' # ks) other \<and> \<not> prefix other (k' # ks) \<Longrightarrow> at_path n' other = at_path n other" by blast
  let ?m = "set_first k (\<lambda>_. VMap n') m"
  show ?case
  proof (intro exI conjI allI impI)
    show "updateMap m (k # k' # ks) newValue = Some ?m" using n n'(1) by simp
    show "at_path ?m (k # k' # ks) = Some (VStr newValue)" using n n'(2) by (simp add: attr_get_set_first)
    show "at_path ?m other = at_path m other" if "\<not> prefix (k # k' # ks) other \<and> \<not> prefix other (k # k' # ks)" for other
      using that n n'(3) by (cases other) (auto simp: attr_get_set_first)
  qed
qed simp

definition sample_object :: attrs where
  "sample_object =
     [(''object'', VMap [(''kind'', VStr ''Event''), (''metadata'', VMap [(''uid'', VStr ''17''), (''name'', VStr ''pod'')])])]"

lemma updateMap_at_path_witness:
  "\<exists>m'. updateMap sample_object [''object'', ''metadata'', ''uid''] ''<uid>'' = Some m' \<and>
     at_path m' [''object'', ''metadata'', ''uid''] = Some (VStr ''<uid>'') \<and>
     at_path m' [''object'', ''metadata'', ''name''] = Some (VStr ''pod'')"
proof -
  have p: "map_path sample_object [''object'', ''metadata'', ''uid'']" by code_simp
  have o: "at_path sample_object [''object'', ''metadata'', ''name''] = Some (VStr ''pod'')" by code_simp
  from updateMap_at_path [OF p, of "''<uid>''"] obtain m' where
    m': "updateMap sample_object [''object'', ''metadata'', ''uid''] ''<uid>'' = Some m'"
      "at_path m' [''object'', ''metadata'', ''uid''] = Some (VStr ''<uid>'')"
    and other: "\<forall>other. \<not> prefix [''object'', ''metadata'', ''uid''] other \<and> \<not> prefix other [''object'', ''metadata'', ''uid''] \<longrightarrow>
      at_path m' other = at_path sample_object other" by blast
  have "at_path m' [''object'', ''metadata'', ''name''] = at_path sample_object [''object'', ''metadata'', ''name'']"
    by (rule other [rule_format]) simp
  then have "at_path m' [''object'', ''metadata'', ''name''] = Some (VStr ''pod'')" unfolding o .
  with m' show ?thesis by blast
qed

text \<open>
  With two or more keys after an index the first of them is skipped: \<open>c\<close> is put into the element
  itself, although the path asks for the map under its key \<open>b\<close>. An index that is negative passes the bounds
  test and panics.
\<close>

lemma updateMap_skips_a_key:
  "updateMap [(''a'', VSlice [VMap [(''b'', VMap [])]])] [''a'', ''0'', ''b'', ''c''] ''x'' =
     Some [(''a'', VSlice [VMap [(''b'', VMap []), (''c'', VStr ''x'')]])]"
  by code_simp

lemma updateMap_negative_index:
  "updateMap [(''a'', VSlice [VMap []])] [''a'', ''-1'', ''b''] ''x'' = None"
  by code_simp

end
