(* ===== verification/FieldUpdates.thy ===== *)
theory FieldUpdates
  imports K8sEvents
begin

section \<open>Fields that change from run to run\<close>

text \<open>
  Laws of the overwriting of fields in object logs (\<open>updateLogRecordBody\<close> in
  \<open>functional_tests/k8sevents/k8sevents_test.go\<close>): the last one wins at a field, and overwritings of different
  fields that are there commute. So the objects a test compares do not depend on what the cluster had put
  into the fields that are overwritten.
\<close>

subsection \<open>Overwriting twice\<close>

text \<open>
  The interface of an overwriting that may fail: of two overwritings of the same place only the second counts.
\<close>

locale overwriting =
  fixes over :: "'m \<Rightarrow> 'v \<Rightarrow> 'm option"
  assumes over_over: "over m v = Some m' \<Longrightarrow> over m' w = over m w"
begin

lemma over_again: "over m v = Some m' \<Longrightarrow> over m' v = Some m'"
  by (simp add: over_over)

text \<open>Whatever starts with an overwriting does not see what was there before.\<close>

lemma forgets:
  "over m v = Some m' \<Longrightarrow> (case over m' w of None \<Rightarrow> None | Some n \<Rightarrow> k n) = (case over m w of None \<Rightarrow> None | Some n \<Rightarrow> k n)"
  by (simp add: over_over)

end

lemma put_str_put_str: "put_str (put_str m k s) k t = put_str m k t"
  by (induction m) auto

lemma updateMap_updateSlice_again:
  "updateMap m path v = Some m' \<Longrightarrow> updateMap m' path w = updateMap m path w"
  "updateSlice s path v i = Some s' \<Longrightarrow> i < int (length s) \<Longrightarrow> updateSlice s' path w i = updateSlice s path w i"
proof (induction m path v and s path v i arbitrary: m' and s' rule: updateMap_updateSlice.induct)
  case (3 m k p1 path v)
  consider (nested) n n' where "attr_get m k = Some (VMap n)" "updateMap n (p1 # path) v = Some n'" "m' = set_first k (\<lambda>_. VMap n') m"
    | (slice) s i s' where "attr_get m k = Some (VSlice s)" "atoi p1 = Some i" "sint i < int (length s)"
        "updateSlice s path v (sint i) = Some s'" "m' = set_first k (\<lambda>_. VSlice s') m"
    | (same) "m' = m"
    using 3(3) by (auto split: option.splits attr_value.splits if_splits)
  then show ?case
  proof cases
    case nested
    with 3(1) [OF nested(1) refl] show ?thesis
      by (auto simp: attr_get_set_first set_first_again split: option.splits)
  next
    case slice
    with 3(2) [OF slice(1) refl slice(2)] updateSlice_length [OF slice(4)] show ?thesis
      by (auto simp: attr_get_set_first set_first_again split: option.splits)
  qed simp
next
  case (5 s key v i)
  then show ?case by (cases "s ! nat i") (auto simp: put_str_put_str split: if_splits)
next
  case (6 s k p1 path v i)
  then have i: "\<not> i < 0" "nat i < length s" by (auto split: if_splits)
  show ?case
  proof (cases "s ! nat i")
    case (VMap n)
    with 6(2) i obtain n' where "updateMap n (p1 # path) v = Some n'" "s' = s[nat i := VMap n']" by auto
    with 6(1) [OF i(1) VMap] i VMap show ?thesis by simp
  qed (use 6 i in auto)
qed (auto simp: put_str_put_str)

interpretation field_over: overwriting "\<lambda>m v. updateMap m path v" for path
  by unfold_locales (rule updateMap_updateSlice_again)

subsection \<open>Overwriting what is there\<close>

text \<open>
  A field is a path of keys of maps; an element of a slice is looked at only with the index zero and with one
  key below it, as the tests do. \<open>set_field\<close> is the overwriting for a field that is there.
\<close>

fun has_field :: "string list \<Rightarrow> attr_value \<Rightarrow> bool" where
  "has_field [] v = True"
| "has_field (k # path) (VMap n) = (case attr_get n k of Some v \<Rightarrow> has_field path v | None \<Rightarrow> False)"
| "has_field (k # path) (VSlice (VMap n # vs)) =
     (k = ''0'' \<and> (case path of [key] \<Rightarrow> attr_get n key \<noteq> None | _ \<Rightarrow> False))"
| "has_field (k # path) v = False"

fun set_field :: "string list \<Rightarrow> string \<Rightarrow> attr_value \<Rightarrow> attr_value" where
  "set_field [] s v = VStr s"
| "set_field (k # path) s (VMap n) = VMap (set_first k (set_field path s) n)"
| "set_field (k # path) s (VSlice (v # vs)) = VSlice ((if k = ''0'' then set_field path s v else v) # vs)"
| "set_field (k # path) s v = v"

lemma set_field_Nil: "set_field [] s = (\<lambda>_. VStr s)"
  by (rule ext) simp

lemma set_first_twice: "set_first k f (set_first k g m) = set_first k (\<lambda>v. f (g v)) m"
  by (induction m) auto

lemma set_first_commute: "k \<noteq> k' \<Longrightarrow> set_first k f (set_first k' g m) = set_first k' g (set_first k f m)"
  by (induction m) auto

lemma put_str_present: "attr_get m k \<noteq> None \<Longrightarrow> put_str m k s = set_first k (\<lambda>_. VStr s) m"
  by (induction m) (auto simp: attr_get_def split: if_splits)

lemma atoi_zero: "atoi ''0'' = Some 0"
  by code_simp

lemma set_first_const: "attr_get m k = Some v \<Longrightarrow> set_first k f m = set_first k (\<lambda>_. f v) m"
  by (induction m) (auto simp: attr_get_def split: if_splits)

lemma updateMap_set_field:
  "has_field (k # path) (VMap m) \<Longrightarrow> updateMap m (k # path) s = Some (set_first k (set_field path s) m)"
proof (induction path arbitrary: k m)
  case Nil
  then have "attr_get m k \<noteq> None" by (auto split: option.splits)
  then show ?case by (simp add: put_str_present)
next
  case (Cons p1 path)
  from Cons.prems obtain v where v: "attr_get m k = Some v" "has_field (p1 # path) v" by (auto split: option.splits)
  note c = set_first_const [OF v(1), of "set_field (p1 # path) s"]
  show ?case
  proof (cases v)
    case (VMap n)
    with Cons.IH [of p1 n] v have "updateMap n (p1 # path) s = Some (set_first p1 (set_field path s) n)" by simp
    with v VMap show ?thesis unfolding c by simp
  next
    case (VSlice vs)
    with v(2) obtain n ws key where w: "vs = VMap n # ws" "p1 = ''0''" "path = [key]" "attr_get n key \<noteq> None"
      by (cases vs; cases "hd vs") (auto split: list.splits)
    with v VSlice show ?thesis unfolding c by (simp add: atoi_zero put_str_present set_field_Nil)
  qed (use v in auto)
qed

lemma set_field_commute:
  "\<not> prefix p q \<Longrightarrow> \<not> prefix q p \<Longrightarrow> set_field p s (set_field q t v) = set_field q t (set_field p s v)"
proof (induction p arbitrary: q v)
  case (Cons k p)
  then obtain k' q' where q: "q = k' # q'" by (cases q) auto
  show ?case
  proof (cases v)
    case (VMap n)
    with Cons q show ?thesis by (cases "k = k'") (simp_all add: set_first_twice set_first_commute)
  next
    case (VSlice vs)
    with Cons q show ?thesis by (cases vs) auto
  qed (simp_all add: q)
qed simp

lemma has_field_set_field: "has_field q v \<Longrightarrow> \<not> strict_prefix p q \<Longrightarrow> has_field q (set_field p s v)"
proof (induction q v arbitrary: p rule: has_field.induct)
  case (2 k path n)
  then obtain v where v: "attr_get n k = Some v" "has_field path v" by (auto split: option.splits)
  from 2(3) obtain k' p' where p: "p = k' # p'" by (cases p) auto
  with 2(1) [OF v] 2(3) v show ?case by (auto simp: attr_get_set_first)
next
  case (3 k path n vs)
  then obtain key where key: "k = ''0''" "path = [key]" "attr_get n key \<noteq> None" by (auto split: list.splits)
  from 3(2) obtain k' p' where p: "p = k' # p'" by (cases p) auto
  with 3(2) key show ?case by (cases p') (auto simp: attr_get_set_first)
qed auto

lemma set_field_again: "set_field p s (set_field p t v) = set_field p s v"
proof (induction p arbitrary: v)
  case (Cons k p)
  show ?case
  proof (cases v)
    case (VMap n)
    with Cons show ?thesis by (simp add: set_first_twice)
  next
    case (VSlice vs)
    with Cons show ?thesis by (cases vs) auto
  qed simp_all
qed simp

subsection \<open>Overwriting in the records\<close>

definition set_body :: "string list \<Rightarrow> string \<Rightarrow> log_record \<Rightarrow> log_record" where
  "set_body path s r = (case lr_Body r of VMap m \<Rightarrow> r\<lparr>lr_Body := set_field path s (VMap m)\<rparr> | _ \<Rightarrow> r)"

definition has_body_field :: "log_record \<Rightarrow> string list \<Rightarrow> bool" where
  "has_body_field r path = (case lr_Body r of VMap m \<Rightarrow> path \<noteq> [] \<and> has_field path (VMap m) | _ \<Rightarrow> True)"

lemma set_field_VMap: "path \<noteq> [] \<Longrightarrow> \<exists>n. set_field path s (VMap m) = VMap n"
  by (cases path) auto

lemma update_body_set: "has_body_field r path \<Longrightarrow> update_body path s r = Some (set_body path s r)"
  by (cases path) (auto simp: update_body_def set_body_def has_body_field_def updateMap_set_field
      simp del: has_field.simps updateMap.simps split: attr_value.splits)

lemma set_body_again:
  assumes "path \<noteq> []"
  shows "set_body path s (set_body path t r) = set_body path s r"
proof (cases "lr_Body r")
  case (VMap m)
  obtain n where "set_field path t (VMap m) = VMap n" using set_field_VMap [OF assms] by blast
  with VMap set_field_again [of path s t "VMap m"] show ?thesis by (simp add: set_body_def)
qed (simp_all add: set_body_def)

lemma set_body_commute:
  assumes "\<not> prefix p q" and "\<not> prefix q p"
  shows "set_body p s (set_body q t r) = set_body q t (set_body p s r)"
proof (cases "lr_Body r")
  case (VMap m)
  have "p \<noteq> []" "q \<noteq> []" using assms by auto
  then obtain n n' where "set_field p s (VMap m) = VMap n" "set_field q t (VMap m) = VMap n'"
    using set_field_VMap by meson
  with VMap set_field_commute [OF assms, of s t "VMap m"] show ?thesis by (simp add: set_body_def)
qed (simp_all add: set_body_def)

lemma has_body_field_set_body:
  assumes "has_body_field r q" and "\<not> strict_prefix p q"
  shows "has_body_field (set_body p s r) q"
proof (cases "lr_Body r")
  case (VMap m)
  with assms have q: "q \<noteq> []" "has_field q (VMap m)" by (simp_all add: has_body_field_def)
  with assms(2) have "p \<noteq> []" by (cases q) auto
  then obtain n where "set_field p s (VMap m) = VMap n" using set_field_VMap by blast
  with VMap q has_field_set_field [OF q(2) assms(2), of s] show ?thesis by (simp add: has_body_field_def set_body_def)
qed (simp_all add: has_body_field_def set_body_def)

text \<open>Fields none of which lies within another.\<close>

definition independent :: "string list list \<Rightarrow> bool" where
  "independent ps = (distinct ps \<and> list_all (\<lambda>p. p \<noteq> [] \<and> list_all (\<lambda>q. p = q \<or> \<not> prefix p q) ps) ps)"

definition set_bodies :: "(string list \<times> string) list \<Rightarrow> log_record \<Rightarrow> log_record" where
  "set_bodies fs r = foldl (\<lambda>r (p, s). set_body p s r) r fs"

lemma set_bodies_ignores:
  assumes "independent (map fst fs)" and "p \<in> fst ` set fs"
  shows "set_bodies fs (set_body p t r) = set_bodies fs r"
  using assms
proof (induction fs arbitrary: r)
  case (Cons f fs)
  obtain q s where f: "f = (q, s)" by (cases f)
  have i: "independent (map fst fs)" "p \<noteq> []" using Cons.prems by (auto simp: independent_def list_all_iff)
  show ?case
  proof (cases "p = q")
    case True
    with i f show ?thesis by (simp add: set_bodies_def set_body_again)
  next
    case False
    with Cons.prems f have "\<not> prefix p q" "\<not> prefix q p" "p \<in> fst ` set fs" by (auto simp: independent_def list_all_iff)
    with Cons.IH [OF i(1), of "set_body q s r"] f show ?thesis by (simp add: set_bodies_def set_body_commute [of q p])
  qed
qed simp

end
