(* ===== verification/K8sEntities.thy ===== *)
theory K8sEntities
  imports Plog GoSort "HOL-Library.FSet"
begin

section \<open>Kubernetes entities\<close>

text \<open>
  Model of the checks of \<open>functional_tests/k8sentities/k8sentities_test.go\<close>: the key sets of the entity
  records, their intersection and union per entity type, the comparison with the golden logs and the
  structure every record must have. A Go \<open>map[string]struct{}\<close> is a finite set, and the report lists
  are sorted, as \<open>sort.Strings\<close> leaves them.
\<close>

subsection \<open>Keys\<close>

text \<open>
  The pattern of \<open>passthroughKey\<close>. Its first group is greedy, so the match found has the last dot
  that is preceded by one of the three words on the first line and followed by a character that is not
  a newline.
\<close>

definition passthrough_at :: "string \<Rightarrow> nat \<Rightarrow> bool" where
  "passthrough_at k i =
     (i + 1 < length k \<and> k ! i = CHR ''.'' \<and> k ! (i + 1) \<noteq> CHR 0x0A \<and> CHR 0x0A \<notin> set (take i k) \<and>
      (has_suffix (take i k) ''.label'' \<or> has_suffix (take i k) ''.annotation'' \<or> has_suffix (take i k) ''.selector''))"

definition normalizeKey :: "string \<Rightarrow> string" where
  "normalizeKey k =
     (case List.find (passthrough_at k) (rev [0..<length k]) of
        Some i \<Rightarrow> take i k @ ''.*''
      | None \<Rightarrow> k)"

definition mapKeys :: "attrs \<Rightarrow> string \<Rightarrow> string fset" where
  "mapKeys a key =
     (case attr_get a key of
        Some (VMap m) \<Rightarrow> fset_of_list (map (normalizeKey \<circ> fst) m)
      | _ \<Rightarrow> {||})"

definition extractEntityTypes :: "logs \<Rightarrow> string fset" where
  "extractEntityTypes ls =
     fset_of_list (concat (map (\<lambda>r.
       case attr_get (lr_Attributes r) ''otel.entity.type'' of Some v \<Rightarrow> [attr_str v] | None \<Rightarrow> []) (all_records ls)))"

record entityKeys =
  ek_id :: "string fset"
  ek_attrs :: "string fset"

text \<open>The entity type and the keys of a record that is a state event, and the records by type, in order.\<close>

definition state_keys :: "log_record \<Rightarrow> (string \<times> entityKeys) option" where
  "state_keys r =
     (case attr_get (lr_Attributes r) ''otel.entity.type'' of
        None \<Rightarrow> None
      | Some etype \<Rightarrow>
          (case attr_get (lr_Attributes r) ''otel.entity.event.type'' of
             None \<Rightarrow> None
           | Some et \<Rightarrow>
               if attr_str et \<noteq> ''entity_state'' then None
               else Some (attr_str etype,
                 \<lparr>ek_id = mapKeys (lr_Attributes r) ''otel.entity.id'',
                  ek_attrs = mapKeys (lr_Attributes r) ''otel.entity.attributes''\<rparr>)))"

definition add_keys ::
  "(string \<times> entityKeys list) list \<Rightarrow> log_record \<Rightarrow> (string \<times> entityKeys list) list"
where
  "add_keys result r =
     (case state_keys r of
        None \<Rightarrow> result
      | Some (etype, ks) \<Rightarrow>
          AList.update etype ((case map_of result etype of Some l \<Rightarrow> l | None \<Rightarrow> []) @ [ks]) result)"

definition entityRecordKeysByType :: "logs \<Rightarrow> (string \<times> entityKeys list) list" where
  "entityRecordKeysByType ls = foldl add_keys [] (all_records ls)"

subsection \<open>Core and union\<close>

text \<open>The accumulator is nil, here \<^const>\<open>None\<close>, until the first set that is not empty.\<close>

definition intersect_step :: "string fset option \<Rightarrow> string fset \<Rightarrow> string fset option" where
  "intersect_step out s =
     (if s = {||} then out
      else case out of None \<Rightarrow> Some s | Some o' \<Rightarrow> Some (ffilter (\<lambda>k. k |\<in>| s) o'))"

definition intersectAll :: "string fset list \<Rightarrow> string fset" where
  "intersectAll sets = (case foldl intersect_step None sets of Some out \<Rightarrow> out | None \<Rightarrow> {||})"

definition unionAll :: "string fset list \<Rightarrow> string fset" where
  "unionAll sets = foldl (|\<union>|) {||} sets"

record entityKeySets =
  idCore :: "string fset"
  idUnion :: "string fset"
  attrCore :: "string fset"
  attrUnion :: "string fset"

definition key_sets :: "entityKeys list \<Rightarrow> entityKeySets" where
  "key_sets recs =
     \<lparr>idCore = intersectAll (map ek_id recs), idUnion = unionAll (map ek_id recs),
      attrCore = intersectAll (map ek_attrs recs), attrUnion = unionAll (map ek_attrs recs)\<rparr>"

definition aggregateEntityKeys :: "(string \<times> entityKeys list) list \<Rightarrow> (string \<times> entityKeySets) list" where
  "aggregateEntityKeys byType = map (\<lambda>(etype, recs). (etype, key_sets recs)) byType"

subsection \<open>The checks\<close>

definition diffKeys :: "string fset \<Rightarrow> string fset \<Rightarrow> string list" where
  "diffKeys want got = sorted_list_of_fset (ffilter (\<lambda>k. k |\<notin>| got) want)"

text \<open>The keys that were removed and that were added, when either list is not empty.\<close>

definition assertEntityKeys ::
  "string fset \<Rightarrow> string fset \<Rightarrow> string fset \<Rightarrow> string fset \<Rightarrow> (string list \<times> string list) option"
where
  "assertEntityKeys expCore expUnion actCore actUnion =
     (let removed = diffKeys expCore actUnion; added = diffKeys actCore expUnion
      in if length removed = 0 \<and> length added = 0 then None else Some (removed, added))"

definition assertResourceAttr :: "attrs \<Rightarrow> string \<Rightarrow> string \<Rightarrow> bool" where
  "assertResourceAttr a key expected =
     (case attr_get a key of Some val \<Rightarrow> attr_str val = expected | None \<Rightarrow> False)"

fun nonempty_map :: "attr_value option \<Rightarrow> bool" where
  "nonempty_map (Some (VMap m)) = (0 < length m)"
| "nonempty_map v = False"

fun attr_true :: "attr_value option \<Rightarrow> bool" where
  "attr_true (Some (VBool b)) = b"
| "attr_true v = False"

definition record_ok :: "attrs \<Rightarrow> bool" where
  "record_ok a =
     ((case attr_get a ''otel.entity.event.type'' of
         None \<Rightarrow> False
       | Some et \<Rightarrow> attr_str et \<in> {''entity_state'', ''entity_delete''} \<and>
           (attr_str et = ''entity_state'' \<longrightarrow> nonempty_map (attr_get a ''otel.entity.attributes''))) \<and>
      nonempty_map (attr_get a ''otel.entity.id''))"

definition structure_ok :: "logs \<Rightarrow> bool" where
  "structure_ok ls =
     list_all (\<lambda>r.
       assertResourceAttr (rl_Attributes r) ''metric_source'' ''kubernetes'' \<and>
       assertResourceAttr (rl_Attributes r) ''k8s.cluster.name'' ''dev-operator'' \<and>
       list_all (\<lambda>s. attr_true (attr_get (sl_Attributes s) ''otel.entity.event_as_log'') \<and>
         list_all (\<lambda>lr. record_ok (lr_Attributes lr)) (sl_Records s)) (rl_Scopes r)) ls"

text \<open>The comparison of the key sets; a type that only the golden logs have is skipped.\<close>

definition keys_agree :: "logs \<Rightarrow> logs \<Rightarrow> bool" where
  "keys_agree expectedLogs actualLogs =
     list_all (\<lambda>(etype, e).
       case map_of (aggregateEntityKeys (entityRecordKeysByType actualLogs)) etype of
         None \<Rightarrow> True
       | Some a \<Rightarrow>
           assertEntityKeys (idCore e) (idUnion e) (idCore a) (idUnion a) = None \<and>
           assertEntityKeys (attrCore e) (attrUnion e) (attrCore a) (attrUnion a) = None)
       (aggregateEntityKeys (entityRecordKeysByType expectedLogs))"

text \<open>The received batches are appended to the first one; no batch at all fails the test.\<close>

definition check_entities :: "logs \<Rightarrow> logs list \<Rightarrow> bool" where
  "check_entities expectedLogs allLogs =
     (allLogs \<noteq> [] \<and>
      (let actualLogs = concat allLogs; actualTypes = extractEntityTypes actualLogs
       in actualTypes \<noteq> {||} \<and> extractEntityTypes expectedLogs |\<subseteq>| actualTypes \<and>
          keys_agree expectedLogs actualLogs \<and> structure_ok actualLogs))"

section \<open>Facts\<close>

lemma find_rev_upt:
  "List.find P (rev [0..<n]) = Some i \<longleftrightarrow> i < n \<and> P i \<and> (\<forall>j. i < j \<and> j < n \<longrightarrow> \<not> P j)"
proof
  assume "List.find P (rev [0..<n]) = Some i"
  then obtain a where a: "a < n" "P (rev [0..<n] ! a)" "i = rev [0..<n] ! a" "\<forall>j < a. \<not> P (rev [0..<n] ! j)"
    by (auto simp: find_Some_iff)
  then have i: "i = n - Suc a" by (simp add: rev_nth)
  have "\<not> P j" if "i < j" "j < n" for j
  proof -
    have "n - Suc j < a" "rev [0..<n] ! (n - Suc j) = j" using that i a(1) by (simp_all add: rev_nth)
    with a(4) show ?thesis by metis
  qed
  with a i show "i < n \<and> P i \<and> (\<forall>j. i < j \<and> j < n \<longrightarrow> \<not> P j)" by (simp add: rev_nth)
next
  assume r: "i < n \<and> P i \<and> (\<forall>j. i < j \<and> j < n \<longrightarrow> \<not> P j)"
  have "\<exists>a < length (rev [0..<n]). P (rev [0..<n] ! a) \<and> i = rev [0..<n] ! a \<and> (\<forall>j < a. \<not> P (rev [0..<n] ! j))"
    using r by (intro exI [of _ "n - Suc i"]) (auto simp: rev_nth)
  then show "List.find P (rev [0..<n]) = Some i" by (simp add: find_Some_iff)
qed

text \<open>A normalised key is the key itself or the part before the last dot that counts.\<close>

lemma normalizeKey_cases:
  obtains "normalizeKey k = k" "\<forall>i. \<not> passthrough_at k i"
  | i where "passthrough_at k i" "\<forall>j > i. \<not> passthrough_at k j" "normalizeKey k = take i k @ ''.*''"
proof (cases "List.find (passthrough_at k) (rev [0..<length k])")
  case None
  then have "\<forall>i < length k. \<not> passthrough_at k i" by (auto simp: find_None_iff)
  moreover have "\<not> passthrough_at k i" if "\<not> i < length k" for i using that by (simp add: passthrough_at_def)
  ultimately show ?thesis using None by (intro that(1)) (auto simp: normalizeKey_def)
next
  case (Some i)
  then have "passthrough_at k i" "\<forall>j. i < j \<and> j < length k \<longrightarrow> \<not> passthrough_at k j" by (simp_all add: find_rev_upt)
  moreover have "\<not> passthrough_at k j" if "\<not> j < length k" for j using that by (simp add: passthrough_at_def)
  ultimately show ?thesis using Some by (intro that(2) [of i]) (auto simp: normalizeKey_def)
qed

lemma normalizeKeyI:
  assumes "passthrough_at k i" and "\<forall>j > i. \<not> passthrough_at k j"
  shows "normalizeKey k = take i k @ ''.*''"
proof -
  have "i < length k" using assms(1) by (simp add: passthrough_at_def)
  with assms have "List.find (passthrough_at k) (rev [0..<length k]) = Some i" by (simp add: find_rev_upt)
  then show ?thesis by (simp add: normalizeKey_def)
qed

subsection \<open>The key sets\<close>

definition recs_of :: "logs \<Rightarrow> string \<Rightarrow> entityKeys list" where
  "recs_of ls t = map snd (filter (\<lambda>p. fst p = t) (List.map_filter state_keys (all_records ls)))"

lemma map_of_keys: "map_of (map (\<lambda>(a, b). (a, f b)) xs) t = map_option f (map_of xs t)"
  by (induction xs) auto

lemma add_keys_fold:
  "(case map_of (foldl add_keys result rs) t of Some l \<Rightarrow> l | None \<Rightarrow> []) =
     (case map_of result t of Some l \<Rightarrow> l | None \<Rightarrow> []) @
     map snd (filter (\<lambda>p. fst p = t) (List.map_filter state_keys rs)) \<and>
   (map_of (foldl add_keys result rs) t = None \<longleftrightarrow>
     map_of result t = None \<and> filter (\<lambda>p. fst p = t) (List.map_filter state_keys rs) = [])"
proof (induction rs arbitrary: result)
  case Nil
  then show ?case by (simp add: map_filter_simps)
next
  case (Cons r rs)
  show ?case
  proof (cases "state_keys r")
    case None
    then have "add_keys result r = result" by (simp add: add_keys_def)
    with None Cons show ?thesis by (simp add: map_filter_simps)
  next
    case (Some p)
    obtain e ks where p: "p = (e, ks)" by force
    have "map_of (add_keys result r) t =
        (if t = e then Some ((case map_of result e of Some l \<Rightarrow> l | None \<Rightarrow> []) @ [ks]) else map_of result t)"
      using Some p by (auto simp: add_keys_def update_conv)
    with Some p Cons [of "add_keys result r"] show ?thesis by (auto simp: map_filter_simps)
  qed
qed

lemma entityRecordKeysByType_lookup:
  "map_of (entityRecordKeysByType ls) t = (if recs_of ls t = [] then None else Some (recs_of ls t))"
  using add_keys_fold [of "[]" "all_records ls" t]
  by (auto simp: entityRecordKeysByType_def recs_of_def split: option.splits)

lemma add_keys_distinct: "distinct (map fst result) \<Longrightarrow> distinct (map fst (foldl add_keys result rs))"
  by (induction rs arbitrary: result) (auto simp: add_keys_def distinct_update split: option.splits)

lemma entityRecordKeysByType_distinct: "distinct (map fst (entityRecordKeysByType ls))"
  by (simp add: entityRecordKeysByType_def add_keys_distinct)

text \<open>The keys that some set has, and those that every set but the empty ones has.\<close>

definition some_have :: "string fset list \<Rightarrow> string set" where
  "some_have sets = \<Union> (fset ` set sets)"

definition all_have :: "string fset list \<Rightarrow> string set" where
  "all_have sets = {k \<in> some_have sets. \<forall>s \<in> set sets. s \<noteq> {||} \<longrightarrow> k |\<in>| s}"

lemma unionAll_fold: "fset (foldl (|\<union>|) out sets) = fset out \<union> some_have sets"
  by (induction sets arbitrary: out) (auto simp: some_have_def)

lemma unionAll_some_have: "fset (unionAll sets) = some_have sets"
  by (simp add: unionAll_def unionAll_fold)

lemma intersect_fold_Some:
  "\<exists>out'. foldl intersect_step (Some out) sets = Some out' \<and>
     fset out' = {k. k |\<in>| out \<and> (\<forall>s \<in> set sets. s \<noteq> {||} \<longrightarrow> k |\<in>| s)}"
proof (induction sets arbitrary: out)
  case (Cons s sets)
  show ?case
  proof (cases "s = {||}")
    case True
    with Cons [of out] show ?thesis by (simp add: intersect_step_def)
  next
    case False
    with Cons [of "ffilter (\<lambda>k. k |\<in>| s) out"] show ?thesis by (auto simp: intersect_step_def)
  qed
qed auto

lemma all_have_Cons:
  "all_have (s # sets) = (if s = {||} then all_have sets else {k. k |\<in>| s \<and> (\<forall>s \<in> set sets. s \<noteq> {||} \<longrightarrow> k |\<in>| s)})"
  by (auto simp: all_have_def some_have_def)

lemma intersectAll_all_have: "fset (intersectAll sets) = all_have sets"
proof (induction sets)
  case Nil
  show ?case by (simp add: intersectAll_def all_have_def some_have_def)
next
  case (Cons s sets)
  show ?case
  proof (cases "s = {||}")
    case True
    with Cons show ?thesis by (simp add: intersectAll_def intersect_step_def all_have_Cons)
  next
    case False
    from intersect_fold_Some [of s sets] obtain out where
      "foldl intersect_step (Some s) sets = Some out"
      "fset out = {k. k |\<in>| s \<and> (\<forall>s \<in> set sets. s \<noteq> {||} \<longrightarrow> k |\<in>| s)}" by blast
    with False show ?thesis by (simp add: intersectAll_def intersect_step_def all_have_Cons)
  qed
qed

lemma set_diffKeys: "set (diffKeys want got) = fset want - fset got"
  by (auto simp: diffKeys_def)

lemma diffKeys_nil: "diffKeys want got = [] \<longleftrightarrow> fset want \<subseteq> fset got"
  using set_diffKeys [of want got] by (cases "diffKeys want got") auto

lemma assertEntityKeys_None:
  "assertEntityKeys ec eu ac au = None \<longleftrightarrow> fset ec \<subseteq> fset au \<and> fset ac \<subseteq> fset eu"
  by (simp add: assertEntityKeys_def diffKeys_nil Let_def)

lemma map_of_list_all:
  assumes "distinct (map fst xs)"
  shows "list_all (\<lambda>(k, v). P k v) xs \<longleftrightarrow> (\<forall>k v. map_of xs k = Some v \<longrightarrow> P k v)"
  using assms by (auto simp: list_all_iff dest: map_of_SomeD)

section \<open>Properties\<close>

text \<open>
  Normalising a key a second time changes nothing: the golden logs may hold normalised keys.
\<close>

theorem normalizeKey_idempotent: "normalizeKey (normalizeKey k) = normalizeKey k"
proof (cases k rule: normalizeKey_cases)
  case (2 i)
  let ?k = "take i k @ ''.*''"
  have l: "length ?k = i + 2" and t: "take i ?k = take i k" and n: "?k ! i = CHR ''.''" "?k ! (i + 1) = CHR ''*''"
    using 2(1) by (simp_all add: passthrough_at_def nth_append)
  with 2(1) have "passthrough_at ?k i" by (simp add: passthrough_at_def)
  moreover have "\<forall>j > i. \<not> passthrough_at ?k j" using l by (simp add: passthrough_at_def)
  ultimately show ?thesis using normalizeKeyI [of ?k i] t 2(3) by simp
qed simp

lemma keys_agree_spec:
  "keys_agree expectedLogs actualLogs \<longleftrightarrow>
     (\<forall>t. \<forall>f \<in> {ek_id, ek_attrs}. recs_of expectedLogs t \<noteq> [] \<longrightarrow> recs_of actualLogs t \<noteq> [] \<longrightarrow>
        all_have (map f (recs_of expectedLogs t)) \<subseteq> some_have (map f (recs_of actualLogs t)) \<and>
        all_have (map f (recs_of actualLogs t)) \<subseteq> some_have (map f (recs_of expectedLogs t)))"
proof -
  have d: "distinct (map fst (aggregateEntityKeys (entityRecordKeysByType expectedLogs)))"
    using entityRecordKeysByType_distinct by (simp add: aggregateEntityKeys_def case_prod_beta' o_def)
  have "map_of (aggregateEntityKeys (entityRecordKeysByType ls)) t =
      (if recs_of ls t = [] then None else Some (key_sets (recs_of ls t)))" for ls t
    by (simp add: aggregateEntityKeys_def map_of_keys entityRecordKeysByType_lookup)
  then show ?thesis
    unfolding keys_agree_def map_of_list_all [OF d]
    by (auto simp: key_sets_def assertEntityKeys_None unionAll_some_have intersectAll_all_have)
qed

text \<open>
  C31: the key comparison passes exactly when, for each entity type with state events on both sides and for
  ids and attributes alike, every key that all non-empty golden records have occurs in some actual record,
  and the other way round.
\<close>

theorem keys_agree_iff:
  "keys_agree expectedLogs actualLogs \<longleftrightarrow>
     (\<forall>t. \<forall>f \<in> {ek_id, ek_attrs}. recs_of expectedLogs t \<noteq> [] \<longrightarrow> recs_of actualLogs t \<noteq> [] \<longrightarrow>
        all_have (map f (recs_of expectedLogs t)) \<subseteq> some_have (map f (recs_of actualLogs t)) \<and>
        all_have (map f (recs_of actualLogs t)) \<subseteq> some_have (map f (recs_of expectedLogs t)))"
  by (rule keys_agree_spec)

text \<open>
  Golden logs that were regenerated from the received batches accept them: only the structure of the
  records, and that there is a type at all, is left to check.
\<close>

lemma regenerated_accepts:
  "check_entities (concat allLogs) allLogs \<longleftrightarrow>
     allLogs \<noteq> [] \<and> extractEntityTypes (concat allLogs) \<noteq> {||} \<and> structure_ok (concat allLogs)"
proof -
  have "all_have sets \<subseteq> some_have sets" for sets by (auto simp: all_have_def)
  then have "keys_agree ls ls" for ls by (simp add: keys_agree_spec)
  then show ?thesis by (auto simp: check_entities_def Let_def)
qed

definition entity_record :: "string list \<Rightarrow> log_record" where
  "entity_record ks =
     \<lparr>lr_Attributes =
        [(''otel.entity.type'', VStr ''k8s.pod''), (''otel.entity.event.type'', VStr ''entity_state''),
         (''otel.entity.id'', VMap [(''k8s.pod.uid'', VStr ''1'')]),
         (''otel.entity.attributes'', VMap (map (\<lambda>k. (k, VStr ''x'')) ks))],
      lr_Body = VEmpty, lr_rest = []\<rparr>"

definition entity_logs :: "string list list \<Rightarrow> logs" where
  "entity_logs kss =
     [\<lparr>rl_Attributes = [(''metric_source'', VStr ''kubernetes''), (''k8s.cluster.name'', VStr ''dev-operator'')], rl_rest = [],
       rl_Scopes = [\<lparr>sl_Attributes = [(''otel.entity.event_as_log'', VBool True)], sl_rest = [],
         sl_Records = map entity_record kss\<rparr>]\<rparr>]"

text \<open>
  One record of a starting container may miss a key: the common key is enough. A key that every golden
  record has and no actual one is a difference.
\<close>

lemma keys_agree_iff_witness:
  "keys_agree (entity_logs [[''app'', ''node''], [''app'']]) (entity_logs [[''app'', ''extra''], [''app'']]) \<and>
   all_have (map ek_attrs (recs_of (entity_logs [[''app'', ''node''], [''app'']]) ''k8s.pod'')) \<subseteq>
     some_have (map ek_attrs (recs_of (entity_logs [[''app'', ''extra''], [''app'']]) ''k8s.pod''))"
proof -
  let ?e = "entity_logs [[''app'', ''node''], [''app'']]" and ?a = "entity_logs [[''app'', ''extra''], [''app'']]"
  have k: "keys_agree ?e ?a" by code_simp
  have "recs_of ?e ''k8s.pod'' \<noteq> []" "recs_of ?a ''k8s.pod'' \<noteq> []" by code_simp+
  moreover note k [unfolded keys_agree_iff]
  ultimately show ?thesis using k by blast
qed

lemma keys_differ:
  "\<not> keys_agree (entity_logs [[''app''], [''app'', ''node'']]) (entity_logs [[''node'']])"
  by code_simp

lemma normalizeKey_label: "normalizeKey ''k8s.node.label.kubernetes.io/arch'' = ''k8s.node.label.*''"
  by code_simp

end
