(* ===== verification/Golden.thy ===== *)
theory Golden
  imports Pdata Plog GoFiles
begin

section \<open>Golden files and sinks\<close>

text \<open>
  Model of the small helpers of \<open>functional_tests/internal/common.go\<close> around golden files and the sinks of
  the collector: the switch that regenerates golden files, the writers behind it, and the checks and resets
  of a sink. Package \<open>golden\<close> is not part of the repository: writing a payload is the argument \<open>write\<close>,
  which gives the error, if any, and the disk afterwards. A sink is the list of the batches it received.
\<close>

type_synonym process_env = "string \<Rightarrow> string" \<comment> \<open>\<open>os.Getenv\<close>: empty for a variable that is not set\<close>

definition shouldUpdateExpectedResults :: "process_env \<Rightarrow> bool" where
  "shouldUpdateExpectedResults env = (env ''UPDATE_EXPECTED_RESULTS'' = ''true'')"

text \<open>The common shape of the three writers; a failed requirement is the error.\<close>

definition maybe_write ::
  "(string \<Rightarrow> 'p \<Rightarrow> fs \<Rightarrow> string option \<times> fs) \<Rightarrow> process_env \<Rightarrow> string \<Rightarrow> 'p \<Rightarrow> fs \<Rightarrow> string option \<times> fs"
where
  "maybe_write write env file payload d =
     (if shouldUpdateExpectedResults env then write file payload d else (None, d))"

definition MaybeWriteUpdateExpectedTracesResults ::
  "(string \<Rightarrow> resource_spans list \<Rightarrow> fs \<Rightarrow> string option \<times> fs) \<Rightarrow> process_env \<Rightarrow> string \<Rightarrow> resource_spans list \<Rightarrow> fs \<Rightarrow>
    string option \<times> fs"
where
  "MaybeWriteUpdateExpectedTracesResults WriteTraces env file traces d = maybe_write WriteTraces env file traces d"

definition MaybeUpdateExpectedMetricsResults ::
  "(string \<Rightarrow> metrics \<Rightarrow> fs \<Rightarrow> string option \<times> fs) \<Rightarrow> process_env \<Rightarrow> string \<Rightarrow> metrics \<Rightarrow> fs \<Rightarrow> string option \<times> fs"
where
  "MaybeUpdateExpectedMetricsResults WriteMetrics env file ms d = maybe_write WriteMetrics env file ms d"

definition MaybeUpdateExpectedLogsResults ::
  "(string \<Rightarrow> logs \<Rightarrow> fs \<Rightarrow> string option \<times> fs) \<Rightarrow> process_env \<Rightarrow> string \<Rightarrow> logs \<Rightarrow> fs \<Rightarrow> string option \<times> fs"
where
  "MaybeUpdateExpectedLogsResults WriteLogs env file ls d = maybe_write WriteLogs env file ls d"

lemma maybe_write_off: "\<not> shouldUpdateExpectedResults env \<Longrightarrow> maybe_write write env file payload d = (None, d)"
  by (simp add: maybe_write_def)

subsection \<open>Sinks\<close>

definition check_none :: "string \<Rightarrow> 'p list \<Rightarrow> unit result" where
  "check_none what batches =
     (if batches = [] then Inr ()
      else Inl (''received '' @ nat_digits (length batches) @ '' '' @ what @ '', expected 0 '' @ what))"

definition CheckNoEventsReceived :: "logs list \<Rightarrow> unit result" where
  "CheckNoEventsReceived lc = check_none ''logs'' lc"

definition CheckNoMetricsReceived :: "metrics list \<Rightarrow> unit result" where
  "CheckNoMetricsReceived mc = check_none ''metrics'' mc"

definition ResetMetricsSink :: "metrics list \<Rightarrow> metrics list" where
  "ResetMetricsSink mc = []"

definition ResetLogsSink :: "logs list \<Rightarrow> logs list" where
  "ResetLogsSink lc = []"

lemma reset_then_check:
  "CheckNoEventsReceived (ResetLogsSink lc) = Inr ()" "CheckNoMetricsReceived (ResetMetricsSink mc) = Inr ()"
  by (simp_all add: CheckNoEventsReceived_def CheckNoMetricsReceived_def ResetLogsSink_def ResetMetricsSink_def check_none_def)

end
