(* ===== verification/EntitiesTest.thy ===== *)
theory EntitiesTest
  imports K8sEntities Golden
begin

section \<open>The entities test\<close>

text \<open>
  The body of \<open>CheckK8SEntitiesLogs\<close> in \<open>functional_tests/k8sentities/k8sentities_test.go\<close>: the batches are
  merged, the golden file is rewritten if that is asked for, read, and compared. Package \<open>golden\<close> is the
  pair \<open>WriteLogs\<close>, \<open>ReadLogs\<close>.
\<close>

definition CheckK8SEntitiesLogs ::
  "(string \<Rightarrow> logs \<Rightarrow> fs \<Rightarrow> string option \<times> fs) \<Rightarrow> (fs \<Rightarrow> string \<Rightarrow> logs result) \<Rightarrow> process_env \<Rightarrow> fs \<Rightarrow> logs list \<Rightarrow>
    unit result \<times> fs"
where
  "CheckK8SEntitiesLogs WriteLogs ReadLogs env d allLogs =
     (if allLogs = [] then (Inl ''expected at least one log batch from the k8s entities pipeline'', d)
      else
        (case MaybeUpdateExpectedLogsResults WriteLogs env ''testdata/expected_k8sentities.yaml'' (concat allLogs) d of
           (Some e, d') \<Rightarrow> (Inl e, d')
         | (None, d') \<Rightarrow>
             (bind_res (ReadLogs d' ''testdata/expected_k8sentities.yaml'') (\<lambda>expectedLogs.
                if check_entities expectedLogs allLogs then Inr () else Inl ''entities differ from golden''), d')))"

text \<open>The interface of package golden: what is read after a successful write is what was written, if it can be read.\<close>

locale golden_store =
  fixes put :: "string \<Rightarrow> 'p \<Rightarrow> fs \<Rightarrow> string option \<times> fs" and get :: "fs \<Rightarrow> string \<Rightarrow> 'p result"
  assumes get_put: "put file x d = (None, d') \<Longrightarrow> get d' file = Inr y \<Longrightarrow> y = x"
begin

lemma get_after_maybe:
  "maybe_write put env file x d = (None, d') \<Longrightarrow> get d' file = Inr y \<Longrightarrow>
     shouldUpdateExpectedResults env \<and> y = x \<or> \<not> shouldUpdateExpectedResults env \<and> d' = d"
  by (auto simp: maybe_write_def dest: get_put split: if_splits)

end

text \<open>Any encoding that can be decoded gives such a store on the model's disk.\<close>

definition put_as :: "('p \<Rightarrow> string) \<Rightarrow> string \<Rightarrow> 'p \<Rightarrow> fs \<Rightarrow> string option \<times> fs" where
  "put_as enc file x d = WriteFile d file (enc x)"

definition get_as :: "(string \<Rightarrow> 'p result) \<Rightarrow> fs \<Rightarrow> string \<Rightarrow> 'p result" where
  "get_as dec d file = bind_res (ReadFile d file) dec"

lemma golden_store_codec:
  assumes "\<And>x. dec (enc x) = Inr x"
  shows "golden_store (put_as enc) (get_as dec)"
proof
  fix f x d d' y
  assume "put_as enc f x d = (None, d')" and g: "get_as dec d' f = Inr y"
  then have "files d' f = Some (enc x)" by (auto simp: put_as_def WriteFile_def split: option.splits)
  with g show "y = x" by (auto simp: get_as_def ReadFile_def assms split: option.splits)
qed

text \<open>Texts stored as they are.\<close>

interpretation raw_golden: golden_store "put_as (\<lambda>s. s)" "get_as Inr"
  by (rule golden_store_codec) simp

section \<open>Property\<close>

text \<open>
  Without the update switch the test leaves the disk alone and passes exactly when the golden
  logs it reads accept the batches; with it, it passes only on a file rewritten from the batches, and
  then exactly when the file is readable and the structure of the batches is right.
\<close>

theorem CheckK8SEntitiesLogs_passes:
  assumes golden: "golden_store WriteLogs ReadLogs"
  shows "CheckK8SEntitiesLogs WriteLogs ReadLogs env d allLogs = (Inr (), d') \<longleftrightarrow>
    (if shouldUpdateExpectedResults env
     then allLogs \<noteq> [] \<and> WriteLogs ''testdata/expected_k8sentities.yaml'' (concat allLogs) d = (None, d') \<and>
       (\<exists>ls. ReadLogs d' ''testdata/expected_k8sentities.yaml'' = Inr ls) \<and>
       extractEntityTypes (concat allLogs) \<noteq> {||} \<and> structure_ok (concat allLogs)
     else d' = d \<and> (\<exists>ls. ReadLogs d ''testdata/expected_k8sentities.yaml'' = Inr ls \<and> check_entities ls allLogs))"
proof (cases "shouldUpdateExpectedResults env")
  case False
  then show ?thesis
    by (auto simp: CheckK8SEntitiesLogs_def MaybeUpdateExpectedLogsResults_def maybe_write_off bind_res_def check_entities_def
        split: sum.splits if_splits)
next
  case True
  let ?f = "''testdata/expected_k8sentities.yaml''"
  have g: "ls = concat allLogs" if "WriteLogs ?f (concat allLogs) d = (None, d1)" "ReadLogs d1 ?f = Inr ls" for d1 ls
    using golden_store.get_put [OF golden that] .
  have c: "check_entities (concat allLogs) allLogs \<longleftrightarrow>
      allLogs \<noteq> [] \<and> extractEntityTypes (concat allLogs) \<noteq> {||} \<and> structure_ok (concat allLogs)"
    by (rule regenerated_accepts)
  show ?thesis
    using True c by (auto simp: CheckK8SEntitiesLogs_def MaybeUpdateExpectedLogsResults_def maybe_write_def bind_res_def
        split: sum.splits if_splits option.splits prod.splits dest: g)
qed

text \<open>A store that knows one payload, and a regeneration with it.\<close>

definition one_payload :: logs where
  "one_payload = entity_logs [[''app''], [''app'', ''node'']]"

definition put_one :: "string \<Rightarrow> logs \<Rightarrow> fs \<Rightarrow> string option \<times> fs" where
  "put_one f x d = (if x = one_payload then WriteFile d f ''one'' else (Some ''unknown payload'', d))"

definition get_one :: "fs \<Rightarrow> string \<Rightarrow> logs result" where
  "get_one d f = bind_res (ReadFile d f) (\<lambda>c. if c = ''one'' then Inr one_payload else Inl ''unknown payload'')"

interpretation one_golden: golden_store put_one get_one
  by unfold_locales (auto simp: put_one_def get_one_def bind_res_Inr_iff split: if_splits)

definition empty_disk :: fs where
  "empty_disk = \<lparr>files = (\<lambda>_. None), read_fault = (\<lambda>_. None), write_fault = (\<lambda>_. None)\<rparr>"

lemma CheckK8SEntitiesLogs_passes_witness:
  "\<exists>d'. CheckK8SEntitiesLogs put_one get_one (\<lambda>_. ''true'') empty_disk [one_payload] = (Inr (), d') \<and>
     files d' ''testdata/expected_k8sentities.yaml'' = Some ''one''"
proof -
  let ?d = "empty_disk\<lparr>files := [''testdata/expected_k8sentities.yaml'' \<mapsto> ''one'']\<rparr>"
  have "shouldUpdateExpectedResults (\<lambda>_. ''true'')" by (simp add: shouldUpdateExpectedResults_def)
  moreover have "put_one ''testdata/expected_k8sentities.yaml'' (concat [one_payload]) empty_disk = (None, ?d)"
    by (simp add: put_one_def WriteFile_def empty_disk_def)
  moreover have "get_one ?d ''testdata/expected_k8sentities.yaml'' = Inr one_payload"
    by (simp add: get_one_def ReadFile_def empty_disk_def)
  moreover have "extractEntityTypes (concat [one_payload]) \<noteq> {||}" "structure_ok (concat [one_payload])" by code_simp+
  ultimately have "CheckK8SEntitiesLogs put_one get_one (\<lambda>_. ''true'') empty_disk [one_payload] = (Inr (), ?d)"
    unfolding CheckK8SEntitiesLogs_passes [OF one_golden.golden_store_axioms] by auto
  then show ?thesis by auto
qed

end
