(* ===== verification/EventsTest.thy ===== *)
theory EventsTest
  imports FieldUpdates EntitiesTest
begin

section \<open>The events test\<close>

text \<open>
  The two subtests of \<open>functional_tests/k8sevents/k8sevents_test.go\<close>. \<open>plogtest.CompareLogs\<close> is an argument: with its
  options it gives an error or nothing. A panic is \<^const>\<open>None\<close>.
\<close>

datatype compare_option =
    IgnoreTimestamp
  | IgnoreObservedTimestamp
  | IgnoreResourceAttributeValue string
  | IgnoreLogRecordAttributeValue string
  | IgnoreResourceLogsOrder
  | IgnoreScopeLogsOrder
  | IgnoreLogRecordsOrder

definition events_options :: "compare_option list" where
  "events_options =
     [IgnoreTimestamp, IgnoreObservedTimestamp, IgnoreResourceAttributeValue ''host.name'',
      IgnoreLogRecordAttributeValue ''k8s.object.uid'', IgnoreLogRecordAttributeValue ''k8s.statefulset.uid'',
      IgnoreLogRecordAttributeValue ''k8s.pod.uid'', IgnoreLogRecordAttributeValue ''k8s.object.resource_version'',
      IgnoreResourceLogsOrder, IgnoreScopeLogsOrder, IgnoreLogRecordsOrder]"

definition objects_options :: "compare_option list" where
  "objects_options =
     [IgnoreTimestamp, IgnoreObservedTimestamp, IgnoreResourceAttributeValue ''host.name'',
      IgnoreLogRecordAttributeValue ''k8s.object.uid'', IgnoreLogRecordAttributeValue ''k8s.object.resource_version'',
      IgnoreResourceAttributeValue ''com.splunk.index'',
      IgnoreResourceLogsOrder, IgnoreScopeLogsOrder, IgnoreLogRecordsOrder]"

text \<open>What the tests are given: package golden, the comparison, the walk over a map, the environment.\<close>

record check_env =
  ck_write :: "string \<Rightarrow> logs \<Rightarrow> fs \<Rightarrow> string option \<times> fs"
  ck_read :: "fs \<Rightarrow> string \<Rightarrow> logs result"
  ck_compare :: "compare_option list \<Rightarrow> logs \<Rightarrow> logs \<Rightarrow> string option"
  ck_order :: "attrs \<Rightarrow> attrs"
  ck_env :: process_env

text \<open>
  The end of both subtests: the expected logs are read, then the file is rewritten if that is asked
  for, and the actual logs are compared with what was read before.
\<close>

definition golden_check :: "check_env \<Rightarrow> compare_option list \<Rightarrow> string \<Rightarrow> fs \<Rightarrow> logs \<Rightarrow> unit result \<times> fs" where
  "golden_check ck options expectedFile d actual =
     (case ck_read ck d expectedFile of
        Inl e \<Rightarrow> (Inl (''failed to read expected logs from file'' @ e), d)
      | Inr expected \<Rightarrow>
          (case MaybeUpdateExpectedLogsResults (ck_write ck) (ck_env ck) expectedFile actual d of
             (Some e, d') \<Rightarrow> (Inl e, d')
           | (None, d') \<Rightarrow>
               ((case ck_compare ck options expected actual of Some e \<Rightarrow> Inl e | None \<Rightarrow> Inr ()), d')))"

definition events_logs :: "check_env \<Rightarrow> logs list \<Rightarrow> logs option" where
  "events_logs ck sink =
     map_option fst (selectLogs (ck_order ck) ''k8s.namespace.name'' ''k8sevents-test''
       (selectResLogs ''com.splunk.sourcetype'' ''kube:events'' sink) event_body)"

definition CheckK8SEventsLogs :: "check_env \<Rightarrow> fs \<Rightarrow> logs list \<Rightarrow> (unit result \<times> fs) option" where
  "CheckK8SEventsLogs ck d sink =
     map_option (golden_check ck events_options ''testdata/expected_k8sevents.yaml'' d) (events_logs ck sink)"

text \<open>The fields of an object that change from run to run, and what the test makes of them, in order.\<close>

definition object_fields :: "(string list \<times> string) list" where
  "object_fields =
     [([''object'', ''metadata'', ''uid''], ''21d0b84b-f1ae-4ae4-959f-31d7581a272b''),
      ([''object'', ''metadata'', ''resourceVersion''], ''85980''),
      ([''object'', ''metadata'', ''creationTimestamp''], ''2025-03-04T01:59:10Z''),
      ([''object'', ''metadata'', ''managedFields'', ''0'', ''time''], ''2025-03-04T01:59:10Z''),
      ([''object'', ''metadata'', ''managedFields'', ''0'', ''manager''], ''k8sevents.test'')]"

fun update_fields :: "(string list \<times> string) list \<Rightarrow> logs \<Rightarrow> logs option" where
  "update_fields [] ls = Some ls"
| "update_fields ((path, newValue) # fs) ls =
     (case updateLogRecordBody ls path newValue of None \<Rightarrow> None | Some ls' \<Rightarrow> update_fields fs ls')"

definition objects_logs :: "logs list \<Rightarrow> logs option" where
  "objects_logs sink = update_fields object_fields (selectResLogs ''com.splunk.sourcetype'' ''kube:object:*'' sink)"

definition CheckK8SObjectsLogs :: "check_env \<Rightarrow> fs \<Rightarrow> logs list \<Rightarrow> (unit result \<times> fs) option" where
  "CheckK8SObjectsLogs ck d sink =
     map_option (golden_check ck objects_options ''testdata/expected_k8s_objects.yaml'' d) (objects_logs sink)"

section \<open>Facts\<close>

lemma map_records_cong: "(\<And>r. r \<in> set (all_records ls) \<Longrightarrow> f r = g r) \<Longrightarrow> map_records f ls = map_records g ls"
  unfolding map_records_def
  by (intro map_cong refl arg_cong [of _ _ "\<lambda>scopes. rl_Scopes_update (\<lambda>_. scopes) _"]
      arg_cong [of _ _ "\<lambda>rs. sl_Records_update (\<lambda>_. rs) _"]) (auto simp: all_records_def)

lemma map_records_comp: "map_records f (map_records g ls) = map_records (\<lambda>r. f (g r)) ls"
  by (simp add: map_records_def o_def)

lemma map_records_id: "map_records (\<lambda>r. r) ls = ls"
  by (simp add: map_records_def)

lemma selectResLogs_map: "selectResLogs n v (map (map_records f) sink) = map_records f (selectResLogs n v sink)"
proof -
  have "concat (map (map_records f) sink) = map_records f (concat sink)" by (induction sink) (simp_all add: map_records_def)
  then show ?thesis by (simp add: selectResLogs_def map_records_def filter_map o_def)
qed

lemma updateLogRecordBody_set:
  "\<forall>r \<in> set (all_records ls). has_body_field r path \<Longrightarrow> updateLogRecordBody ls path s = Some (map_records (set_body path s) ls)"
  by (auto simp: updateLogRecordBody_def list_all_iff update_body_set intro: map_records_cong)

lemma update_fields_set:
  assumes "independent (map fst fs)" and "\<forall>r \<in> set (all_records ls). \<forall>q \<in> fst ` set fs. has_body_field r q"
  shows "update_fields fs ls = Some (map_records (set_bodies fs) ls)"
  using assms
proof (induction fs arbitrary: ls)
  case Nil
  then show ?case by (simp add: set_bodies_def map_records_id)
next
  case (Cons f fs)
  obtain q s where f: "f = (q, s)" by (cases f)
  let ?ls = "map_records (set_body q s) ls"
  have i: "independent (map fst fs)" using Cons.prems by (auto simp: independent_def list_all_iff)
  have "\<not> strict_prefix q p" if "p \<in> fst ` set fs" for p
    using Cons.prems(1) that f by (auto simp: independent_def list_all_iff strict_prefix_def)
  then have "\<forall>r \<in> set (all_records ?ls). \<forall>p \<in> fst ` set fs. has_body_field r p"
    using Cons.prems(2) by (auto simp: all_records_map has_body_field_set_body)
  from Cons.IH [OF i this] have "update_fields fs ?ls = Some (map_records (\<lambda>r. set_bodies fs (set_body q s r)) ls)"
    by (simp add: map_records_comp)
  moreover have "updateLogRecordBody ls q s = Some ?ls" using Cons.prems(2) f by (intro updateLogRecordBody_set) simp
  ultimately show ?case using f by (simp add: set_bodies_def)
qed

lemma object_fields_independent: "independent (map fst object_fields)"
  by code_simp

text \<open>When the end of a subtest passes.\<close>

lemma golden_check_passes:
  "golden_check ck options file d actual = (Inr (), d') \<longleftrightarrow>
     (\<exists>expected. ck_read ck d file = Inr expected \<and> ck_compare ck options expected actual = None \<and>
        (if shouldUpdateExpectedResults (ck_env ck) then ck_write ck file actual d = (None, d') else d' = d))"
  by (auto simp: golden_check_def MaybeUpdateExpectedLogsResults_def maybe_write_def
      split: sum.splits prod.splits option.splits if_splits)

section \<open>Properties\<close>

text \<open>
  C14: the check of the Kubernetes objects does not depend on what the cluster has put into the fields that
  change from run to run: if the objects have them, then whatever is written into one of the fields of
  any number of records, the outcome and the golden file are the same.
\<close>

theorem objects_check_ignores_volatile:
  assumes "p \<in> fst ` set object_fields"
    and "\<forall>r \<in> set (all_records (selectResLogs ''com.splunk.sourcetype'' ''kube:object:*'' sink)).
      \<forall>q \<in> fst ` set object_fields. has_body_field r q"
  shows "CheckK8SObjectsLogs ck d (map (map_records (\<lambda>r. set_body p (g r) r)) sink) = CheckK8SObjectsLogs ck d sink"
proof -
  let ?ls = "selectResLogs ''com.splunk.sourcetype'' ''kube:object:*'' sink" and ?t = "\<lambda>r. set_body p (g r) r"
  note i = object_fields_independent
  have "\<not> strict_prefix p q" if "q \<in> fst ` set object_fields" for q
    using i assms(1) that by (auto simp: independent_def list_all_iff strict_prefix_def)
  then have "\<forall>r \<in> set (all_records (map_records ?t ?ls)). \<forall>q \<in> fst ` set object_fields. has_body_field r q"
    using assms(2) by (auto simp: all_records_map has_body_field_set_body)
  from update_fields_set [OF i this] have
    "objects_logs (map (map_records ?t) sink) = Some (map_records (\<lambda>r. set_bodies object_fields (?t r)) ?ls)"
    by (simp add: objects_logs_def selectResLogs_map map_records_comp)
  also have "\<dots> = objects_logs sink"
    using update_fields_set [OF i assms(2)] by (simp add: objects_logs_def set_bodies_ignores [OF i assms(1)])
  finally show ?thesis by (simp add: CheckK8SObjectsLogs_def)
qed

definition object_record :: "string \<Rightarrow> log_record" where
  "object_record uid =
     \<lparr>lr_Attributes = [], lr_Body = VMap [(''object'', VMap [(''metadata'', VMap
        [(''uid'', VStr uid), (''name'', VStr ''web''), (''resourceVersion'', VStr ''7''), (''creationTimestamp'', VStr ''now''),
         (''managedFields'', VSlice [VMap [(''manager'', VStr ''kubectl''), (''time'', VStr ''now'')]])])])], lr_rest = []\<rparr>"

definition object_sink :: "string list \<Rightarrow> logs list" where
  "object_sink uids =
     [[\<lparr>rl_Attributes = [(''com.splunk.sourcetype'', VStr ''kube:object:pods'')], rl_rest = [],
        rl_Scopes = [\<lparr>sl_Attributes = [], sl_rest = [], sl_Records = map object_record uids\<rparr>]\<rparr>]]"

text \<open>
  An update of the golden file takes effect in the next run only: a run that rewrites the file of the
  events still ends with the comparison to the old content, and fails if that differs; the next run on
  the same logs then passes. This needs a package golden that reads what it wrote and a comparison that
  accepts equal logs.
\<close>

theorem events_update_is_for_next_run:
  assumes golden: "golden_store (ck_write ck) (ck_read ck)" and refl: "\<And>options x. ck_compare ck options x x = None"
    and update: "shouldUpdateExpectedResults (ck_env ck)" and logs: "events_logs ck sink = Some actual"
    and old: "ck_read ck d ''testdata/expected_k8sevents.yaml'' = Inr old"
    and written: "ck_write ck ''testdata/expected_k8sevents.yaml'' actual d = (None, d')"
    and readable: "ck_read ck d' ''testdata/expected_k8sevents.yaml'' = Inr new"
  shows "CheckK8SEventsLogs ck d sink =
      Some (case ck_compare ck events_options old actual of Some e \<Rightarrow> Inl e | None \<Rightarrow> Inr (), d') \<and>
    CheckK8SEventsLogs (ck\<lparr>ck_env := \<lambda>_. []\<rparr>) d' sink = Some (Inr (), d')"
proof -
  have new: "new = actual" using golden_store.get_put [OF golden written readable] .
  have "events_logs (ck\<lparr>ck_env := \<lambda>_. []\<rparr>) sink = Some actual" using logs by (simp add: events_logs_def)
  moreover have "\<not> shouldUpdateExpectedResults (\<lambda>_. [])" by (simp add: shouldUpdateExpectedResults_def)
  ultimately show ?thesis
    using assms new by (simp add: CheckK8SEventsLogs_def golden_check_def MaybeUpdateExpectedLogsResults_def maybe_write_def
        split: option.split)
qed

text \<open>A store of two payloads of which only one can be written.\<close>

definition put_empty :: "string \<Rightarrow> logs \<Rightarrow> fs \<Rightarrow> string option \<times> fs" where
  "put_empty f x d = (if x = [] then WriteFile d f ''none'' else (Some ''unknown payload'', d))"

definition get_two :: "fs \<Rightarrow> string \<Rightarrow> logs result" where
  "get_two d f = bind_res (ReadFile d f) (\<lambda>c. if c = ''none'' then Inr [] else if c = ''one'' then Inr one_payload else Inl ''unknown payload'')"

interpretation two_golden: golden_store put_empty get_two
  by unfold_locales (auto simp: put_empty_def get_two_def bind_res_Inr_iff ReadFile_def WriteFile_def
      split: if_splits option.splits)

definition sample_check :: check_env where
  "sample_check =
     \<lparr>ck_write = put_empty, ck_read = get_two, ck_compare = (\<lambda>_ x y. if x = y then None else Some ''differ''),
      ck_order = (\<lambda>m. m), ck_env = (\<lambda>_. ''true'')\<rparr>"

lemma objects_check_ignores_volatile_witness:
  "CheckK8SObjectsLogs sample_check empty_disk (object_sink [''b'', ''b'']) = CheckK8SObjectsLogs sample_check empty_disk (object_sink [''a'', ''c''])"
proof -
  let ?uid = "[''object'', ''metadata'', ''uid'']" and ?sink = "object_sink [''a'', ''c'']"
  have "?uid \<in> fst ` set object_fields" by (simp add: object_fields_def)
  moreover have "list_all (\<lambda>r. list_all (has_body_field r) (map fst object_fields))
      (all_records (selectResLogs ''com.splunk.sourcetype'' ''kube:object:*'' ?sink))" by code_simp
  moreover have "map (map_records (\<lambda>r. set_body ?uid ''b'' r)) ?sink = object_sink [''b'', ''b'']" by code_simp
  ultimately show ?thesis
    using objects_check_ignores_volatile [of ?uid ?sink sample_check empty_disk "\<lambda>_. ''b''"] by (simp add: list_all_iff)
qed

lemma events_update_is_for_next_run_witness:
  "\<exists>d d'. CheckK8SEventsLogs sample_check d [] = Some (Inl ''differ'', d') \<and>
     CheckK8SEventsLogs (sample_check\<lparr>ck_env := \<lambda>_. []\<rparr>) d' [] = Some (Inr (), d')"
proof -
  let ?file = "''testdata/expected_k8sevents.yaml''"
  let ?d = "empty_disk\<lparr>files := [?file \<mapsto> ''one'']\<rparr>" and ?d' = "empty_disk\<lparr>files := [?file \<mapsto> ''none'']\<rparr>"
  have g: "golden_store (ck_write sample_check) (ck_read sample_check)"
    using two_golden.golden_store_axioms by (simp add: sample_check_def)
  have r: "ck_compare sample_check options x x = None" for options x by (simp add: sample_check_def)
  have u: "shouldUpdateExpectedResults (ck_env sample_check)"
    by (simp add: sample_check_def shouldUpdateExpectedResults_def)
  have l: "events_logs sample_check [] = Some []" by (simp add: events_logs_def selectResLogs_def selectLogs_def)
  have old: "ck_read sample_check ?d ?file = Inr one_payload"
    by (simp add: sample_check_def get_two_def ReadFile_def empty_disk_def)
  have w: "ck_write sample_check ?file [] ?d = (None, ?d')"
    by (simp add: sample_check_def put_empty_def WriteFile_def empty_disk_def)
  have new: "ck_read sample_check ?d' ?file = Inr []"
    by (simp add: sample_check_def get_two_def ReadFile_def empty_disk_def)
  have "ck_compare sample_check events_options one_payload [] = Some ''differ''"
    by (simp add: sample_check_def one_payload_def entity_logs_def)
  with events_update_is_for_next_run [OF g r u l old w new] show ?thesis by auto
qed

text \<open>A golden file that cannot be read is not written either: it has to exist before it can be updated.\<close>

lemma events_missing_file_not_written:
  "events_logs ck sink = Some actual \<Longrightarrow> ck_read ck d ''testdata/expected_k8sevents.yaml'' = Inl e \<Longrightarrow>
     \<exists>e'. CheckK8SEventsLogs ck d sink = Some (Inl e', d)"
  by (simp add: CheckK8SEventsLogs_def golden_check_def)

end
