(* ===== verification/GoTest.thy ===== *)
theory GoTest
  imports GoRun
begin

section \<open>Tests that clean up\<close>

text \<open>
  What Go's package \<open>testing\<close> adds to a run: a test registers cleanups, records failures that do not stop
  it, and has subtests. The cleanups are run when the test is over, however it ended, the last one
  registered first, and all of them even if some fail. The context of the test, \<open>t.Context()\<close>, is cancelled
  just before that: a call that is given it by a cleanup fails without being made.
\<close>

record ('x, 'a) test =
  t_trace :: "'x list"
  t_cleanups :: "('x list \<times> string list) list" \<comment> \<open>actions and failures; the last one registered first\<close>
  t_failures :: "string list" \<comment> \<open>of assertions and subtests\<close>
  t_result :: "'a result" \<comment> \<open>the failed requirement or the value\<close>

definition do_run :: "('x, 'a) run \<Rightarrow> ('x, 'a) test" where
  "do_run m = \<lparr>t_trace = fst m, t_cleanups = [], t_failures = [], t_result = snd m\<rparr>"

definition pure_test :: "'a result \<Rightarrow> ('x, 'a) test" where
  "pure_test r = do_run (pure_run r)"

definition bind_test :: "('x, 'a) test \<Rightarrow> ('a \<Rightarrow> ('x, 'b) test) \<Rightarrow> ('x, 'b) test" where
  "bind_test m f =
     (case t_result m of
        Inl e \<Rightarrow>
          \<lparr>t_trace = t_trace m, t_cleanups = t_cleanups m, t_failures = t_failures m, t_result = Inl e\<rparr>
      | Inr a \<Rightarrow>
          \<lparr>t_trace = t_trace m @ t_trace (f a), t_cleanups = t_cleanups (f a) @ t_cleanups m,
           t_failures = t_failures m @ t_failures (f a), t_result = t_result (f a)\<rparr>)"

text \<open>A failed assertion, after which the test goes on.\<close>

definition assert_test :: "bool \<Rightarrow> string \<Rightarrow> ('x, unit) test" where
  "assert_test ok msg = \<lparr>t_trace = [], t_cleanups = [], t_failures = (if ok then [] else [msg]), t_result = Inr ()\<rparr>"

definition failure_of :: "'a result \<Rightarrow> string list" where
  "failure_of r = (case r of Inl e \<Rightarrow> [e] | Inr a \<Rightarrow> [])"

text \<open>The actions and the failures of the cleanups, and of a whole test.\<close>

definition cleanup_trace :: "('x, 'a) test \<Rightarrow> 'x list" where
  "cleanup_trace m = concat (map fst (t_cleanups m))"

definition cleanup_failures :: "('x, 'a) test \<Rightarrow> string list" where
  "cleanup_failures m = concat (map snd (t_cleanups m))"

definition finish :: "('x, 'a) test \<Rightarrow> 'x list \<times> string list" where
  "finish m = (t_trace m @ cleanup_trace m, t_failures m @ failure_of (t_result m) @ cleanup_failures m)"

text \<open>\<open>t.Cleanup(f)\<close>: what \<open>f\<close> will do; its own cleanups come right after it.\<close>

definition t_Cleanup :: "('x, unit) test \<Rightarrow> ('x, unit) test" where
  "t_Cleanup f = \<lparr>t_trace = [], t_cleanups = [finish f], t_failures = [], t_result = Inr ()\<rparr>"

definition passes :: "('x, 'a) test \<Rightarrow> bool" where
  "passes m \<longleftrightarrow> snd (finish m) = []"

text \<open>
  \<open>t.Run(name, f)\<close>: the subtest is finished, cleanups included, before the test goes on, and its
  failure is one of the test.
\<close>

definition t_Run :: "string \<Rightarrow> ('x, 'a) test \<Rightarrow> ('x, unit) test" where
  "t_Run name m =
     \<lparr>t_trace = fst (finish m), t_cleanups = [], t_failures = map (\<lambda>e. name @ '': '' @ e) (snd (finish m)),
      t_result = Inr ()\<rparr>"

text \<open>A loop whose body is a test.\<close>

fun each_test :: "('a \<Rightarrow> ('x, unit) test) \<Rightarrow> 'a list \<Rightarrow> ('x, unit) test" where
  "each_test f [] = pure_test (Inr ())"
| "each_test f (x # xs) = bind_test (f x) (\<lambda>_. each_test f xs)"

text \<open>A loop whose body is a run; the actions of a run as actions of a wider kind.\<close>

fun each_run :: "('a \<Rightarrow> ('x, unit) run) \<Rightarrow> 'a list \<Rightarrow> ('x, unit) run" where
  "each_run f [] = pure_run (Inr ())"
| "each_run f (x # xs) = bind_run (f x) (\<lambda>_. each_run f xs)"

definition map_run :: "('x \<Rightarrow> 'y) \<Rightarrow> ('x, 'a) run \<Rightarrow> ('y, 'a) run" where
  "map_run f m = (map f (fst m), snd m)"

text \<open>A call that is given the context of the test.\<close>

definition ctx_run :: "bool \<Rightarrow> ('x \<Rightarrow> string option) \<Rightarrow> 'x \<Rightarrow> ('x, unit) run" where
  "ctx_run canceled answer x = (if canceled then ([], Inl ''context canceled'') else act_run answer x)"

section \<open>Facts\<close>

named_theorems test_simps \<open>what a test made of smaller ones does\<close>

lemma bind_run_simps [test_simps]:
  "bind_run (pure_run (Inr a)) f = f a" "bind_run (pure_run (Inl e)) f = ([], Inl e)"
  "bind_run (xs, Inr a) f = (xs @ fst (f a), snd (f a))" "bind_run (xs, Inl e) f = (xs, Inl e)"
  by (simp_all add: bind_run_def pure_run_def split: prod.split)

lemma do_run_simps [simp]:
  "t_trace (do_run m) = fst m" "t_cleanups (do_run m) = []" "t_failures (do_run m) = []" "t_result (do_run m) = snd m"
  by (simp_all add: do_run_def)

lemma pure_test_simps [simp]:
  "t_trace (pure_test r) = []" "t_cleanups (pure_test r) = []" "t_failures (pure_test r) = []" "t_result (pure_test r) = r"
  by (simp_all add: pure_test_def pure_run_def)

lemma t_Cleanup_simps [simp]:
  "t_trace (t_Cleanup c) = []" "t_cleanups (t_Cleanup c) = [finish c]" "t_failures (t_Cleanup c) = []"
  "t_result (t_Cleanup c) = Inr ()"
  by (simp_all add: t_Cleanup_def)

lemma assert_test_simps [simp]:
  "t_trace (assert_test ok msg) = []" "t_cleanups (assert_test ok msg) = []"
  "t_failures (assert_test ok msg) = (if ok then [] else [msg])" "t_result (assert_test ok msg) = Inr ()"
  by (simp_all add: assert_test_def)

lemma t_Run_simps [simp]:
  "t_trace (t_Run name m) = fst (finish m)" "t_cleanups (t_Run name m) = []" "t_result (t_Run name m) = Inr ()"
  "t_failures (t_Run name m) = [] \<longleftrightarrow> passes m"
  by (simp_all add: t_Run_def passes_def)

lemma fst_map_run [simp]: "fst (map_run f m) = map f (fst m)" "snd (map_run f m) = snd m"
  by (simp_all add: map_run_def)

lemma snd_finish_do_run [simp]: "snd (finish (do_run m)) = failure_of (snd m)"
  by (simp add: finish_def cleanup_failures_def)

lemma failure_of_nil [simp]: "failure_of r = [] \<longleftrightarrow> (\<exists>a. r = Inr a)"
  by (cases r) (simp_all add: failure_of_def)

lemma bind_test_Inr [test_simps]:
  assumes "t_result m = Inr a"
  shows "t_trace (bind_test m f) = t_trace m @ t_trace (f a)"
    "t_cleanups (bind_test m f) = t_cleanups (f a) @ t_cleanups m"
    "t_failures (bind_test m f) = t_failures m @ t_failures (f a)"
    "t_result (bind_test m f) = t_result (f a)"
  using assms by (simp_all add: bind_test_def)

lemma bind_test_Inl [test_simps]:
  assumes "t_result m = Inl e"
  shows "t_trace (bind_test m f) = t_trace m" "t_cleanups (bind_test m f) = t_cleanups m"
    "t_failures (bind_test m f) = t_failures m" "t_result (bind_test m f) = Inl e"
  using assms by (simp_all add: bind_test_def)

lemma bind_test_result_Inr:
  "t_result (bind_test m f) = Inr b \<longleftrightarrow> (\<exists>a. t_result m = Inr a \<and> t_result (f a) = Inr b)"
  by (cases "t_result m") (simp_all add: test_simps)

text \<open>Tests form a monad.\<close>

lemma bind_test_pure [simp]: "bind_test (pure_test (Inr a)) f = f a"
  by (simp add: bind_test_def)

lemma bind_test_fail [simp]: "bind_test (pure_test (Inl e)) f = pure_test (Inl e)"
  by (simp add: bind_test_def pure_test_def pure_run_def do_run_def)

lemma bind_test_unit: "bind_test m (\<lambda>a. pure_test (Inr a)) = m"
  by (cases "t_result m") (simp_all add: bind_test_def)

lemma bind_test_assoc: "bind_test (bind_test m f) g = bind_test m (\<lambda>a. bind_test (f a) g)"
  by (cases "t_result m") (auto simp: bind_test_def split: sum.splits)

lemma do_run_bind: "do_run (bind_run m f) = bind_test (do_run m) (\<lambda>a. do_run (f a))"
  by (auto simp: bind_test_def bind_run_def do_run_def split: prod.splits sum.splits)

subsection \<open>What a test does\<close>

text \<open>
  What follows a step of a test, with all its cleanups, lies between the step and the cleanups that the
  step registered.
\<close>

lemma finish_bind [test_simps]:
  "t_result m = Inr a \<Longrightarrow> fst (finish (bind_test m f)) = t_trace m @ fst (finish (f a)) @ cleanup_trace m"
  by (simp add: finish_def cleanup_trace_def test_simps)

lemma finish_bind_Inl [test_simps]:
  "t_result m = Inl e \<Longrightarrow> fst (finish (bind_test m f)) = t_trace m @ cleanup_trace m"
  by (simp add: finish_def cleanup_trace_def test_simps)

lemma finish_do_run [simp]: "fst (finish (do_run m)) = fst m"
  by (simp add: finish_def cleanup_trace_def)

lemma cleanup_trace_simps [simp]:
  "cleanup_trace (do_run m) = []" "cleanup_trace (pure_test r) = []" "cleanup_trace (t_Cleanup c) = fst (finish c)"
  "cleanup_trace (t_Run name k) = []" "cleanup_trace (assert_test ok msg) = []"
  by (simp_all add: cleanup_trace_def)

lemma finish_pure [simp]: "fst (finish (pure_test r)) = []"
  by (simp add: finish_def)

lemma finish_cleanup [simp]: "fst (finish (t_Cleanup c)) = fst (finish c)"
  by (simp add: finish_def)

lemma finish_assert [simp]: "fst (finish (assert_test ok msg)) = []"
  by (simp add: finish_def)

lemma finish_t_Run [simp]: "fst (finish (t_Run name m)) = fst (finish m)"
  by (simp add: finish_def)

lemma finish_t_Run_bind [simp]:
  "fst (finish (bind_test (t_Run name m) f)) = fst (finish m) @ fst (finish (f ()))"
  by (simp add: test_simps)

lemma finish_do_run_bind [simp]:
  "snd m = Inr a \<Longrightarrow> fst (finish (bind_test (do_run m) f)) = fst m @ fst (finish (f a))"
  "snd m = Inl e \<Longrightarrow> fst (finish (bind_test (do_run m) f)) = fst m"
  by (simp_all add: test_simps)

lemma finish_cleanup_bind [simp]:
  "fst (finish (bind_test (t_Cleanup c) f)) = fst (finish (f ())) @ fst (finish c)"
  by (simp add: test_simps)

text \<open>A step that registers its own undoing when it is over.\<close>

lemma finish_undo:
  "fst (finish (bind_test (bind_test (do_run m) (\<lambda>_. t_Cleanup c)) f)) =
     fst m @ (case snd m of Inl e \<Rightarrow> [] | Inr a \<Rightarrow> fst (finish (f ())) @ fst (finish c))"
  by (cases "snd m") (simp_all add: bind_test_assoc)

subsection \<open>When a test passes\<close>

lemma passes_iff:
  "passes m \<longleftrightarrow> t_failures m = [] \<and> (\<exists>a. t_result m = Inr a) \<and> (\<forall>c \<in> set (t_cleanups m). snd c = [])"
  by (auto simp: passes_def finish_def cleanup_failures_def concat_eq_Nil_conv)

lemma passes_bind:
  "passes (bind_test m f) \<longleftrightarrow>
     (\<exists>a. t_result m = Inr a \<and> t_failures m = [] \<and> passes (f a) \<and> (\<forall>c \<in> set (t_cleanups m). snd c = []))"
  by (cases "t_result m") (auto simp: passes_iff test_simps)

lemma passes_simps [simp]:
  "passes (do_run m) \<longleftrightarrow> (\<exists>a. snd m = Inr a)" "passes (pure_test r) \<longleftrightarrow> (\<exists>a. r = Inr a)"
  "passes (t_Run name k) \<longleftrightarrow> passes k" "passes (assert_test ok msg) \<longleftrightarrow> ok"
  by (auto simp: passes_iff)

lemma passes_t_Cleanup [simp]: "passes (t_Cleanup c) \<longleftrightarrow> passes c"
  by (simp add: passes_iff [of "t_Cleanup c"]) (simp add: passes_def)

lemma passes_do_run_bind: "passes (bind_test (do_run m) f) \<longleftrightarrow> (\<exists>a. snd m = Inr a \<and> passes (f a))"
  by (simp add: passes_bind)

lemma passes_undo:
  "passes (bind_test (bind_test (do_run m) (\<lambda>_. t_Cleanup c)) f) \<longleftrightarrow>
     (\<exists>a. snd m = Inr a) \<and> passes (f ()) \<and> passes c"
  by (auto simp: bind_test_assoc passes_do_run_bind passes_bind [of "t_Cleanup c"]) (auto simp: passes_def)

text \<open>The cleanups of a test are all run, in the reverse order of their registration, whatever fails.\<close>

lemma each_cleanup:
  "t_trace (each_test t_Cleanup cs) = []" "t_cleanups (each_test t_Cleanup cs) = rev (map finish cs)"
  "t_failures (each_test t_Cleanup cs) = []" "t_result (each_test t_Cleanup cs) = Inr ()"
  by (induction cs) (simp_all add: test_simps)

lemma cleanups_all_run:
  "fst (finish (bind_test (each_test t_Cleanup cs) f)) = fst (finish (f ())) @ concat (map (\<lambda>c. fst (finish c)) (rev cs))"
  by (simp add: finish_bind [OF each_cleanup(4)] each_cleanup cleanup_trace_def rev_map o_def)

subsection \<open>Loops\<close>

lemma each_run_append: "each_run f (xs @ ys) = bind_run (each_run f xs) (\<lambda>_. each_run f ys)"
  by (induction xs) (auto simp: bind_run_def pure_run_def split: prod.splits sum.splits)

lemma each_run_act:
  "each_run (act_run answer) xs = (tr, Inr ()) \<longleftrightarrow> tr = xs \<and> (\<forall>x \<in> set xs. answer x = None)"
  by (induction xs arbitrary: tr) (auto simp: pure_run_Inr bind_run_Inr act_run_Inr)

lemma each_run_ok:
  assumes "\<And>x. x \<in> set xs \<Longrightarrow> snd (f x) = Inr ()"
  shows "each_run f xs = (concat (map (\<lambda>x. fst (f x)) xs), Inr ())"
  using assms
proof (induction xs)
  case (Cons x xs)
  then have "snd (f x) = Inr ()" by simp
  with Cons show ?case by (cases "f x") (simp add: bind_run_def)
qed (simp add: pure_run_def)

lemma orderly_each: "(\<And>x. orderly answer (f x)) \<Longrightarrow> orderly answer (each_run f xs)"
  by (induction xs) (simp_all add: orderly_pure orderly_bind)

lemma orderly_ctx: "orderly answer (ctx_run canceled answer x)"
  by (simp add: ctx_run_def orderly_act) (simp add: orderly_def)

lemmas [run_rules] = orderly_each orderly_ctx

lemma ctx_run_canceled [simp]: "ctx_run True answer x = ([], Inl ''context canceled'')"
  by (simp add: ctx_run_def)

lemma ctx_run_live [simp]: "ctx_run False answer x = act_run answer x"
  by (simp add: ctx_run_def)

end
