(* ===== verification/Suites.thy ===== *)
theory Suites
  imports GoTest CollectorInstall PodExec Helpers LeaseSetup
begin

section \<open>What the test suites do to the outside\<close>

text \<open>
  The steps that the suites under \<open>functional_tests/\<close> are made of: the mock server, the sinks, the
  installation and removal of the chart, the objects and waits around them. A step is taken over from the
  component that models it, with its actions as actions of the suite and its cleanups registered.
\<close>

datatype verb = Creating | Updating | Deleting

datatype suite_action =
    ServeAPI
  | CloseAPI
  | Sink sink_action
  | Installing chart_action
  | Removing removal
  | Api verb string string string \<comment> \<open>kind, namespace, name\<close>
  | PodsReady string string int int \<comment> \<open>namespace, selector, timeout, minimal ready time\<close>
  | AwaitEntries int
  | Sleeping int
  | CreatingNamespace string
  | Annotating string string string
  | CreatingObjects string
  | DeletingObject string
  | Checking string \<comment> \<open>the checks of a subtest\<close>
  | TakeLease
  | StopLease bool \<comment> \<open>stop renewing the lease, and whether it is given up then\<close>
  | AwaitGone string string \<comment> \<open>kind, name\<close>
  | AwaitEstablished string
  | AwaitActive

text \<open>What the suites read of a decoded manifest.\<close>

record manifest =
  mf_Group :: string
  mf_Version :: string
  mf_Kind :: string
  mf_Namespace :: string
  mf_Name :: string

text \<open>
  The environment of a suite. Where a step is run twice, before the set-up and as a cleanup, the argument
  \<^const>\<open>True\<close> is the cleanup. \<open>su_client\<close> gives the error of building a client for a kube config.
\<close>

record suite_env =
  su_lookup :: "string \<rightharpoonup> string" \<comment> \<open>\<open>os.LookupEnv\<close>\<close>
  su_goos :: string
  su_docker :: "gateway list result"
  su_cwd :: "string result"
  su_watcher :: string
  su_client :: "string \<Rightarrow> string option"
  su_chart :: chart_env
  su_removal :: "bool \<Rightarrow> removal_env"
  su_sinks :: sink_env
  su_ready :: "string \<Rightarrow> string \<Rightarrow> ready_obs list"
  su_lens :: "nat list"
  su_created :: nat \<comment> \<open>how many objects \<open>k8stest.CreateObjects\<close> has returned\<close>
  su_namespace :: "string \<Rightarrow> string option \<times> string option list"
  su_no_match :: "string \<Rightarrow> bool" \<comment> \<open>\<open>meta.IsNoMatchError\<close>\<close>
  su_deleted :: "bool \<Rightarrow> string \<Rightarrow> string option"
  su_lease :: lease_env
  su_disk :: fs
  su_decode :: "string \<Rightarrow> manifest result" \<comment> \<open>the universal deserializer\<close>
  su_exists :: "string \<Rightarrow> bool" \<comment> \<open>\<open>IsAlreadyExists\<close>\<close>
  su_gone :: "string \<Rightarrow> bool" \<comment> \<open>\<open>IsNotFound\<close>\<close>
  su_answer :: "suite_action \<Rightarrow> string option"

definition getenv :: "suite_env \<Rightarrow> string \<Rightarrow> string" where
  "getenv se key = (case su_lookup se key of Some v \<Rightarrow> v | None \<Rightarrow> [])"

definition switched_on :: "suite_env \<Rightarrow> string \<Rightarrow> bool" where
  "switched_on se key \<longleftrightarrow> getenv se key = ''true''"

definition host_endpoint :: "suite_env \<Rightarrow> string result" where
  "host_endpoint se = HostEndpoint (su_lookup se ''HOST_ENDPOINT'') (su_goos se) (su_docker se)"

definition act :: "suite_env \<Rightarrow> suite_action \<Rightarrow> (suite_action, unit) run" where
  "act se x = act_run (su_answer se) x"

text \<open>An action that ends with a wait, which may time out.\<close>

definition waiting :: "suite_action \<Rightarrow> bool \<Rightarrow> (suite_action, unit) run" where
  "waiting x ok = ([x], if ok then Inr () else Inl ''Condition never satisfied'')"

definition pods_ready :: "suite_env \<Rightarrow> string \<Rightarrow> string \<Rightarrow> int \<Rightarrow> int \<Rightarrow> (suite_action, unit) run" where
  "pods_ready se namespace selector timeout minReadyTime =
     waiting (PodsReady namespace selector timeout minReadyTime) (CheckPodsReady minReadyTime (su_ready se namespace selector))"

definition await_entries :: "suite_env \<Rightarrow> int \<Rightarrow> (suite_action, unit) run" where
  "await_entries se n = waiting (AwaitEntries n) (WaitForEntries n (su_lens se))"

definition create_namespace :: "suite_env \<Rightarrow> string \<Rightarrow> (suite_action, unit) run" where
  "create_namespace se name = waiting (CreatingNamespace name) (case su_namespace se name of (created, gets) \<Rightarrow> CreateNamespace created gets)"

definition delete_object :: "suite_env \<Rightarrow> bool \<Rightarrow> string \<Rightarrow> (suite_action, unit) run" where
  "delete_object se cleaning manifest =
     ([DeletingObject manifest],
      if DeleteObject (su_no_match se) None (su_deleted se cleaning manifest) then Inr () else Inl ''failed to delete object'')"

text \<open>\<open>k8stest.CreateObjects\<close> with the requirement that it has created something.\<close>

definition create_objects :: "suite_env \<Rightarrow> string \<Rightarrow> (suite_action, unit) run" where
  "create_objects se dir =
     bind_run (act se (CreatingObjects dir)) (\<lambda>_.
       pure_run (if su_created se = 0 then Inl ''Should NOT be empty'' else Inr ()))"

definition kube_client :: "suite_env \<Rightarrow> string \<Rightarrow> (suite_action, unit) run" where
  "kube_client se kubeConfig = pure_run (case su_client se kubeConfig of Some e \<Rightarrow> Inl e | None \<Rightarrow> Inr ())"

definition chart_uninstall :: "suite_env \<Rightarrow> bool \<Rightarrow> (suite_action, unit) run" where
  "chart_uninstall se cleaning = map_run Removing (ChartUninstall (su_removal se cleaning))"

definition chart_install ::
  "suite_env \<Rightarrow> string \<Rightarrow> string \<Rightarrow> (string \<times> yaml) list \<Rightarrow> int \<Rightarrow> ChartOptions \<Rightarrow> (suite_action, unit) run"
where
  "chart_install se kubeConfig valuesFile replacements minReadyTime options =
     map_run Installing (ChartInstallOrUpgrade (su_chart se) (getenv se) kubeConfig valuesFile replacements minReadyTime options)"

subsection \<open>Servers and sinks\<close>

text \<open>
  The start of the mock server cannot fail; its cleanup fails when the server reports an error
  (theory \<open>ApiServer\<close>).
\<close>

definition api_server_test :: "suite_env \<Rightarrow> (suite_action, unit) test" where
  "api_server_test se = bind_test (do_run ([ServeAPI], Inr ())) (\<lambda>_. t_Cleanup (do_run (act se CloseAPI)))"

text \<open>The registration of a shutdown in the run of a sink, as a cleanup.\<close>

definition is_shutdown :: "sink_action \<Rightarrow> bool" where
  "is_shutdown x = (case x of ShutdownAtCleanup sig cfg \<Rightarrow> True | _ \<Rightarrow> False)"

definition sink_test :: "suite_env \<Rightarrow> (sink_action, unit) run \<Rightarrow> (suite_action, unit) test" where
  "sink_test se m =
     \<lparr>t_trace = map Sink (filter (\<lambda>x. \<not> is_shutdown x) (fst m)),
      t_cleanups = rev (map (\<lambda>x. finish (do_run (act se (Sink x)))) (filter is_shutdown (fst m))),
      t_failures = [], t_result = snd m\<rparr>"

subsection \<open>Ends of a suite\<close>

text \<open>A teardown that the environment can switch off, and the checks of a subtest, which have no cleanups; a panic ends the test.\<close>

definition unless_skipped :: "suite_env \<Rightarrow> (suite_action, unit) test \<Rightarrow> (suite_action, unit) test" where
  "unless_skipped se teardown = (if switched_on se ''SKIP_TEARDOWN'' then pure_test (Inr ()) else teardown)"

definition sleep :: "int \<Rightarrow> (suite_action, unit) run" where
  "sleep n = ([Sleeping n], Inr ())"

definition checked :: "string \<Rightarrow> (unit result \<times> fs) option \<Rightarrow> (suite_action, fs) test" where
  "checked name outcome =
     (case outcome of
        None \<Rightarrow> do_run ([Checking name], Inl ''panic'')
      | Some (r, d) \<Rightarrow> bind_test (t_Run name (do_run ([Checking name], r))) (\<lambda>_. pure_test (Inr d)))"

text \<open>The kind of a decoded object, and a type assertion on it, which panics for another type.\<close>

definition is_object :: "string \<Rightarrow> string \<Rightarrow> string \<Rightarrow> manifest \<Rightarrow> bool" where
  "is_object gr version kind m \<longleftrightarrow> mf_Group m = gr \<and> mf_Version m = version \<and> mf_Kind m = kind"

definition as_object :: "string \<Rightarrow> string \<Rightarrow> string \<Rightarrow> manifest \<Rightarrow> manifest result" where
  "as_object gr version kind m = (if is_object gr version kind m then Inr m else Inl ''interface conversion'')"

text \<open>A call whose error is not looked at.\<close>

definition ignoring :: "(suite_action, unit) run \<Rightarrow> (suite_action, unit) run" where
  "ignoring m = (fst m, Inr ())"

text \<open>The objects in the cluster after a sequence of calls, of which the accepted ones count.\<close>

fun objects_after ::
  "(suite_action \<Rightarrow> string option) \<Rightarrow> suite_action list \<Rightarrow> (string \<times> string \<times> string) set \<Rightarrow> (string \<times> string \<times> string) set"
where
  "objects_after answer [] objs = objs"
| "objects_after answer (Api Creating kind ns name # xs) objs =
     objects_after answer xs (if answer (Api Creating kind ns name) = None then insert (kind, ns, name) objs else objs)"
| "objects_after answer (Api Deleting kind ns name # xs) objs =
     objects_after answer xs (if answer (Api Deleting kind ns name) = None then objs - {(kind, ns, name)} else objs)"
| "objects_after answer (x # xs) objs = objects_after answer xs objs"

section \<open>Facts\<close>

lemma objects_after_append: "objects_after answer (xs @ ys) objs = objects_after answer ys (objects_after answer xs objs)"
  by (induction answer xs objs rule: objects_after.induct) auto

lemma objects_after_kept:
  "obj \<in> objs \<Longrightarrow> (\<And>kind ns name. Api Deleting kind ns name \<in> set xs \<Longrightarrow> obj \<noteq> (kind, ns, name)) \<Longrightarrow>
     obj \<in> objects_after answer xs objs"
  by (induction answer xs objs rule: objects_after.induct) auto

lemma as_object_Inr [simp]: "as_object gr version kind m = Inr m' \<longleftrightarrow> is_object gr version kind m \<and> m' = m"
  by (auto simp: as_object_def)

lemma ignoring_simps [simp]: "fst (ignoring m) = fst m" "snd (ignoring m) = Inr ()"
  by (simp_all add: ignoring_def)

lemma waiting_simps [simp]:
  "fst (waiting x ok) = [x]" "snd (waiting x ok) = Inr () \<longleftrightarrow> ok" "snd (waiting x ok) = Inl e \<longleftrightarrow> \<not> ok \<and> e = ''Condition never satisfied''"
  by (auto simp: waiting_def)

lemma fst_act [simp]: "fst (act se x) = [x]"
  by (simp add: act_def act_run_def)

lemma snd_act: "snd (act se x) = (case su_answer se x of Some e \<Rightarrow> Inl e | None \<Rightarrow> Inr ())"
  by (simp add: act_def act_run_def)

lemma api_server_test_simps [simp]:
  "t_trace (api_server_test se) = [ServeAPI]" "t_result (api_server_test se) = Inr ()"
  "t_failures (api_server_test se) = []" "t_cleanups (api_server_test se) = [finish (do_run (act se CloseAPI))]"
  "cleanup_trace (api_server_test se) = [CloseAPI]"
  by (simp_all add: api_server_test_def test_simps cleanup_trace_def)

lemma sink_test_simps [simp]:
  "t_result (sink_test se m) = snd m" "t_failures (sink_test se m) = []"
  "t_trace (sink_test se m) = map Sink (filter (\<lambda>x. \<not> is_shutdown x) (fst m))"
  by (simp_all add: sink_test_def)

text \<open>A sink whose receiver can be created and started is stopped as a cleanup; one that cannot registers none.\<close>

lemma sink_test_receiver:
  assumes "run_receiver (su_sinks se) sig cfg host = (tr, r)"
  shows "t_cleanups (sink_test se (tr, r)) = (if r = Inr () then [finish (do_run (act se (Sink (ShutdownAtCleanup sig cfg))))] else [])"
    "r = Inr () \<Longrightarrow> t_trace (sink_test se (tr, r)) = [Sink (CreateReceiver sig cfg), Sink (StartReceiver sig cfg host)]"
  using assms
  by (auto simp: sink_test_def run_receiver_def bind_run_def act_run_def is_shutdown_def split: option.splits)

text \<open>What lies between the set-up of the mock server and its end.\<close>

lemma finish_api_server: "fst (finish (bind_test (api_server_test se) f)) = ServeAPI # fst (finish (f ())) @ [CloseAPI]"
  by (simp add: finish_bind [of _ "()"])

lemma finish_sink:
  assumes "run_receiver (su_sinks se) sig cfg host = (tr, Inr ())"
  shows "fst (finish (bind_test (sink_test se (tr, Inr ())) f)) =
     Sink (CreateReceiver sig cfg) # Sink (StartReceiver sig cfg host) # fst (finish (f ())) @
     [Sink (ShutdownAtCleanup sig cfg)]"
proof -
  have "fst (finish (bind_test (sink_test se (tr, Inr ())) f)) =
      t_trace (sink_test se (tr, Inr ())) @ fst (finish (f ())) @ cleanup_trace (sink_test se (tr, Inr ()))"
    by (rule finish_bind) simp
  then show ?thesis using sink_test_receiver [OF assms] by (simp add: cleanup_trace_def)
qed

lemma checked_simps [simp]:
  "t_trace (checked name outcome) = [Checking name]" "t_cleanups (checked name outcome) = []"
  by (auto simp: checked_def test_simps split: option.split)

lemma checked_result: "t_result (checked name outcome) = (case outcome of None \<Rightarrow> Inl ''panic'' | Some (r, d) \<Rightarrow> Inr d)"
  by (auto simp: checked_def test_simps split: option.split)

lemma passes_bind_checked:
  "passes (bind_test (checked name outcome) f) \<longleftrightarrow> (\<exists>d. outcome = Some (Inr (), d) \<and> passes (f d))"
  by (auto simp: checked_def passes_bind test_simps bind_test_assoc split: option.split)

lemma passes_checked: "passes (checked name outcome) \<longleftrightarrow> (\<exists>d. outcome = Some (Inr (), d))"
  by (auto simp: checked_def passes_bind split: option.split)

lemma passes_api_server: "passes (bind_test (api_server_test se) f) \<longleftrightarrow> passes (f ()) \<and> su_answer se CloseAPI = None"
  by (auto simp: passes_bind snd_act split: option.splits)

lemma passes_sink:
  assumes "run_receiver (su_sinks se) sig cfg host = (tr, r)"
  shows "passes (bind_test (sink_test se (tr, r)) f) \<longleftrightarrow>
     r = Inr () \<and> passes (f ()) \<and> su_answer se (Sink (ShutdownAtCleanup sig cfg)) = None"
  using sink_test_receiver(1) [OF assms]
  by (cases r) (auto simp: passes_bind snd_act split: option.splits)

definition long_ready :: ready_obs where
  "long_ready = \<lparr>ro_pods = Inr [sample_pod ''/var''], ro_now = 0, ro_since = seconds 600\<rparr>"

text \<open>A file that holds its own path, decoded to the object that the manifest there describes.\<close>

definition sample_object :: "string \<Rightarrow> manifest" where
  "sample_object content =
     (case map_of
        [(''testdata/nodejs/deployment.yaml'', ''apps'', ''Deployment'', ''nodejs-test''),
         (''testdata/java/deployment.yaml'', ''apps'', ''Deployment'', ''java-test''),
         (''testdata/dotnet/deployment.yaml'', ''apps'', ''Deployment'', ''dotnet-test''),
         (''testdata/python/deployment.yaml'', ''apps'', ''Deployment'', ''python-test''),
         (''testdata/manifests/log_attr_test_deployment.yaml'', ''apps'', ''Deployment'', ''log-attr-test''),
         (''testdata/manifests/prometheus_test_configmap.yaml'', [], ''ConfigMap'', ''prometheus-test-metrics''),
         (''testdata/manifests/deployment_with_prometheus_annotations.yaml'', ''apps'', ''Deployment'', ''prometheus-annotation-test''),
         (''testdata/manifests/service.yaml'', [], ''Service'', ''prometheus-annotation-service''),
         (''testdata/manifests/prometheus_operator_crds.yaml'', ''apiextensions.k8s.io'', ''CustomResourceDefinition'',
          ''podmonitors.monitoring.coreos.com''),
         (''testdata/manifests/test_jobs.yaml'', [], ''Namespace'', ''ns-w-index'')] content of
        Some (gr, kind, name) \<Rightarrow> \<lparr>mf_Group = gr, mf_Version = ''v1'', mf_Kind = kind, mf_Namespace = [], mf_Name = name\<rparr>
      | None \<Rightarrow> \<lparr>mf_Group = [], mf_Version = ''v1'', mf_Kind = ''ConfigMap'', mf_Namespace = [], mf_Name = content\<rparr>)"

text \<open>A host on which everything is there, with the given answers of the cluster.\<close>

definition sample_suite :: "(suite_action \<Rightarrow> string option) \<Rightarrow> suite_env" where
  "sample_suite answer =
     \<lparr>su_lookup = [''KUBECONFIG'' \<mapsto> ''kc'', ''KUBE_TEST_ENV'' \<mapsto> ''kind'', ''HOST_ENDPOINT'' \<mapsto> ''::1''], su_goos = ''linux'', su_docker = Inl ''no docker'',
      su_cwd = Inr ''/t'', su_watcher = ''watcher'', su_client = (\<lambda>_. None), su_chart = sample_chart_env,
      su_removal = (\<lambda>_. sample_removal), su_sinks = sample_sinks, su_ready = (\<lambda>_ _. [long_ready]), su_lens = [5], su_created = 1,
      su_namespace = (\<lambda>_. (None, [None])), su_no_match = (\<lambda>_. False), su_deleted = (\<lambda>_ _. None), su_lease = sample_lease_env,
      su_disk = \<lparr>files = (\<lambda>p. Some p), read_fault = (\<lambda>_. None), write_fault = (\<lambda>_. None)\<rparr>,
      su_decode = (\<lambda>c. Inr (sample_object c)),
      su_exists = (\<lambda>e. e = ''already exists''), su_gone = (\<lambda>e. e = ''not found''),
      su_answer = answer\<rparr>"

lemma sample_suite_switches [simp]:
  "getenv (sample_suite answer) key =
     (if key = ''KUBECONFIG'' then ''kc'' else if key = ''KUBE_TEST_ENV'' then ''kind''
      else if key = ''HOST_ENDPOINT'' then ''::1'' else [])"
  "switched_on (sample_suite answer) key \<longleftrightarrow> False"
  by (auto simp: switched_on_def getenv_def sample_suite_def)

lemma sample_suite_sinks [simp]: "su_sinks (sample_suite answer) = sample_sinks" "su_answer (sample_suite answer) = answer"
  by (simp_all add: sample_suite_def)

lemma sample_receiver: "snd (run_receiver sample_sinks sig cfg host) = Inr ()"
  by (simp add: run_receiver_def bind_run_def act_run_def sample_sinks_def)

lemma sample_chart_install:
  assumes "\<not> has_suffix vf ''Chart.yaml''"
  shows "chart_install (sample_suite answer) kc vf repl m (GetDefaultChartOptions w) =
    ([Installing (HelmInstall (path_join [''..'', ''..'', defaultChartPath]) (GetDefaultChartOptions w)
        [(chartLabelKey, DefaultChartReleaseName)] [(''operatorcrds'', YMap [(''install'', YBool True)])]),
      Installing (WaitPodsReady DefaultNamespace (''release='' @ DefaultChartReleaseName) HelmActionTimeout m)], Inr ())"
  using assms
  by (simp add: chart_install_def ChartInstallOrUpgrade_def load_values_def sample_suite_def sample_chart_env_def ReadFile_def
      applyEnvOverrides_def setCollectorImageOverrideEnv_def getenv_def Let_def GetDefaultChartOptions_def bind_run_def pure_run_def
      load_chart_def run_install_def act_run_def map_run_def)

lemma sample_ready: "m \<le> 600000000000 \<Longrightarrow> CheckPodsReady m [long_ready]"
  by (simp add: CheckPodsReady_def ready_check_def all_pods_ready_def long_ready_def sample_pod_def seconds_def Let_def)

lemma sample_suite_steps [test_simps]:
  "requireEnv (su_lookup (sample_suite answer)) ''KUBECONFIG'' = Inr ''kc''"
  "requireEnv (su_lookup (sample_suite answer)) ''KUBE_TEST_ENV'' = Inr ''kind''"
  "ReadFile (su_disk (sample_suite answer)) p = Inr p" "su_decode (sample_suite answer) c = Inr (sample_object c)"
  "kube_client (sample_suite answer) kc = pure_run (Inr ())"
  "host_endpoint (sample_suite answer) = Inr ''::1''"
  "m \<le> 600000000000 \<Longrightarrow> pods_ready (sample_suite answer) ns sel t m = ([PodsReady ns sel t m], Inr ())"
  "create_namespace (sample_suite answer) name = ([CreatingNamespace name], Inr ())"
  "delete_object (sample_suite answer) cleaning manifest = ([DeletingObject manifest], Inr ())"
  "su_cwd (sample_suite answer) = Inr ''/t''" "su_watcher (sample_suite answer) = ''watcher''"
  "WaitForEntries n (su_lens (sample_suite answer)) \<longleftrightarrow> n \<le> 5"
  "create_objects (sample_suite answer) dir =
     ([CreatingObjects dir], case answer (CreatingObjects dir) of Some e \<Rightarrow> Inl e | None \<Rightarrow> Inr ())"
  by (simp_all add: sample_suite_def requireEnv_def ReadFile_def kube_client_def host_endpoint_def HostEndpoint_def pods_ready_def waiting_def
      sample_ready create_namespace_def CreateNamespace_def present_check_def delete_object_def DeleteObject_def
      delete_tolerated_def WaitForEntries_def entries_check_def create_objects_def act_def act_run_def bind_run_def pure_run_def
      split: bool.split option.split)

lemma sample_uninstall: "snd (chart_uninstall (sample_suite answer) cleaning) = Inr ()"
proof -
  have "snd (ChartUninstall sample_removal) = Inr ()" by code_simp
  then show ?thesis by (simp add: chart_uninstall_def sample_suite_def)
qed

end
