(* ===== verification/EventsSuite.thy ===== *)
theory EventsSuite
  imports EventsTest Suites
begin

section \<open>The whole events test\<close>

text \<open>
  \<open>Test_K8SEvents\<close> of \<open>functional_tests/k8sevents/k8sevents_test.go\<close>: the mock server and the sink, the
  deployment of collector and workload, the two subtests, and the teardown. The sink is read once for each subtest:
  \<open>sink n\<close> is what it holds the \<open>n\<close>-th time.
\<close>

definition events_manifest :: string where
  "events_manifest =
     join [CHR 0x0A] [[], ''apiVersion: v1'', ''kind: Namespace'', ''metadata:'', ''  name: k8sevents-test'', []]"

definition events_teardown :: "suite_env \<Rightarrow> bool \<Rightarrow> (suite_action, unit) run" where
  "events_teardown se cleaning = bind_run (chart_uninstall se cleaning) (\<lambda>_. delete_object se cleaning events_manifest)"

definition events_deployment :: "suite_env \<Rightarrow> (suite_action, unit) run" where
  "events_deployment se =
     bind_run (pure_run (requireEnv (su_lookup se) ''KUBECONFIG'')) (\<lambda>testKubeConfig.
     bind_run (kube_client se testKubeConfig) (\<lambda>_.
     bind_run (pure_run (path_abs (su_cwd se) (path_join [''testdata'', ''k8sevents_values.yaml.tmpl'']))) (\<lambda>valuesFile.
     bind_run (pure_run (host_endpoint se)) (\<lambda>hostEp.
     bind_run (pure_run (if length hostEp = 0 then Inl ''host endpoint not found'' else Inr ())) (\<lambda>_.
     bind_run (chart_install se testKubeConfig valuesFile
       (string_values [(''ApiURL'', HostPortHTTP hostEp SignalFxAPIPort), (''LogURL'', HostPortHTTP hostEp HECLogsReceiverPort)]) 0
       (GetDefaultChartOptions (su_watcher se))) (\<lambda>_.
     bind_run (kube_client se testKubeConfig) (\<lambda>_.
     bind_run (pods_ready se DefaultNamespace ''component=otel-k8s-cluster-receiver'' (seconds 180) 0) (\<lambda>_.
     bind_run (sleep (seconds 30)) (\<lambda>_.
     bind_run (create_namespace se ''k8sevents-test'') (\<lambda>_.
     bind_run (act se (Annotating ''k8sevents-test'' ''com.splunk.index'' ''index_from_namespace'')) (\<lambda>_.
     bind_run (create_objects se ''testdata/testobjects'') (\<lambda>_.
       pods_ready se ''k8sevents-test'' ''app=k8sevents-test'' (seconds 120) 0))))))))))))"

definition deployWorkloadAndCollector :: "suite_env \<Rightarrow> (suite_action, unit) test" where
  "deployWorkloadAndCollector se =
     bind_test (do_run (events_deployment se)) (\<lambda>_. t_Cleanup (unless_skipped se (do_run (events_teardown se True))))"

definition events_tests :: "check_env \<Rightarrow> suite_env \<Rightarrow> fs \<Rightarrow> (nat \<Rightarrow> logs list) \<Rightarrow> (suite_action, fs) test" where
  "events_tests ck se d sink =
     (if switched_on se ''SKIP_TESTS'' then pure_test (Inr d)
      else
        bind_test (do_run (await_entries se 3)) (\<lambda>_.
        bind_test (checked ''CheckK8SEventsLogs'' (CheckK8SEventsLogs ck d (sink 0))) (\<lambda>d.
          checked ''CheckK8SObjectsLogs'' (CheckK8SObjectsLogs ck d (sink 1)))))"

definition Test_K8SEvents :: "check_env \<Rightarrow> suite_env \<Rightarrow> fs \<Rightarrow> (nat \<Rightarrow> logs list) \<Rightarrow> (suite_action, fs) test" where
  "Test_K8SEvents ck se d sink =
     bind_test
       (do_run
         (if switched_on se ''TEARDOWN_BEFORE_SETUP''
          then bind_run (pure_run (requireEnv (su_lookup se) ''KUBECONFIG'')) (\<lambda>testKubeConfig.
               bind_run (kube_client se testKubeConfig) (\<lambda>_. events_teardown se False))
          else pure_run (Inr ()))) (\<lambda>_.
     bind_test (api_server_test se) (\<lambda>_.
     bind_test (sink_test se (SetupHECLogsSink (su_sinks se))) (\<lambda>_.
     bind_test (if switched_on se ''SKIP_SETUP'' then pure_test (Inr ()) else deployWorkloadAndCollector se) (\<lambda>_.
       events_tests (ck\<lparr>ck_env := getenv se\<rparr>) se d sink))))"

section \<open>Properties\<close>

definition events_receiver :: "suite_env \<Rightarrow> receiver_config" where
  "events_receiver se = HEC ((se_hec (su_sinks se))\<lparr>sc_NetAddr := listen_on HECLogsReceiverPort\<rparr>)"

lemma events_sink: "SetupHECLogsSink (su_sinks se) = run_receiver (su_sinks se) LogsSink (events_receiver se) []"
  by (simp add: SetupHECLogsSink_def setupHECLogsSink_def events_receiver_def)

text \<open>
  Everything the events test does, in order, when its sink can be started: between the start and the
  end of the mock server, and within that of the sink, the deployment, and only if all of it succeeded the tests and
  then, unless it is switched off, the teardown. A deployment that fails half way is not torn down.
\<close>

theorem Test_K8SEvents_actions:
  assumes "\<not> switched_on se ''TEARDOWN_BEFORE_SETUP''" and "snd (SetupHECLogsSink (su_sinks se)) = Inr ()"
  shows "fst (finish (Test_K8SEvents ck se d sink)) =
    (let tests = fst (finish (events_tests (ck\<lparr>ck_env := getenv se\<rparr>) se d sink))
     in [ServeAPI, Sink (CreateReceiver LogsSink (events_receiver se)), Sink (StartReceiver LogsSink (events_receiver se) [])] @
        (if switched_on se ''SKIP_SETUP'' then tests
         else fst (events_deployment se) @
           (if snd (events_deployment se) = Inr ()
            then tests @ (if switched_on se ''SKIP_TEARDOWN'' then [] else fst (events_teardown se True)) else [])) @
        [Sink (ShutdownAtCleanup LogsSink (events_receiver se)), CloseAPI])"
proof -
  obtain tr where tr: "run_receiver (su_sinks se) LogsSink (events_receiver se) [] = (tr, Inr ())"
    using assms(2) unfolding events_sink by (metis prod.collapse)
  then have sink: "SetupHECLogsSink (su_sinks se) = (tr, Inr ())" by (simp add: events_sink)
  show ?thesis
    using assms(1) unfolding Test_K8SEvents_def deployWorkloadAndCollector_def
    by (simp add: sink finish_api_server finish_sink [OF tr] finish_undo unless_skipped_def pure_run_def test_simps Let_def
        split: sum.split)
qed

text \<open>
  In a cluster that refuses the workload's objects the chart has been installed, nothing removes it, and
  the test is over.
\<close>

lemma sample_values_file:
  "path_abs (Inr ''/t'') (path_join [''testdata'', ''k8sevents_values.yaml.tmpl'']) = Inr ''/t/testdata/k8sevents_values.yaml.tmpl''"
  "\<not> has_suffix ''/t/testdata/k8sevents_values.yaml.tmpl'' ''Chart.yaml''"
  by code_simp+

lemma sample_events_deployment:
  "\<exists>install xs. events_deployment (sample_suite answer) =
     (Installing install # xs,
      case answer (Annotating ''k8sevents-test'' ''com.splunk.index'' ''index_from_namespace'') of
        Some e \<Rightarrow> Inl e
      | None \<Rightarrow> (case answer (CreatingObjects ''testdata/testobjects'') of Some e \<Rightarrow> Inl e | None \<Rightarrow> Inr ())) \<and>
     set xs \<inter> range Removing = {}"
  by (auto simp: events_deployment_def test_simps sample_values_file sample_chart_install sleep_def act_def act_run_def
      split: option.split)

definition full_cluster :: "suite_action \<Rightarrow> string option" where
  "full_cluster x = (if x = CreatingObjects ''testdata/testobjects'' then Some ''exceeded quota'' else None)"

lemma sample_events_sink: "snd (SetupHECLogsSink (su_sinks (sample_suite answer))) = Inr ()"
  unfolding events_sink by (simp add: sample_receiver)

lemma Test_K8SEvents_actions_witness:
  "\<exists>install rest. fst (finish (Test_K8SEvents ck (sample_suite full_cluster) d sink)) =
       ServeAPI # Sink (CreateReceiver LogsSink (events_receiver (sample_suite full_cluster))) #
       Sink (StartReceiver LogsSink (events_receiver (sample_suite full_cluster)) []) # Installing install # rest \<and>
     set rest \<inter> range Removing = {}"
proof -
  obtain install xs where "events_deployment (sample_suite full_cluster) = (Installing install # xs, Inl ''exceeded quota'')"
    "set xs \<inter> range Removing = {}"
    using sample_events_deployment [of full_cluster] by (auto simp: full_cluster_def)
  then show ?thesis
    using Test_K8SEvents_actions [OF _ sample_events_sink, of full_cluster ck d sink] by auto
qed

text \<open>
  C8: when the events test passes, with its set-up and its tests switched on.
\<close>

theorem Test_K8SEvents_passes:
  assumes "\<not> switched_on se ''TEARDOWN_BEFORE_SETUP''" and "\<not> switched_on se ''SKIP_SETUP''"
    and "\<not> switched_on se ''SKIP_TESTS''" and "\<not> switched_on se ''SKIP_TEARDOWN''"
  shows "passes (Test_K8SEvents ck se d sink) \<longleftrightarrow>
    snd (SetupHECLogsSink (su_sinks se)) = Inr () \<and> snd (events_deployment se) = Inr () \<and>
    WaitForEntries 3 (su_lens se) \<and>
    (\<exists>d1 d2. CheckK8SEventsLogs (ck\<lparr>ck_env := getenv se\<rparr>) d (sink 0) = Some (Inr (), d1) \<and>
       CheckK8SObjectsLogs (ck\<lparr>ck_env := getenv se\<rparr>) d1 (sink 1) = Some (Inr (), d2)) \<and>
    snd (events_teardown se True) = Inr () \<and>
    su_answer se (Sink (ShutdownAtCleanup LogsSink (events_receiver se))) = None \<and> su_answer se CloseAPI = None"
proof -
  obtain tr r where tr: "run_receiver (su_sinks se) LogsSink (events_receiver se) [] = (tr, r)" by fastforce
  then have sink: "SetupHECLogsSink (su_sinks se) = (tr, r)" by (simp add: events_sink)
  have tests: "passes (events_tests ck' se d sink) \<longleftrightarrow> WaitForEntries 3 (su_lens se) \<and>
      (\<exists>d1 d2. CheckK8SEventsLogs ck' d (sink 0) = Some (Inr (), d1) \<and> CheckK8SObjectsLogs ck' d1 (sink 1) = Some (Inr (), d2))"
    for ck'
    using assms(3) unfolding events_tests_def
    by (auto simp: passes_bind_checked passes_checked passes_do_run_bind await_entries_def)
  show ?thesis
    using assms unfolding Test_K8SEvents_def deployWorkloadAndCollector_def
    by (auto simp: sink passes_api_server passes_sink [OF tr] passes_undo tests unless_skipped_def pure_run_def passes_do_run_bind)
qed

definition empty_goldens :: fs where
  "empty_goldens =
     \<lparr>files = [''testdata/expected_k8sevents.yaml'' \<mapsto> ''none'', ''testdata/expected_k8s_objects.yaml'' \<mapsto> ''none''],
      read_fault = (\<lambda>_. None), write_fault = (\<lambda>_. None)\<rparr>"

lemma Test_K8SEvents_passes_witness: "passes (Test_K8SEvents sample_check (sample_suite (\<lambda>_. None)) empty_goldens (\<lambda>_. []))"
proof -
  let ?se = "sample_suite (\<lambda>_. None)" and ?ck = "sample_check\<lparr>ck_env := getenv (sample_suite (\<lambda>_. None))\<rparr>"
  obtain xs where d: "events_deployment ?se = (xs, Inr ())"
    using sample_events_deployment [of "\<lambda>_. None"] by auto
  have t: "snd (events_teardown ?se True) = Inr ()"
    using sample_uninstall [of "\<lambda>_. None" True]
    by (cases "chart_uninstall ?se True") (simp add: events_teardown_def test_simps)
  have u: "\<not> shouldUpdateExpectedResults (getenv ?se)" by (simp add: shouldUpdateExpectedResults_def)
  have "events_logs ?ck [] = Some []" "objects_logs [] = Some []"
    by (simp_all add: events_logs_def objects_logs_def selectResLogs_def selectLogs_def object_fields_def
        updateLogRecordBody_def all_records_def map_records_def)
  then have "CheckK8SEventsLogs ?ck empty_goldens [] = Some (Inr (), empty_goldens)"
    "CheckK8SObjectsLogs ?ck empty_goldens [] = Some (Inr (), empty_goldens)"
    using u by (simp_all add: CheckK8SEventsLogs_def CheckK8SObjectsLogs_def golden_check_passes)
      (simp_all add: sample_check_def get_two_def ReadFile_def empty_goldens_def)
  with d t show ?thesis
    using sample_events_sink by (subst Test_K8SEvents_passes) (simp_all add: test_simps)
qed

end
