(* ===== verification/EntitiesSuite.thy ===== *)
theory EntitiesSuite
  imports EntitiesTest Suites
begin

section \<open>The whole entities test\<close>

text \<open>
  \<open>Test_K8SEntities\<close> of \<open>functional_tests/k8sentities/k8sentities_test.go\<close>: the mock server, the sink for entities, the
  deployment of the collector, the comparison and the teardown.
\<close>

definition otlpEntitiesPort :: int64 where "otlpEntitiesPort = 4319"

definition entities_deployment :: "suite_env \<Rightarrow> (suite_action, unit) run" where
  "entities_deployment se =
     bind_run (pure_run (requireEnv (su_lookup se) ''KUBECONFIG'')) (\<lambda>testKubeConfig.
     bind_run (pure_run (host_endpoint se)) (\<lambda>hostEp.
     bind_run (pure_run (if hostEp = [] then Inl ''host endpoint not found'' else Inr ())) (\<lambda>_.
     bind_run (pure_run (path_abs (su_cwd se) (path_join [''testdata'', ''k8sentities_values.yaml.tmpl'']))) (\<lambda>valuesFile.
     bind_run (chart_install se testKubeConfig valuesFile
       (string_values [(''IngestURL'', HostPortHTTP hostEp otlpEntitiesPort), (''ApiURL'', HostPortHTTP hostEp SignalFxAPIPort)]) 0
       (GetDefaultChartOptions (su_watcher se))) (\<lambda>_.
     bind_run (kube_client se testKubeConfig) (\<lambda>_.
     bind_run (pods_ready se DefaultNamespace ''component=otel-k8s-cluster-receiver'' (seconds 180) 0) (\<lambda>_.
     bind_run (sleep (seconds 30)) (\<lambda>_.
       kube_client se testKubeConfig))))))))"

definition deployCollector :: "suite_env \<Rightarrow> (suite_action, unit) test" where
  "deployCollector se =
     bind_test (do_run (entities_deployment se)) (\<lambda>_. t_Cleanup (unless_skipped se (do_run (chart_uninstall se True))))"

definition entities_tests ::
  "(string \<Rightarrow> logs \<Rightarrow> fs \<Rightarrow> string option \<times> fs) \<Rightarrow> (fs \<Rightarrow> string \<Rightarrow> logs result) \<Rightarrow> suite_env \<Rightarrow> fs \<Rightarrow> logs list \<Rightarrow>
    (suite_action, fs) test"
where
  "entities_tests WriteLogs ReadLogs se d sink =
     (if switched_on se ''SKIP_TESTS'' then pure_test (Inr d)
      else
        bind_test (do_run (await_entries se 1)) (\<lambda>_.
          checked ''CheckK8SEntitiesLogs'' (Some (CheckK8SEntitiesLogs WriteLogs ReadLogs (getenv se) d sink))))"

definition Test_K8SEntities ::
  "(string \<Rightarrow> logs \<Rightarrow> fs \<Rightarrow> string option \<times> fs) \<Rightarrow> (fs \<Rightarrow> string \<Rightarrow> logs result) \<Rightarrow> suite_env \<Rightarrow> fs \<Rightarrow> logs list \<Rightarrow>
    (suite_action, fs) test"
where
  "Test_K8SEntities WriteLogs ReadLogs se d sink =
     bind_test
       (do_run
         (if switched_on se ''TEARDOWN_BEFORE_SETUP''
          then bind_run (pure_run (requireEnv (su_lookup se) ''KUBECONFIG'')) (\<lambda>testKubeConfig.
               bind_run (kube_client se testKubeConfig) (\<lambda>_. chart_uninstall se False))
          else pure_run (Inr ()))) (\<lambda>_.
     bind_test (api_server_test se) (\<lambda>_.
     bind_test (sink_test se (SetupOTLPLogsSinkOnPort (su_sinks se) otlpEntitiesPort ''/v3/event'')) (\<lambda>_.
     bind_test (if switched_on se ''SKIP_SETUP'' then pure_test (Inr ()) else deployCollector se) (\<lambda>_.
       entities_tests WriteLogs ReadLogs se d sink))))"

section \<open>Properties\<close>

definition entities_receiver :: "suite_env \<Rightarrow> receiver_config" where
  "entities_receiver se =
     OTLP ((se_otlp (su_sinks se))\<lparr>oc_GRPC := None,
       oc_HTTP := Some \<lparr>oh_Server = http_on otlpEntitiesPort None, oh_TracesURLPath = [], oh_LogsURLPath = ''/v3/event''\<rparr>\<rparr>)"

lemma entities_sink:
  "SetupOTLPLogsSinkOnPort (su_sinks se) otlpEntitiesPort ''/v3/event'' = run_receiver (su_sinks se) LogsSink (entities_receiver se) []"
  by (simp add: SetupOTLPLogsSinkOnPort_def entities_receiver_def)

text \<open>
  The chart that the entities test installs sends to the path that its sink serves, on the port that it
  listens on, and the test looks at what came in.
\<close>

lemma entities_served: "endpoints (entities_receiver se) = [(''0.0.0.0:4319'', None)] \<and> itoa otlpEntitiesPort = ''4319''"
  by (simp add: entities_receiver_def http_on_def listen_on_def otlpEntitiesPort_def itoa_def itoa_int_def nat_digits.simps
      digit_char_def) code_simp

text \<open>
  C30: when the entities test passes, with its set-up and its tests switched on and no update of the golden
  file: the deployment and the teardown succeed, the sink and the server start and stop, at least one batch
  comes in time, and the golden logs accept the batches.
\<close>

theorem Test_K8SEntities_passes:
  assumes "\<not> switched_on se ''TEARDOWN_BEFORE_SETUP''" and "\<not> switched_on se ''SKIP_SETUP''"
    and "\<not> switched_on se ''SKIP_TESTS''" and "\<not> switched_on se ''SKIP_TEARDOWN''"
    and update: "\<not> shouldUpdateExpectedResults (getenv se)"
  shows "passes (Test_K8SEntities WriteLogs ReadLogs se d sink) \<longleftrightarrow>
    snd (run_receiver (su_sinks se) LogsSink (entities_receiver se) []) = Inr () \<and> snd (entities_deployment se) = Inr () \<and>
    WaitForEntries 1 (su_lens se) \<and>
    (\<exists>expected. ReadLogs d ''testdata/expected_k8sentities.yaml'' = Inr expected \<and> check_entities expected sink) \<and>
    snd (chart_uninstall se True) = Inr () \<and>
    su_answer se (Sink (ShutdownAtCleanup LogsSink (entities_receiver se))) = None \<and> su_answer se CloseAPI = None"
proof -
  obtain tr r where tr: "run_receiver (su_sinks se) LogsSink (entities_receiver se) [] = (tr, r)" by fastforce
  have "(\<exists>d'. CheckK8SEntitiesLogs WriteLogs ReadLogs (getenv se) d sink = (Inr (), d')) \<longleftrightarrow>
      (\<exists>expected. ReadLogs d ''testdata/expected_k8sentities.yaml'' = Inr expected \<and> check_entities expected sink)"
    using update by (auto simp: CheckK8SEntitiesLogs_def MaybeUpdateExpectedLogsResults_def maybe_write_off bind_res_def
        check_entities_def split: sum.splits if_splits)
  then have tests: "passes (entities_tests WriteLogs ReadLogs se d sink) \<longleftrightarrow> WaitForEntries 1 (su_lens se) \<and>
      (\<exists>expected. ReadLogs d ''testdata/expected_k8sentities.yaml'' = Inr expected \<and> check_entities expected sink)"
    using assms(3) by (auto simp: entities_tests_def passes_checked passes_do_run_bind await_entries_def)
  show ?thesis
    using assms(1-4) unfolding Test_K8SEntities_def deployCollector_def
    by (auto simp: entities_sink tr passes_api_server passes_sink [OF tr] passes_undo tests unless_skipped_def pure_run_def
        passes_do_run_bind)
qed

lemma sample_entities_file:
  "path_abs (Inr ''/t'') (path_join [''testdata'', ''k8sentities_values.yaml.tmpl'']) = Inr ''/t/testdata/k8sentities_values.yaml.tmpl''"
  "\<not> has_suffix ''/t/testdata/k8sentities_values.yaml.tmpl'' ''Chart.yaml''"
  by code_simp+

lemma sample_entities_deployment: "snd (entities_deployment (sample_suite answer)) = Inr ()"
  by (simp add: entities_deployment_def test_simps sample_entities_file sample_chart_install sleep_def) (simp add: pure_run_def)

lemma Test_K8SEntities_passes_witness:
  "passes (Test_K8SEntities put_one get_one (sample_suite (\<lambda>_. None))
     (empty_disk\<lparr>files := [''testdata/expected_k8sentities.yaml'' \<mapsto> ''one'']\<rparr>) [one_payload])"
proof -
  let ?se = "sample_suite (\<lambda>_. None)" and ?d = "empty_disk\<lparr>files := [''testdata/expected_k8sentities.yaml'' \<mapsto> ''one'']\<rparr>"
  have "get_one ?d ''testdata/expected_k8sentities.yaml'' = Inr one_payload"
    by (simp add: get_one_def ReadFile_def empty_disk_def)
  moreover have "check_entities one_payload [one_payload]" by code_simp
  moreover have "\<not> shouldUpdateExpectedResults (getenv ?se)" by (simp add: shouldUpdateExpectedResults_def)
  ultimately show ?thesis
    using sample_uninstall [of "\<lambda>_. None" True]
    by (subst Test_K8SEntities_passes)
      (simp_all add: sample_entities_deployment sample_receiver sample_suite_steps)
qed

end
