(* ===== verification/ObiSuite.thy ===== *)
theory ObiSuite
  imports Suites
begin

section \<open>The test of the eBPF instrumentation\<close>

text \<open>
  \<open>functional_tests/obi/obi_test.go\<close>: the chart is installed with the instrumentation, an application is deployed,
  and a trace has to arrive. The test creates and deletes the application with \<open>t.Context()\<close>.
\<close>

record App =
  app_Name :: string
  app_ManifestPath :: string

definition LabelSelector :: "App \<Rightarrow> string" where
  "LabelSelector a = ''app='' @ app_Name a"

text \<open>\<open>deployments.Delete(t.Context(), \<dots>)\<close> with its error ignored; in a cleanup the context is cancelled.\<close>

definition delete_app :: "suite_env \<Rightarrow> bool \<Rightarrow> App \<Rightarrow> (suite_action, unit) run" where
  "delete_app se cleaning a =
     ignoring (ctx_run cleaning (su_answer se) (Api Deleting ''Deployment'' DefaultNamespace (app_Name a)))"

definition create_or_update :: "suite_env \<Rightarrow> string \<Rightarrow> (suite_action, unit) run" where
  "create_or_update se name =
     (case su_answer se (Api Creating ''Deployment'' DefaultNamespace name) of
        None \<Rightarrow> ([Api Creating ''Deployment'' DefaultNamespace name], Inr ())
      | Some e \<Rightarrow> bind_run ([Api Creating ''Deployment'' DefaultNamespace name], Inr ()) (\<lambda>_.
          act se (Api Updating ''Deployment'' DefaultNamespace name)))"

definition app_deployment :: "suite_env \<Rightarrow> string \<Rightarrow> App \<Rightarrow> (suite_action, unit) run" where
  "app_deployment se kubeconfig a =
     bind_run (kube_client se kubeconfig) (\<lambda>_.
     bind_run (pure_run (ReadFile (su_disk se) (app_ManifestPath a))) (\<lambda>stream.
     bind_run (pure_run (bind_res (su_decode se stream) (as_object ''apps'' ''v1'' ''Deployment''))) (\<lambda>deployment.
     bind_run (create_or_update se (mf_Name deployment)) (\<lambda>_.
       pods_ready se DefaultNamespace (LabelSelector a) (seconds 300) (seconds 15)))))"

definition deployApp :: "suite_env \<Rightarrow> string \<Rightarrow> App \<Rightarrow> (suite_action, unit) test" where
  "deployApp se kubeconfig a =
     bind_test (do_run (app_deployment se kubeconfig a)) (\<lambda>_. t_Cleanup (unless_skipped se (do_run (delete_app se True a))))"

definition obi_teardown :: "suite_env \<Rightarrow> string \<Rightarrow> App list \<Rightarrow> (suite_action, unit) run" where
  "obi_teardown se kubeconfig apps =
     bind_run (chart_uninstall se False) (\<lambda>_.
     bind_run (kube_client se kubeconfig) (\<lambda>_. each_run (delete_app se False) apps))"

definition obi_apps :: "App list" where
  "obi_apps = [\<lparr>app_Name = ''python-test'', app_ManifestPath = path_join [''testdata'', ''python'', ''deployment.yaml'']\<rparr>]"

definition obi_installation :: "suite_env \<Rightarrow> string \<Rightarrow> (suite_action, unit) run" where
  "obi_installation se kubeconfig =
     bind_run (pure_run (path_abs (su_cwd se) (path_join [''testdata'', ''values'', ''obi_values.yaml.tmpl'']))) (\<lambda>valuesFile.
     bind_run (pure_run (host_endpoint se)) (\<lambda>hostEp.
       chart_install se kubeconfig valuesFile (string_values [(''OTLPEndpoint'', HostPort hostEp OTLPGRPCReceiverPort)]) 0
         (GetDefaultChartOptions (su_watcher se))))"

definition Test_OBI_Minimal_Traces :: "suite_env \<Rightarrow> (suite_action, unit) test" where
  "Test_OBI_Minimal_Traces se =
     bind_test (pure_test (requireEnv (su_lookup se) ''KUBECONFIG'')) (\<lambda>kubeconfig.
     bind_test
       (do_run (if switched_on se ''TEARDOWN_BEFORE_SETUP'' then obi_teardown se kubeconfig obi_apps else pure_run (Inr ()))) (\<lambda>_.
     bind_test (sink_test se (SetupOTLPTracesSink (su_sinks se))) (\<lambda>_.
     bind_test (do_run (obi_installation se kubeconfig)) (\<lambda>_.
     bind_test (t_Cleanup (unless_skipped se (do_run (chart_uninstall se True)))) (\<lambda>_.
     bind_test (each_test (deployApp se kubeconfig) obi_apps) (\<lambda>_.
       do_run (await_entries se 1)))))))"

section \<open>Properties\<close>

lemma app_deployment_done:
  assumes "snd (app_deployment se kc a) = Inr ()" and "ReadFile (su_disk se) (app_ManifestPath a) = Inr stream"
    and "su_decode se stream = Inr deployment"
    and "su_answer se (Api Creating ''Deployment'' DefaultNamespace (mf_Name deployment)) = None"
  shows "fst (app_deployment se kc a) =
    [Api Creating ''Deployment'' DefaultNamespace (mf_Name deployment),
     PodsReady DefaultNamespace (LabelSelector a) (seconds 300) (seconds 15)]"
  using assms
  by (cases "su_client se kc")
    (auto simp: app_deployment_def test_simps kube_client_def create_or_update_def pods_ready_def as_object_def split: if_splits)

lemma delete_app_in_cleanup: "delete_app se True a = ([], Inr ())"
  by (simp add: delete_app_def ignoring_def)

text \<open>The whole test when everything up to the cleanups goes well.\<close>

lemma obi_actions:
  assumes "requireEnv (su_lookup se) ''KUBECONFIG'' = Inr kc" and "\<not> switched_on se ''TEARDOWN_BEFORE_SETUP''"
    and "snd (SetupOTLPTracesSink (su_sinks se)) = Inr ()" and "snd (obi_installation se kc) = Inr ()"
    and "snd (app_deployment se kc (hd obi_apps)) = Inr ()"
  shows "\<exists>cfg. fst (finish (Test_OBI_Minimal_Traces se)) =
    Sink (CreateReceiver TracesSink cfg) # Sink (StartReceiver TracesSink cfg []) # fst (obi_installation se kc) @
    fst (app_deployment se kc (hd obi_apps)) @ AwaitEntries 1 #
    fst (finish (unless_skipped se (do_run (chart_uninstall se True)))) @ [Sink (ShutdownAtCleanup TracesSink cfg)]"
proof -
  obtain cfg where cfg: "SetupOTLPTracesSink (su_sinks se) = run_receiver (su_sinks se) TracesSink cfg []"
    unfolding SetupOTLPTracesSink_def by blast
  with assms(3) obtain tr where tr: "run_receiver (su_sinks se) TracesSink cfg [] = (tr, Inr ())" by (metis prod.collapse)
  have apps: "obi_apps = [hd obi_apps]" by (simp add: obi_apps_def)
  have "fst (finish (bind_test (each_test (deployApp se kc) obi_apps) f)) =
      fst (app_deployment se kc (hd obi_apps)) @ fst (finish (f ()))" for f :: "unit \<Rightarrow> (suite_action, unit) test"
    using assms(5) by (subst apps) (auto simp: deployApp_def bind_test_assoc finish_undo delete_app_in_cleanup unless_skipped_def)
  then have "fst (finish (Test_OBI_Minimal_Traces se)) =
    Sink (CreateReceiver TracesSink cfg) # Sink (StartReceiver TracesSink cfg []) # fst (obi_installation se kc) @
    fst (app_deployment se kc (hd obi_apps)) @ AwaitEntries 1 #
    fst (finish (unless_skipped se (do_run (chart_uninstall se True)))) @ [Sink (ShutdownAtCleanup TracesSink cfg)]"
    using assms(1,2,4) by (simp add: Test_OBI_Minimal_Traces_def cfg tr finish_sink [OF tr] await_entries_def pure_run_def)
  then show ?thesis by blast
qed

lemma passes_obi:
  assumes "passes (Test_OBI_Minimal_Traces se)" and "\<not> switched_on se ''TEARDOWN_BEFORE_SETUP''"
  obtains kc where "requireEnv (su_lookup se) ''KUBECONFIG'' = Inr kc" and "snd (SetupOTLPTracesSink (su_sinks se)) = Inr ()"
    and "snd (obi_installation se kc) = Inr ()" and "snd (app_deployment se kc (hd obi_apps)) = Inr ()"
proof -
  from assms(1) obtain kc where kc: "requireEnv (su_lookup se) ''KUBECONFIG'' = Inr kc"
    by (cases "requireEnv (su_lookup se) ''KUBECONFIG''") (auto simp: Test_OBI_Minimal_Traces_def)
  have apps: "obi_apps = [hd obi_apps]" by (simp add: obi_apps_def)
  have each: "passes (bind_test (each_test (deployApp se kc) obi_apps) f) \<Longrightarrow> snd (app_deployment se kc (hd obi_apps)) = Inr ()"
    for f :: "unit \<Rightarrow> (suite_action, unit) test"
    by (subst (asm) apps) (auto simp: deployApp_def bind_test_assoc passes_do_run_bind)
  have "snd (SetupOTLPTracesSink (su_sinks se)) = Inr () \<and> snd (obi_installation se kc) = Inr () \<and>
      snd (app_deployment se kc (hd obi_apps)) = Inr ()"
    using assms by (auto simp: Test_OBI_Minimal_Traces_def kc passes_do_run_bind passes_bind [of "sink_test se m" for m]
        passes_bind [of "t_Cleanup c" for c] pure_run_def dest!: each)
  with kc show thesis using that by blast
qed

text \<open>
  C20: the application outlives the test: the cleanup that is to delete it makes no call, because its context is
  cancelled by then. Whenever the test passes and the cluster had accepted the deployment, it is still there at
  the end, also with the teardown switched on.
\<close>

theorem obi_application_stays:
  assumes "\<not> switched_on se ''TEARDOWN_BEFORE_SETUP''" and "passes (Test_OBI_Minimal_Traces se)"
    and "ReadFile (su_disk se) ''testdata/python/deployment.yaml'' = Inr stream" and "su_decode se stream = Inr deployment"
    and "su_answer se (Api Creating ''Deployment'' DefaultNamespace (mf_Name deployment)) = None"
  shows "(''Deployment'', DefaultNamespace, mf_Name deployment)
    \<in> objects_after (su_answer se) (fst (finish (Test_OBI_Minimal_Traces se))) {}"
proof -
  let ?x = "Api Creating ''Deployment'' DefaultNamespace (mf_Name deployment)"
  from passes_obi [OF assms(2,1)] obtain kc where kc: "requireEnv (su_lookup se) ''KUBECONFIG'' = Inr kc"
    "snd (SetupOTLPTracesSink (su_sinks se)) = Inr ()" "snd (obi_installation se kc) = Inr ()"
    "snd (app_deployment se kc (hd obi_apps)) = Inr ()" by metis
  have manifest: "ReadFile (su_disk se) (app_ManifestPath (hd obi_apps)) = Inr stream"
  proof -
    have "app_ManifestPath (hd obi_apps) = ''testdata/python/deployment.yaml''" by code_simp
    with assms(3) show ?thesis by simp
  qed
  note app = app_deployment_done [OF kc(4) manifest assms(4,5)]
  obtain cfg where "fst (finish (Test_OBI_Minimal_Traces se)) =
      (Sink (CreateReceiver TracesSink cfg) # Sink (StartReceiver TracesSink cfg []) # fst (obi_installation se kc)) @
      ?x # PodsReady DefaultNamespace (LabelSelector (hd obi_apps)) (seconds 300) (seconds 15) # AwaitEntries 1 #
      fst (finish (unless_skipped se (do_run (chart_uninstall se True)))) @ [Sink (ShutdownAtCleanup TracesSink cfg)]"
    using obi_actions [OF kc(1) assms(1) kc(2-4)] app by auto
  then show ?thesis
    using assms(5) by (simp add: objects_after_append) (rule objects_after_kept, auto simp: unless_skipped_def chart_uninstall_def split: if_splits)
qed

lemma sample_obi_values_file:
  "path_abs (Inr ''/t'') (path_join [''testdata'', ''values'', ''obi_values.yaml.tmpl'']) = Inr ''/t/testdata/values/obi_values.yaml.tmpl''"
  "\<not> has_suffix ''/t/testdata/values/obi_values.yaml.tmpl'' ''Chart.yaml''"
  by code_simp+

lemma sample_obi: "passes (Test_OBI_Minimal_Traces (sample_suite (\<lambda>_. None)))"
proof -
  let ?se = "sample_suite (\<lambda>_. None)"
  obtain cfg where sink: "SetupOTLPTracesSink sample_sinks = run_receiver sample_sinks TracesSink cfg []"
    unfolding SetupOTLPTracesSink_def by blast
  then obtain tr where tr: "run_receiver (su_sinks ?se) TracesSink cfg [] = (tr, Inr ())"
    using sample_receiver [of TracesSink cfg "[]"] by (metis prod.collapse sample_suite_sinks(1))
  have each: "each_test f obi_apps = bind_test (f (hd obi_apps)) (\<lambda>_. pure_test (Inr ()))" for f :: "App \<Rightarrow> ('x, unit) test"
    by (simp add: obi_apps_def)
  have inst: "snd (obi_installation ?se ''kc'') = Inr ()"
    by (simp add: obi_installation_def test_simps sample_obi_values_file sample_chart_install)
  have "is_object ''apps'' ''v1'' ''Deployment'' (sample_object (app_ManifestPath (hd obi_apps)))" by code_simp
  then have app: "snd (app_deployment ?se ''kc'' (hd obi_apps)) = Inr ()"
    by (auto simp: app_deployment_def test_simps create_or_update_def seconds_def as_object_def)
  have u: "snd (chart_uninstall ?se True) = Inr ()" by (rule sample_uninstall)
  show ?thesis
    using inst app u tr
    unfolding Test_OBI_Minimal_Traces_def each
    by (auto simp: sink passes_do_run_bind passes_sink [OF tr] passes_bind [of "t_Cleanup c" for c]
        bind_test_assoc deployApp_def test_simps await_entries_def delete_app_in_cleanup
        unless_skipped_def pure_run_def failure_of_def)
qed

lemma obi_application_stays_witness:
  "(''Deployment'', ''default'', ''python-test'')
     \<in> objects_after (\<lambda>_. None) (fst (finish (Test_OBI_Minimal_Traces (sample_suite (\<lambda>_. None))))) {}"
proof -
  let ?se = "sample_suite (\<lambda>_. None)"
  have "su_decode ?se ''testdata/python/deployment.yaml'' = Inr (sample_object ''testdata/python/deployment.yaml'')"
    "ReadFile (su_disk ?se) ''testdata/python/deployment.yaml'' = Inr ''testdata/python/deployment.yaml''"
    by (simp_all add: test_simps)
  from obi_application_stays [OF _ sample_obi this(2,1)] show ?thesis by (simp add: DefaultNamespace_def sample_object_def)
qed

end
