(* ===== verification/FunctionalDeploy.thy ===== *)
theory FunctionalDeploy
  imports Suites ComponentHealth
begin

section \<open>Set-up and teardown of the functional tests\<close>

text \<open>
  \<open>functional_tests/functional/functional_test.go\<close> and the Prometheus resources of \<open>prometheus_test.go\<close>: what
  \<open>Test_Functions\<close> brings into the cluster, release by release and object by object, and what \<open>teardown\<close>
  takes out of it again.
\<close>

definition kindTestKubeEnv :: string where "kindTestKubeEnv = ''kind''"
definition aksTestKubeEnv :: string where "aksTestKubeEnv = ''aks''"
definition signalFxReceiverK8sClusterReceiverPort :: int64 where "signalFxReceiverK8sClusterReceiverPort = 19443"
definition testDir :: string where "testDir = ''testdata''"
definition manifestsDir :: string where "manifestsDir = ''manifests''"
definition aksWindowsValidationResourceName :: string where "aksWindowsValidationResourceName = ''aks-win-validation-secret''"

text \<open>What the tests read of a definition of a custom resource.\<close>

record crd_spec =
  crd_Group :: string
  crd_Versions :: "string list"
  crd_Kind :: string

text \<open>
  What the functional tests observe beyond \<^typ>\<open>suite_env\<close>. \<open>fn_order\<close> is the order in which the map of releases
  is walked. \<open>fn_vanishing\<close> are the errors of the successive \<open>Get\<close> calls that wait for the end of a definition during
  the set-up, \<open>fn_gets\<close> those of the teardown, by kind and name. The argument \<^const>\<open>True\<close> is the teardown as a cleanup.
\<close>

record fn_env =
  fn_suite :: suite_env
  fn_order :: "(string \<times> ChartOptions) list \<Rightarrow> (string \<times> ChartOptions) list"
  fn_terminating :: "string \<Rightarrow> bool"
  fn_vanishing :: "string \<Rightarrow> string option list"
  fn_conditions :: "string \<Rightarrow> (string \<times> string) list result list"
  fn_spec :: "string \<Rightarrow> crd_spec" \<comment> \<open>by the definition's name\<close>
  fn_decode_cr :: "(string \<times> string \<times> string) list \<Rightarrow> string \<Rightarrow> manifest result" \<comment> \<open>decoder for the known types\<close>
  fn_secret :: "string option" \<comment> \<open>error of reading the secret\<close>
  fn_phases :: "string list result list"
  fn_gets :: "bool \<Rightarrow> string \<Rightarrow> string \<Rightarrow> string option list"
  fn_items :: "bool \<Rightarrow> string \<Rightarrow> (string \<times> string) list result"
  fn_remaining :: "bool \<Rightarrow> string \<Rightarrow> (string \<times> string) list result list"

definition requiresPrometheusResources :: "string \<Rightarrow> bool" where
  "requiresPrometheusResources kubeTestEnv \<longleftrightarrow> kubeTestEnv = kindTestKubeEnv"

subsection \<open>Documents of a file\<close>

text \<open>\<open>strings.Split(s, "---")\<close>.\<close>

fun split_docs :: "string \<Rightarrow> string list" where
  "split_docs [] = [[]]"
| "split_docs (c # cs) =
     (if take 3 (c # cs) = ''---'' then [] # split_docs (drop 3 (c # cs))
      else case split_docs cs of [] \<Rightarrow> [[c]] | doc # docs \<Rightarrow> (c # doc) # docs)"

definition each_doc ::
  "suite_env \<Rightarrow> (string \<Rightarrow> bool) \<Rightarrow> (manifest \<Rightarrow> (suite_action, unit) run) \<Rightarrow> string list \<Rightarrow> (suite_action, unit) run"
where
  "each_doc se skip body =
     each_run (\<lambda>doc. if skip doc then pure_run (Inr ()) else bind_run (pure_run (su_decode se doc)) body)"

definition no_text :: "string \<Rightarrow> bool" where
  "no_text doc \<longleftrightarrow> length doc = 0"

definition is_namespace :: "manifest \<Rightarrow> bool" where "is_namespace = is_object [] ''v1'' ''Namespace''"
definition is_job :: "manifest \<Rightarrow> bool" where "is_job = is_object ''batch'' ''v1'' ''Job''"
definition is_crd :: "manifest \<Rightarrow> bool" where "is_crd = is_object ''apiextensions.k8s.io'' ''v1'' ''CustomResourceDefinition''"

definition manifest_path :: "string \<Rightarrow> string" where
  "manifest_path name = path_join [testDir, manifestsDir, name]"

definition read_manifest :: "suite_env \<Rightarrow> string \<Rightarrow> (suite_action, string) run" where
  "read_manifest se name = pure_run (ReadFile (su_disk se) (manifest_path name))"

subsection \<open>Definitions of custom resources\<close>

definition gone_error :: "suite_env \<Rightarrow> string option \<Rightarrow> bool" where
  "gone_error se e = (case e of Some x \<Rightarrow> su_gone se x | None \<Rightarrow> False)"

definition established :: "(string \<times> string) list \<Rightarrow> bool" where
  "established conditions = fold (\<lambda>c acc. if fst c = ''Established'' \<and> snd c = ''True'' then True else acc) conditions False"

definition established_check :: "(string \<times> string) list result \<Rightarrow> bool" where
  "established_check latest = (case latest of Inl e \<Rightarrow> False | Inr conditions \<Rightarrow> established conditions)"

definition create_unless_exists :: "suite_env \<Rightarrow> string \<Rightarrow> string \<Rightarrow> string \<Rightarrow> (suite_action, unit) run" where
  "create_unless_exists se kind ns name =
     ([Api Creating kind ns name],
      case su_answer se (Api Creating kind ns name) of
        None \<Rightarrow> Inr ()
      | Some e \<Rightarrow> if su_exists se e then Inr () else Inl e)"

definition deploy_crd :: "fn_env \<Rightarrow> manifest \<Rightarrow> (suite_action, unit) run" where
  "deploy_crd fe crd =
     (if is_crd crd then
        bind_run
          (if fn_terminating fe (mf_Name crd)
           then waiting (AwaitGone ''CustomResourceDefinition'' (mf_Name crd))
             (list_ex (gone_error (fn_suite fe)) (fn_vanishing fe (mf_Name crd)))
           else pure_run (Inr ())) (\<lambda>_.
        bind_run (create_unless_exists (fn_suite fe) ''CustomResourceDefinition'' [] (mf_Name crd)) (\<lambda>_.
          waiting (AwaitEstablished (mf_Name crd)) (list_ex established_check (fn_conditions fe (mf_Name crd)))))
      else pure_run (Inr ()))"

definition deployPrometheusCRDs :: "fn_env \<Rightarrow> (suite_action, unit) run" where
  "deployPrometheusCRDs fe =
     bind_run (read_manifest (fn_suite fe) ''prometheus_operator_crds.yaml'') (\<lambda>stream.
       each_doc (fn_suite fe) blank (deploy_crd fe) (split_docs stream))"

text \<open>The types that the decoder of custom resources is told about; documents that cannot be decoded are passed over.\<close>

fun known_types :: "fn_env \<Rightarrow> string list \<Rightarrow> (string \<times> string \<times> string) list" where
  "known_types fe [] = []"
| "known_types fe (doc # docs) =
     (if blank doc then known_types fe docs
      else case su_decode (fn_suite fe) doc of
        Inl e \<Rightarrow> known_types fe docs
      | Inr obj \<Rightarrow>
          (if is_crd obj
           then let spec = fn_spec fe (mf_Name obj) in map (\<lambda>version. (crd_Group spec, version, crd_Kind spec)) (crd_Versions spec)
           else []) @ known_types fe docs)"

definition create_custom ::
  "fn_env \<Rightarrow> (string \<times> string \<times> string) list \<Rightarrow> string \<Rightarrow> string \<Rightarrow> (suite_action, unit) run"
where
  "create_custom fe known name resource =
     bind_run (read_manifest (fn_suite fe) name) (\<lambda>stream.
     bind_run (pure_run (fn_decode_cr fe known stream)) (\<lambda>obj.
       act (fn_suite fe) (Api Creating resource DefaultNamespace (mf_Name obj))))"

definition create_from :: "fn_env \<Rightarrow> string \<Rightarrow> string \<Rightarrow> string \<Rightarrow> (suite_action, unit) run" where
  "create_from fe name gr kind =
     bind_run (read_manifest (fn_suite fe) name) (\<lambda>stream.
     bind_run (pure_run (bind_res (su_decode (fn_suite fe) stream) (as_object gr ''v1'' kind))) (\<lambda>obj.
       act (fn_suite fe) (Api Creating kind DefaultNamespace (mf_Name obj))))"

definition deployPrometheusTestResources :: "fn_env \<Rightarrow> (suite_action, unit) run" where
  "deployPrometheusTestResources fe =
     bind_run (read_manifest (fn_suite fe) ''prometheus_operator_crds.yaml'') (\<lambda>stream.
       let known = known_types fe (split_docs stream)
       in bind_run (create_custom fe known ''pod_monitor.yaml'' ''podmonitors'') (\<lambda>_.
          bind_run (create_custom fe known ''service_monitor.yaml'' ''servicemonitors'') (\<lambda>_.
          bind_run (create_from fe ''prometheus_test_configmap.yaml'' [] ''ConfigMap'') (\<lambda>_.
          bind_run (create_from fe ''deployment_with_prometheus_annotations.yaml'' ''apps'' ''Deployment'') (\<lambda>_.
            create_from fe ''service.yaml'' [] ''Service'')))))"

subsection \<open>The objects under test\<close>

text \<open>\<open>waitForAllNamespacesToBeCreated\<close> polls the phases of the namespaces.\<close>

fun all_active :: "string list \<Rightarrow> bool" where
  "all_active [] = True"
| "all_active (p # ps) = (if p \<noteq> ''Active'' then False else all_active ps)"

definition active_check :: "string list result \<Rightarrow> unit \<Rightarrow> check \<times> unit" where
  "active_check r u = (case r of Inl e \<Rightarrow> (Abort e, u) | Inr ps \<Rightarrow> (Check (all_active ps), u))"

definition waitForAllNamespacesToBeCreated :: "fn_env \<Rightarrow> (suite_action, unit) run" where
  "waitForAllNamespacesToBeCreated fe = waiting AwaitActive (eventually_checks active_check (fn_phases fe) ())"

definition deploy_file :: "suite_env \<Rightarrow> string \<Rightarrow> (suite_action, unit) run" where
  "deploy_file se filePath =
     bind_run (pure_run (ReadFile (su_disk se) filePath)) (\<lambda>content.
     bind_run (pure_run (bind_res (su_decode se content) (as_object ''apps'' ''v1'' ''Deployment''))) (\<lambda>dep.
       let creating = Api Creating ''Deployment'' DefaultNamespace (mf_Name dep)
       in case su_answer se creating of
            None \<Rightarrow> ([creating], Inr ())
          | Some e \<Rightarrow>
              if su_exists se e
              then bind_run ([creating], Inr ()) (\<lambda>_. act se (Api Updating ''Deployment'' DefaultNamespace (mf_Name dep)))
              else ([creating], Inl e)))"

definition deployment_files :: "string list" where
  "deployment_files =
     [path_join [testDir, ''nodejs'', ''deployment.yaml''], path_join [testDir, ''java'', ''deployment.yaml''],
      path_join [testDir, ''dotnet'', ''deployment.yaml''], path_join [testDir, ''python'', ''deployment.yaml''],
      path_join [testDir, manifestsDir, ''log_attr_test_deployment.yaml'']]"

definition deploy_namespace :: "suite_env \<Rightarrow> manifest \<Rightarrow> (suite_action, unit) run" where
  "deploy_namespace se obj =
     (if is_namespace obj then act se (Api Creating ''Namespace'' [] (mf_Name obj)) else pure_run (Inr ()))"

definition deploy_job :: "suite_env \<Rightarrow> manifest \<Rightarrow> (suite_action, unit) run" where
  "deploy_job se obj = (if is_job obj then act se (Api Creating ''Job'' (mf_Namespace obj) (mf_Name obj)) else pure_run (Inr ()))"

definition deployTestResources :: "fn_env \<Rightarrow> (suite_action, unit) run" where
  "deployTestResources fe =
     bind_run (pure_run (requireEnv (su_lookup (fn_suite fe)) ''KUBE_TEST_ENV'')) (\<lambda>kubeTestEnv.
     bind_run (each_run (deploy_file (fn_suite fe)) deployment_files) (\<lambda>_.
     bind_run (if requiresPrometheusResources kubeTestEnv then deployPrometheusTestResources fe else pure_run (Inr ())) (\<lambda>_.
     bind_run (read_manifest (fn_suite fe) ''test_jobs.yaml'') (\<lambda>jobstream.
     bind_run (each_doc (fn_suite fe) no_text (deploy_namespace (fn_suite fe)) (split_docs jobstream)) (\<lambda>_.
     bind_run (waitForAllNamespacesToBeCreated fe) (\<lambda>_.
       each_doc (fn_suite fe) no_text (deploy_job (fn_suite fe)) (split_docs jobstream)))))))"

subsection \<open>Teardown\<close>

definition delete_ignoring :: "suite_env \<Rightarrow> string \<Rightarrow> string \<Rightarrow> string \<Rightarrow> (suite_action, unit) run" where
  "delete_ignoring se kind ns name = ignoring (act se (Api Deleting kind ns name))"

definition prometheusCRDResources :: "string list" where
  "prometheusCRDResources = [''podmonitors'', ''servicemonitors'']"

definition removed_check :: "suite_env \<Rightarrow> (string \<times> string) list result \<Rightarrow> bool" where
  "removed_check se remaining = (case remaining of Inl e \<Rightarrow> su_gone se e | Inr items \<Rightarrow> length items = 0)"

text \<open>The wait for the removal is an assertion: when it fails the teardown goes on.\<close>

definition remove_customs :: "fn_env \<Rightarrow> bool \<Rightarrow> string \<Rightarrow> (suite_action, unit) test" where
  "remove_customs fe cleaning resource =
     (case fn_items fe cleaning resource of
        Inl e \<Rightarrow> pure_test (Inr ())
      | Inr items \<Rightarrow>
          bind_test (do_run (each_run (\<lambda>cr. delete_ignoring (fn_suite fe) resource (fst cr) (snd cr)) items)) (\<lambda>_.
          bind_test (do_run ([AwaitGone resource []], Inr ())) (\<lambda>_.
            assert_test (list_ex (removed_check (fn_suite fe)) (fn_remaining fe cleaning resource)) ''CRs not fully removed'')))"

text \<open>The names of the definitions whose deletion was accepted or not needed.\<close>

fun delete_crds :: "suite_env \<Rightarrow> string list \<Rightarrow> (suite_action, string list) run" where
  "delete_crds se [] = pure_run (Inr [])"
| "delete_crds se (doc # docs) =
     (if blank doc then delete_crds se docs
      else bind_run (pure_run (su_decode se doc)) (\<lambda>obj.
        if is_crd obj then
          (let delErr = su_answer se (Api Deleting ''CustomResourceDefinition'' [] (mf_Name obj))
           in bind_run ([Api Deleting ''CustomResourceDefinition'' [] (mf_Name obj)], Inr ()) (\<lambda>_.
              bind_run (delete_crds se docs) (\<lambda>crdNames.
                pure_run (Inr (if delErr \<noteq> None \<and> \<not> gone_error se delErr then crdNames else mf_Name obj # crdNames)))))
        else delete_crds se docs))"

definition await_gone :: "fn_env \<Rightarrow> bool \<Rightarrow> string \<Rightarrow> string \<Rightarrow> (suite_action, unit) run" where
  "await_gone fe cleaning kind name =
     waiting (AwaitGone kind name) (list_ex (gone_error (fn_suite fe)) (fn_gets fe cleaning kind name))"

definition teardownPrometheusResources :: "fn_env \<Rightarrow> bool \<Rightarrow> (suite_action, unit) test" where
  "teardownPrometheusResources fe cleaning =
     bind_test (do_run
       (bind_run (delete_ignoring (fn_suite fe) ''Deployment'' DefaultNamespace ''prometheus-annotation-test'') (\<lambda>_.
        bind_run (delete_ignoring (fn_suite fe) ''Service'' DefaultNamespace ''prometheus-annotation-service'') (\<lambda>_.
          delete_ignoring (fn_suite fe) ''ConfigMap'' DefaultNamespace ''prometheus-test-metrics'')))) (\<lambda>_.
     bind_test (each_test (remove_customs fe cleaning) prometheusCRDResources) (\<lambda>_.
     do_run
       (bind_run (read_manifest (fn_suite fe) ''prometheus_operator_crds.yaml'') (\<lambda>crdstream.
        bind_run (delete_crds (fn_suite fe) (split_docs crdstream)) (\<lambda>crdNames.
          each_run (await_gone fe cleaning ''CustomResourceDefinition'') crdNames)))))"

text \<open>The objects of the file of jobs, in order; \<open>teardown\<close> sorts them into namespaces and jobs.\<close>

fun decode_docs :: "suite_env \<Rightarrow> string list \<Rightarrow> manifest list result" where
  "decode_docs se [] = Inr []"
| "decode_docs se (doc # docs) =
     (if no_text doc then decode_docs se docs
      else bind_res (su_decode se doc) (\<lambda>obj. bind_res (decode_docs se docs) (\<lambda>objs. Inr (obj # objs))))"

definition deployment_names :: "string list" where
  "deployment_names = [''nodejs-test'', ''java-test'', ''python-test'', ''dotnet-test'', ''log-attr-test'']"

definition delete_secret :: "suite_env \<Rightarrow> (suite_action, unit) run" where
  "delete_secret se =
     (let deleting = Api Deleting ''Secret'' DefaultNamespace aksWindowsValidationResourceName; e = su_answer se deleting
      in ([deleting], if e = None \<or> gone_error se e then Inr () else Inl ''failed to delete AKS Windows validation secret''))"

definition teardown :: "fn_env \<Rightarrow> bool \<Rightarrow> string \<Rightarrow> (suite_action, unit) test" where
  "teardown fe cleaning testKubeConfig =
     (let se = fn_suite fe
      in bind_test (do_run
           (bind_run (kube_client se testKubeConfig) (\<lambda>_.
            bind_run (each_run (delete_ignoring se ''Deployment'' DefaultNamespace) deployment_names) (\<lambda>_.
              read_manifest se ''test_jobs.yaml'')))) (\<lambda>jobstream.
         bind_test (pure_test (decode_docs se (split_docs jobstream))) (\<lambda>objs.
         bind_test (do_run (each_run (\<lambda>job. delete_ignoring se ''Job'' (mf_Namespace job) (mf_Name job)) (filter is_job objs))) (\<lambda>_.
         bind_test
           (if requiresPrometheusResources (getenv se ''KUBE_TEST_ENV'') then teardownPrometheusResources fe cleaning
            else pure_test (Inr ())) (\<lambda>_.
         do_run
           (bind_run (each_run
              (\<lambda>nm. bind_run (delete_ignoring se ''Namespace'' [] (mf_Name nm)) (\<lambda>_. await_gone fe cleaning ''Namespace'' (mf_Name nm)))
              (filter is_namespace objs)) (\<lambda>_.
            bind_run (chart_uninstall se cleaning) (\<lambda>_.
              if getenv se ''KUBE_TEST_ENV'' = aksTestKubeEnv then delete_secret se else pure_run (Inr ())))))))))"

subsection \<open>Charts\<close>

definition createAKSWindowsValidationSecret :: "fn_env \<Rightarrow> (suite_action, unit) run" where
  "createAKSWindowsValidationSecret fe =
     (case fn_secret fe of
        Some e \<Rightarrow>
          if su_gone (fn_suite fe) e
          then act (fn_suite fe) (Api Creating ''Secret'' DefaultNamespace aksWindowsValidationResourceName)
          else pure_run (Inl e)
      | None \<Rightarrow> act (fn_suite fe) (Api Updating ''Secret'' DefaultNamespace aksWindowsValidationResourceName))"

definition aks_options :: "suite_env \<Rightarrow> string \<Rightarrow> string \<Rightarrow> ChartOptions" where
  "aks_options se release upgradeValues =
     (let opts = \<lparr>ChartNamespace = DefaultNamespace, ChartReleaseName = release, WaitStrategy = su_watcher se,
            ChartTimeout = HelmActionTimeout, ForceConflicts = False, UpgradeFromValues = [], UpgradeFromChartDir = []\<rparr>;
          upgradeChartDir = getenv se ''UPGRADE_FROM_CHART_DIR''
      in if upgradeChartDir \<noteq> [] then opts\<lparr>UpgradeFromValues := upgradeValues, UpgradeFromChartDir := upgradeChartDir\<rparr> else opts)"

definition chart_files :: "suite_env \<Rightarrow> string \<Rightarrow> (string \<times> ChartOptions) list" where
  "chart_files se kubeTestEnv =
     (let default_options = GetDefaultChartOptions (su_watcher se)
      in if kubeTestEnv = ''gke/autopilot'' then [(''autopilot_test_values.yaml.tmpl'', default_options)]
         else if kubeTestEnv = aksTestKubeEnv then
           [(''aks_test_win_values.yaml.tmpl'', aks_options se ''aks-win'' ''aks_win_upgrade_from_previous_release_values.yaml''),
            (''aks_test_linux_values.yaml.tmpl'', aks_options se ''aks-linux'' ''aks_linux_upgrade_from_previous_release_values.yaml'')]
         else if kubeTestEnv = ''eks'' then [(''eks_test_values.yaml.tmpl'', default_options)]
         else if kubeTestEnv = ''eks/auto-mode'' then [(''eks_auto_mode_test_values.yaml.tmpl'', default_options)]
         else if kubeTestEnv = ''eks/fargate'' then [(''eks_fargate_test_values.yaml.tmpl'', default_options)]
         else if kubeTestEnv = ''gke'' then [(''gke_test_values.yaml.tmpl'', default_options)]
         else if kubeTestEnv = ''rosa'' then [(''rosa_test_values.yaml.tmpl'', default_options)]
         else if kubeTestEnv = ''gce'' then [(''gce_test_values.yaml.tmpl'', default_options)]
         else [(''test_values.yaml.tmpl'', default_options)])"

text \<open>A path that cannot be made absolute is an assertion that fails; its release is entered under the empty name.\<close>

definition addChartInfo ::
  "suite_env \<Rightarrow> (string \<times> ChartOptions) list \<Rightarrow> string \<Rightarrow> ChartOptions \<Rightarrow> (suite_action, (string \<times> ChartOptions) list) test"
where
  "addChartInfo se chartInfo fileName chartOption =
     (case path_abs (su_cwd se) (path_join [testDir, ''values'', fileName]) of
        Inl e \<Rightarrow> bind_test (assert_test False e) (\<lambda>_. pure_test (Inr (AList.update [] chartOption chartInfo)))
      | Inr valuesFile \<Rightarrow> pure_test (Inr (AList.update valuesFile chartOption chartInfo)))"

fun chart_info ::
  "suite_env \<Rightarrow> (string \<times> ChartOptions) list \<Rightarrow> (string \<times> ChartOptions) list \<Rightarrow>
    (suite_action, (string \<times> ChartOptions) list) test"
where
  "chart_info se chartInfo [] = pure_test (Inr chartInfo)"
| "chart_info se chartInfo ((fileName, chartOption) # more_files) =
     bind_test (addChartInfo se chartInfo fileName chartOption) (\<lambda>chartInfo. chart_info se chartInfo more_files)"

definition chart_replacements :: "string \<Rightarrow> string \<Rightarrow> (string \<times> string) list" where
  "chart_replacements hostEp kubeTestEnv =
     [(''K8sClusterEndpoint'', HostPortHTTP hostEp signalFxReceiverK8sClusterReceiverPort),
      (''AgentEndpoint'', HostPortHTTP hostEp SignalFxReceiverPort),
      (''LogHecEndpoint'', HostPortHTTP hostEp HECLogsReceiverPort),
      (''MetricHecEndpoint'', HostPortHTTP hostEp HECMetricsReceiverPort @ ''/services/collector''),
      (''OtlpEndpoint'', HostPort hostEp OTLPGRPCReceiverPort),
      (''OtlpHttpEndpoint'', HostPort hostEp OTLPHTTPReceiverPort),
      (''ApiURLEndpoint'', HostPortHTTP hostEp SignalFxAPIPort),
      (''LogObjectsHecEndpoint'', HostPortHTTP hostEp HECObjectsReceiverPort @ ''/services/collector''),
      (''KubeTestEnv'', kubeTestEnv)]"

definition install_charts :: "fn_env \<Rightarrow> string \<Rightarrow> string \<Rightarrow> (string \<times> ChartOptions) list \<Rightarrow> (suite_action, unit) run" where
  "install_charts fe testKubeConfig kubeTestEnv chartInfo =
     bind_run (pure_run (host_endpoint (fn_suite fe))) (\<lambda>hostEp.
     bind_run (pure_run (if length hostEp = 0 then Inl ''Host endpoint not found'' else Inr ())) (\<lambda>_.
       each_run (\<lambda>c. chart_install (fn_suite fe) testKubeConfig (fst c) (string_values (chart_replacements hostEp kubeTestEnv)) (seconds 60) (snd c))
         (fn_order fe chartInfo)))"

definition deployCharts :: "fn_env \<Rightarrow> string \<Rightarrow> (suite_action, unit) test" where
  "deployCharts fe testKubeConfig =
     (let se = fn_suite fe
      in bind_test (pure_test (requireEnv (su_lookup se) ''KUBE_TEST_ENV'')) (\<lambda>kubeTestEnv.
         bind_test (do_run (if requiresPrometheusResources kubeTestEnv then deployPrometheusCRDs fe else pure_run (Inr ()))) (\<lambda>_.
         bind_test (do_run (if kubeTestEnv = aksTestKubeEnv then createAKSWindowsValidationSecret fe else pure_run (Inr ()))) (\<lambda>_.
         bind_test (chart_info se [] (chart_files se kubeTestEnv)) (\<lambda>chartInfo.
         bind_test (do_run (install_charts fe testKubeConfig kubeTestEnv chartInfo)) (\<lambda>_.
           t_Cleanup (unless_skipped se (teardown fe True testKubeConfig))))))))"

end
