(* ===== verification/FunctionalSuite.thy ===== *)
theory FunctionalSuite
  imports FunctionalDeploy
begin

section \<open>The functional test\<close>

text \<open>
  \<open>Test_Functions\<close> of \<open>functional_tests/functional/functional_test.go\<close>: sinks, lease, teardown of a previous run,
  charts, objects, subtests, and the cleanups of all of them. The bodies of the subtests are an argument: they are
  given the global \<open>expectedValuesDir\<close> as it is when they are run, and their name.
\<close>

type_synonym subtest_body = "string \<Rightarrow> string \<Rightarrow> (suite_action, unit) test"

definition setupSinks :: "suite_env \<Rightarrow> (suite_action, unit) test" where
  "setupSinks se =
     (let sk = su_sinks se
      in bind_test (api_server_test se) (\<lambda>_.
         bind_test (sink_test se (SetupHECLogsSink sk)) (\<lambda>_.
         bind_test (sink_test se (SetupHECMetricsSink sk)) (\<lambda>_.
         bind_test (sink_test se (SetupHECObjectsSink sk)) (\<lambda>_.
         bind_test (sink_test se (SetupSignalfxReceiver sk SignalFxReceiverPort)) (\<lambda>_.
         bind_test (sink_test se (SetupSignalfxReceiver sk signalFxReceiverK8sClusterReceiverPort)) (\<lambda>_.
           sink_test se (SetupOTLPTracesSink sk))))))))"

text \<open>
  \<open>AcquireLeaseForTest\<close>: an answer to \<^const>\<open>TakeLease\<close> is the end of the test's context before it became the leader. The
  cleanup cancels the elector and waits until it has stopped, which it always does (theory \<open>Lease\<close>); whether it gives up
  the lease then is an option of its configuration.
\<close>

definition lease_test :: "suite_env \<Rightarrow> string \<Rightarrow> (suite_action, unit) test" where
  "lease_test se testName =
     bind_test (pure_test (lease_setup (su_lease se) testName)) (\<lambda>cfg.
     bind_test (do_run (act se TakeLease)) (\<lambda>_. t_Cleanup (do_run ([StopLease (el_ReleaseOnCancel cfg)], Inr ()))))"

definition selectExpectedValuesDir :: "string \<Rightarrow> string" where
  "selectExpectedValuesDir kubeTestEnv =
     (if kubeTestEnv = ''eks/auto-mode'' then ''expected_eks_auto_mode_values''
      else if kubeTestEnv = ''aks'' then ''expected_aks_values''
      else if kubeTestEnv = ''gke'' then ''expected_gke_values''
      else if kubeTestEnv = ''rosa'' then ''expected_rosa_values''
      else if kubeTestEnv = ''gce'' then ''expected_gce_values''
      else ''expected_eks_values'')"

definition subtests :: "subtest_body \<Rightarrow> string \<Rightarrow> string list \<Rightarrow> (suite_action, unit) test" where
  "subtests body dir = each_test (\<lambda>name. t_Run name (body dir name))"

definition upgrade_names :: "string list" where
  "upgrade_names = [''test target allocator resources cleaned up and installed'', ''test component health'']"

definition local_names :: "bool \<Rightarrow> string list" where
  "local_names includeK8sClusterReceiverTest =
     [''node.js traces captured'', ''java traces captured'', ''.NET traces captured'', ''Python traces captured'',
      ''java metrics captured'', ''node.js metrics captured'', ''.NET metrics captured'', ''Python metrics captured'',
      ''java profiling captured'', ''node.js profiling captured'', ''.NET profiling captured'', ''Python profiling captured''] @
     (if includeK8sClusterReceiverTest then [''kubernetes cluster metrics''] else []) @
     [''agent logs'', ''container log attributes validation'', ''test HEC metrics'', ''test k8s objects'', ''test agent metrics'',
      ''test target allocator'', ''test prometheus metrics'', ''test component health'']"

definition hosted_names :: "string \<Rightarrow> string list" where
  "hosted_names kubeTestEnv =
     [''agent resource attributes validation'', ''cluster receiver self-metrics resource attributes validation'',
      ''cluster receiver k8s cluster metrics resource attributes validation'', ''component error logs checks''] @
     (if kubeTestEnv = ''rosa'' \<or> kubeTestEnv = ''gce'' then [''control plane receiver checks''] else [])"

definition runHostedClusterTests :: "fn_env \<Rightarrow> subtest_body \<Rightarrow> string \<Rightarrow> string \<Rightarrow> (suite_action, unit) test" where
  "runHostedClusterTests fe body dir kubeTestEnv =
     bind_test (pure_test (requireEnv (su_lookup (fn_suite fe)) ''KUBECONFIG'')) (\<lambda>testKubeConfig.
     bind_test (do_run (kube_client (fn_suite fe) testKubeConfig)) (\<lambda>_.
       if kubeTestEnv \<in> {''eks'', ''eks/auto-mode'', ''aks'', ''gke'', ''rosa'', ''gce''}
       then subtests body (selectExpectedValuesDir kubeTestEnv) (hosted_names kubeTestEnv)
       else if kubeTestEnv = ''gke/autopilot'' then subtests body dir [''component error logs checks'']
       else assert_test False ''no test available''))"

definition set_up :: "fn_env \<Rightarrow> subtest_body \<Rightarrow> string \<Rightarrow> string \<Rightarrow> string \<Rightarrow> (suite_action, unit) test" where
  "set_up fe body dir testKubeConfig kubeTestEnv =
     (let se = fn_suite fe
      in bind_test (do_run (kube_client se testKubeConfig)) (\<lambda>_.
         bind_test (deployCharts fe testKubeConfig) (\<lambda>_.
         bind_test
           (if \<not> switched_on se ''SKIP_TESTS'' \<and> kubeTestEnv = kindTestKubeEnv \<and> getenv se ''UPGRADE_FROM_VALUES'' = []
            then subtests body dir [''kubernetes cluster metrics''] else pure_test (Inr ())) (\<lambda>_.
           do_run (deployTestResources fe)))))"

definition functional_tests :: "fn_env \<Rightarrow> subtest_body \<Rightarrow> string \<Rightarrow> string \<Rightarrow> (suite_action, unit) test" where
  "functional_tests fe body dir kubeTestEnv =
     (let se = fn_suite fe
      in if switched_on se ''SKIP_TESTS'' then pure_test (Inr ())
         else if kubeTestEnv = kindTestKubeEnv then
           (if getenv se ''UPGRADE_FROM_VALUES'' \<noteq> [] then subtests body dir upgrade_names
            else subtests body dir (local_names (switched_on se ''SKIP_SETUP'')))
         else runHostedClusterTests fe body dir kubeTestEnv)"

definition Test_Functions :: "fn_env \<Rightarrow> subtest_body \<Rightarrow> (suite_action, unit) test" where
  "Test_Functions fe body =
     (let se = fn_suite fe
      in bind_test (setupSinks se) (\<lambda>_.
         bind_test (pure_test (requireEnv (su_lookup se) ''KUBECONFIG'')) (\<lambda>testKubeConfig.
         bind_test (pure_test (requireEnv (su_lookup se) ''KUBE_TEST_ENV'')) (\<lambda>kubeTestEnv.
         let dir = if kubeTestEnv = kindTestKubeEnv then ''expected_kind_values'' else []
         in bind_test (lease_test se ''Test_Functions'') (\<lambda>_.
            bind_test (if switched_on se ''TEARDOWN_BEFORE_SETUP'' then teardown fe False testKubeConfig else pure_test (Inr ())) (\<lambda>_.
            bind_test
              (if switched_on se ''SKIP_SETUP'' then pure_test (Inr ()) else set_up fe body dir testKubeConfig kubeTestEnv) (\<lambda>_.
              functional_tests fe body dir kubeTestEnv)))))))"

section \<open>The lease and the cluster\<close>

text \<open>Actions on the machine of the test itself.\<close>

definition local_action :: "suite_action \<Rightarrow> bool" where
  "local_action x = (case x of ServeAPI \<Rightarrow> True | CloseAPI \<Rightarrow> True | Sink s \<Rightarrow> True | _ \<Rightarrow> False)"

lemma local_action_simps [simp]:
  "local_action ServeAPI" "local_action CloseAPI" "local_action (Sink s)"
  by (simp_all add: local_action_def)

text \<open>A step whose actions and cleanups are all local; a test that does everything else while it holds the lease.\<close>

definition local_step :: "(suite_action, 'a) test \<Rightarrow> bool" where
  "local_step m \<longleftrightarrow> (\<forall>x \<in> set (t_trace m @ cleanup_trace m). local_action x)"

definition covered :: "(suite_action \<Rightarrow> string option) \<Rightarrow> (suite_action, 'a) test \<Rightarrow> bool" where
  "covered answer m \<longleftrightarrow>
     (\<exists>before leased behind. fst (finish m) = before @ leased @ behind \<and> list_all local_action (before @ behind) \<and>
        (leased = [] \<or> leased = [TakeLease] \<and> (\<exists>e. answer TakeLease = Some e) \<or> (\<exists>steps. leased = TakeLease # steps @ [StopLease False])))"

lemma cleanup_trace_bind:
  "cleanup_trace (bind_test m f) = (case t_result m of Inl e \<Rightarrow> cleanup_trace m | Inr a \<Rightarrow> cleanup_trace (f a) @ cleanup_trace m)"
  by (cases "t_result m") (simp_all add: cleanup_trace_def test_simps)

lemma local_step_bind: "local_step m \<Longrightarrow> (\<And>a. local_step (f a)) \<Longrightarrow> local_step (bind_test m f)"
  by (cases "t_result m") (auto simp: local_step_def cleanup_trace_bind test_simps)

lemma local_step_pure: "local_step (pure_test r)"
  by (simp add: local_step_def)

lemma local_step_api_server: "local_step (api_server_test se)"
  by (simp add: local_step_def)

lemma local_step_sink: "local_step (sink_test se m)"
  by (auto simp: local_step_def sink_test_def cleanup_trace_def)

lemma local_step_sinks: "local_step (setupSinks se)"
  by (simp add: setupSinks_def Let_def local_step_bind local_step_api_server local_step_sink)

lemma covered_pure: "covered answer (pure_test r)"
  by (simp add: covered_def)

lemma covered_bind:
  assumes "local_step m" and "\<And>a. covered answer (f a)"
  shows "covered answer (bind_test m f)"
proof (cases "t_result m")
  case (Inl e)
  then have "fst (finish (bind_test m f)) = (t_trace m @ cleanup_trace m) @ [] @ []" by (simp add: finish_bind_Inl)
  moreover have "list_all local_action ((t_trace m @ cleanup_trace m) @ [])"
    using assms(1) by (auto simp: local_step_def list_all_iff)
  ultimately show ?thesis unfolding covered_def by blast
next
  case (Inr a)
  obtain xs ys zs where d: "fst (finish (f a)) = xs @ ys @ zs" "list_all local_action (xs @ zs)"
    "ys = [] \<or> ys = [TakeLease] \<and> (\<exists>e. answer TakeLease = Some e) \<or> (\<exists>steps. ys = TakeLease # steps @ [StopLease False])"
    using assms(2) [of a] unfolding covered_def by blast
  have "fst (finish (bind_test m f)) = (t_trace m @ xs) @ ys @ (zs @ cleanup_trace m)"
    using d(1) Inr by (simp add: finish_bind)
  moreover have "list_all local_action ((t_trace m @ xs) @ (zs @ cleanup_trace m))"
    using assms(1) d(2) by (auto simp: local_step_def list_all_iff)
  ultimately show ?thesis unfolding covered_def using d(3) by blast
qed

lemma lease_setup_kept: "lease_setup le name = Inr cfg \<Longrightarrow> \<not> el_ReleaseOnCancel cfg"
  by (auto simp: lease_setup_def elector_config_of_def ReleaseOnCancel_def bind_res_Inr_iff Let_def split: option.splits)

lemma covered_lease: "covered (su_answer se) (bind_test (lease_test se name) f)"
proof -
  have "fst (finish (bind_test (lease_test se name) f)) =
    (case lease_setup (su_lease se) name of Inl e \<Rightarrow> []
     | Inr cfg \<Rightarrow> (case su_answer se TakeLease of Some e \<Rightarrow> [TakeLease] | None \<Rightarrow> TakeLease # fst (finish (f ())) @ [StopLease False]))"
    by (auto simp: lease_test_def bind_test_assoc test_simps snd_act dest: lease_setup_kept split: sum.split option.split)
  then show ?thesis
    unfolding covered_def by (intro exI [of _ "[]"] exI [of _ "fst (finish (bind_test (lease_test se name) f))"])
      (auto split: sum.split option.split)
qed

text \<open>
  C3: whatever the functional test does to the cluster it does between the moment it has become the holder of the lease and
  the moment it stops renewing it: before and after there are only the mock server and the sinks, which are on the
  machine of the test. The renewal of a lease that was taken is stopped however the test ends, but the lease is not given up: the
  next test waits until it expires.
\<close>

theorem Test_Functions_leased:
  "\<exists>before leased behind. fst (finish (Test_Functions fe body)) = before @ leased @ behind \<and>
     list_all local_action (before @ behind) \<and>
     (leased = [] \<or> leased = [TakeLease] \<and> (\<exists>e. su_answer (fn_suite fe) TakeLease = Some e) \<or>
      (\<exists>steps. leased = TakeLease # steps @ [StopLease False]))"
proof -
  have "covered (su_answer (fn_suite fe)) (Test_Functions fe body)"
    unfolding Test_Functions_def Let_def
    by (intro covered_bind local_step_sinks local_step_pure covered_lease)
  then show ?thesis unfolding covered_def .
qed

end
