(* ===== verification/RegexSearch.thy ===== *)
theory RegexSearch
  imports GoRegex
begin

section \<open>Searching for a pattern\<close>

text \<open>
  \<open>assert.Regexp\<close> and \<open>MatchString\<close>: the pattern is found somewhere in the text. A dot is any character but the end of
  a line, so that a pattern made of words and dots is found within one line.
\<close>

definition re_any :: re where "re_any = Cls [Range (CHR 0x00) (CHR 0xFF)]"
definition re_dot :: re where "re_dot = Cls [Range (CHR 0x00) (CHR 0x09), Range (CHR 0x0B) (CHR 0xFF)]"
definition re_word :: "string \<Rightarrow> re" where "re_word w = Cat (map Chr w)"

text \<open>\<open>assert.Regexp\<close>: the pattern is found somewhere in the text.\<close>

definition found_in :: "re \<Rightarrow> string \<Rightarrow> bool" where
  "found_in r s = full_match (Cat [Star re_any, r, Star re_any]) s"

section \<open>Facts\<close>

lemma lang_Cat: "lang (Cat []) = {[]}" "lang (Cat (r # rs)) = conc (lang r) (lang (Cat rs))"
  by simp_all

lemma lang_word: "lang (re_word w) = {w}"
proof (induction w)
  case (Cons c w)
  then show ?case by (simp add: re_word_def conc_def)
qed (simp add: re_word_def)

lemma lang_Star_class: "s \<in> lang (Star (Cls cs)) \<longleftrightarrow> list_all (\<lambda>c. list_ex (in_cls c) cs) s"
proof
  assume "s \<in> lang (Star (Cls cs))"
  then obtain ws where ws: "s = concat ws" "set ws \<subseteq> {[c] | c. list_ex (in_cls c) cs}" by (auto simp: many_def)
  then show "list_all (\<lambda>c. list_ex (in_cls c) cs) s" by (auto simp: list_all_iff)
next
  assume s: "list_all (\<lambda>c. list_ex (in_cls c) cs) s"
  have "s = concat (map (\<lambda>c. [c]) s)" by simp
  moreover have "set (map (\<lambda>c. [c]) s) \<subseteq> {[c] | c. list_ex (in_cls c) cs}" using s by (auto simp: list_all_iff)
  ultimately show "s \<in> lang (Star (Cls cs))" unfolding lang.simps many_def by blast
qed

lemma of_char_bound: "(of_char c :: nat) < 256"
  by (metis of_char_mod_256 mod_less_divisor zero_less_numeral)

lemma in_any: "in_cls c (Range (CHR 0x00) (CHR 0xFF))"
proof -
  have "(of_char c :: nat) \<le> 255" using of_char_bound [of c] by linarith
  then show ?thesis by (simp add: less_eq_char_def)
qed

lemma in_dot: "list_ex (in_cls c) [Range (CHR 0x00) (CHR 0x09), Range (CHR 0x0B) (CHR 0xFF)] \<longleftrightarrow> c \<noteq> CHR 0x0A"
proof -
  have "c = CHR 0x0A \<longleftrightarrow> (of_char c :: nat) = of_char (CHR 0x0A)" by (simp only: of_char_eq_iff)
  then have "c \<noteq> CHR 0x0A \<longleftrightarrow> (of_char c :: nat) \<le> 9 \<or> (of_char c :: nat) \<ge> 11" by auto
  moreover have "(of_char c :: nat) \<le> 255" using of_char_bound [of c] by linarith
  ultimately show ?thesis by (simp add: less_eq_char_def)
qed

lemma mem_conc:
  "w \<in> conc {p} B \<longleftrightarrow> (\<exists>v \<in> B. w = p @ v)" "w \<in> conc {d. P d} B \<longleftrightarrow> (\<exists>d. P d \<and> (\<exists>v \<in> B. w = d @ v))"
  "w \<in> conc {[c] | c. Q c} B \<longleftrightarrow> (\<exists>c. Q c \<and> (\<exists>v \<in> B. w = [c] @ v))"
  unfolding conc_def by (blast, blast, blast)

lemma lang_gap:
  "w \<in> lang (Cat [re_word p, Star re_dot]) \<longleftrightarrow> (\<exists>d. w = p @ d \<and> CHR 0x0A \<notin> set d)"
  "w \<in> lang (Cat [re_word p, Star re_dot, re_word q, re_dot, re_word r]) \<longleftrightarrow>
     (\<exists>d c. w = p @ d @ q @ [c] @ r \<and> CHR 0x0A \<notin> set d \<and> c \<noteq> CHR 0x0A)"
proof -
  have dots: "lang (Star re_dot) = {d. CHR 0x0A \<notin> set d}" "lang re_dot = {[c] | c. c \<noteq> CHR 0x0A}"
    unfolding re_dot_def set_eq_iff lang_Star_class lang.simps(2) in_dot by (auto simp: list_all_iff)
  show "w \<in> lang (Cat [re_word p, Star re_dot]) \<longleftrightarrow> (\<exists>d. w = p @ d \<and> CHR 0x0A \<notin> set d)"
    unfolding lang_Cat lang_word dots conc_def by auto
  show "w \<in> lang (Cat [re_word p, Star re_dot, re_word q, re_dot, re_word r]) \<longleftrightarrow>
     (\<exists>d c. w = p @ d @ q @ [c] @ r \<and> CHR 0x0A \<notin> set d \<and> c \<noteq> CHR 0x0A)"
    unfolding lang_Cat lang_word dots mem_conc Bex_def by (auto 0 4)
qed

lemma found_in_iff: "found_in r s \<longleftrightarrow> (\<exists>u w x. s = u @ w @ x \<and> w \<in> lang r)"
proof -
  have any: "w \<in> lang (Star re_any)" for w
    unfolding re_any_def lang_Star_class by (simp add: list_all_iff in_any del: in_cls.simps)
  show ?thesis
    unfolding found_in_def full_match_lang lang_Cat conc_def using any by auto
qed

lemma found_word: "w \<in> lang r \<Longrightarrow> found_in r (u @ w @ x)"
  unfolding found_in_iff by blast

text \<open>A pattern whose matches are within a line is found in a text of several parts if it is found in one of them.\<close>

definition one_line :: "re \<Rightarrow> bool" where
  "one_line r \<longleftrightarrow> (\<forall>w \<in> lang r. w \<noteq> [] \<and> CHR 0x0A \<notin> set w)"

lemma found_in_lines:
  assumes "one_line r"
  shows "found_in r (xs @ CHR 0x0A # ys) \<longleftrightarrow> found_in r xs \<or> found_in r ys"
proof
  assume "found_in r (xs @ CHR 0x0A # ys)"
  then obtain u w x where w: "xs @ CHR 0x0A # ys = u @ w @ x" "w \<in> lang r" unfolding found_in_iff by blast
  with assms have n: "w \<noteq> []" "CHR 0x0A \<notin> set w" by (auto simp: one_line_def)
  from w(1) consider us where "xs = u @ us" "us @ CHR 0x0A # ys = w @ x" | us where "u = xs @ us" "CHR 0x0A # ys = us @ w @ x"
    by (auto simp: append_eq_append_conv2)
  then show "found_in r xs \<or> found_in r ys"
  proof cases
    case 1
    from 1(2) n(2) obtain z where "us = w @ z"
      by (auto simp: append_eq_append_conv2 append_eq_Cons_conv Cons_eq_append_conv)
    with 1(1) w(2) show ?thesis unfolding found_in_iff by blast
  next
    case 2
    from 2(2) n obtain z where "ys = z @ w @ x" by (cases us) (auto simp: Cons_eq_append_conv)
    with w(2) show ?thesis unfolding found_in_iff by blast
  qed
next
  assume "found_in r xs \<or> found_in r ys"
  then show "found_in r (xs @ CHR 0x0A # ys)"
  proof
    assume "found_in r xs"
    then obtain u w x where "xs = u @ w @ x" "w \<in> lang r" unfolding found_in_iff by blast
    then have "xs @ CHR 0x0A # ys = u @ w @ (x @ CHR 0x0A # ys)" by simp
    with \<open>w \<in> lang r\<close> show ?thesis unfolding found_in_iff by blast
  next
    assume "found_in r ys"
    then obtain u w x where "ys = u @ w @ x" "w \<in> lang r" unfolding found_in_iff by blast
    then have "xs @ CHR 0x0A # ys = (xs @ CHR 0x0A # u) @ w @ x" by simp
    with \<open>w \<in> lang r\<close> show ?thesis unfolding found_in_iff by blast
  qed
qed

lemma not_found_empty: "one_line r \<Longrightarrow> \<not> found_in r []"
  unfolding found_in_iff by (auto simp: one_line_def)

end
