(* ===== verification/AllocatorChecks.thy ===== *)
theory AllocatorChecks
  imports RegexSearch ComponentHealth FunctionalDeploy
begin

section \<open>The target allocator\<close>

text \<open>
  \<open>testTargetAllocator\<close> of \<open>functional_tests/functional/prometheus_test.go\<close>: the allocator's pods have to report that
  they watch for targets, and the agents that they discover the allocator and, all of them together, that they scrape
  the two monitors' targets.
\<close>

definition TargetAllocatorLabelSelector :: string where
  "TargetAllocatorLabelSelector = ''app.kubernetes.io/name=targetallocator''"

definition TargetAllocatorContainerName :: string where
  "TargetAllocatorContainerName = ''targetallocator''"

definition AgentLabelSelector :: string where
  "AgentLabelSelector = ''component=otel-collector-agent''"

text \<open>
  What one check observes: the listing of the pods by namespace and selector, and the logs by pod, container and number
  of lines; \<open>GetPodLogs\<close> returns no text with an error.
\<close>

record pod_obs =
  po_list :: "string \<Rightarrow> string \<Rightarrow> pod list result"
  po_logs :: "string \<Rightarrow> string \<Rightarrow> int \<Rightarrow> string result"

definition GetPods :: "pod_obs \<Rightarrow> string \<Rightarrow> string \<Rightarrow> pod list result" where
  "GetPods ob namespace labelSelector = po_list ob namespace labelSelector"

definition log_text :: "string result \<Rightarrow> string" where
  "log_text r = (case r of Inl e \<Rightarrow> [] | Inr text \<Rightarrow> text)"

definition readable :: "string result \<Rightarrow> bool" where
  "readable r = (case r of Inl e \<Rightarrow> False | Inr text \<Rightarrow> True)"

text \<open>The loops go on after a failed assertion; \<open>ok\<close> is whether none has failed, \<open>seen\<close> whether a pod is running.\<close>

fun allocator_loop :: "pod_obs \<Rightarrow> pod list \<Rightarrow> bool \<times> bool \<Rightarrow> bool \<times> bool" where
  "allocator_loop ob [] st = st"
| "allocator_loop ob (p # ps) (ok, seen) =
     (if pod_Phase p \<noteq> ''Running'' then allocator_loop ob ps (ok, seen)
      else let podLogs = po_logs ob (pod_Name p) TargetAllocatorContainerName 100
           in allocator_loop ob ps
                (ok \<and> readable podLogs \<and> contains (log_text podLogs) ''Service Discovery watch event received'', True))"

definition allocator_check :: "pod_obs \<Rightarrow> bool" where
  "allocator_check ob =
     (case GetPods ob DefaultNamespace TargetAllocatorLabelSelector of
        Inl e \<Rightarrow> False
      | Inr ps \<Rightarrow> (case allocator_loop ob ps (True, False) of (ok, seen) \<Rightarrow> ok \<and> seen))"

fun agent_loop :: "pod_obs \<Rightarrow> nat \<Rightarrow> pod list \<Rightarrow> bool \<times> bool \<times> string \<Rightarrow> bool \<times> bool \<times> string" where
  "agent_loop ob i [] st = st"
| "agent_loop ob i (p # ps) (ok, seen, combined) =
     (if pod_Phase p \<noteq> ''Running'' then agent_loop ob (Suc i) ps (ok, seen, combined)
      else let podLogs = po_logs ob (pod_Name p) CollectorContainerName 5000
           in agent_loop ob (Suc i) ps
                (ok \<and> readable podLogs \<and> contains (log_text podLogs) ''Starting target allocator discovery'', True,
                 combined @ (if i > 0 then [CHR 0x0A] else []) @ pod_Name p @ [CHR 0x0A] @ log_text podLogs))"

definition job_pattern :: "string \<Rightarrow> re" where
  "job_pattern job =
     Cat [re_word ''Scrape job added'', Star re_dot,
       re_word (CHR 0x22 # ''otelcol.component.id'' @ [CHR 0x22] @ '': '' @ [CHR 0x22] @ ''prometheus/ta''), Star re_dot,
       re_word (CHR 0x22 # ''jobName'' @ [CHR 0x22] @ '': '' @ [CHR 0x22] @ job @ [CHR 0x22])]"

definition serviceMonitorRegex :: re where
  "serviceMonitorRegex = job_pattern ''serviceMonitor/default/prometheus-service-monitor/0''"

definition podMonitorRegex :: re where
  "podMonitorRegex = job_pattern ''podMonitor/default/pod-monitor/0''"

definition agent_logs_check :: "pod_obs \<Rightarrow> bool" where
  "agent_logs_check ob =
     (case GetPods ob DefaultNamespace AgentLabelSelector of
        Inl e \<Rightarrow> False
      | Inr ps \<Rightarrow>
          (case agent_loop ob 0 ps (True, False, []) of (ok, seen, combined) \<Rightarrow>
             ok \<and> seen \<and> found_in serviceMonitorRegex combined \<and> found_in podMonitorRegex combined))"

text \<open>The checks made by each of the two waits until it gives up.\<close>

definition testTargetAllocator :: "suite_env \<Rightarrow> pod_obs list \<Rightarrow> pod_obs list \<Rightarrow> (suite_action, unit) run" where
  "testTargetAllocator se allocator_obs agent_obs =
     bind_run (pure_run (if requiresPrometheusResources (getenv se ''KUBE_TEST_ENV'') then Inr ()
                         else Inl ''Required Prometheus CRDs are not installed'')) (\<lambda>_.
     bind_run (pure_run (requireEnv (su_lookup se) ''KUBECONFIG'')) (\<lambda>testKubeConfig.
     bind_run (kube_client se testKubeConfig) (\<lambda>_.
     bind_run (waiting (Checking ''target allocator'') (list_ex allocator_check allocator_obs)) (\<lambda>_.
       waiting (Checking ''agents'') (list_ex agent_logs_check agent_obs)))))"

section \<open>Properties\<close>

definition running :: "pod list \<Rightarrow> pod list" where
  "running ps = filter (\<lambda>p. pod_Phase p = ''Running'') ps"

text \<open>A running pod whose logs can be read and say so.\<close>

definition reports :: "pod_obs \<Rightarrow> string \<Rightarrow> int \<Rightarrow> string \<Rightarrow> pod \<Rightarrow> bool" where
  "reports ob container n msg p \<longleftrightarrow> (\<exists>text. po_logs ob (pod_Name p) container n = Inr text \<and> contains text msg)"

lemma reports_iff:
  "reports ob c n msg p \<longleftrightarrow> readable (po_logs ob (pod_Name p) c n) \<and> contains (log_text (po_logs ob (pod_Name p) c n)) msg"
  by (auto simp: reports_def readable_def log_text_def split: sum.splits)

lemma allocator_loop_all:
  "allocator_loop ob ps (ok, seen) =
     (ok \<and> list_all (reports ob TargetAllocatorContainerName 100 ''Service Discovery watch event received'') (running ps),
      seen \<or> running ps \<noteq> [])"
  by (induction ps arbitrary: ok seen) (auto simp: Let_def running_def reports_iff)

lemma one_line_job: "CHR 0x0A \<notin> set job \<Longrightarrow> one_line (job_pattern job)"
proof -
  assume "CHR 0x0A \<notin> set job"
  have dots: "lang (Star re_dot) = {d. CHR 0x0A \<notin> set d}"
    unfolding re_dot_def set_eq_iff lang_Star_class in_dot by (auto simp: list_all_iff)
  show ?thesis
    unfolding one_line_def job_pattern_def lang_Cat lang_word dots mem_conc
    using \<open>CHR 0x0A \<notin> set job\<close> by (auto simp: mem_conc)
qed

text \<open>The pattern is in the text gathered from the agents when it is in the name or in the logs of one of them.\<close>

lemma agent_loop_found:
  assumes "one_line r" and "agent_loop ob i ps (ok, seen, combined) = (ok', seen', combined')"
    and "i = 0 \<Longrightarrow> combined = []"
  shows "ok' = (ok \<and> list_all (reports ob CollectorContainerName 5000 ''Starting target allocator discovery'') (running ps))"
    and "seen' = (seen \<or> running ps \<noteq> [])"
    and "found_in r combined' \<longleftrightarrow> found_in r combined \<or>
      (\<exists>p \<in> set (running ps). found_in r (pod_Name p) \<or> found_in r (log_text (po_logs ob (pod_Name p) CollectorContainerName 5000)))"
proof -
  have "ok' = (ok \<and> list_all (reports ob CollectorContainerName 5000 ''Starting target allocator discovery'') (running ps)) \<and>
    seen' = (seen \<or> running ps \<noteq> []) \<and>
    (found_in r combined' \<longleftrightarrow> found_in r combined \<or>
      (\<exists>p \<in> set (running ps). found_in r (pod_Name p) \<or> found_in r (log_text (po_logs ob (pod_Name p) CollectorContainerName 5000))))"
    using assms(2,3)
  proof (induction ob i ps "(ok, seen, combined)" arbitrary: ok seen combined rule: agent_loop.induct)
    case (2 ob i p ps ok seen combined)
    let ?logs = "po_logs ob (pod_Name p) CollectorContainerName 5000"
    let ?more = "combined @ (if i > 0 then [CHR 0x0A] else []) @ pod_Name p @ [CHR 0x0A] @ log_text ?logs"
    have piece: "found_in r (pod_Name p @ CHR 0x0A # log_text ?logs) \<longleftrightarrow> found_in r (pod_Name p) \<or> found_in r (log_text ?logs)"
      by (rule found_in_lines [OF assms(1)])
    have more: "found_in r ?more \<longleftrightarrow> found_in r combined \<or> found_in r (pod_Name p) \<or> found_in r (log_text ?logs)"
      using 2(4) piece found_in_lines [OF assms(1), of combined] not_found_empty [OF assms(1)] by (cases "i = 0") simp_all
    show ?case
    proof (cases "pod_Phase p = ''Running''")
      case True
      with 2 more show ?thesis by (auto simp: Let_def running_def reports_iff)
    next
      case False
      with 2 show ?thesis by (auto simp: running_def)
    qed
  qed (auto simp: running_def)
  then show "ok' = (ok \<and> list_all (reports ob CollectorContainerName 5000 ''Starting target allocator discovery'') (running ps))"
    "seen' = (seen \<or> running ps \<noteq> [])"
    "found_in r combined' \<longleftrightarrow> found_in r combined \<or>
      (\<exists>p \<in> set (running ps). found_in r (pod_Name p) \<or> found_in r (log_text (po_logs ob (pod_Name p) CollectorContainerName 5000)))"
    by blast+
qed

text \<open>
  C19: when the target allocator test passes: at some check every running allocator pod, and there is one, reports
  the watch; at some later one every running agent, and there is one, reports the discovery, and each of the two jobs is
  reported by an agent, not necessarily by the same one: gathering the logs in one text finds what a search in each finds.
\<close>

theorem testTargetAllocator_passes:
  "snd (testTargetAllocator se allocator_obs agent_obs) = Inr () \<longleftrightarrow>
    getenv se ''KUBE_TEST_ENV'' = ''kind'' \<and>
    (\<exists>kc. requireEnv (su_lookup se) ''KUBECONFIG'' = Inr kc \<and> su_client se kc = None) \<and>
    (\<exists>ob \<in> set allocator_obs. \<exists>ps. GetPods ob ''default'' ''app.kubernetes.io/name=targetallocator'' = Inr ps \<and> running ps \<noteq> [] \<and>
       list_all (reports ob ''targetallocator'' 100 ''Service Discovery watch event received'') (running ps)) \<and>
    (\<exists>ob \<in> set agent_obs. \<exists>ps. GetPods ob ''default'' ''component=otel-collector-agent'' = Inr ps \<and> running ps \<noteq> [] \<and>
       list_all (reports ob ''otel-collector'' 5000 ''Starting target allocator discovery'') (running ps) \<and>
       list_all (\<lambda>r. \<exists>p \<in> set (running ps). found_in r (pod_Name p) \<or> found_in r (log_text (po_logs ob (pod_Name p) ''otel-collector'' 5000)))
         [serviceMonitorRegex, podMonitorRegex])"
proof -
  have allocator: "allocator_check ob \<longleftrightarrow> (\<exists>ps. GetPods ob ''default'' ''app.kubernetes.io/name=targetallocator'' = Inr ps \<and> running ps \<noteq> [] \<and>
       list_all (reports ob ''targetallocator'' 100 ''Service Discovery watch event received'') (running ps))" for ob
    by (auto simp: allocator_check_def allocator_loop_all DefaultNamespace_def TargetAllocatorLabelSelector_def
        TargetAllocatorContainerName_def split: sum.split)
  have lines: "one_line serviceMonitorRegex" "one_line podMonitorRegex"
    unfolding serviceMonitorRegex_def podMonitorRegex_def by (rule one_line_job; simp)+
  have agents: "agent_logs_check ob \<longleftrightarrow> (\<exists>ps. GetPods ob ''default'' ''component=otel-collector-agent'' = Inr ps \<and> running ps \<noteq> [] \<and>
       list_all (reports ob ''otel-collector'' 5000 ''Starting target allocator discovery'') (running ps) \<and>
       list_all (\<lambda>r. \<exists>p \<in> set (running ps). found_in r (pod_Name p) \<or> found_in r (log_text (po_logs ob (pod_Name p) ''otel-collector'' 5000)))
         [serviceMonitorRegex, podMonitorRegex])" for ob
  proof (cases "GetPods ob ''default'' ''component=otel-collector-agent''")
    case (Inr ps)
    obtain ok seen combined where loop: "agent_loop ob 0 ps (True, False, []) = (ok, seen, combined)" by (metis prod_cases3)
    note found = agent_loop_found [OF _ loop] 
    show ?thesis
      using Inr loop found [OF lines(1)] found [OF lines(2)] not_found_empty [OF lines(1)] not_found_empty [OF lines(2)]
      by (auto simp: agent_logs_check_def DefaultNamespace_def AgentLabelSelector_def CollectorContainerName_def)
  qed (simp add: agent_logs_check_def DefaultNamespace_def AgentLabelSelector_def)
  have "snd (testTargetAllocator se allocator_obs agent_obs) = Inr () \<longleftrightarrow>
    getenv se ''KUBE_TEST_ENV'' = ''kind'' \<and>
    (\<exists>kc. requireEnv (su_lookup se) ''KUBECONFIG'' = Inr kc \<and> su_client se kc = None) \<and>
    (\<exists>ob \<in> set allocator_obs. allocator_check ob) \<and> (\<exists>ob \<in> set agent_obs. agent_logs_check ob)"
    unfolding list_ex_iff [symmetric]
    by (cases "requireEnv (su_lookup se) ''KUBECONFIG''")
      (auto simp: testTargetAllocator_def requiresPrometheusResources_def kindTestKubeEnv_def kube_client_def test_simps
        waiting_def split: option.split)
  then show ?thesis unfolding allocator agents .
qed

end
