(* ===== verification/HostedChecks.thy ===== *)
theory HostedChecks
  imports PodExec AllocatorChecks FunctionalSuite
begin

section \<open>Checks in hosted clusters\<close>

text \<open>
  The checks of \<open>functional_tests/functional/functional_test.go\<close> for hosted clusters: the resource attributes of the
  metrics that a collector writes into a file of its pod, and the receivers of the control plane. \<open>parse\<close> is what
  \<open>golden.ReadMetrics\<close> makes of a file's content, \<open>equal_value\<close> is \<open>Value.Equal\<close> of \<open>pdata\<close>.
\<close>

datatype collectorRole = roleAgent | roleClusterReceiver | roleClusterReceiverK8s | otherRole string

definition clusterReceiverLabelSelector :: string where
  "clusterReceiverLabelSelector = ''component=otel-k8s-cluster-receiver''"

definition role_selector :: "collectorRole \<Rightarrow> string" where
  "role_selector role = (if role = roleAgent then AgentLabelSelector else clusterReceiverLabelSelector)"

definition role_file :: "collectorRole \<Rightarrow> string" where
  "role_file role =
     (case role of
        roleAgent \<Rightarrow> ''expected_resource_attributes_agent.yaml''
      | roleClusterReceiver \<Rightarrow> ''expected_resource_attributes_cluster_receiver.yaml''
      | _ \<Rightarrow> ''expected_resource_attributes_cluster_receiver_k8s_cluster.yaml'')"

definition windows_path :: "string list \<Rightarrow> string" where
  "windows_path parts = join [CHR 0x5C] parts"

definition pod_path_file :: "collectorRole \<Rightarrow> bool \<Rightarrow> string" where
  "pod_path_file role isWindows =
     (if role = roleClusterReceiverK8s
      then (if isWindows
            then windows_path [''C:'', ''Users'', ''ContainerUser'', ''AppData'', ''Local'', ''Temp'', ''k8s_cluster_metrics.json'']
            else ''/splunk-metrics/k8s_cluster_metrics.json'')
      else (if isWindows
            then windows_path [''C:'', ''Users'', ''ContainerUser'', ''AppData'', ''Local'', ''Temp'', ''metrics.json'']
            else ''/splunk-metrics/metrics.json''))"

text \<open>Both functions normalize the resource that they return and no other.\<close>

definition readAndNormalizeMetrics :: "(string \<Rightarrow> metrics result) \<Rightarrow> string result \<Rightarrow> string list \<Rightarrow> metrics result" where
  "readAndNormalizeMetrics parse content skipKeys =
     bind_res content (\<lambda>text. bind_res (parse text) (\<lambda>ms.
       case ms of
         [] \<Rightarrow> Inl ''metrics file contains no ResourceMetrics''
       | rm # rms \<Rightarrow> Inr (rm\<lparr>rm_attributes := NormalizeAttributes (rm_attributes rm) skipKeys\<rparr> # rms)))"

fun first_with :: "string \<Rightarrow> metrics \<Rightarrow> attrs option" where
  "first_with attrKey [] = None"
| "first_with attrKey (rm # rms) =
     (if attr_get (rm_attributes rm) attrKey \<noteq> None then Some (rm_attributes rm) else first_with attrKey rms)"

definition findResourceByAttr :: "(string \<Rightarrow> metrics result) \<Rightarrow> string result \<Rightarrow> string \<Rightarrow> string list \<Rightarrow> attrs result" where
  "findResourceByAttr parse content attrKey skipKeys =
     bind_res content (\<lambda>text. bind_res (parse text) (\<lambda>ms.
       case first_with attrKey ms of
         Some a \<Rightarrow> Inr (NormalizeAttributes a skipKeys)
       | None \<Rightarrow> Inl ''resource not found''))"

text \<open>\<open>Map.Equal\<close> of \<open>pdata\<close>.\<close>

definition attrs_equal :: "(attr_value \<Rightarrow> attr_value \<Rightarrow> bool) \<Rightarrow> attrs \<Rightarrow> attrs \<Rightarrow> bool" where
  "attrs_equal equal_value m n \<longleftrightarrow>
     length m = length n \<and> list_all (\<lambda>(k, v). case attr_get n k of None \<Rightarrow> False | Some w \<Rightarrow> equal_value v w) m"

definition skipKeys :: "string list" where
  "skipKeys = [''k8s.cluster.name'', ''cloud.platform'']"

definition first_resource :: "metrics \<Rightarrow> attrs" where
  "first_resource ms = rm_attributes (hd ms)"

definition actual_attributes :: "(string \<Rightarrow> metrics result) \<Rightarrow> collectorRole \<Rightarrow> string result \<Rightarrow> attrs result" where
  "actual_attributes parse role content =
     (if role = roleClusterReceiverK8s then findResourceByAttr parse content ''k8s.container.name'' skipKeys
      else bind_res (readAndNormalizeMetrics parse content skipKeys) (\<lambda>ms. Inr (first_resource ms)))"

text \<open>
  What the check reads: the listing of the pods for a selector, the label \<open>osType\<close> of a pod (empty when it is
  missing), the files of the repository, the temporary file and its removal, and what \<open>CopyFileFromPod\<close> meets.
\<close>

record attr_env =
  ae_pods :: "string \<Rightarrow> pod list result"
  ae_osType :: "pod \<Rightarrow> string"
  ae_disk :: fs
  ae_temp :: "string result" \<comment> \<open>\<open>os.CreateTemp\<close> in a directory of the test\<close>
  ae_remove :: "string \<Rightarrow> string option"
  ae_helper :: helper_env
  ae_copies :: "copy_from_obs list"

text \<open>The result of the comparison is the name of the temporary file, which a cleanup removes.\<close>

definition compare_resource_attributes ::
  "(string \<Rightarrow> metrics result) \<Rightarrow> (attr_value \<Rightarrow> attr_value \<Rightarrow> bool) \<Rightarrow> (string \<Rightarrow> string) \<Rightarrow> attr_env \<Rightarrow> string \<Rightarrow>
     collectorRole \<Rightarrow> (pod_action, string) run"
where
  "compare_resource_attributes parse equal_value uni ae expectedValuesDir role =
     bind_run (pure_run (case role of otherRole r \<Rightarrow> Inl (''unknown role '' @ r) | _ \<Rightarrow> Inr ())) (\<lambda>_.
     bind_run (pure_run (ae_pods ae (role_selector role))) (\<lambda>pods.
     case pods of
       [] \<Rightarrow> pure_run (Inl (''no pods found for label '' @ role_selector role))
     | p # _ \<Rightarrow>
         let isWindows = (to_lower uni (ae_osType ae p) = ''windows'')
         in bind_run (pure_run (ae_temp ae)) (\<lambda>tmpFile.
            bind_run (CopyFileFromPod (ae_helper ae) DefaultNamespace (pod_Name p) ''otel-collector''
              (pod_path_file role isWindows) (ae_copies ae)) (\<lambda>copied.
            bind_run (pure_run (readAndNormalizeMetrics parse
              (ReadFile (ae_disk ae) (path_join [testDir, expectedValuesDir, role_file role])) skipKeys)) (\<lambda>expected.
            bind_run (pure_run (actual_attributes parse role (Inr copied))) (\<lambda>actual.
              pure_run (if attrs_equal equal_value (first_resource expected) actual then Inr tmpFile
                        else Inl ''Resource Attributes comparison failed'')))))))"

definition validateResourceAttributes ::
  "(string \<Rightarrow> metrics result) \<Rightarrow> (attr_value \<Rightarrow> attr_value \<Rightarrow> bool) \<Rightarrow> (string \<Rightarrow> string) \<Rightarrow> attr_env \<Rightarrow> string \<Rightarrow>
     collectorRole \<Rightarrow> (pod_action, unit) test"
where
  "validateResourceAttributes parse equal_value uni ae expectedValuesDir role =
     bind_test (do_run (compare_resource_attributes parse equal_value uni ae expectedValuesDir role)) (\<lambda>tmpFile.
       t_Cleanup (do_run (pure_run (case ae_remove ae tmpFile of Some e \<Rightarrow> Inl e | None \<Rightarrow> Inr ()))))"

subsection \<open>Receivers of the control plane\<close>

definition controlPlaneReceiversForEnv :: "string \<Rightarrow> string list" where
  "controlPlaneReceiversForEnv kubeTestEnv =
     (if kubeTestEnv = kindTestKubeEnv then
        [''prometheus/etcd'', ''prometheus/kube-controller-manager'', ''prometheus/kubernetes-scheduler'']
      else if kubeTestEnv = ''rosa'' \<or> kubeTestEnv = ''gce'' then
        [''prometheus/etcd'', ''prometheus/kube-controller-manager'', ''prometheus/kubernetes-apiserver'',
         ''prometheus/kubernetes-scheduler'']
      else [])"

text \<open>\<open>WaitForScrapeInterval\<close> does nothing but sleep.\<close>

definition WaitForScrapeInterval :: "int \<Rightarrow> (suite_action, unit) run" where
  "WaitForScrapeInterval n = sleep n"

definition health_result :: "health_outcome \<Rightarrow> unit result" where
  "health_result h =
     (case h of (Some e, errs) \<Rightarrow> Inl e | (None, errs) \<Rightarrow> if errs = [] then Inr () else Inl ''found component errors'')"

text \<open>The logs are read anew for each check: \<open>started_logs r\<close> and \<open>health_logs r\<close> are what the pods return for receiver \<open>r\<close>.\<close>

record plane_env =
  pl_pods :: "pod list result"
  pl_nodes :: "node list result"
  pl_started :: "string \<Rightarrow> string \<Rightarrow> string result"
  pl_health :: "string \<Rightarrow> string \<Rightarrow> string result"
  pl_range :: "(string \<times> log_entry) list \<Rightarrow> (string \<times> log_entry) list"
  pl_uni :: "string \<Rightarrow> string"

definition runControlPlaneReceiverChecks :: "plane_env \<Rightarrow> string list \<Rightarrow> (suite_action, unit) test" where
  "runControlPlaneReceiverChecks pl receivers =
     bind_test (pure_test (GetControlPlaneAgentPods (pl_pods pl) (pl_nodes pl))) (\<lambda>cpAgentPods.
     bind_test (pure_test (if cpAgentPods = [] then Inl ''no agent pods found on control-plane nodes'' else Inr ())) (\<lambda>_.
     bind_test (do_run (WaitForScrapeInterval (seconds 180))) (\<lambda>_.
     each_test (\<lambda>receiver.
       bind_test (t_Run (''receiver started: '' @ receiver)
         (pure_test (if CheckReceiverStarted (pl_uni pl) (pl_started pl receiver) cpAgentPods receiver then Inr ()
                     else Inl ''receiver not started''))) (\<lambda>_.
       t_Run (''no errors: '' @ receiver)
         (pure_test (health_result
           (CheckComponentHealthForPods (pl_range pl) (pl_uni pl) (pl_health pl receiver) cpAgentPods receiver))))) receivers)))"

section \<open>Properties\<close>

text \<open>With distinct keys two maps are equal when they agree under every key.\<close>

text \<open>With distinct keys two maps are equal when they agree under every key.\<close>

lemma attrs_equal_iff:
  assumes "distinct (map fst m)" and "distinct (map fst n)"
  shows "attrs_equal eq m n \<longleftrightarrow> (\<forall>k. rel_option eq (attr_get m k) (attr_get n k))"
proof
  assume l: "attrs_equal eq m n"
  have sub: "set (map fst m) \<subseteq> set (map fst n)"
    using l by (auto simp: attrs_equal_def list_all_iff attr_get_def map_of_eq_None_iff split: option.splits)
  have "card (set (map fst m)) = card (set (map fst n))"
    using l assms by (simp only: distinct_card) (simp add: attrs_equal_def)
  then have keys: "set (map fst m) = set (map fst n)"
    using sub by (simp add: card_subset_eq)
  show "\<forall>k. rel_option eq (attr_get m k) (attr_get n k)"
  proof
    fix k
    show "rel_option eq (attr_get m k) (attr_get n k)"
    proof (cases "attr_get m k")
      case None
      with keys have "attr_get n k = None" by (simp add: attr_get_def map_of_eq_None_iff)
      with None show ?thesis by simp
    next
      case (Some v)
      then have "(k, v) \<in> set m" by (simp add: attr_get_def map_of_SomeD)
      with l Some show ?thesis by (auto simp: attrs_equal_def list_all_iff split: option.splits)
    qed
  qed
next
  assume r: "\<forall>k. rel_option eq (attr_get m k) (attr_get n k)"
  then have none: "attr_get m k = None \<longleftrightarrow> attr_get n k = None" for k
    by (metis option.rel_distinct(1,2) option.exhaust)
  have "set (map fst m) = set (map fst n)"
    using none unfolding attr_get_def map_of_eq_None_iff by auto
  then have "length m = length n" using assms by (metis distinct_card length_map)
  moreover have "list_all (\<lambda>(k, v). case attr_get n k of None \<Rightarrow> False | Some w \<Rightarrow> eq v w) m"
    unfolding list_all_iff
  proof clarify
    fix k v assume "(k, v) \<in> set m"
    with assms(1) have "attr_get m k = Some v" by (simp add: attr_get_def)
    with r have "rel_option eq (Some v) (attr_get n k)" by metis
    then show "case attr_get n k of None \<Rightarrow> False | Some w \<Rightarrow> eq v w" by (cases "attr_get n k") auto
  qed
  ultimately show "attrs_equal eq m n" by (simp add: attrs_equal_def)
qed

text \<open>After normalization only the keys and the values of the skipped keys matter.\<close>

lemma attrs_equal_normalized:
  assumes "distinct (map fst m)" "distinct (map fst n)" and "\<And>s t. eq (VStr s) (VStr t) \<longleftrightarrow> s = t"
  shows "attrs_equal eq (NormalizeAttributes m keys) (NormalizeAttributes n keys) \<longleftrightarrow>
     fst ` set m = fst ` set n \<and> (\<forall>k \<in> set keys. rel_option eq (attr_get m k) (attr_get n k))"
proof -
  have d: "distinct (map fst (NormalizeAttributes m keys))" "distinct (map fst (NormalizeAttributes n keys))"
    using assms(1,2) NormalizeAttributes_effect by metis+
  have get: "attr_get (NormalizeAttributes a keys) k =
      (if k \<in> set keys then attr_get a k else map_option (\<lambda>_. VStr ''abcd'') (attr_get a k))" for a k
    using NormalizeAttributes_effect by blast
  have none: "attr_get a k = None \<longleftrightarrow> k \<notin> fst ` set a" for a k
    by (simp add: attr_get_def map_of_eq_None_iff)
  have "rel_option eq (map_option (\<lambda>_. VStr ''abcd'') x) (map_option (\<lambda>_. VStr ''abcd'') y) \<longleftrightarrow> (x = None \<longleftrightarrow> y = None)" for x y
    using assms(3) by (cases x; cases y) auto
  then have step: "rel_option eq (if k \<in> set keys then attr_get m k else map_option (\<lambda>_. VStr ''abcd'') (attr_get m k))
        (if k \<in> set keys then attr_get n k else map_option (\<lambda>_. VStr ''abcd'') (attr_get n k)) \<longleftrightarrow>
      (if k \<in> set keys then rel_option eq (attr_get m k) (attr_get n k) else attr_get m k = None \<longleftrightarrow> attr_get n k = None)" for k
    by (cases "k \<in> set keys") simp_all
  have "attrs_equal eq (NormalizeAttributes m keys) (NormalizeAttributes n keys) \<longleftrightarrow>
      (\<forall>k. if k \<in> set keys then rel_option eq (attr_get m k) (attr_get n k) else attr_get m k = None \<longleftrightarrow> attr_get n k = None)"
    unfolding attrs_equal_iff [OF d] get step ..
  moreover have "rel_option eq x y \<Longrightarrow> x = None \<longleftrightarrow> y = None" for x y by (cases x; cases y) auto
  moreover have "fst ` set m = fst ` set n \<longleftrightarrow> (\<forall>k. attr_get m k = None \<longleftrightarrow> attr_get n k = None)"
    unfolding none by blast
  ultimately show ?thesis by (metis (no_types, lifting))
qed


text \<open>The resource of the copied metrics that the check looks at.\<close>

definition checked_resource :: "collectorRole \<Rightarrow> metrics \<Rightarrow> attrs option" where
  "checked_resource role ms =
     (if role = roleClusterReceiverK8s then first_with ''k8s.container.name'' ms
      else case ms of [] \<Rightarrow> None | rm # rms \<Rightarrow> Some (rm_attributes rm))"

lemma actual_attributes_Inr:
  assumes "parse text = Inr ms"
  shows "actual_attributes parse role (Inr text) = Inr a \<longleftrightarrow> (\<exists>act. checked_resource role ms = Some act \<and> a = NormalizeAttributes act skipKeys)"
  using assms
  by (auto simp: actual_attributes_def findResourceByAttr_def readAndNormalizeMetrics_def checked_resource_def first_resource_def
      split: option.splits list.splits)

text \<open>
  C16: once the metrics have been copied from the first pod of the role to a temporary file, the check of the resource attributes
  passes exactly when they have a resource to look at, and its attributes have the keys of the first expected resource and
  the same cluster name and platform, and the file can be removed afterwards. No other value is compared, and of the expected file only
  the first resource.
\<close>

theorem validateResourceAttributes_passes:
  assumes role: "\<And>r. role \<noteq> otherRole r" and pods: "ae_pods ae (role_selector role) = Inr (p # ps)"
    and copied: "snd (CopyFileFromPod (ae_helper ae) DefaultNamespace (pod_Name p) ''otel-collector''
        (pod_path_file role (to_lower uni (ae_osType ae p) = ''windows'')) (ae_copies ae)) = Inr copied"
    and expected: "ReadFile (ae_disk ae) (path_join [testDir, dir, role_file role]) = Inr text" "parse text = Inr (em # ems)"
    and actual: "parse copied = Inr ams" and keys: "distinct (map fst (rm_attributes em))"
    "\<And>act. checked_resource role ams = Some act \<Longrightarrow> distinct (map fst act)"
    and strings: "\<And>s t. eq (VStr s) (VStr t) \<longleftrightarrow> s = t" and temp: "ae_temp ae = Inr tmpFile"
  shows "passes (validateResourceAttributes parse eq uni ae dir role) \<longleftrightarrow> ae_remove ae tmpFile = None \<and>
    (\<exists>act. checked_resource role ams = Some act \<and> fst ` set (rm_attributes em) = fst ` set act \<and>
       (\<forall>k \<in> {''k8s.cluster.name'', ''cloud.platform''}. rel_option eq (attr_get (rm_attributes em) k) (attr_get act k)))"
proof -
  have known: "(case role of otherRole r \<Rightarrow> Inl (''unknown role '' @ r) | _ \<Rightarrow> Inr ()) = (Inr () :: unit result)"
    using role by (cases role) auto
  have read: "readAndNormalizeMetrics parse (Inr text) skipKeys =
      Inr (em\<lparr>rm_attributes := NormalizeAttributes (rm_attributes em) skipKeys\<rparr> # ems)"
    using expected(2) by (simp add: readAndNormalizeMetrics_def)
  obtain tr where tr: "CopyFileFromPod (ae_helper ae) DefaultNamespace (pod_Name p) ''otel-collector''
        (pod_path_file role (to_lower uni (ae_osType ae p) = ''windows'')) (ae_copies ae) = (tr, Inr copied)"
    using copied by (metis prod.collapse)
  have "snd (compare_resource_attributes parse eq uni ae dir role) = Inr tmpFile \<longleftrightarrow>
      (\<exists>a. actual_attributes parse role (Inr copied) = Inr a \<and> attrs_equal eq (NormalizeAttributes (rm_attributes em) skipKeys) a)"
    by (cases "actual_attributes parse role (Inr copied)")
      (simp_all add: compare_resource_attributes_def known pods temp tr expected read test_simps first_resource_def pure_run_def)
  also have "\<dots> \<longleftrightarrow> (\<exists>act. checked_resource role ams = Some act \<and>
      attrs_equal eq (NormalizeAttributes (rm_attributes em) skipKeys) (NormalizeAttributes act skipKeys))"
    using actual_attributes_Inr [of parse copied ams role] actual by simp blast
  also have "\<dots> \<longleftrightarrow> (\<exists>act. checked_resource role ams = Some act \<and> fst ` set (rm_attributes em) = fst ` set act \<and>
       (\<forall>k \<in> set skipKeys. rel_option eq (attr_get (rm_attributes em) k) (attr_get act k)))"
    using attrs_equal_normalized [where eq = eq, OF keys strings] by blast
  finally have compared: "snd (compare_resource_attributes parse eq uni ae dir role) = Inr tmpFile \<longleftrightarrow>
      (\<exists>act. checked_resource role ams = Some act \<and> fst ` set (rm_attributes em) = fst ` set act \<and>
       (\<forall>k \<in> set skipKeys. rel_option eq (attr_get (rm_attributes em) k) (attr_get act k)))" .
  have "x = tmpFile" if "snd (compare_resource_attributes parse eq uni ae dir role) = Inr x" for x
    using that temp known pods tr expected read
    by (cases "actual_attributes parse role (Inr copied)")
      (auto simp: compare_resource_attributes_def test_simps pure_run_def split: if_splits)
  then have "passes (validateResourceAttributes parse eq uni ae dir role) \<longleftrightarrow>
      ae_remove ae tmpFile = None \<and> snd (compare_resource_attributes parse eq uni ae dir role) = Inr tmpFile"
    by (auto simp: validateResourceAttributes_def passes_do_run_bind pure_run_def split: option.splits)
  with compared show ?thesis by (simp add: skipKeys_def)
qed

definition sample_resource :: "attrs \<Rightarrow> resource_metrics" where
  "sample_resource a = \<lparr>rm_attributes = a, rm_rest = [], rm_scopes = []\<rparr>"

definition sample_parse :: "string \<Rightarrow> metrics result" where
  "sample_parse text =
     Inr (if text = ''log'' then [sample_resource [(''k8s.cluster.name'', VStr ''c''), (''host.name'', VStr ''b'')]]
          else [sample_resource [(''host.name'', VStr ''a''), (''k8s.cluster.name'', VStr ''c'')]])"

definition sample_attr_env :: attr_env where
  "sample_attr_env =
     \<lparr>ae_pods = (\<lambda>_. Inr [sample_pod ''/var'']), ae_osType = (\<lambda>_. ''Windows''),
      ae_disk = \<lparr>files = (\<lambda>p. Some p), read_fault = (\<lambda>_. None), write_fault = (\<lambda>_. None)\<rparr>,
      ae_temp = Inr ''/tmp/x'', ae_remove = (\<lambda>_. None), ae_helper = sample_helper, ae_copies = sample_copy_from\<rparr>"

lemma sample_copied:
  "snd (CopyFileFromPod (ae_helper sample_attr_env) DefaultNamespace (pod_Name (sample_pod ''/var'')) ''otel-collector''
        (pod_path_file roleAgent (to_lower (\<lambda>s. s) (ae_osType sample_attr_env (sample_pod ''/var'')) = ''windows''))
        (ae_copies sample_attr_env)) = Inr ''log''"
  by code_simp

lemma validateResourceAttributes_passes_witness:
  "passes (validateResourceAttributes sample_parse (=) (\<lambda>s. s) sample_attr_env ''d'' roleAgent)"
proof -
  have r: "ReadFile (ae_disk sample_attr_env) p = Inr p" for p by (simp add: ReadFile_def sample_attr_env_def)
  have e: "sample_parse (path_join [testDir, ''d'', role_file roleAgent]) =
      Inr [sample_resource [(''host.name'', VStr ''a''), (''k8s.cluster.name'', VStr ''c'')]]" by code_simp
  have a: "sample_parse ''log'' = Inr [sample_resource [(''k8s.cluster.name'', VStr ''c''), (''host.name'', VStr ''b'')]]"
    by (simp add: sample_parse_def)
  have "passes (validateResourceAttributes sample_parse (=) (\<lambda>s. s) sample_attr_env ''d'' roleAgent) \<longleftrightarrow>
    ae_remove sample_attr_env ''/tmp/x'' = None \<and> (\<exists>act. checked_resource roleAgent [sample_resource [(''k8s.cluster.name'', VStr ''c''), (''host.name'', VStr ''b'')]] = Some act \<and>
       fst ` set (rm_attributes (sample_resource [(''host.name'', VStr ''a''), (''k8s.cluster.name'', VStr ''c'')])) = fst ` set act \<and>
       (\<forall>k \<in> {''k8s.cluster.name'', ''cloud.platform''}.
          rel_option (=) (attr_get (rm_attributes (sample_resource [(''host.name'', VStr ''a''), (''k8s.cluster.name'', VStr ''c'')])) k) (attr_get act k)))"
    by (rule validateResourceAttributes_passes [OF _ _ sample_copied r e a])
      (auto simp: sample_attr_env_def sample_resource_def checked_resource_def)
  moreover have "ae_remove sample_attr_env ''/tmp/x'' = None" by (simp add: sample_attr_env_def)
  ultimately show ?thesis by (auto simp: checked_resource_def sample_resource_def attr_get_def)
qed

text \<open>
  When the checks of the control plane pass: some collector runs there, and of each receiver at least one of these
  collectors reports the start and none an error.
\<close>

theorem runControlPlaneReceiverChecks_passes:
  "passes (runControlPlaneReceiverChecks pl receivers) \<longleftrightarrow>
    (\<exists>ps. GetControlPlaneAgentPods (pl_pods pl) (pl_nodes pl) = Inr ps \<and> ps \<noteq> [] \<and>
       list_all (\<lambda>r. CheckReceiverStarted (pl_uni pl) (pl_started pl r) ps r \<and>
         CheckComponentHealthForPods (pl_range pl) (pl_uni pl) (pl_health pl r) ps r = (None, [])) receivers)"
proof -
  have each: "passes (each_test f xs) \<longleftrightarrow> list_all (\<lambda>x. passes (f x)) xs" if "\<And>x. t_result (f x) = Inr ()"
    for f :: "string \<Rightarrow> (suite_action, unit) test" and xs
  proof (induction xs)
    case (Cons x xs)
    then show ?case using that [of x] by (simp add: passes_bind) (auto simp: passes_iff)
  qed simp
  have health: "health_result h = Inr () \<longleftrightarrow> h = (None, [])" for h
    by (cases h) (auto simp: health_result_def split: option.split)
  have both: "passes (bind_test (t_Run name m) (\<lambda>_. t_Run name' n)) \<longleftrightarrow> passes m \<and> passes n"
    for name name' and m n :: "(suite_action, unit) test"
    by (simp add: passes_bind)
  show ?thesis
    unfolding runControlPlaneReceiverChecks_def
    by (cases "GetControlPlaneAgentPods (pl_pods pl) (pl_nodes pl)")
      (auto simp: passes_do_run_bind WaitForScrapeInterval_def sleep_def each bind_test_result_Inr both health list_all_iff split: if_splits)
qed

end
