(* ===== verification/AgentLogs.thy ===== *)
theory AgentLogs
  imports SuiteHelpers RegexSearch Pods Helpers "HOL-Library.Sublist"
begin

section \<open>The logs of the agents\<close>

text \<open>
  \<open>testAgentLogs\<close> of \<open>functional_tests/functional/functional_test.go\<close>: a polled condition that walks the whole sink at
  every check and gathers what it sees in variables of the test, which the subtests after it look at. \<open>AsString\<close> of a
  value is part of \<open>pdata\<close> and an argument. A check sees the payloads that it has visited when its loop ends.
\<close>

record log_view =
  lw_hello :: "(attrs \<times> log_record) option" \<comment> \<open>resource and record of the last \<open>Hello World\<close>\<close>
  lw_excludePods :: bool
  lw_excludeNs :: bool
  lw_sourcetypes :: "string list"
  lw_indices :: "string list"
  lw_journald :: "string list"

definition start_view :: log_view where
  "start_view =
     \<lparr>lw_hello = None, lw_excludePods = True, lw_excludeNs = True, lw_sourcetypes = [], lw_indices = [], lw_journald = []\<rparr>"

definition str_of :: "(attr_value \<Rightarrow> string) \<Rightarrow> attrs \<Rightarrow> string \<Rightarrow> string option" where
  "str_of AsString a key = map_option AsString (attr_get a key)"

definition see_record :: "(attr_value \<Rightarrow> string) \<Rightarrow> attrs \<Rightarrow> log_view \<Rightarrow> log_record \<Rightarrow> log_view" where
  "see_record AsString resource v lr = (if AsString (lr_Body lr) = ''Hello World'' then v\<lparr>lw_hello := Some (resource, lr)\<rparr> else v)"

definition note_journald :: "(attr_value \<Rightarrow> string) \<Rightarrow> attrs \<Rightarrow> log_view \<Rightarrow> log_view" where
  "note_journald AsString a v =
     (if str_of AsString a ''com.splunk.source'' = Some ''/run/log/journal''
      then (case str_of AsString a ''com.splunk.sourcetype'' of Some s \<Rightarrow> v\<lparr>lw_journald := lw_journald v @ [s]\<rparr> | None \<Rightarrow> v)
      else v)"

definition note_sourcetype :: "(attr_value \<Rightarrow> string) \<Rightarrow> attrs \<Rightarrow> log_view \<Rightarrow> log_view" where
  "note_sourcetype AsString a v =
     (case str_of AsString a ''com.splunk.sourcetype'' of Some s \<Rightarrow> v\<lparr>lw_sourcetypes := lw_sourcetypes v @ [s]\<rparr> | None \<Rightarrow> v)"

definition note_index :: "(attr_value \<Rightarrow> string) \<Rightarrow> attrs \<Rightarrow> log_view \<Rightarrow> log_view" where
  "note_index AsString a v =
     (case str_of AsString a ''com.splunk.index'' of Some s \<Rightarrow> v\<lparr>lw_indices := lw_indices v @ [s]\<rparr> | None \<Rightarrow> v)"

definition note_excluded :: "(attr_value \<Rightarrow> string) \<Rightarrow> attrs \<Rightarrow> log_view \<Rightarrow> log_view" where
  "note_excluded AsString a v =
     (case str_of AsString a ''k8s.container.name'' of
        Some s \<Rightarrow>
          (if s = ''pod-w-index-w-ns-exclude'' then v\<lparr>lw_excludePods := False\<rparr>
           else if s = ''pod-w-exclude-wo-ns-exclude'' then v\<lparr>lw_excludeNs := False\<rparr> else v)
      | None \<Rightarrow> v)"

definition see_attributes :: "(attr_value \<Rightarrow> string) \<Rightarrow> attrs \<Rightarrow> log_view \<Rightarrow> log_view" where
  "see_attributes AsString a v =
     note_excluded AsString a (note_index AsString a (note_sourcetype AsString a (note_journald AsString a v)))"

definition see_resource :: "(attr_value \<Rightarrow> string) \<Rightarrow> log_view \<Rightarrow> resource_logs \<Rightarrow> log_view" where
  "see_resource AsString v rl =
     foldl (\<lambda>v sl. foldl (see_record AsString (rl_Attributes rl)) v (sl_Records sl))
       (see_attributes AsString (rl_Attributes rl) v) (rl_Scopes rl)"

definition see_sink :: "(attr_value \<Rightarrow> string) \<Rightarrow> log_view \<Rightarrow> logs list \<Rightarrow> log_view" where
  "see_sink AsString v sink = foldl (foldl (see_resource AsString)) v sink"

definition required_sourcetypes :: "string list" where
  "required_sourcetypes =
     [''kube:container:pod-w-index-wo-ns-index'', ''kube:container:pod-wo-index-w-ns-index'',
      ''kube:container:pod-wo-index-wo-ns-index'', ''sourcetype-anno'']"

definition agent_ready :: "log_view \<Rightarrow> bool" where
  "agent_ready v \<longleftrightarrow> lw_hello v \<noteq> None \<and> list_all (list_contains (lw_sourcetypes v)) required_sourcetypes"

definition agent_check :: "(attr_value \<Rightarrow> string) \<Rightarrow> logs list \<Rightarrow> log_view \<Rightarrow> check \<times> log_view" where
  "agent_check AsString sink v =
     (let v = see_sink AsString v sink in (Check (agent_ready v), v))"

text \<open>Polling as \<^const>\<open>eventually_checks\<close>, with the variables of the test when the condition is met.\<close>

fun eventually_state :: "('o \<Rightarrow> 's \<Rightarrow> check \<times> 's) \<Rightarrow> 'o list \<Rightarrow> 's \<Rightarrow> 's option" where
  "eventually_state f [] s = None"
| "eventually_state f (obs # rest) s =
     (case f obs s of
        (Abort e, s') \<Rightarrow> None
      | (Check True, s') \<Rightarrow> Some s'
      | (Check False, s') \<Rightarrow> eventually_state f rest s')"

subsection \<open>The subtests\<close>

definition source_pattern :: re where
  "source_pattern =
     Cat [re_word ''/var/log/pods/default_nodejs-test-'', Star re_dot, re_word ''/nodejs-test/0'', re_dot, re_word ''log'']"

definition pod_pattern :: re where
  "pod_pattern = Cat [re_word ''nodejs-test-'', Star re_dot]"

definition holds_of :: "('a \<Rightarrow> bool) \<Rightarrow> 'a option \<Rightarrow> bool" where
  "holds_of P x = (case x of None \<Rightarrow> False | Some a \<Rightarrow> P a)"

definition journald_subtest :: "log_view \<Rightarrow> bool" where
  "journald_subtest v \<longleftrightarrow>
     list_contains (lw_journald v) ''kube:journald:containerd.service'' \<and> list_contains (lw_journald v) ''kube:journald:kubelet.service''"

definition record_subtest :: "(attr_value \<Rightarrow> string) \<Rightarrow> log_view \<Rightarrow> bool" where
  "record_subtest AsString v =
     holds_of (\<lambda>(a, lr).
       str_of AsString a ''com.splunk.sourcetype'' = Some ''kube:container:nodejs-test'' \<and>
       holds_of (found_in source_pattern) (str_of AsString a ''com.splunk.source'') \<and>
       str_of AsString a ''com.splunk.index'' = Some ''main'' \<and>
       holds_of (found_in pod_pattern) (str_of AsString (lr_Attributes lr) ''k8s.pod.name'')) (lw_hello v)"

definition index_subtest :: "log_view \<Rightarrow> bool" where
  "index_subtest v \<longleftrightarrow> list_contains (lw_indices v) ''ns-anno'' \<and> list_contains (lw_indices v) ''pod-anno''"

definition sourcetype_subtest :: "log_view \<Rightarrow> bool" where
  "sourcetype_subtest v = list_all (list_contains (lw_sourcetypes v)) required_sourcetypes"

definition excluded_subtest :: "log_view \<Rightarrow> bool" where
  "excluded_subtest v \<longleftrightarrow> lw_excludePods v \<and> lw_excludeNs v"

definition metadata_subtest :: "log_view \<Rightarrow> bool" where
  "metadata_subtest v =
     holds_of (\<lambda>(a, lr). list_all (\<lambda>k. attr_get (lr_Attributes lr) k \<noteq> None)
       [''k8s.pod.name'', ''k8s.namespace.name'', ''k8s.container.name'', ''k8s.pod.uid'']) (lw_hello v)"

definition agent_subtests :: "(attr_value \<Rightarrow> string) \<Rightarrow> (string \<Rightarrow> string) \<Rightarrow> log_view \<Rightarrow> bool" where
  "agent_subtests AsString getenv v \<longleftrightarrow>
     (has_prefix (getenv ''K8S_VERSION'') ''v1.30'' \<or> journald_subtest v) \<and>
     record_subtest AsString v \<and> index_subtest v \<and> sourcetype_subtest v \<and> excluded_subtest v \<and> metadata_subtest v"

text \<open>Whether the test passes, given the sizes of the sink while it waits for logs and its contents at each check.\<close>

definition testAgentLogs :: "(attr_value \<Rightarrow> string) \<Rightarrow> (string \<Rightarrow> string) \<Rightarrow> nat list \<Rightarrow> logs list list \<Rightarrow> bool" where
  "testAgentLogs AsString getenv lens sinks \<longleftrightarrow>
     WaitForEntries 5 lens \<and>
     (case eventually_state (agent_check AsString) sinks start_view of
        None \<Rightarrow> False
      | Some v \<Rightarrow> agent_subtests AsString getenv v)"

section \<open>Properties\<close>

text \<open>
  The reference: what the last walk alone sees, without the variables that earlier walks have filled.
\<close>

definition fresh_view :: "(attr_value \<Rightarrow> string) \<Rightarrow> logs list \<Rightarrow> log_view" where
  "fresh_view AsString sink = see_sink AsString start_view sink"

definition same_view :: "log_view \<Rightarrow> log_view \<Rightarrow> bool" where
  "same_view v w \<longleftrightarrow>
     lw_hello v = lw_hello w \<and> lw_excludePods v = lw_excludePods w \<and> lw_excludeNs v = lw_excludeNs w \<and>
     set (lw_sourcetypes v) = set (lw_sourcetypes w) \<and> set (lw_indices v) = set (lw_indices w) \<and>
     set (lw_journald v) = set (lw_journald w)"

text \<open>What a walk adds to a view: the later of two hellos, the conjunction of the flags, one list behind the other.\<close>

definition add_view :: "log_view \<Rightarrow> log_view \<Rightarrow> log_view" where
  "add_view v w =
     \<lparr>lw_hello = (case lw_hello w of None \<Rightarrow> lw_hello v | Some h \<Rightarrow> Some h),
      lw_excludePods = (lw_excludePods v \<and> lw_excludePods w), lw_excludeNs = (lw_excludeNs v \<and> lw_excludeNs w),
      lw_sourcetypes = lw_sourcetypes v @ lw_sourcetypes w, lw_indices = lw_indices v @ lw_indices w,
      lw_journald = lw_journald v @ lw_journald w\<rparr>"

lemma add_view_monoid: "add_view v start_view = v" "add_view start_view v = v" "add_view (add_view u v) w = add_view u (add_view v w)"
  by (simp_all add: add_view_def start_view_def split: option.split)

lemma see_record_adds: "see_record AsString a v lr = add_view v (see_record AsString a start_view lr)"
  by (simp add: see_record_def add_view_def start_view_def)

lemma foldl_adds:
  assumes "\<And>v x. f v x = add_view v (f start_view x)"
  shows "foldl f v xs = add_view v (foldl f start_view xs)"
proof (induction xs arbitrary: v)
  case (Cons x xs)
  show ?case using Cons.IH [of "f v x"] Cons.IH [of "f start_view x"] assms [of v x] by (simp add: add_view_monoid)
qed (simp add: add_view_monoid)

lemma adds_after:
  assumes "\<And>v. f v = add_view v (f start_view)" and "\<And>v. g v = add_view v (g start_view)"
  shows "g (f v) = add_view v (g (f start_view))"
  using assms(1) [of v] assms(2) [of "f v"] assms(2) [of "f start_view"] by (simp add: add_view_monoid(3))

lemma note_adds:
  "note_journald AsString a v = add_view v (note_journald AsString a start_view)"
  "note_sourcetype AsString a v = add_view v (note_sourcetype AsString a start_view)"
  "note_index AsString a v = add_view v (note_index AsString a start_view)"
  "note_excluded AsString a v = add_view v (note_excluded AsString a start_view)"
  by (simp_all add: note_journald_def note_sourcetype_def note_index_def note_excluded_def add_view_def start_view_def split: option.split)

lemma see_attributes_adds: "see_attributes AsString a v = add_view v (see_attributes AsString a start_view)"
  unfolding see_attributes_def
  by (rule adds_after [where g = "note_excluded AsString a"], rule adds_after [where g = "note_index AsString a"],
      rule adds_after [where g = "note_sourcetype AsString a"]) (rule note_adds)+

lemma see_resource_adds: "see_resource AsString v rl = add_view v (see_resource AsString start_view rl)"
proof -
  let ?walk = "\<lambda>v. foldl (\<lambda>v sl. foldl (see_record AsString (rl_Attributes rl)) v (sl_Records sl)) v (rl_Scopes rl)"
  have walk: "?walk v = add_view v (?walk start_view)" for v
    by (rule foldl_adds) (rule foldl_adds, rule see_record_adds)
  have "see_resource AsString v rl = add_view (see_attributes AsString (rl_Attributes rl) v) (?walk start_view)" for v
    unfolding see_resource_def by (rule walk)
  then show ?thesis by (simp add: see_attributes_adds [of _ _ v] add_view_monoid(3))
qed

lemma see_sink_adds: "see_sink AsString v sink = add_view v (fresh_view AsString sink)"
  unfolding see_sink_def fresh_view_def by (rule foldl_adds) (rule foldl_adds, rule see_resource_adds)

lemma fresh_view_append: "fresh_view AsString (xs @ ys) = add_view (fresh_view AsString xs) (fresh_view AsString ys)"
  using see_sink_adds [of AsString "fresh_view AsString xs" ys] by (simp add: fresh_view_def see_sink_def)

text \<open>Walking over more of the same sink leaves the view that the last walk alone has.\<close>

lemma same_view_simps: "same_view v v" "same_view u v \<Longrightarrow> same_view v w \<Longrightarrow> same_view u w"
  by (simp_all add: same_view_def)

lemma walk_grown:
  assumes "same_view v (fresh_view AsString xs)"
  shows "same_view (see_sink AsString v (xs @ ys)) (fresh_view AsString (xs @ ys))"
  using assms unfolding see_sink_adds fresh_view_append
  by (auto simp: same_view_def add_view_def split: option.split)

text \<open>What the patterns find.\<close>

lemma found_pod: "found_in pod_pattern (u @ ''nodejs-test-'' @ x)"
proof -
  have "''nodejs-test-'' \<in> lang pod_pattern" unfolding pod_pattern_def lang_gap by (rule exI [of _ "[]"]) simp
  then show ?thesis unfolding found_in_iff by blast
qed

lemma found_source:
  assumes "CHR 0x0A \<notin> set d" and "c \<noteq> CHR 0x0A"
  shows "found_in source_pattern (u @ (''/var/log/pods/default_nodejs-test-'' @ d @ ''/nodejs-test/0'' @ [c] @ ''log'') @ x)"
proof -
  have "''/var/log/pods/default_nodejs-test-'' @ d @ ''/nodejs-test/0'' @ [c] @ ''log'' \<in> lang source_pattern"
    unfolding source_pattern_def lang_gap using assms by blast
  then show ?thesis unfolding found_in_iff by blast
qed

text \<open>A sink that only grows from check to check.\<close>

fun grows :: "logs list \<Rightarrow> logs list list \<Rightarrow> bool" where
  "grows sink [] = True"
| "grows sink (sink' # sinks) = (prefix sink sink' \<and> grows sink' sinks)"

lemma same_view_checks:
  assumes "same_view v w"
  shows "agent_ready v = agent_ready w" "agent_subtests AsString getenv v = agent_subtests AsString getenv w"
  using assms
  by (simp_all add: same_view_def agent_ready_def agent_subtests_def journald_subtest_def record_subtest_def index_subtest_def
      sourcetype_subtest_def excluded_subtest_def metadata_subtest_def list_contains_iff list_all_iff)

lemma polled_view:
  assumes "same_view v (fresh_view AsString sink)" and "grows sink sinks"
  shows "rel_option same_view (eventually_state (agent_check AsString) sinks v)
     (map_option (fresh_view AsString) (List.find (\<lambda>s. agent_ready (fresh_view AsString s)) sinks))"
  using assms
proof (induction sinks arbitrary: v sink)
  case (Cons s sinks)
  from Cons.prems(2) obtain ys where s: "s = sink @ ys" and rest: "grows s sinks" by (auto simp: prefix_def)
  have walk: "same_view (see_sink AsString v s) (fresh_view AsString s)"
    using walk_grown [OF Cons.prems(1)] by (simp add: s)
  with Cons.IH [OF walk rest] show ?case
    by (simp add: agent_check_def Let_def same_view_checks(1) [OF walk])
qed simp

text \<open>
  C10: what earlier checks have left in the variables of the agent log test does not matter as long as the sink only
  grows: the test passes exactly when its subtests pass on what a fresh walk sees at the first check at which
  the expected logs are there.
\<close>

theorem testAgentLogs_last_walk:
  assumes "grows [] sinks"
  shows "testAgentLogs AsString getenv lens sinks \<longleftrightarrow>
    WaitForEntries 5 lens \<and>
    (case List.find (\<lambda>s. agent_ready (fresh_view AsString s)) sinks of
       None \<Rightarrow> False
     | Some s \<Rightarrow> agent_subtests AsString getenv (fresh_view AsString s))"
proof -
  have "same_view start_view (fresh_view AsString [])" by (simp add: fresh_view_def see_sink_def same_view_simps)
  from polled_view [OF this assms]
  have "rel_option same_view (eventually_state (agent_check AsString) sinks start_view)
     (map_option (fresh_view AsString) (List.find (\<lambda>s. agent_ready (fresh_view AsString s)) sinks))" .
  then show ?thesis
    unfolding testAgentLogs_def
    by (cases "eventually_state (agent_check AsString) sinks start_view";
        cases "List.find (\<lambda>s. agent_ready (fresh_view AsString s)) sinks")
      (auto simp: same_view_checks)
qed

definition sample_log_sink :: "logs list" where
  "sample_log_sink =
     (let rl = (\<lambda>a rs. \<lparr>rl_Attributes = map (\<lambda>(k, v). (k, VStr v)) a, rl_rest = [],
            rl_Scopes = [\<lparr>sl_Attributes = [], sl_rest = [], sl_Records = rs\<rparr>]\<rparr>);
          hello = \<lparr>lr_Attributes = map (\<lambda>k. (k, VStr ''nodejs-test-7'')) [''k8s.pod.name'', ''k8s.namespace.name'', ''k8s.container.name'',
            ''k8s.pod.uid''], lr_Body = VStr ''Hello World'', lr_rest = []\<rparr>
      in [map (\<lambda>s. rl [(''com.splunk.source'', ''/run/log/journal''), (''com.splunk.sourcetype'', s)] [])
            [''kube:journald:containerd.service'', ''kube:journald:kubelet.service''] @
          map (\<lambda>s. rl [(''com.splunk.sourcetype'', s), (''com.splunk.index'', ''ns-anno'')] []) required_sourcetypes @
          [rl [(''com.splunk.index'', ''pod-anno'')] [],
           rl [(''com.splunk.sourcetype'', ''kube:container:nodejs-test''), (''com.splunk.index'', ''main''),
               (''com.splunk.source'', ''/var/log/pods/default_nodejs-test-7/nodejs-test/0.log'')] [hello]]])"

lemma sample_walk:
  "agent_ready (fresh_view attr_str sample_log_sink)" "\<not> agent_ready (fresh_view attr_str [])"
  "journald_subtest (fresh_view attr_str sample_log_sink)" "index_subtest (fresh_view attr_str sample_log_sink)"
  "sourcetype_subtest (fresh_view attr_str sample_log_sink)" "excluded_subtest (fresh_view attr_str sample_log_sink)"
  "metadata_subtest (fresh_view attr_str sample_log_sink)"
  by code_simp+

lemma sample_record: "record_subtest attr_str (fresh_view attr_str sample_log_sink)"
proof -
  have "map_option (\<lambda>(a, lr). (str_of attr_str a ''com.splunk.sourcetype'', str_of attr_str a ''com.splunk.source'',
      str_of attr_str a ''com.splunk.index'', str_of attr_str (lr_Attributes lr) ''k8s.pod.name''))
      (lw_hello (fresh_view attr_str sample_log_sink)) =
    Some (Some ''kube:container:nodejs-test'', Some ''/var/log/pods/default_nodejs-test-7/nodejs-test/0.log'', Some ''main'',
      Some ''nodejs-test-7'')"
    by code_simp
  moreover have "found_in source_pattern ''/var/log/pods/default_nodejs-test-7/nodejs-test/0.log''" "found_in pod_pattern ''nodejs-test-7''"
    using found_source [of "''7''" "CHR ''.''" "[]" "[]"] found_pod [of "[]" "''7''"] by simp_all
  ultimately show ?thesis
    by (auto simp: record_subtest_def holds_of_def)
qed

lemma testAgentLogs_last_walk_witness: "testAgentLogs attr_str (\<lambda>_. []) [0, 5] [[], sample_log_sink]"
proof -
  have w: "WaitForEntries 5 [0, 5]" by code_simp
  show ?thesis
    using sample_walk sample_record w
    by (subst testAgentLogs_last_walk) (simp_all add: agent_subtests_def)
qed

end
