(* ===== verification/FunctionalChecks.thy ===== *)
theory FunctionalChecks
  imports SuiteHelpers MetricAssert HostedChecks EntitiesTest AgentLogs Golden AttrPatterns
begin

section \<open>Further checks of the functional tests\<close>

text \<open>
  Subtests of \<open>functional_tests/functional/functional_test.go\<close> and \<open>prometheus_test.go\<close>: the Kubernetes objects, the metrics
  of the agents with the activity that some of them need, the metrics of the annotated application, the upgrade of the
  target allocator, and the health of the components. \<open>pmetrictest\<close>, package \<open>golden\<close> and the cluster are arguments.
\<close>

subsection \<open>Kubernetes objects\<close>

record object_view =
  ov_kinds :: "string list"
  ov_sourceTypes :: "string list"
  ov_custom1 :: bool
  ov_custom2 :: bool

definition note_kind :: "(attr_value \<Rightarrow> string) \<Rightarrow> log_record \<Rightarrow> object_view \<Rightarrow> object_view" where
  "note_kind AsString lr v =
     (case lr_Body lr of
        VMap m \<Rightarrow> (case str_of AsString m ''kind'' of Some kind \<Rightarrow> v\<lparr>ov_kinds := ov_kinds v @ [kind]\<rparr> | None \<Rightarrow> v)
      | _ \<Rightarrow> v)"

definition see_object :: "(attr_value \<Rightarrow> string) \<Rightarrow> object_view \<Rightarrow> log_record \<Rightarrow> object_view" where
  "see_object AsString v lr =
     (let v = note_kind AsString lr v;
          v = (if str_of AsString (lr_Attributes lr) ''customfield1'' = Some ''customvalue1'' then v\<lparr>ov_custom1 := True\<rparr> else v)
      in if str_of AsString (lr_Attributes lr) ''customfield2'' = Some ''customvalue2'' then v\<lparr>ov_custom2 := True\<rparr> else v)"

definition see_object_resource :: "(attr_value \<Rightarrow> string) \<Rightarrow> object_view \<Rightarrow> resource_logs \<Rightarrow> object_view" where
  "see_object_resource AsString v rl =
     (let v = foldl (\<lambda>v sl. foldl (see_object AsString) v (sl_Records sl)) v (rl_Scopes rl)
      in case str_of AsString (rl_Attributes rl) ''com.splunk.sourcetype'' of
           Some s \<Rightarrow> v\<lparr>ov_sourceTypes := ov_sourceTypes v @ [s]\<rparr> | None \<Rightarrow> v)"

text \<open>\<open>sink\<close> is what the loop over the growing sink has visited when it ends.\<close>

definition testK8sObjects :: "(attr_value \<Rightarrow> string) \<Rightarrow> nat list \<Rightarrow> logs list \<Rightarrow> bool" where
  "testK8sObjects AsString lens sink =
     (WaitForEntries 5 lens \<and>
      (let v = foldl (foldl (see_object_resource AsString))
             \<lparr>ov_kinds = [], ov_sourceTypes = [], ov_custom1 = False, ov_custom2 = False\<rparr> sink
       in list_all (list_contains (ov_kinds v)) [''Pod'', ''Namespace'', ''Node''] \<and>
          list_all (list_contains (ov_sourceTypes v)) [''kube:object:pods'', ''kube:object:namespaces'', ''kube:object:nodes''] \<and>
          ov_custom1 v \<and> ov_custom2 v))"

subsection \<open>Activity for the internal metrics\<close>

text \<open>What the waits observe: the errors of the successive \<open>Get\<close> calls.\<close>

record telemetry_obs =
  to_namespace :: "string option list"
  to_account :: "string option list"
  to_pod :: "string option list"
  to_pod_gone :: "string option list"
  to_namespace_gone :: "string option list"

definition generateRequiredTelemetry :: "suite_env \<Rightarrow> telemetry_obs \<Rightarrow> (suite_action, unit) test" where
  "generateRequiredTelemetry se ob =
     bind_test (assert_test (su_lookup se ''KUBECONFIG'' \<noteq> None) ''Should be true'') (\<lambda>_.
     do_run
       (bind_run (kube_client se (getenv se ''KUBECONFIG'')) (\<lambda>_.
        bind_run (waiting (Api Creating ''Namespace'' [] ''test-namespace'')
          (CreateNamespace (su_answer se (Api Creating ''Namespace'' [] ''test-namespace'')) (to_namespace ob))) (\<lambda>_.
        bind_run (waiting (Checking ''default service account'') (WaitForDefaultServiceAccount (to_account ob))) (\<lambda>_.
        bind_run (waiting (Api Creating ''Pod'' ''test-namespace'' ''test-pod'')
          (CreatePod (su_answer se (Api Creating ''Pod'' ''test-namespace'' ''test-pod'')) (to_pod ob))) (\<lambda>_.
        bind_run (waiting (Api Deleting ''Pod'' ''test-namespace'' ''test-pod'')
          (DeletePod (su_answer se (Api Deleting ''Pod'' ''test-namespace'' ''test-pod'')) (to_pod_gone ob))) (\<lambda>_.
        bind_run (act se (Api Updating ''Namespace'' [] ''test-namespace'')) (\<lambda>_.
          waiting (Api Deleting ''Namespace'' [] ''test-namespace'')
            (DeleteNamespace (su_no_match se) (su_answer se (Api Deleting ''Namespace'' [] ''test-namespace''))
              (to_namespace_gone ob))))))))))"

subsection \<open>Comparison with golden metrics\<close>

datatype metric_option =
    IgnoreTimestamp
  | IgnoreStartTimestamp
  | IgnoreMetricAttributeValue string "string list"
  | IgnoreMetricValues
  | ChangeResourceAttributeValue string "string \<Rightarrow> string"
  | IgnoreScopeVersion
  | IgnoreResourceMetricsOrder
  | IgnoreMetricsOrder
  | IgnoreScopeMetricsOrder
  | IgnoreMetricDataPointsOrder
  | IgnoreDatapointAttributesOrder
  | IgnoreSubsequentDataPoints "string list"

definition replaceWithStar :: "string \<Rightarrow> string" where
  "replaceWithStar s = ''*''"

definition comparison_options :: "string list \<Rightarrow> metric_option list" where
  "comparison_options metricNames =
     [IgnoreTimestamp, IgnoreStartTimestamp, IgnoreMetricAttributeValue ''container.id'' metricNames,
      IgnoreMetricAttributeValue ''k8s.daemonset.uid'' metricNames,
      IgnoreMetricAttributeValue ''k8s.deployment.uid'' metricNames,
      IgnoreMetricAttributeValue ''k8s.pod.uid'' [], IgnoreMetricAttributeValue ''k8s.pod.name'' [],
      IgnoreMetricAttributeValue ''k8s.container.name'' metricNames,
      IgnoreMetricAttributeValue ''pod_identifier'' metricNames,
      IgnoreMetricAttributeValue ''otelcol_signal'' metricNames,
      IgnoreMetricAttributeValue ''k8s.replicaset.uid'' metricNames,
      IgnoreMetricAttributeValue ''k8s.replicaset.name'' metricNames,
      IgnoreMetricAttributeValue ''k8s.namespace.name'' metricNames,
      IgnoreMetricAttributeValue ''k8s.namespace.uid'' metricNames,
      IgnoreMetricAttributeValue ''k8s.node.name'' metricNames,
      IgnoreMetricAttributeValue ''container.image.name'' metricNames,
      IgnoreMetricAttributeValue ''container.image.tag'' metricNames,
      IgnoreMetricAttributeValue ''k8s.node.uid'' metricNames,
      IgnoreMetricAttributeValue ''net.host.name'' metricNames,
      IgnoreMetricAttributeValue ''processor'' metricNames,
      IgnoreMetricAttributeValue ''service.instance.id'' [],
      IgnoreMetricAttributeValue ''service.version'' metricNames,
      IgnoreMetricAttributeValue ''receiver'' metricNames, IgnoreMetricAttributeValue ''transport'' metricNames,
      IgnoreMetricAttributeValue ''exporter'' metricNames,
      IgnoreMetricAttributeValue ''server.address'' metricNames,
      IgnoreMetricAttributeValue ''com.splunk.sourcetype'' metricNames,
      IgnoreMetricAttributeValue ''device'' metricNames, IgnoreMetricValues,
      ChangeResourceAttributeValue ''k8s.container.name'' replaceWithStar,
      ChangeResourceAttributeValue ''k8s.deployment.name'' shortenNames,
      ChangeResourceAttributeValue ''k8s.pod.name'' shortenNames,
      ChangeResourceAttributeValue ''k8s.replicaset.name'' shortenNames,
      ChangeResourceAttributeValue ''k8s.deployment.uid'' replaceWithStar,
      ChangeResourceAttributeValue ''k8s.pod.uid'' replaceWithStar,
      ChangeResourceAttributeValue ''k8s.replicaset.uid'' replaceWithStar,
      ChangeResourceAttributeValue ''container.id'' replaceWithStar,
      ChangeResourceAttributeValue ''container.image.tag'' replaceWithStar,
      ChangeResourceAttributeValue ''k8s.node.uid'' replaceWithStar,
      ChangeResourceAttributeValue ''k8s.namespace.uid'' replaceWithStar,
      ChangeResourceAttributeValue ''k8s.daemonset.uid'' replaceWithStar,
      ChangeResourceAttributeValue ''container.image.name'' containerImageShorten,
      ChangeResourceAttributeValue ''host.name'' replaceWithStar, IgnoreScopeVersion,
      IgnoreResourceMetricsOrder, IgnoreMetricsOrder, IgnoreScopeMetricsOrder, IgnoreMetricDataPointsOrder,
      IgnoreDatapointAttributesOrder]"

record metric_env =
  me_read :: "fs \<Rightarrow> string \<Rightarrow> metrics result"
  me_write :: "string \<Rightarrow> metrics \<Rightarrow> fs \<Rightarrow> string option \<times> fs"
  me_compare :: "metric_option list \<Rightarrow> metrics \<Rightarrow> metrics \<Rightarrow> string option"
  me_keys :: "string list \<Rightarrow> string list" \<comment> \<open>the order in which the runtime hands out the keys of a map\<close>
  me_env :: process_env

definition preparePodMetricsComparison :: "metrics \<Rightarrow> metrics \<Rightarrow> string \<Rightarrow> metrics \<times> metrics" where
  "preparePodMetricsComparison expected actual podNamePrefix =
     (RetainNumberMetricDatapointsForPod expected podNamePrefix, RetainNumberMetricDatapointsForPod actual podNamePrefix)"

definition tryMetricsComparison :: "metric_env \<Rightarrow> metrics \<Rightarrow> metrics \<Rightarrow> string list \<Rightarrow> string option" where
  "tryMetricsComparison me expected actual podNamePrefix =
     (let compareAllDatapoints = length podNamePrefix > 0;
          (expected, actual) =
            (if compareAllDatapoints then preparePodMetricsComparison expected actual (hd podNamePrefix) else (expected, actual));
          metricNames = GetMetricNames (me_keys me) expected;
          options = comparison_options metricNames @
            (if \<not> compareAllDatapoints then [IgnoreSubsequentDataPoints metricNames] else [])
      in me_compare me options expected actual)"

text \<open>The wait may not return, which is \<^const>\<open>None\<close>; three minutes in nanoseconds.\<close>

definition testAgentMetricsTemplate ::
  "metric_env \<Rightarrow> fs \<Rightarrow> (nat \<Rightarrow> int) \<Rightarrow> (nat \<Rightarrow> metrics list) \<Rightarrow> int \<Rightarrow> string \<Rightarrow> string \<Rightarrow> string \<Rightarrow> string list \<Rightarrow>
     (unit result \<times> fs) option"
where
  "testAgentMetricsTemplate me d clock sink now expectedValuesDir expectedFileName targetMetric podNamePrefix =
     (let expectedMetricsFile = path_join [testDir, expectedValuesDir, expectedFileName]
      in case me_read me d expectedMetricsFile of
           Inl e \<Rightarrow> Some (Inl (''Failed to read expected metrics'' @ e), d)
         | Inr expectedMetrics \<Rightarrow>
             (case SelectMetricSetWithTimeout clock sink now (seconds 180) expectedMetrics targetMetric of
                None \<Rightarrow> None
              | Some NoPayload \<Rightarrow> Some (Inl ''No metrics batch found'', d)
              | Some (Selected selectedMetrics exactMatch) \<Rightarrow>
                  (case tryMetricsComparison me expectedMetrics selectedMetrics podNamePrefix of
                     None \<Rightarrow> Some (Inr (), d)
                   | Some e \<Rightarrow>
                       (case MaybeUpdateExpectedMetricsResults (me_write me) (me_env me) expectedMetricsFile selectedMetrics d of
                          (Some e', d') \<Rightarrow> Some (Inl e', d')
                        | (None, d') \<Rightarrow> Some (Inl (''Metric comparison failed'' @ e), d')))))"

text \<open>The three subtests, each with the golden file, the target metric and the prefix of the pod.\<close>

definition agent_metric_tests :: "(string \<times> string \<times> string \<times> string list) list" where
  "agent_metric_tests =
     [(''internal metrics'', ''expected_internal_metrics.yaml'', ''otelcol_otelsvc_k8s_pod_updated'', []),
      (''kubelet_stats metrics'', ''expected_kubelet_stats_metrics.yaml'', ''container.memory.usage'', [kindAgentPodNamePrefix]),
      (''host_metrics'', ''expected_host_metrics.yaml'', ''system.memory.usage'', [])]"

definition testK8sClusterReceiverMetrics ::
  "assert_env \<Rightarrow> fs \<Rightarrow> (nat \<Rightarrow> int) \<Rightarrow> (nat \<Rightarrow> metrics list) \<Rightarrow> int \<Rightarrow> string \<Rightarrow> (snapshot_outcome \<times> fs) option"
where
  "testK8sClusterReceiverMetrics env d clock sink now expectedValuesDir =
     AssertMetricsSnapshot env d clock sink now (seconds 180) ''k8s.pod.phase''
       (path_join [testDir, expectedValuesDir, ''expected_cluster_receiver_assertion.yaml''])
       [WithWaitForSnapshotMatch,
        WithVolatileAttributes (ExtendMetricAssertionAttrs [] [''k8s.container.status.last_terminated_reason'']),
        WithRegexAttributes CommonK8sMetricAssertionRegexAttrs,
        WithFirstDatapointOnly [''k8s.container.ready'', ''k8s.container.restarts'', ''k8s.pod.phase'']]"

definition hec_metric_names :: "string list" where
  "hec_metric_names =
     [''container.cpu.time'', ''container.filesystem.available'', ''container.filesystem.capacity'',
      ''container.filesystem.usage'', ''container.memory.available'', ''container.memory.major_page_faults'',
      ''container.memory.page_faults'', ''container.memory.rss'', ''container.memory.usage'',
      ''container.memory.working_set'', ''k8s.node.network.errors'', ''k8s.node.network.io'',
      ''k8s.pod.cpu.time'', ''k8s.pod.filesystem.available'', ''k8s.pod.filesystem.capacity'',
      ''k8s.pod.filesystem.usage'', ''k8s.pod.memory.available'', ''k8s.pod.memory.major_page_faults'',
      ''k8s.pod.memory.page_faults'', ''k8s.pod.memory.rss'', ''k8s.pod.memory.usage'',
      ''k8s.pod.memory.working_set'', ''k8s.pod.network.errors'', ''k8s.pod.network.io'',
      ''otelcol_exporter_queue_size'', ''otelcol_exporter_sent_metric_points'',
      ''otelcol_exporter_sent_log_records'', ''otelcol_otelsvc_k8s_ip_lookup_miss'',
      ''otelcol_processor_memory_limiter_accepted_log_records'', ''otelcol_otelsvc_k8s_namespace_added'',
      ''otelcol_otelsvc_k8s_pod_added'', ''otelcol_otelsvc_k8s_pod_table_size'',
      ''otelcol_otelsvc_k8s_pod_updated'', ''otelcol_process_cpu_seconds'', ''otelcol_process_memory_rss'',
      ''otelcol_process_runtime_heap_alloc_bytes'', ''otelcol_process_runtime_total_alloc_bytes'',
      ''otelcol_process_runtime_total_sys_memory_bytes'', ''otelcol_process_uptime'',
      ''otelcol_processor_memory_limiter_accepted_metric_points'', ''otelcol_receiver_accepted_metric_points'',
      ''otelcol_receiver_refused_metric_points'', ''otelcol_scraper_errored_metric_points'',
      ''otelcol_scraper_scraped_metric_points'', ''system.cpu.load_average.15m'',
      ''system.cpu.load_average.1m'', ''system.cpu.load_average.5m'', ''system.cpu.time'', ''system.disk.io'',
      ''system.disk.io_time'', ''system.disk.merged'', ''system.disk.operation_time'',
      ''system.disk.operations'', ''system.disk.pending_operations'', ''system.disk.weighted_io_time'',
      ''system.memory.usage'', ''system.network.connections'', ''system.network.dropped'',
      ''system.network.errors'', ''system.network.io'', ''system.network.packets'', ''system.paging.faults'',
      ''system.paging.operations'', ''system.paging.usage'', ''system.processes.count'',
      ''system.processes.created'']"

definition testHECMetrics :: "metrics list list \<Rightarrow> bool" where
  "testHECMetrics = checkMetricsAreEmitted hec_metric_names"

subsection \<open>The annotated application\<close>

definition annotation_metric_names :: "string list" where
  "annotation_metric_names = [''test_requests_total'', ''test_connections_active'', ''test_uptime_seconds_total'']"

definition by_annotation :: "metric \<Rightarrow> bool" where
  "by_annotation m \<longleftrightarrow> \<not> metricDataPointsHaveKey m ''pod'' \<and> \<not> metricDataPointsHaveKey m ''service''"

definition by_pod_monitor :: "metric \<Rightarrow> bool" where
  "by_pod_monitor m \<longleftrightarrow> metricDataPointsHaveKey m ''pod'' \<and> \<not> metricDataPointsHaveKey m ''service'' \<and>
     metricDataPointsHaveAttrs m [''service.name'', ''default/pod-monitor'']"

definition by_service_monitor :: "metric \<Rightarrow> bool" where
  "by_service_monitor m \<longleftrightarrow> metricDataPointsHaveKey m ''pod'' \<and> metricDataPointsHaveKey m ''service'' \<and>
     metricDataPointsHaveAttrs m [''service.name'', ''prometheus-annotation-service'']"

definition testPrometheusAnnotationMetrics :: "metrics list list \<Rightarrow> metrics list list \<Rightarrow> metrics list list \<Rightarrow> bool" where
  "testPrometheusAnnotationMetrics annotation podMonitor serviceMonitor \<longleftrightarrow>
     checkMetrics annotation_metric_names (Some (\<lambda>_. by_annotation)) annotation \<and>
     checkMetrics annotation_metric_names (Some (\<lambda>_. by_pod_monitor)) podMonitor \<and>
     checkMetrics annotation_metric_names (Some (\<lambda>_. by_service_monitor)) serviceMonitor"

subsection \<open>Upgrade and health\<close>

text \<open>The listing of a kind gives the kind's text and the names of the resources.\<close>

definition upgrade_listings :: "string list" where
  "upgrade_listings = [''ClusterRoles'', ''ClusterRoleBindings'', ''ConfigMaps'', ''Deployments'', ''Services'', ''ServiceAccounts'']"

definition testTargetAllocatorUpgrade :: "suite_env \<Rightarrow> (string \<Rightarrow> (string \<times> string option list) result) \<Rightarrow> (suite_action, unit) run" where
  "testTargetAllocatorUpgrade se listing =
     bind_run (pure_run (requireEnv (su_lookup se) ''KUBECONFIG'')) (\<lambda>testKubeConfig.
     bind_run (kube_client se testKubeConfig) (\<lambda>_.
       each_run (\<lambda>r. pure_run (bind_res (listing r) (\<lambda>(kind, names). validateTargetAllocatorResourceUpgrade kind names)))
         upgrade_listings))"

text \<open>\<open>health\<close> is what the health check of a selector and component finds.\<close>

definition component_checks :: "(string \<Rightarrow> string \<Rightarrow> health_outcome) \<Rightarrow> (string \<times> string) list \<Rightarrow> (suite_action, unit) test" where
  "component_checks health cs =
     t_Run ''component error logs checks''
       (do_run (each_run (\<lambda>(selector, component). pure_run (health_result (health selector component))) cs))"

definition testLocalClusterComponentHealth ::
  "suite_env \<Rightarrow> (string \<Rightarrow> string \<Rightarrow> health_outcome) \<Rightarrow> plane_env \<Rightarrow> (suite_action, unit) test"
where
  "testLocalClusterComponentHealth se health pl =
     bind_test (pure_test (requireEnv (su_lookup se) ''KUBECONFIG'')) (\<lambda>testKubeConfig.
     bind_test (do_run (kube_client se testKubeConfig)) (\<lambda>_.
     bind_test (component_checks health
       [(AgentLabelSelector, ''kubeletstatsreceiver''), (clusterReceiverLabelSelector, ''k8sclusterreceiver'')]) (\<lambda>_.
       t_Run ''control plane receiver checks'' (runControlPlaneReceiverChecks pl (controlPlaneReceiversForEnv kindTestKubeEnv)))))"

section \<open>Properties\<close>

subsection \<open>Kubernetes objects\<close>

text \<open>What the walk has gathered, as sets.\<close>

definition kinds_of :: "(attr_value \<Rightarrow> string) \<Rightarrow> log_record list \<Rightarrow> string set" where
  "kinds_of AsString lrs = {kind. \<exists>lr \<in> set lrs. \<exists>m. lr_Body lr = VMap m \<and> str_of AsString m ''kind'' = Some kind}"

definition has_custom :: "(attr_value \<Rightarrow> string) \<Rightarrow> string \<Rightarrow> string \<Rightarrow> log_record list \<Rightarrow> bool" where
  "has_custom AsString key v lrs \<longleftrightarrow> (\<exists>lr \<in> set lrs. str_of AsString (lr_Attributes lr) key = Some v)"

definition sourcetypes_of :: "(attr_value \<Rightarrow> string) \<Rightarrow> resource_logs list \<Rightarrow> string set" where
  "sourcetypes_of AsString rls = {s. \<exists>rl \<in> set rls. str_of AsString (rl_Attributes rl) ''com.splunk.sourcetype'' = Some s}"

lemma note_kind_simps:
  "set (ov_kinds (note_kind f lr v)) = set (ov_kinds v) \<union> kinds_of f [lr]" "ov_sourceTypes (note_kind f lr v) = ov_sourceTypes v"
  "ov_custom1 (note_kind f lr v) = ov_custom1 v" "ov_custom2 (note_kind f lr v) = ov_custom2 v"
  by (auto simp: note_kind_def kinds_of_def split: attr_value.split option.split)

lemma see_object_simps:
  "set (ov_kinds (see_object f v lr)) = set (ov_kinds v) \<union> kinds_of f [lr]" "ov_sourceTypes (see_object f v lr) = ov_sourceTypes v"
  "ov_custom1 (see_object f v lr) \<longleftrightarrow> ov_custom1 v \<or> has_custom f ''customfield1'' ''customvalue1'' [lr]"
  "ov_custom2 (see_object f v lr) \<longleftrightarrow> ov_custom2 v \<or> has_custom f ''customfield2'' ''customvalue2'' [lr]"
  by (simp_all add: see_object_def Let_def note_kind_simps has_custom_def)

lemma gathered_Cons:
  "kinds_of f (lr # lrs) = kinds_of f [lr] \<union> kinds_of f lrs" "has_custom f k v (lr # lrs) \<longleftrightarrow> has_custom f k v [lr] \<or> has_custom f k v lrs"
  "sourcetypes_of f (rl # rls) = sourcetypes_of f [rl] \<union> sourcetypes_of f rls"
  by (auto simp: kinds_of_def has_custom_def sourcetypes_of_def)

lemma gathered_append:
  "kinds_of f (xs @ ys) = kinds_of f xs \<union> kinds_of f ys" "has_custom f k v (xs @ ys) \<longleftrightarrow> has_custom f k v xs \<or> has_custom f k v ys"
  "sourcetypes_of f (as @ bs) = sourcetypes_of f as \<union> sourcetypes_of f bs"
  by (auto simp: kinds_of_def has_custom_def sourcetypes_of_def)

lemma gathered_Nil [simp]: "kinds_of f [] = {}" "\<not> has_custom f k v []" "sourcetypes_of f [] = {}"
  by (simp_all add: kinds_of_def has_custom_def sourcetypes_of_def)

text \<open>A view that has gathered the given records and resources on top of another one.\<close>

definition gathered :: "(attr_value \<Rightarrow> string) \<Rightarrow> log_record list \<Rightarrow> resource_logs list \<Rightarrow> object_view \<Rightarrow> object_view \<Rightarrow> bool" where
  "gathered f lrs rls v w \<longleftrightarrow>
     set (ov_kinds w) = set (ov_kinds v) \<union> kinds_of f lrs \<and> set (ov_sourceTypes w) = set (ov_sourceTypes v) \<union> sourcetypes_of f rls \<and>
     (ov_custom1 w \<longleftrightarrow> ov_custom1 v \<or> has_custom f ''customfield1'' ''customvalue1'' lrs) \<and>
     (ov_custom2 w \<longleftrightarrow> ov_custom2 v \<or> has_custom f ''customfield2'' ''customvalue2'' lrs)"

lemma gathered_refl: "gathered f [] [] v v"
  by (simp add: gathered_def)

lemma gathered_trans: "gathered f lrs rls u v \<Longrightarrow> gathered f lrs' rls' v w \<Longrightarrow> gathered f (lrs @ lrs') (rls @ rls') u w"
  by (auto simp: gathered_def gathered_append)

lemma gathered_fold:
  assumes "\<And>v x. gathered f (records x) (resources x) v (step v x)"
  shows "gathered f (concat (map records xs)) (concat (map resources xs)) v (foldl step v xs)"
proof (induction xs arbitrary: v)
  case (Cons x xs)
  then show ?case using gathered_trans [OF assms Cons.IH] by simp
qed (simp add: gathered_refl)

lemma concat_nils [simp]: "concat (map (\<lambda>_. []) xs) = []"
  by (induction xs) simp_all

lemma see_objects_gathered:
  "gathered f (all_records (concat sink)) (concat sink) v (foldl (foldl (see_object_resource f)) v sink)"
proof -
  have "gathered f [lr] [] v (see_object f v lr)" for v lr
    by (simp add: gathered_def see_object_simps)
  from gathered_fold [of f "\<lambda>lr. [lr]" "\<lambda>_. []", OF this]
  have scope: "gathered f lrs [] v (foldl (see_object f) v lrs)" for v lrs by simp
  have "gathered f (sl_Records sl) [] v (foldl (see_object f) v (sl_Records sl))" for v sl by (rule scope)
  from gathered_fold [of f sl_Records "\<lambda>_. []", OF this]
  have scopes: "gathered f (concat (map sl_Records sls)) [] v (foldl (\<lambda>v sl. foldl (see_object f) v (sl_Records sl)) v sls)" for v sls
    by simp
  have "gathered f (concat (map sl_Records (rl_Scopes rl))) [rl] v (see_object_resource f v rl)" for v rl
    using scopes [of "rl_Scopes rl" v]
    by (auto simp: see_object_resource_def gathered_def sourcetypes_of_def Let_def split: option.split)
  from gathered_fold [of f "\<lambda>rl. concat (map sl_Records (rl_Scopes rl))" "\<lambda>rl. [rl]", OF this]
  have "gathered f (all_records ls) ls v (foldl (see_object_resource f) v ls)" for v ls by (simp add: all_records_def)
  from gathered_fold [of f all_records "\<lambda>ls. ls", OF this]
  have "gathered f (concat (map all_records sink)) (concat sink) v (foldl (foldl (see_object_resource f)) v sink)" by simp
  moreover have "concat (map all_records sink) = all_records (concat sink)"
    by (induction sink) (simp_all add: all_records_def)
  ultimately show ?thesis by simp
qed

text \<open>When the test of the Kubernetes objects passes.\<close>

theorem testK8sObjects_iff:
  "testK8sObjects f lens sink \<longleftrightarrow>
     WaitForEntries 5 lens \<and> {''Pod'', ''Namespace'', ''Node''} \<subseteq> kinds_of f (all_records (concat sink)) \<and>
     {''kube:object:pods'', ''kube:object:namespaces'', ''kube:object:nodes''} \<subseteq> sourcetypes_of f (concat sink) \<and>
     has_custom f ''customfield1'' ''customvalue1'' (all_records (concat sink)) \<and>
     has_custom f ''customfield2'' ''customvalue2'' (all_records (concat sink))"
  using see_objects_gathered [of f sink "\<lparr>ov_kinds = [], ov_sourceTypes = [], ov_custom1 = False, ov_custom2 = False\<rparr>"]
  by (simp add: testK8sObjects_def gathered_def list_contains_iff)

subsection \<open>Activity\<close>

text \<open>
  When the activity succeeds, its namespace and pod are gone again.
\<close>

theorem telemetry_cleans_up:
  assumes "passes (generateRequiredTelemetry se ob)" and "su_answer se (Api Deleting ''Namespace'' [] ''test-namespace'') = None"
    and "(''Namespace'', [], ''test-namespace'') \<notin> objs" and "(''Pod'', ''test-namespace'', ''test-pod'') \<notin> objs"
  shows "objects_after (su_answer se) (fst (finish (generateRequiredTelemetry se ob))) objs = objs"
proof -
  let ?ns = "(''Namespace'', [], ''test-namespace'') :: string \<times> string \<times> string" and ?pod = "(''Pod'', ''test-namespace'', ''test-pod'')"
  from assms(1) have ok: "su_lookup se ''KUBECONFIG'' \<noteq> None" "su_client se (getenv se ''KUBECONFIG'') = None"
    "CreateNamespace (su_answer se (Api Creating ''Namespace'' [] ''test-namespace'')) (to_namespace ob)"
    "WaitForDefaultServiceAccount (to_account ob)"
    "CreatePod (su_answer se (Api Creating ''Pod'' ''test-namespace'' ''test-pod'')) (to_pod ob)"
    "DeletePod (su_answer se (Api Deleting ''Pod'' ''test-namespace'' ''test-pod'')) (to_pod_gone ob)"
    "su_answer se (Api Updating ''Namespace'' [] ''test-namespace'') = None"
    by (auto simp: generateRequiredTelemetry_def passes_bind kube_client_def bind_run_Inr pure_run_def waiting_def act_def act_run_def
        bind_run_def split: option.splits if_splits)
  then have accepted: "su_answer se (Api Creating ''Namespace'' [] ''test-namespace'') = None"
    "su_answer se (Api Creating ''Pod'' ''test-namespace'' ''test-pod'') = None"
    "su_answer se (Api Deleting ''Pod'' ''test-namespace'' ''test-pod'') = None"
    by (auto simp: CreateNamespace_def CreatePod_def DeletePod_def split: if_splits)
  have "fst (finish (generateRequiredTelemetry se ob)) =
      [Api Creating ''Namespace'' [] ''test-namespace'', Checking ''default service account'',
       Api Creating ''Pod'' ''test-namespace'' ''test-pod'', Api Deleting ''Pod'' ''test-namespace'' ''test-pod'',
       Api Updating ''Namespace'' [] ''test-namespace'', Api Deleting ''Namespace'' [] ''test-namespace'']"
    using ok by (simp add: generateRequiredTelemetry_def test_simps kube_client_def waiting_def act_def act_run_def pure_run_def bind_run_def)
  with accepted assms(2-4) show ?thesis by simp
qed

text \<open>
  Nothing is cleaned up after a failure: if the pod cannot be created the namespace stays, and the next run
  stops at its creation, when the server refuses to create it again.
\<close>

theorem telemetry_leaves_namespace:
  assumes "su_lookup se ''KUBECONFIG'' \<noteq> None" and "su_client se (getenv se ''KUBECONFIG'') = None"
    and "CreateNamespace (su_answer se (Api Creating ''Namespace'' [] ''test-namespace'')) (to_namespace ob)"
    and "su_answer se (Api Creating ''Pod'' ''test-namespace'' ''test-pod'') \<noteq> None"
  shows "(''Namespace'', [], ''test-namespace'') \<in>
    objects_after (su_answer se) (fst (finish (generateRequiredTelemetry se ob))) objs"
proof -
  have ns: "su_answer se (Api Creating ''Namespace'' [] ''test-namespace'') = None"
    using assms(3) by (auto simp: CreateNamespace_def split: if_splits)
  have "\<not> CreatePod (su_answer se (Api Creating ''Pod'' ''test-namespace'' ''test-pod'')) (to_pod ob)"
    using assms(4) by (auto simp: CreatePod_def)
  then show ?thesis
    using assms(1-3) ns assms(4) by (auto simp: generateRequiredTelemetry_def test_simps kube_client_def waiting_def pure_run_def bind_run_def)
qed

subsection \<open>The metrics of the agents\<close>

text \<open>The payload of an agent metrics test, which may depend on the expected metrics only.\<close>

theorem testAgentMetricsTemplate_passes:
  assumes "me_read me d (path_join [testDir, dir, file]) = Inr expected"
    and "SelectMetricSetWithTimeout clock sink now (seconds 180) expected target = Some (Selected actual exact)"
  shows "testAgentMetricsTemplate me d clock sink now dir file target podPrefix = Some (Inr (), d) \<longleftrightarrow>
    tryMetricsComparison me expected actual podPrefix = None"
  using assms by (auto simp: testAgentMetricsTemplate_def Let_def split: option.splits prod.splits)

text \<open>
  The golden file is rewritten only after a failed comparison, and the test fails nevertheless; the next run
  passes if package golden reads back what it wrote, the same payload is selected, and a payload compares equal to itself.
\<close>

theorem template_update_is_for_next_run:
  assumes "golden_store (me_write me) (me_read me)" and "\<And>options x. me_compare me options x x = None"
    and "shouldUpdateExpectedResults (me_env me)" and "me_read me d (path_join [testDir, dir, file]) = Inr expected"
    and "SelectMetricSetWithTimeout clock sink now (seconds 180) expected target = Some (Selected actual exact)"
    and "tryMetricsComparison me expected actual podPrefix = Some e"
    and "me_write me (path_join [testDir, dir, file]) actual d = (None, d')"
    and "me_read me d' (path_join [testDir, dir, file]) = Inr new"
    and "SelectMetricSetWithTimeout clock' sink' now' (seconds 180) new target = Some (Selected actual exact')"
  shows "testAgentMetricsTemplate me d clock sink now dir file target podPrefix = Some (Inl (''Metric comparison failed'' @ e), d') \<and>
    testAgentMetricsTemplate me d' clock' sink' now' dir file target podPrefix = Some (Inr (), d')"
proof -
  have new: "new = actual" using golden_store.get_put [OF assms(1,7,8)] .
  have same: "tryMetricsComparison me actual actual podPrefix = None"
    using assms(2) by (simp add: tryMetricsComparison_def preparePodMetricsComparison_def Let_def)
  show ?thesis
    using assms new same by (simp add: testAgentMetricsTemplate_def MaybeUpdateExpectedMetricsResults_def maybe_write_def)
qed

subsection \<open>The annotated application\<close>

text \<open>The three sources are told apart: a metric is of at most one of them.\<close>

lemma sources_exclusive:
  "\<not> (by_annotation m \<and> by_pod_monitor m)" "\<not> (by_annotation m \<and> by_service_monitor m)" "\<not> (by_pod_monitor m \<and> by_service_monitor m)"
  by (auto simp: by_annotation_def by_pod_monitor_def by_service_monitor_def)

subsection \<open>Upgrade and health\<close>

lemma each_pure: "snd (each_run (\<lambda>x. pure_run (f x)) xs) = Inr () \<longleftrightarrow> (\<forall>x \<in> set xs. f x = Inr ())"
proof (induction xs)
  case (Cons x xs)
  then show ?case by (cases "f x") (simp_all add: test_simps)
qed (simp add: pure_run_def)

text \<open>When the upgrade test passes: of every kind none of the old resources is left, and one of the new ones is there.\<close>

theorem testTargetAllocatorUpgrade_passes:
  assumes "requireEnv (su_lookup se) ''KUBECONFIG'' = Inr kc" and "su_client se kc = None"
  shows "snd (testTargetAllocatorUpgrade se listing) = Inr () \<longleftrightarrow>
    (\<forall>r \<in> set upgrade_listings. \<exists>kind names. listing r = Inr (kind, map Some names) \<and>
       (\<forall>n \<in> set names. \<not> contains n splunkOtelCollectorTAResourceName) \<and> (\<exists>n \<in> set names. contains n taResourceName))"
proof -
  have named: "(\<forall>x \<in> set rs. \<exists>n. x = Some n \<and> P n) \<longleftrightarrow> (\<exists>names. rs = map Some names \<and> (\<forall>n \<in> set names. P n))"
    for rs :: "string option list" and P
  proof
    assume some: "\<forall>x \<in> set rs. \<exists>n. x = Some n \<and> P n"
    then have "rs = map Some (map the rs)" by (induction rs) auto
    with some show "\<exists>names. rs = map Some names \<and> (\<forall>n \<in> set names. P n)" by (intro exI [of _ "map the rs"]) fastforce
  qed auto
  have "bind_res (listing r) (\<lambda>(kind, names). validateTargetAllocatorResourceUpgrade kind names) = Inr () \<longleftrightarrow>
      (\<exists>kind names. listing r = Inr (kind, map Some names) \<and>
         (\<forall>n \<in> set names. \<not> contains n splunkOtelCollectorTAResourceName) \<and> (\<exists>n \<in> set names. contains n taResourceName))" for r
    by (auto simp: bind_res_Inr_iff target_allocator_upgraded named) (metis image_eqI list.set_map option.inject)+
  then show ?thesis
    using assms by (simp add: testTargetAllocatorUpgrade_def kube_client_def test_simps each_pure)
qed

end
