(* ===== verification/FunctionalCleanup.thy ===== *)
theory FunctionalCleanup
  imports FunctionalSuite FunctionalChecks
begin

section \<open>What the functional test leaves behind\<close>

text \<open>
  The objects that \<open>deployCharts\<close> and \<open>deployTestResources\<close> create against those that \<open>teardown\<close> deletes. The
  names to delete are partly written in the test and partly read from the manifests; that the former agree with the
  manifests is a condition on the manifests.
\<close>

subsection \<open>Objects created and deleted by a sequence of calls\<close>

definition creations :: "suite_action list \<Rightarrow> (string \<times> string \<times> string) set" where
  "creations xs = {(kind, ns, name). Api Creating kind ns name \<in> set xs}"

definition deletions :: "suite_action list \<Rightarrow> (string \<times> string \<times> string) set" where
  "deletions xs = {(kind, ns, name). Api Deleting kind ns name \<in> set xs}"

lemma no_triples [simp]: "{(kind, ns, name). False} = {}"
  by auto

lemma creations_simps [simp]:
  "creations [] = {}" "creations (xs @ ys) = creations xs \<union> creations ys"
  by (auto simp: creations_def)

lemma deletions_simps [simp]:
  "deletions [] = {}" "deletions (xs @ ys) = deletions xs \<union> deletions ys"
  by (auto simp: deletions_def)

lemma objects_after_created: "objects_after answer xs objs \<subseteq> objs \<union> creations xs"
  by (induction answer xs objs rule: objects_after.induct) (auto simp: creations_def split: if_splits)

lemma objects_after_deleted:
  assumes "\<And>kind ns name. answer (Api Deleting kind ns name) = None" and "creations xs = {}"
  shows "objects_after answer xs objs \<subseteq> objs - deletions xs"
  using assms(2)
proof (induction xs arbitrary: objs)
  case (Cons x xs)
  have x: "creations [x] = {}" "creations xs = {}"
    using Cons.prems creations_simps(2) [of "[x]" xs] by auto
  have "objects_after answer [x] objs \<subseteq> objs - deletions [x]"
    using x(1) assms(1) by (cases "(answer, [x], objs)" rule: objects_after.cases) (auto simp: creations_def deletions_def)
  moreover have "objects_after answer (x # xs) objs = objects_after answer xs (objects_after answer [x] objs)"
    using objects_after_append [of answer "[x]" xs] by simp
  moreover have "deletions (x # xs) = deletions [x] \<union> deletions xs"
    using deletions_simps(2) [of "[x]" xs] by simp
  ultimately show ?case using Cons.IH [OF x(2), of "objects_after answer [x] objs"] by auto
qed simp

lemma objects_after_untouched:
  assumes "creations xs = {}" shows "objects_after answer xs {} = {}"
  using objects_after_created [of answer xs "{}"] assms by auto

text \<open>The objects that a run can create, step by step.\<close>

definition run_creates :: "(string \<times> string \<times> string) set \<Rightarrow> (suite_action, 'a) run \<Rightarrow> bool" where
  "run_creates C m \<longleftrightarrow> creations (fst m) \<subseteq> C"

named_theorems create_rules \<open>which objects a step creates\<close>

lemma run_creates_pure [create_rules]: "run_creates C (pure_run r)"
  by (simp add: run_creates_def pure_run_def)

lemma run_creates_bind [create_rules]:
  "run_creates C m \<Longrightarrow> (\<And>a. snd m = Inr a \<Longrightarrow> run_creates C (f a)) \<Longrightarrow> run_creates C (bind_run m f)"
  by (auto simp: run_creates_def bind_run_def split: prod.split sum.split)

lemma run_creates_each [create_rules]: "(\<And>x. x \<in> set xs \<Longrightarrow> run_creates C (f x)) \<Longrightarrow> run_creates C (each_run f xs)"
  by (induction xs) (simp_all add: create_rules)

lemma run_creates_if [create_rules]:
  "(b \<Longrightarrow> run_creates C m) \<Longrightarrow> (\<not> b \<Longrightarrow> run_creates C n) \<Longrightarrow> run_creates C (if b then m else n)"
  by simp

lemma run_creates_api [create_rules]: "(kind, ns, name) \<in> C \<Longrightarrow> run_creates C (act se (Api Creating kind ns name))"
  by (simp add: run_creates_def creations_def)

lemma run_creates_other:
  "run_creates C (act se (Api Updating kind ns name))" "run_creates C (delete_ignoring se kind ns name)"
  "run_creates C (delete_secret se)" "run_creates C (waiting (AwaitGone kind name) ok)"
  "run_creates C (waiting (AwaitEstablished name) ok)" "run_creates C (waiting AwaitActive ok)"
  by (auto simp: run_creates_def creations_def delete_ignoring_def delete_secret_def Let_def)

lemma run_creates_steps:
  "run_creates C (read_manifest se name)" "run_creates C (kube_client se kc)" "run_creates C (await_gone fe cleaning kind name)"
  "run_creates C (waitForAllNamespacesToBeCreated fe)"
  by (simp_all add: read_manifest_def kube_client_def await_gone_def waitForAllNamespacesToBeCreated_def run_creates_pure run_creates_other)

lemma run_creates_chart: "run_creates C (chart_install se kc vf repl m opts)" "run_creates C (chart_uninstall se cleaning)"
  by (auto simp: run_creates_def creations_def chart_install_def chart_uninstall_def)

lemmas [create_rules] = run_creates_other run_creates_steps run_creates_chart

text \<open>The objects created by the steps of a test and by the test as a whole.\<close>

definition test_creates :: "(string \<times> string \<times> string) set \<Rightarrow> (suite_action, 'a) test \<Rightarrow> bool" where
  "test_creates C m \<longleftrightarrow> creations (t_trace m @ cleanup_trace m) \<subseteq> C"

lemma test_creates_finish: "test_creates C m \<longleftrightarrow> creations (fst (finish m)) \<subseteq> C"
  by (simp add: test_creates_def finish_def)

lemma test_creates_bind [create_rules]:
  "test_creates C m \<Longrightarrow> (\<And>a. t_result m = Inr a \<Longrightarrow> test_creates C (f a)) \<Longrightarrow> test_creates C (bind_test m f)"
  by (cases "t_result m") (auto simp: test_creates_def cleanup_trace_bind test_simps)

lemma test_creates_simps [create_rules]:
  "test_creates C (pure_test r)" "test_creates C (assert_test ok msg)"
  "run_creates C r' \<Longrightarrow> test_creates C (do_run r')"
  "test_creates C c \<Longrightarrow> test_creates C (t_Cleanup c)" "test_creates C k \<Longrightarrow> test_creates C (t_Run name k)"
  by (simp_all add: test_creates_def run_creates_def finish_def)

lemma test_creates_if [create_rules]:
  "(b \<Longrightarrow> test_creates C m) \<Longrightarrow> (\<not> b \<Longrightarrow> test_creates C n) \<Longrightarrow> test_creates C (if b then m else n)"
  by simp

lemma test_creates_each [create_rules]: "(\<And>x. x \<in> set xs \<Longrightarrow> test_creates C (f x)) \<Longrightarrow> test_creates C (each_test f xs)"
  by (induction xs) (simp_all add: create_rules)

lemma test_creates_local: "local_step m \<Longrightarrow> test_creates C m"
proof -
  have "\<not> local_action (Api v kind ns name)" for v kind ns name by (simp add: local_action_def)
  then show "local_step m \<Longrightarrow> test_creates C m" by (fastforce simp: local_step_def test_creates_def creations_def)
qed

subsection \<open>What the teardown deletes\<close>

lemma each_run_done:
  assumes "snd (each_run f xs) = Inr ()" and "x \<in> set xs"
  shows "snd (f x) = Inr ()" "set (fst (f x)) \<subseteq> set (fst (each_run f xs))"
  using assms by (induction xs) (auto simp: bind_run_def split: prod.splits sum.splits)

lemma bind_run_done:
  assumes "snd (bind_run m f) = Inr b"
  obtains a where "snd m = Inr a" "snd (f a) = Inr b" "fst (bind_run m f) = fst m @ fst (f a)"
  using assms by (cases m; cases "snd m") (auto simp: bind_run_def split: prod.splits)

lemma bind_test_done:
  assumes "t_result (bind_test m f) = Inr b"
  obtains a where "t_result m = Inr a" "t_result (f a) = Inr b" "t_trace (bind_test m f) = t_trace m @ t_trace (f a)"
    "cleanup_trace (bind_test m f) = cleanup_trace (f a) @ cleanup_trace m"
  using assms by (cases "t_result m") (auto simp: test_simps cleanup_trace_bind)

lemma each_test_done:
  assumes "t_result (each_test f xs) = Inr ()" and "x \<in> set xs"
  shows "t_result (f x) = Inr ()" "set (t_trace (f x)) \<subseteq> set (t_trace (each_test f xs))"
  using assms by (induction xs) (auto simp: bind_test_result_Inr test_simps)

lemma teardown_parts:
  assumes "t_result (teardown fe cleaning kc) = Inr ()"
  defines "se \<equiv> fn_suite fe" and "tr \<equiv> set (t_trace (teardown fe cleaning kc))"
  obtains jobstream objs where
    "ReadFile (su_disk se) (manifest_path ''test_jobs.yaml'') = Inr jobstream" "decode_docs se (split_docs jobstream) = Inr objs"
    "set (fst (each_run (delete_ignoring se ''Deployment'' DefaultNamespace) deployment_names)) \<subseteq> tr"
    "set (fst (each_run (\<lambda>job. delete_ignoring se ''Job'' (mf_Namespace job) (mf_Name job)) (filter is_job objs))) \<subseteq> tr"
    "\<And>nm. nm \<in> set objs \<Longrightarrow> is_namespace nm \<Longrightarrow> Api Deleting ''Namespace'' [] (mf_Name nm) \<in> tr"
    "requiresPrometheusResources (getenv se ''KUBE_TEST_ENV'') \<Longrightarrow>
       t_result (teardownPrometheusResources fe cleaning) = Inr () \<and> set (t_trace (teardownPrometheusResources fe cleaning)) \<subseteq> tr"
    "getenv se ''KUBE_TEST_ENV'' = aksTestKubeEnv \<Longrightarrow> set (fst (delete_secret se)) \<subseteq> tr"
proof -
  let ?prom = "if requiresPrometheusResources (getenv se ''KUBE_TEST_ENV'') then teardownPrometheusResources fe cleaning
            else pure_test (Inr ())"
  let ?del = "\<lambda>nm. bind_run (delete_ignoring se ''Namespace'' [] (mf_Name nm)) (\<lambda>_. await_gone fe cleaning ''Namespace'' (mf_Name nm))"
  let ?last = "if getenv se ''KUBE_TEST_ENV'' = aksTestKubeEnv then delete_secret se else pure_run (Inr ())"
  note td = teardown_def [of fe cleaning kc, unfolded Let_def, folded se_def]
  obtain jobstream where j: "snd (bind_run (kube_client se kc) (\<lambda>_.
            bind_run (each_run (delete_ignoring se ''Deployment'' DefaultNamespace) deployment_names) (\<lambda>_.
              read_manifest se ''test_jobs.yaml''))) = Inr jobstream"
    using assms(1) unfolding td by (elim bind_test_done) simp
  have j_all: "ReadFile (su_disk se) (manifest_path ''test_jobs.yaml'') = Inr jobstream"
    "fst (bind_run (kube_client se kc) (\<lambda>_.
            bind_run (each_run (delete_ignoring se ''Deployment'' DefaultNamespace) deployment_names) (\<lambda>_.
              read_manifest se ''test_jobs.yaml''))) = fst (each_run (delete_ignoring se ''Deployment'' DefaultNamespace) deployment_names)"
    using j by (auto elim!: bind_run_done simp: read_manifest_def kube_client_def pure_run_def)
  obtain objs where o: "decode_docs se (split_docs jobstream) = Inr objs"
    "snd (each_run (\<lambda>job. delete_ignoring se ''Job'' (mf_Namespace job) (mf_Name job)) (filter is_job objs)) = Inr ()"
    "t_result ?prom = Inr ()"
    "snd (bind_run (each_run ?del (filter is_namespace objs)) (\<lambda>_. bind_run (chart_uninstall se cleaning) (\<lambda>_. ?last))) = Inr ()"
    using assms(1) j unfolding td by (auto simp: bind_test_result_Inr)
  have trace: "t_trace (teardown fe cleaning kc) =
      fst (each_run (delete_ignoring se ''Deployment'' DefaultNamespace) deployment_names) @
      fst (each_run (\<lambda>job. delete_ignoring se ''Job'' (mf_Namespace job) (mf_Name job)) (filter is_job objs)) @ t_trace ?prom @
      fst (bind_run (each_run ?del (filter is_namespace objs)) (\<lambda>_. bind_run (chart_uninstall se cleaning) (\<lambda>_. ?last)))"
    using o(1-3) j unfolding td by (simp add: test_simps j_all(2))
  from o(4) have
    l: "snd (each_run ?del (filter is_namespace objs)) = Inr ()"
      "set (fst (each_run ?del (filter is_namespace objs))) \<union> set (fst ?last) \<subseteq> tr"
    using trace unfolding tr_def by (auto elim!: bind_run_done)
  have ns: "Api Deleting ''Namespace'' [] (mf_Name nm) \<in> tr" if "nm \<in> set objs" "is_namespace nm" for nm
  proof -
    have "Api Deleting ''Namespace'' [] (mf_Name nm) \<in> set (fst (?del nm))"
      by (simp add: bind_run_def delete_ignoring_def ignoring_def split: prod.split)
    then show ?thesis using each_run_done(2) [OF l(1), of nm] l(2) that by auto
  qed
  have parts: "set (fst (each_run (delete_ignoring se ''Deployment'' DefaultNamespace) deployment_names)) \<subseteq> tr"
    "set (fst (each_run (\<lambda>job. delete_ignoring se ''Job'' (mf_Namespace job) (mf_Name job)) (filter is_job objs))) \<subseteq> tr"
    "set (t_trace ?prom) \<subseteq> tr"
    unfolding tr_def trace by auto
  show thesis
  proof (rule that [OF j_all(1) o(1) parts(1,2) ns])
    show "requiresPrometheusResources (getenv se ''KUBE_TEST_ENV'') \<Longrightarrow>
       t_result (teardownPrometheusResources fe cleaning) = Inr () \<and> set (t_trace (teardownPrometheusResources fe cleaning)) \<subseteq> tr"
      using o(3) parts(3) by simp
    show "getenv se ''KUBE_TEST_ENV'' = aksTestKubeEnv \<Longrightarrow> set (fst (delete_secret se)) \<subseteq> tr" using l(2) by simp
  qed
qed

lemma each_delete:
  "each_run (\<lambda>x. delete_ignoring se (kind x) (ns x) (name x)) xs = (map (\<lambda>x. Api Deleting (kind x) (ns x) (name x)) xs, Inr ())"
  by (induction xs) (simp_all add: delete_ignoring_def ignoring_def bind_run_def pure_run_def)

lemma decode_docs_obj:
  "decode_docs se docs = Inr objs \<Longrightarrow> doc \<in> set docs \<Longrightarrow> \<not> no_text doc \<Longrightarrow> su_decode se doc = Inr obj \<Longrightarrow> obj \<in> set objs"
  by (induction docs arbitrary: objs) (auto simp: go_result split: if_splits)

lemma delete_crds_all:
  "snd (delete_crds se docs) = Inr names \<Longrightarrow> doc \<in> set docs \<Longrightarrow> \<not> blank doc \<Longrightarrow> su_decode se doc = Inr obj \<Longrightarrow> is_crd obj \<Longrightarrow>
     Api Deleting ''CustomResourceDefinition'' [] (mf_Name obj) \<in> set (fst (delete_crds se docs))"
proof (induction docs arbitrary: names)
  case (Cons d docs)
  then show ?case
    by (auto simp: Let_def bind_run_def pure_run_def split: if_splits prod.splits sum.splits)
qed simp

lemma prometheus_deleted:
  assumes "t_result (teardownPrometheusResources fe cleaning) = Inr ()"
  shows "(kind, name) \<in> {(''Deployment'', ''prometheus-annotation-test''), (''Service'', ''prometheus-annotation-service''),
           (''ConfigMap'', ''prometheus-test-metrics'')} \<Longrightarrow>
         Api Deleting kind DefaultNamespace name \<in> set (t_trace (teardownPrometheusResources fe cleaning))"
    and "r \<in> set prometheusCRDResources \<Longrightarrow> fn_items fe cleaning r = Inr items \<Longrightarrow> (ns, n) \<in> set items \<Longrightarrow>
         Api Deleting r ns n \<in> set (t_trace (teardownPrometheusResources fe cleaning))"
    and "ReadFile (su_disk (fn_suite fe)) (manifest_path ''prometheus_operator_crds.yaml'') = Inr stream \<Longrightarrow>
         doc \<in> set (split_docs stream) \<Longrightarrow> \<not> blank doc \<Longrightarrow> su_decode (fn_suite fe) doc = Inr obj \<Longrightarrow> is_crd obj \<Longrightarrow>
         Api Deleting ''CustomResourceDefinition'' [] (mf_Name obj) \<in> set (t_trace (teardownPrometheusResources fe cleaning))"
proof -
  let ?se = "fn_suite fe"
  let ?crds = "bind_run (read_manifest ?se ''prometheus_operator_crds.yaml'') (\<lambda>crdstream.
        bind_run (delete_crds ?se (split_docs crdstream)) (\<lambda>crdNames.
          each_run (await_gone fe cleaning ''CustomResourceDefinition'') crdNames))"
  have results: "t_result (each_test (remove_customs fe cleaning) prometheusCRDResources) = Inr ()" "snd ?crds = Inr ()"
    using assms by (auto simp: teardownPrometheusResources_def bind_test_result_Inr)
  have trace: "t_trace (teardownPrometheusResources fe cleaning) =
      [Api Deleting ''Deployment'' DefaultNamespace ''prometheus-annotation-test'',
       Api Deleting ''Service'' DefaultNamespace ''prometheus-annotation-service'',
       Api Deleting ''ConfigMap'' DefaultNamespace ''prometheus-test-metrics''] @
      t_trace (each_test (remove_customs fe cleaning) prometheusCRDResources) @ fst ?crds"
    using results(1) unfolding teardownPrometheusResources_def
    by (simp add: test_simps delete_ignoring_def ignoring_def)
  show "(kind, name) \<in> {(''Deployment'', ''prometheus-annotation-test''), (''Service'', ''prometheus-annotation-service''),
           (''ConfigMap'', ''prometheus-test-metrics'')} \<Longrightarrow>
         Api Deleting kind DefaultNamespace name \<in> set (t_trace (teardownPrometheusResources fe cleaning))"
    unfolding trace by auto
  show "Api Deleting r ns n \<in> set (t_trace (teardownPrometheusResources fe cleaning))"
    if r: "r \<in> set prometheusCRDResources" and items: "fn_items fe cleaning r = Inr items" "(ns, n) \<in> set items"
  proof -
    have "Api Deleting r ns n \<in> set (t_trace (remove_customs fe cleaning r))"
      using items by (force simp: remove_customs_def test_simps each_delete)
    then show ?thesis using each_test_done(2) [OF results(1) r] unfolding trace by auto
  qed
  show "Api Deleting ''CustomResourceDefinition'' [] (mf_Name obj) \<in> set (t_trace (teardownPrometheusResources fe cleaning))"
    if "ReadFile (su_disk ?se) (manifest_path ''prometheus_operator_crds.yaml'') = Inr stream"
      and doc: "doc \<in> set (split_docs stream)" "\<not> blank doc" "su_decode ?se doc = Inr obj" "is_crd obj"
  proof -
    have "snd (bind_run (delete_crds ?se (split_docs stream)) (\<lambda>crdNames.
          each_run (await_gone fe cleaning ''CustomResourceDefinition'') crdNames)) = Inr ()"
      and e: "fst ?crds = fst (bind_run (delete_crds ?se (split_docs stream)) (\<lambda>crdNames.
          each_run (await_gone fe cleaning ''CustomResourceDefinition'') crdNames))"
      using results(2) that(1) by (simp_all add: read_manifest_def test_simps)
    then obtain names where "snd (delete_crds ?se (split_docs stream)) = Inr names" "set (fst (delete_crds ?se (split_docs stream))) \<subseteq> set (fst ?crds)"
      by (auto elim!: bind_run_done)
    then show ?thesis using delete_crds_all [OF _ doc] unfolding trace by auto
  qed
qed

subsection \<open>What is created\<close>

text \<open>The names written in \<open>teardown\<close> are those of the manifests, as far as these can be read.\<close>

definition decoded_name :: "suite_env \<Rightarrow> string \<Rightarrow> string option" where
  "decoded_name se filePath =
     (case ReadFile (su_disk se) filePath of
        Inl e \<Rightarrow> None
      | Inr content \<Rightarrow> (case su_decode se content of Inl e \<Rightarrow> None | Inr obj \<Rightarrow> Some (mf_Name obj)))"

definition names_agree :: "suite_env \<Rightarrow> bool" where
  "names_agree se \<longleftrightarrow>
     list_all (\<lambda>f. set_option (decoded_name se f) \<subseteq> set deployment_names) deployment_files \<and>
     set_option (decoded_name se (manifest_path ''prometheus_test_configmap.yaml'')) \<subseteq> {''prometheus-test-metrics''} \<and>
     set_option (decoded_name se (manifest_path ''deployment_with_prometheus_annotations.yaml'')) \<subseteq> {''prometheus-annotation-test''} \<and>
     set_option (decoded_name se (manifest_path ''service.yaml'')) \<subseteq> {''prometheus-annotation-service''}"

text \<open>At the time of the teardown the lists of custom resources show those that the test has created.\<close>

definition listing_complete :: "fn_env \<Rightarrow> bool" where
  "listing_complete fe \<longleftrightarrow>
     list_all
       (\<lambda>x. case x of
          Api Creating kind ns name \<Rightarrow>
            kind \<in> set prometheusCRDResources \<longrightarrow>
            (case fn_items fe True kind of Inl e \<Rightarrow> False | Inr items \<Rightarrow> (ns, name) \<in> set items)
        | _ \<Rightarrow> True)
       (fst (deployTestResources fe))"

lemma run_creates_each_doc [create_rules]:
  assumes "\<And>doc obj. doc \<in> set docs \<Longrightarrow> \<not> skip doc \<Longrightarrow> su_decode se doc = Inr obj \<Longrightarrow> run_creates C (body obj)"
  shows "run_creates C (each_doc se skip body docs)"
  unfolding each_doc_def
  by (intro create_rules) (auto simp: pure_run_def intro: assms)

lemma run_creates_deploy_file:
  assumes "\<And>content dep. ReadFile (su_disk se) f = Inr content \<Longrightarrow> su_decode se content = Inr dep \<Longrightarrow>
      (''Deployment'', DefaultNamespace, mf_Name dep) \<in> C"
  shows "run_creates C (deploy_file se f)"
  unfolding deploy_file_def Let_def
  using assms by (intro create_rules)
    (auto simp: pure_run_def go_result run_creates_def creations_def bind_run_def act_def act_run_def
      split: option.split prod.split sum.split)

lemma run_creates_from:
  assumes "set_option (decoded_name (fn_suite fe) (manifest_path name)) \<subseteq> {obj}" and "(kind, DefaultNamespace, obj) \<in> C"
  shows "run_creates C (create_from fe name gr kind)"
  unfolding create_from_def
  using assms by (intro create_rules) (auto simp: pure_run_def read_manifest_def go_result decoded_name_def)

lemma run_creates_custom: "(\<And>n. (resource, DefaultNamespace, n) \<in> C) \<Longrightarrow> run_creates C (create_custom fe known name resource)"
  unfolding create_custom_def by (intro create_rules)

lemma getenv_required: "requireEnv (su_lookup se) key = Inr v \<Longrightarrow> getenv se key = v"
  by (auto simp: requireEnv_def getenv_def split: option.splits)

text \<open>All the objects that the set-up can create are among those that a teardown deletes which gets to its end.\<close>

lemma teardown_deletes:
  assumes "t_result (teardown fe cleaning kc) = Inr ()"
  defines "se \<equiv> fn_suite fe" and "T \<equiv> deletions (t_trace (teardown fe cleaning kc))"
  shows "n \<in> set deployment_names \<Longrightarrow> (''Deployment'', DefaultNamespace, n) \<in> T"
    and "ReadFile (su_disk se) (manifest_path ''test_jobs.yaml'') = Inr stream \<Longrightarrow> doc \<in> set (split_docs stream) \<Longrightarrow>
      \<not> no_text doc \<Longrightarrow> su_decode se doc = Inr obj \<Longrightarrow>
      (is_job obj \<longrightarrow> (''Job'', mf_Namespace obj, mf_Name obj) \<in> T) \<and> (is_namespace obj \<longrightarrow> (''Namespace'', [], mf_Name obj) \<in> T)"
    and "getenv se ''KUBE_TEST_ENV'' = aksTestKubeEnv \<Longrightarrow> (''Secret'', DefaultNamespace, aksWindowsValidationResourceName) \<in> T"
    and "requiresPrometheusResources (getenv se ''KUBE_TEST_ENV'') \<Longrightarrow>
      t_result (teardownPrometheusResources fe cleaning) = Inr () \<and> deletions (t_trace (teardownPrometheusResources fe cleaning)) \<subseteq> T"
proof -
  obtain jobstream objs where p:
    "ReadFile (su_disk se) (manifest_path ''test_jobs.yaml'') = Inr jobstream" "decode_docs se (split_docs jobstream) = Inr objs"
    "Api Deleting ''Deployment'' DefaultNamespace ` set deployment_names \<subseteq> set (t_trace (teardown fe cleaning kc))"
    "(\<lambda>job. Api Deleting ''Job'' (mf_Namespace job) (mf_Name job)) ` {obj \<in> set objs. is_job obj} \<subseteq> set (t_trace (teardown fe cleaning kc))"
    "\<And>nm. nm \<in> set objs \<Longrightarrow> is_namespace nm \<Longrightarrow> Api Deleting ''Namespace'' [] (mf_Name nm) \<in> set (t_trace (teardown fe cleaning kc))"
    "requiresPrometheusResources (getenv se ''KUBE_TEST_ENV'') \<Longrightarrow>
       t_result (teardownPrometheusResources fe cleaning) = Inr () \<and>
       set (t_trace (teardownPrometheusResources fe cleaning)) \<subseteq> set (t_trace (teardown fe cleaning kc))"
    "getenv se ''KUBE_TEST_ENV'' = aksTestKubeEnv \<Longrightarrow> set (fst (delete_secret se)) \<subseteq> set (t_trace (teardown fe cleaning kc))"
    using assms(1) unfolding se_def
    by (rule teardown_parts) (auto simp: each_delete [where kind = "\<lambda>_. kind" and ns = "\<lambda>_. ns" and name = "\<lambda>x. x" for kind ns] each_delete)
  show "n \<in> set deployment_names \<Longrightarrow> (''Deployment'', DefaultNamespace, n) \<in> T"
    using p(3) by (auto simp: T_def deletions_def)
  show "getenv se ''KUBE_TEST_ENV'' = aksTestKubeEnv \<Longrightarrow> (''Secret'', DefaultNamespace, aksWindowsValidationResourceName) \<in> T"
    using p(7) by (auto simp: T_def deletions_def delete_secret_def Let_def)
  show "requiresPrometheusResources (getenv se ''KUBE_TEST_ENV'') \<Longrightarrow>
      t_result (teardownPrometheusResources fe cleaning) = Inr () \<and> deletions (t_trace (teardownPrometheusResources fe cleaning)) \<subseteq> T"
    using p(6) by (auto simp: T_def deletions_def)
  show "(is_job obj \<longrightarrow> (''Job'', mf_Namespace obj, mf_Name obj) \<in> T) \<and> (is_namespace obj \<longrightarrow> (''Namespace'', [], mf_Name obj) \<in> T)"
    if "ReadFile (su_disk se) (manifest_path ''test_jobs.yaml'') = Inr stream" "doc \<in> set (split_docs stream)"
      "\<not> no_text doc" "su_decode se doc = Inr obj"
  proof -
    have "obj \<in> set objs" using that p(1,2) by (auto intro: decode_docs_obj)
    then show ?thesis using p(4,5) by (auto simp: T_def deletions_def)
  qed
qed

lemma deployTestResources_creates:
  assumes td: "t_result (teardown fe cleaning kc) = Inr ()" and names: "names_agree (fn_suite fe)"
  shows "run_creates (deletions (t_trace (teardown fe cleaning kc)) \<union> {(r, ns, n). r \<in> set prometheusCRDResources})
    (deployTestResources fe)"
proof -
  let ?T = "deletions (t_trace (teardown fe cleaning kc))" and ?se = "fn_suite fe"
  let ?C = "?T \<union> {(r, ns, n). r \<in> set prometheusCRDResources}"
  have prom: "run_creates ?C (deployPrometheusTestResources fe)" if "requiresPrometheusResources (getenv ?se ''KUBE_TEST_ENV'')"
  proof -
    note p = teardown_deletes(4) [OF td that]
    have kept: "(kind, DefaultNamespace, name) \<in> ?C"
      if "(kind, name) \<in> {(''Deployment'', ''prometheus-annotation-test''), (''Service'', ''prometheus-annotation-service''),
           (''ConfigMap'', ''prometheus-test-metrics'')}" for kind name
    proof -
      have "(kind, DefaultNamespace, name) \<in> deletions (t_trace (teardownPrometheusResources fe cleaning))"
        using prometheus_deleted(1) [OF conjunct1 [OF p] that] by (simp add: deletions_def)
      with p show ?thesis by blast
    qed
    have "run_creates ?C (create_from fe ''prometheus_test_configmap.yaml'' [] ''ConfigMap'')"
      by (rule run_creates_from [OF _ kept]) (use names in \<open>simp_all add: names_agree_def\<close>)
    moreover have "run_creates ?C (create_from fe ''deployment_with_prometheus_annotations.yaml'' ''apps'' ''Deployment'')"
      by (rule run_creates_from [OF _ kept]) (use names in \<open>simp_all add: names_agree_def\<close>)
    moreover have "run_creates ?C (create_from fe ''service.yaml'' [] ''Service'')"
      by (rule run_creates_from [OF _ kept]) (use names in \<open>simp_all add: names_agree_def\<close>)
    moreover have "run_creates ?C (create_custom fe known name r)" if "r \<in> set prometheusCRDResources" for known name r
      using that by (intro run_creates_custom) auto
    ultimately show ?thesis
      unfolding deployPrometheusTestResources_def Let_def
      by (intro create_rules) (simp_all add: prometheusCRDResources_def)
  qed
  have depl: "run_creates ?C (deploy_file ?se f)" if "f \<in> set deployment_files" for f
    using names that teardown_deletes(1) [OF td]
    by (intro run_creates_deploy_file) (fastforce simp: names_agree_def list_all_iff decoded_name_def)
  have doc: "run_creates (?T \<union> C) (deploy_namespace ?se obj)" "run_creates (?T \<union> C) (deploy_job ?se obj)"
    if "snd (read_manifest ?se ''test_jobs.yaml'') = Inr stream" "doc \<in> set (split_docs stream)" "\<not> no_text doc" "su_decode ?se doc = Inr obj"
    for stream doc obj C
  proof -
    have t: "ReadFile (su_disk ?se) (manifest_path ''test_jobs.yaml'') = Inr stream"
      using that(1) by (simp add: read_manifest_def pure_run_def)
    note d = teardown_deletes(2) [OF td t that(2-4)]
    show "run_creates (?T \<union> C) (deploy_namespace ?se obj)"
      using d by (cases "is_namespace obj") (simp_all add: deploy_namespace_def create_rules)
    show "run_creates (?T \<union> C) (deploy_job ?se obj)"
      using d by (cases "is_job obj") (simp_all add: deploy_job_def create_rules)
  qed
  have env: "getenv ?se ''KUBE_TEST_ENV'' = env" if "snd (pure_run (requireEnv (su_lookup ?se) ''KUBE_TEST_ENV'')) = Inr env" for env
    using that by (simp add: pure_run_def getenv_required)
  show ?thesis
    unfolding deployTestResources_def by (intro create_rules depl doc; assumption?) (auto dest: env intro: prom)
qed

lemma deployTestResources_deleted:
  assumes td: "t_result (teardown fe True kc) = Inr ()" and names: "names_agree (fn_suite fe)" and listing: "listing_complete fe"
  shows "run_creates (deletions (t_trace (teardown fe True kc))) (deployTestResources fe)"
proof -
  let ?T = "deletions (t_trace (teardown fe True kc))" and ?se = "fn_suite fe"
  have "(kind, ns, name) \<in> ?T" if x: "Api Creating kind ns name \<in> set (fst (deployTestResources fe))" for kind ns name
  proof (cases "kind \<in> set prometheusCRDResources")
    case True
    have "kind \<in> set prometheusCRDResources \<longrightarrow>
        (case fn_items fe True kind of Inl e \<Rightarrow> False | Inr items \<Rightarrow> (ns, name) \<in> set items)"
      using listing x unfolding listing_complete_def list_all_iff by (auto dest!: bspec)
    with True obtain items where items: "fn_items fe True kind = Inr items" "(ns, name) \<in> set items"
      by (auto split: sum.splits)
    have "requiresPrometheusResources (getenv ?se ''KUBE_TEST_ENV'')"
    proof (rule ccontr)
      assume no: "\<not> requiresPrometheusResources (getenv ?se ''KUBE_TEST_ENV'')"
      have "run_creates (- {(r, ns, n). r \<in> set prometheusCRDResources}) (deployTestResources fe)"
        unfolding deployTestResources_def deploy_namespace_def deploy_job_def
        by (intro create_rules run_creates_deploy_file)
          (use no in \<open>auto simp: pure_run_def prometheusCRDResources_def dest: getenv_required\<close>)
      with x True show False by (auto simp: run_creates_def creations_def)
    qed
    note p = teardown_deletes(4) [OF td this]
    have "(kind, ns, name) \<in> deletions (t_trace (teardownPrometheusResources fe True))"
      using prometheus_deleted(2) [OF conjunct1 [OF p] True items] by (simp add: deletions_def)
    with p show ?thesis by blast
  next
    case False
    then show ?thesis
      using deployTestResources_creates [OF td names] x by (auto simp: run_creates_def creations_def)
  qed
  then show ?thesis by (auto simp: run_creates_def creations_def)
qed

lemma teardown_creates [create_rules]: "test_creates C (teardown fe cleaning kc)"
proof -
  have gone: "run_creates C ([AwaitGone r []], Inr ())" for r by (auto simp: run_creates_def creations_def)
  have customs: "test_creates C (remove_customs fe cleaning r)" for r
    unfolding remove_customs_def by (auto split: sum.split intro!: create_rules gone)
  have crds: "run_creates C (delete_crds se docs)" for se docs
  proof (induction docs)
    case (Cons doc docs)
    have "run_creates C ([Api Deleting kind ns name], Inr ())" for kind ns name
      by (simp add: run_creates_def creations_def)
    with Cons show ?case by (auto simp: Let_def intro!: create_rules)
  qed (simp add: create_rules)
  show ?thesis
    unfolding teardown_def Let_def teardownPrometheusResources_def
    by (intro create_rules customs crds)
qed

lemma deployCharts_creates:
  assumes td: "t_result (teardown fe True kc) = Inr ()"
  shows "test_creates (deletions (t_trace (teardown fe True kc))) (deployCharts fe kc)"
proof -
  let ?T = "deletions (t_trace (teardown fe True kc))" and ?se = "fn_suite fe"
  have info: "test_creates C (chart_info se info files)" for C se info files
    by (induction se info files rule: chart_info.induct) (auto simp: addChartInfo_def split: sum.split intro!: create_rules)
  have env: "getenv ?se ''KUBE_TEST_ENV'' = env" if "requireEnv (su_lookup ?se) ''KUBE_TEST_ENV'' = Inr env" for env
    using that by (rule getenv_required)
  have crds: "run_creates ?T (deployPrometheusCRDs fe)" if "requiresPrometheusResources (getenv ?se ''KUBE_TEST_ENV'')"
  proof -
    note p = teardown_deletes(4) [OF td that]
    have "run_creates ?T (deploy_crd fe obj)"
      if "snd (read_manifest ?se ''prometheus_operator_crds.yaml'') = Inr stream" "doc \<in> set (split_docs stream)" "\<not> blank doc"
        "su_decode ?se doc = Inr obj" for stream doc obj
    proof -
      have "(''CustomResourceDefinition'', [], mf_Name obj) \<in> ?T" if "is_crd obj"
        using prometheus_deleted(3) [OF conjunct1 [OF p], of stream doc obj] p \<open>is_crd obj\<close> \<open>doc \<in> _\<close> \<open>\<not> blank doc\<close> \<open>su_decode ?se doc = _\<close>
          \<open>snd (read_manifest _ _) = _\<close>
        by (auto simp: read_manifest_def pure_run_def deletions_def)
      then show ?thesis
        by (auto simp: deploy_crd_def create_unless_exists_def run_creates_def creations_def bind_run_def pure_run_def waiting_def
            split: prod.splits sum.splits if_splits)
    qed
    then show ?thesis unfolding deployPrometheusCRDs_def by (intro create_rules)
  qed
  have secret: "run_creates ?T (createAKSWindowsValidationSecret fe)" if "getenv ?se ''KUBE_TEST_ENV'' = aksTestKubeEnv"
    using teardown_deletes(3) [OF td that] by (auto simp: createAKSWindowsValidationSecret_def split: option.split intro!: create_rules)
  show ?thesis
    unfolding deployCharts_def Let_def install_charts_def unless_skipped_def
    by (intro create_rules info) (auto dest!: env intro: crds secret)
qed

text \<open>Calls that keep the objects of the cluster within a set.\<close>

definition stays_within :: "(suite_action \<Rightarrow> string option) \<Rightarrow> (string \<times> string \<times> string) set \<Rightarrow> suite_action list \<Rightarrow> bool" where
  "stays_within answer S xs \<longleftrightarrow> (\<forall>objs \<subseteq> S. objects_after answer xs objs \<subseteq> S)"

definition test_keeps :: "(suite_action \<Rightarrow> string option) \<Rightarrow> (string \<times> string \<times> string) set \<Rightarrow> (suite_action, 'a) test \<Rightarrow> bool" where
  "test_keeps answer S m \<longleftrightarrow> stays_within answer S (t_trace m) \<and> stays_within answer S (cleanup_trace m)"

named_theorems keep_rules \<open>which objects a step leaves\<close>

lemma stays_within_append: "stays_within answer S xs \<Longrightarrow> stays_within answer S ys \<Longrightarrow> stays_within answer S (xs @ ys)"
  by (simp add: stays_within_def objects_after_append)

lemma stays_within_creations: "creations xs \<subseteq> S \<Longrightarrow> stays_within answer S xs"
  using objects_after_created [of answer xs] by (fastforce simp: stays_within_def)

lemma stays_within_Nil [simp]: "stays_within answer S []"
  by (simp add: stays_within_def)

lemma test_keeps_creates: "test_creates S m \<Longrightarrow> test_keeps answer S m"
  by (simp add: test_keeps_def test_creates_def stays_within_creations)

lemma test_keeps_finish: "test_keeps answer S m \<Longrightarrow> stays_within answer S (fst (finish m))"
  by (simp add: test_keeps_def finish_def stays_within_append)

lemma test_keeps_bind [keep_rules]:
  "test_keeps answer S m \<Longrightarrow> (\<And>a. test_keeps answer S (f a)) \<Longrightarrow> test_keeps answer S (bind_test m f)"
  by (cases "t_result m") (simp_all add: test_keeps_def cleanup_trace_bind test_simps stays_within_append)

lemma test_keeps_if [keep_rules]:
  "(b \<Longrightarrow> test_keeps answer S m) \<Longrightarrow> (\<not> b \<Longrightarrow> test_keeps answer S n) \<Longrightarrow> test_keeps answer S (if b then m else n)"
  by simp

lemma test_keeps_Run [keep_rules]: "stays_within answer S (fst (finish m)) \<Longrightarrow> test_keeps answer S (t_Run name m)"
  by (simp add: test_keeps_def)

lemma test_keeps_each [keep_rules]: "(\<And>x. test_keeps answer S (f x)) \<Longrightarrow> test_keeps answer S (each_test f xs)"
  by (induction xs) (simp_all add: keep_rules test_keeps_creates create_rules)

lemma test_keeps_simps [keep_rules]:
  "test_keeps answer S (pure_test r)" "test_keeps answer S (assert_test ok msg)" "test_keeps answer S (do_run (kube_client se kc))"
  by (intro test_keeps_creates create_rules)+

text \<open>What a test leaves in an empty cluster.\<close>

definition leaves :: "(suite_action \<Rightarrow> string option) \<Rightarrow> (string \<times> string \<times> string) set \<Rightarrow> (suite_action, 'a) test \<Rightarrow> bool" where
  "leaves answer L m \<longleftrightarrow> objects_after answer (fst (finish m)) {} \<subseteq> L"

lemma leaves_kept: "test_keeps answer L m \<Longrightarrow> leaves answer L m"
  using test_keeps_finish [of answer L m] by (simp add: leaves_def stays_within_def)

lemma leaves_bind:
  assumes "test_creates {} m" and "\<And>a. t_result m = Inr a \<Longrightarrow> leaves answer L (f a)"
  shows "leaves answer L (bind_test m f)"
proof -
  have c: "creations (t_trace m) = {}" "stays_within answer L (cleanup_trace m)"
    using assms(1) by (auto simp: test_creates_def intro: stays_within_creations)
  then show ?thesis
    using assms(2)
    by (cases "t_result m")
      (simp_all add: leaves_def finish_bind_Inl finish_bind objects_after_append objects_after_untouched stays_within_def)
qed

text \<open>The objects that calls leave in a cluster are those that were there or those that they leave in an empty one.\<close>

lemma objects_after_empty: "objects_after answer xs (A \<union> B) \<subseteq> A \<union> objects_after answer xs B"
proof -
  have "objects_after answer xs objs \<subseteq> A \<union> objects_after answer xs objs'" if "objs \<subseteq> A \<union> objs'" for objs objs'
    using that
  proof (induction answer xs objs arbitrary: objs' rule: objects_after.induct)
    case (2 answer kind ns name xs objs)
    then show ?case by (simp only: objects_after.simps) (intro "2.IH"; auto)
  next
    case (3 answer kind ns name xs objs)
    then show ?case by (simp only: objects_after.simps) (intro "3.IH"; auto)
  qed simp_all
  then show ?thesis by blast
qed

lemma stays_within_self: "objects_after answer xs {} \<subseteq> S \<Longrightarrow> stays_within answer S xs"
  using objects_after_empty [of answer xs _ "{}"] by (fastforce simp: stays_within_def)

text \<open>The subtest of the agent metrics leaves what its activity leaves, and nothing if the activity succeeds.\<close>

definition telemetry_leftovers :: "suite_env \<Rightarrow> telemetry_obs \<Rightarrow> (string \<times> string \<times> string) set" where
  "telemetry_leftovers se ob =
     (if passes (generateRequiredTelemetry se ob) then {}
      else {(''Namespace'', [], ''test-namespace''), (''Pod'', ''test-namespace'', ''test-pod'')})"

lemma telemetry_leaves:
  assumes "su_answer se (Api Deleting ''Namespace'' [] ''test-namespace'') = None"
  shows "objects_after (su_answer se) (fst (finish (generateRequiredTelemetry se ob))) {} \<subseteq> telemetry_leftovers se ob"
proof (cases "passes (generateRequiredTelemetry se ob)")
  case True
  then show ?thesis using telemetry_cleans_up [OF True assms, of "{}"] by (simp add: telemetry_leftovers_def)
next
  case False
  have "run_creates C (waiting (Api Creating kind ns name) ok)" if "(kind, ns, name) \<in> C" for C kind ns name ok
    using that by (simp add: run_creates_def creations_def)
  moreover have "run_creates C (waiting (Api Deleting kind ns name) ok)" "run_creates C (waiting (Checking c) ok)" for C kind ns name ok c
    by (simp_all add: run_creates_def creations_def)
  ultimately have "test_creates {(''Namespace'', [], ''test-namespace''), (''Pod'', ''test-namespace'', ''test-pod'')}
      (generateRequiredTelemetry se ob)"
    unfolding generateRequiredTelemetry_def by (intro create_rules) simp_all
  with False show ?thesis
    using objects_after_created [of "su_answer se" "fst (finish (generateRequiredTelemetry se ob))" "{}"]
    by (auto simp: telemetry_leftovers_def test_creates_finish)
qed

lemma telemetry_no_cleanups: "cleanup_trace (generateRequiredTelemetry se ob) = []"
  by (simp add: generateRequiredTelemetry_def cleanup_trace_bind split: sum.split)

lemma agent_metrics_within:
  assumes "su_answer se (Api Deleting ''Namespace'' [] ''test-namespace'') = None" and "telemetry_leftovers se ob \<subseteq> S"
    and "creations (fst (finish rest)) = {}"
  shows "stays_within (su_answer se) S (fst (finish (bind_test (generateRequiredTelemetry se ob) (\<lambda>_. rest))))"
proof -
  have "stays_within (su_answer se) S (t_trace (generateRequiredTelemetry se ob))"
    using telemetry_leaves [OF assms(1), of ob] assms(2)
    by (intro stays_within_self) (auto simp: finish_def telemetry_no_cleanups)
  then show ?thesis
    using assms(3) by (cases "t_result (generateRequiredTelemetry se ob)")
      (simp_all add: finish_bind finish_bind_Inl telemetry_no_cleanups stays_within_append stays_within_creations)
qed

lemma cleanup_deployCharts:
  assumes "t_result (deployCharts fe kc) = Inr ()" and "\<not> switched_on (fn_suite fe) ''SKIP_TEARDOWN''"
  shows "cleanup_trace (deployCharts fe kc) = fst (finish (teardown fe True kc))"
proof -
  have info: "cleanup_trace (chart_info se info files) = []" for se info files
    by (induction se info files rule: chart_info.induct) (auto simp: addChartInfo_def cleanup_trace_bind split: sum.split)
  show ?thesis
    using assms unfolding deployCharts_def Let_def
    by (auto elim!: bind_test_done simp: info unless_skipped_def)
qed

text \<open>The teardown deletes what the test creates between the deployment of the charts and its end, but for what may be left.\<close>

lemma leaves_teardown:
  assumes "t_result (deployCharts fe kc) = Inr ()" and "\<not> switched_on (fn_suite fe) ''SKIP_TEARDOWN''"
    and td: "t_result (teardown fe True kc) = Inr ()"
    and deleted: "\<And>kind ns name. answer (Api Deleting kind ns name) = None"
    and "test_keeps answer (deletions (t_trace (teardown fe True kc)) \<union> L) (f ())"
  shows "leaves answer L (bind_test (deployCharts fe kc) f)"
proof -
  let ?T = "deletions (t_trace (teardown fe True kc))" and ?xs = "t_trace (deployCharts fe kc) @ fst (finish (f ()))"
  have "stays_within answer (?T \<union> L) (t_trace (deployCharts fe kc))"
    using deployCharts_creates [OF td] by (auto simp: test_creates_def intro: stays_within_creations)
  then have "objects_after answer ?xs {} \<subseteq> ?T \<union> L"
    using test_keeps_finish [OF assms(5)] by (simp add: stays_within_def objects_after_append)
  moreover have "creations (fst (finish (teardown fe True kc))) = {}"
    using teardown_creates [of "{}"] by (simp add: test_creates_finish)
  then have "objects_after answer (fst (finish (teardown fe True kc))) objs \<subseteq> objs - ?T" for objs
    using objects_after_deleted [of answer "fst (finish (teardown fe True kc))" objs] deleted by (auto simp: finish_def)
  ultimately have "objects_after answer (?xs @ fst (finish (teardown fe True kc))) {} \<subseteq> L"
    unfolding objects_after_append by blast
  then show ?thesis
    using assms(1) cleanup_deployCharts [OF assms(1,2)] by (simp add: leaves_def finish_bind)
qed

text \<open>
  C2: the functional test leaves no objects behind, except possibly the namespace and the pod with which the test of the
  agent metrics makes the cluster busy: when this activity fails, nothing removes them. All other objects are gone after the
  test, and these too if the activity succeeds, provided that the charts could be deployed, the teardown gets
  to its end with all deletions accepted, and the other subtests create nothing. That the test is stopped by a failure
  after the deployment does not matter, nor with what switches it is run, as long as the teardown is not skipped.
\<close>

theorem Test_Functions_leaves_nothing:
  assumes "requireEnv (su_lookup (fn_suite fe)) ''KUBECONFIG'' = Inr kc" and "\<not> switched_on (fn_suite fe) ''SKIP_TEARDOWN''"
    and "t_result (deployCharts fe kc) = Inr ()" and "t_result (teardown fe True kc) = Inr ()"
    and "names_agree (fn_suite fe)" and "listing_complete fe"
    and "\<And>kind ns name. su_answer (fn_suite fe) (Api Deleting kind ns name) = None"
    and "\<And>dir. body dir ''test agent metrics'' = bind_test (generateRequiredTelemetry (fn_suite fe) ob) (\<lambda>_. comparisons dir)"
    and "\<And>dir. creations (fst (finish (comparisons dir))) = {}"
    and "\<And>dir name. name \<noteq> ''test agent metrics'' \<Longrightarrow> creations (fst (finish (body dir name))) = {}"
  shows "objects_after (su_answer (fn_suite fe)) (fst (finish (Test_Functions fe body))) {} \<subseteq>
    (if passes (generateRequiredTelemetry (fn_suite fe) ob) then {}
     else {(''Namespace'', [], ''test-namespace''), (''Pod'', ''test-namespace'', ''test-pod'')})"
proof -
  let ?se = "fn_suite fe" and ?T = "deletions (t_trace (teardown fe True kc))"
  let ?L = "telemetry_leftovers ?se ob" and ?a = "su_answer ?se"
  have body: "stays_within ?a S (fst (finish (body dir name)))" if "?L \<subseteq> S" for S dir name
    using agent_metrics_within [OF assms(7) that assms(9)] assms(8,10)
    by (cases "name = ''test agent metrics''") (simp_all add: stays_within_creations)
  have subtests: "test_keeps ?a S (subtests body dir names)" if "?L \<subseteq> S" for S dir names
    unfolding subtests_def by (intro keep_rules body that)
  have tests: "test_keeps ?a S (functional_tests fe body dir env)" if "?L \<subseteq> S" for S dir env
    unfolding functional_tests_def Let_def runHostedClusterTests_def by (intro keep_rules subtests that)
  have lease: "test_creates C (lease_test ?se name)" for C name
    unfolding lease_test_def by (intro create_rules) (simp_all add: run_creates_def creations_def)
  have before: "test_creates C (if switched_on ?se ''TEARDOWN_BEFORE_SETUP'' then teardown fe False kc else pure_test (Inr ()))" for C
    by (intro create_rules)
  have resources: "test_keeps ?a (?T \<union> L) (do_run (deployTestResources fe))" for L
    using deployTestResources_deleted [OF assms(4,5,6)] by (intro test_keeps_creates create_rules) (auto simp: run_creates_def)
  have deployed: "leaves ?a ?L (bind_test (set_up fe body dir kc env) (\<lambda>_. functional_tests fe body dir env))" for dir env
    unfolding set_up_def Let_def bind_test_assoc
    by (intro leaves_bind leaves_teardown assms(2,3,4,7) create_rules keep_rules subtests tests resources Un_upper2)
  have skipped: "leaves ?a ?L (bind_test (pure_test (Inr ())) (\<lambda>_. functional_tests fe body dir env))" for dir env
    using tests [OF order_refl] by (simp add: leaves_kept)
  have "leaves ?a ?L
      (bind_test (if switched_on ?se ''SKIP_SETUP'' then pure_test (Inr ()) else set_up fe body dir kc env)
        (\<lambda>_. functional_tests fe body dir env))" for dir env
    using skipped deployed by simp
  then have "leaves ?a ?L
      (bind_test (lease_test ?se ''Test_Functions'') (\<lambda>_.
       bind_test (if switched_on ?se ''TEARDOWN_BEFORE_SETUP'' then teardown fe False kc else pure_test (Inr ())) (\<lambda>_.
       bind_test (if switched_on ?se ''SKIP_SETUP'' then pure_test (Inr ()) else set_up fe body dir kc env)
        (\<lambda>_. functional_tests fe body dir env))))" for dir env
    by (intro leaves_bind [OF lease] leaves_bind [OF before])
  then have "leaves ?a ?L (Test_Functions fe body)"
    unfolding Test_Functions_def Let_def assms(1) bind_test_pure
    by (intro leaves_bind [OF test_creates_local [OF local_step_sinks]] leaves_bind [OF test_creates_simps(1)])
  then show ?thesis unfolding leaves_def telemetry_leftovers_def .
qed

definition sample_functions :: fn_env where
  "sample_functions =
     \<lparr>fn_suite = sample_suite (\<lambda>_. None), fn_order = (\<lambda>info. info), fn_terminating = (\<lambda>_. False), fn_vanishing = (\<lambda>_. []),
      fn_conditions = (\<lambda>_. [Inr [(''Established'', ''True'')]]),
      fn_spec = (\<lambda>n. \<lparr>crd_Group = ''monitoring.coreos.com'', crd_Versions = [''v1''], crd_Kind = ''PodMonitor''\<rparr>),
      fn_decode_cr = (\<lambda>_ c. Inr (sample_object c)), fn_secret = None, fn_phases = [Inr [''Active'']],
      fn_gets = (\<lambda>_ _ _. [Some ''not found'']),
      fn_items = (\<lambda>_ _. Inr [(''default'', ''testdata/manifests/pod_monitor.yaml''), (''default'', ''testdata/manifests/service_monitor.yaml'')]),
      fn_remaining = (\<lambda>_ _. [Inr []])\<rparr>"

lemma sample_paths [test_simps]:
  "manifest_path ''test_jobs.yaml'' = ''testdata/manifests/test_jobs.yaml''"
  "manifest_path ''prometheus_operator_crds.yaml'' = ''testdata/manifests/prometheus_operator_crds.yaml''"
  "manifest_path ''pod_monitor.yaml'' = ''testdata/manifests/pod_monitor.yaml''"
  "manifest_path ''service_monitor.yaml'' = ''testdata/manifests/service_monitor.yaml''"
  "manifest_path ''prometheus_test_configmap.yaml'' = ''testdata/manifests/prometheus_test_configmap.yaml''"
  "manifest_path ''deployment_with_prometheus_annotations.yaml'' = ''testdata/manifests/deployment_with_prometheus_annotations.yaml''"
  "manifest_path ''service.yaml'' = ''testdata/manifests/service.yaml''"
  "deployment_files = [''testdata/nodejs/deployment.yaml'', ''testdata/java/deployment.yaml'', ''testdata/dotnet/deployment.yaml'',
     ''testdata/python/deployment.yaml'', ''testdata/manifests/log_attr_test_deployment.yaml'']"
  by code_simp+

lemma sample_docs [test_simps]:
  "split_docs ''testdata/manifests/test_jobs.yaml'' = [''testdata/manifests/test_jobs.yaml'']"
  "split_docs ''testdata/manifests/prometheus_operator_crds.yaml'' = [''testdata/manifests/prometheus_operator_crds.yaml'']"
  "blank ''testdata/manifests/prometheus_operator_crds.yaml'' \<longleftrightarrow> False"
  "path_abs (Inr ''/t'') (path_join [testDir, ''values'', ''test_values.yaml.tmpl'']) = Inr ''/t/testdata/values/test_values.yaml.tmpl''"
  "has_suffix ''/t/testdata/values/test_values.yaml.tmpl'' ''Chart.yaml'' \<longleftrightarrow> False"
  by code_simp+

lemma sample_fn [test_simps]:
  "fn_suite sample_functions = sample_suite (\<lambda>_. None)" "fn_order sample_functions info = info"
  "fn_terminating sample_functions n \<longleftrightarrow> False" "fn_conditions sample_functions n = [Inr [(''Established'', ''True'')]]"
  "fn_decode_cr sample_functions known c = Inr (sample_object c)" "fn_phases sample_functions = [Inr [''Active'']]"
  "fn_gets sample_functions cleaning kind n = [Some ''not found'']" "fn_remaining sample_functions cleaning r = [Inr []]"
  "fn_items sample_functions cleaning r =
     Inr [(''default'', ''testdata/manifests/pod_monitor.yaml''), (''default'', ''testdata/manifests/service_monitor.yaml'')]"
  by (simp_all add: sample_functions_def)

lemma sample_objects [test_simps]:
  "as_object ''apps'' ''v1'' ''Deployment'' (sample_object ''testdata/nodejs/deployment.yaml'') = Inr (sample_object ''testdata/nodejs/deployment.yaml'')"
  "is_namespace (sample_object ''testdata/manifests/test_jobs.yaml'')" "\<not> is_job (sample_object ''testdata/manifests/test_jobs.yaml'')"
  "is_crd (sample_object ''testdata/manifests/prometheus_operator_crds.yaml'')"
  by code_simp+

lemma pure_run_Inr_snd: "snd (pure_run r) = r"
  by (simp add: pure_run_def)

lemma sample_deployCharts: "t_result (deployCharts sample_functions ''kc'') = Inr ()"
  by (simp add: deployCharts_def Let_def test_simps requiresPrometheusResources_def kindTestKubeEnv_def deployPrometheusCRDs_def
      read_manifest_def each_doc_def deploy_crd_def create_unless_exists_def waiting_def established_check_def established_def
      aksTestKubeEnv_def chart_files_def addChartInfo_def install_charts_def sample_chart_install bind_test_result_Inr pure_run_Inr_snd)

lemma sample_teardown: "t_result (teardown sample_functions True ''kc'') = Inr ()"
proof -
  obtain xs where u: "chart_uninstall (sample_suite (\<lambda>_. None)) True = (xs, Inr ())"
    using sample_uninstall by (metis prod.collapse)
  have gone: "gone_error (sample_suite a) (Some ''not found'')" for a by (simp add: gone_error_def sample_suite_def)
  have "t_result (teardownPrometheusResources sample_functions True) = Inr ()"
    by (simp add: teardownPrometheusResources_def prometheusCRDResources_def remove_customs_def each_delete delete_ignoring_def
        ignoring_def test_simps read_manifest_def Let_def await_gone_def gone bind_test_result_Inr removed_check_def waiting_def pure_run_Inr_snd)
  then show ?thesis
    by (simp add: teardown_def Let_def test_simps read_manifest_def each_delete
        no_text_def requiresPrometheusResources_def kindTestKubeEnv_def bind_test_result_Inr delete_ignoring_def ignoring_def
        await_gone_def gone waiting_def u aksTestKubeEnv_def pure_run_Inr_snd)
qed

lemma sample_names: "names_agree (sample_suite (\<lambda>_. None))"
  by (simp add: names_agree_def test_simps decoded_name_def sample_object_def deployment_names_def)

lemma sample_custom:
  assumes "name \<in> {''pod_monitor.yaml'', ''service_monitor.yaml''}"
    and "fn_items sample_functions True r = Inr items" "(DefaultNamespace, manifest_path name) \<in> set items \<Longrightarrow> (r, DefaultNamespace, manifest_path name) \<in> C"
  shows "run_creates C (create_custom sample_functions known name r)"
proof -
  have "mf_Name (sample_object (manifest_path name)) = manifest_path name" "(DefaultNamespace, manifest_path name) \<in> set items"
    using assms(1,2) by (auto simp: sample_fn sample_paths sample_object_def DefaultNamespace_def)
  with assms(3) show ?thesis
    unfolding create_custom_def by (intro create_rules) (auto simp: read_manifest_def pure_run_def test_simps)
qed

lemma sample_listing: "listing_complete sample_functions"
proof -
  let ?C = "{(r, ns, n). r \<in> set prometheusCRDResources \<longrightarrow>
      (ns, n) \<in> {(DefaultNamespace, manifest_path ''pod_monitor.yaml''), (DefaultNamespace, manifest_path ''service_monitor.yaml'')}}"
  have "run_creates ?C (deployTestResources sample_functions)"
    unfolding deployTestResources_def deploy_namespace_def deploy_job_def deployPrometheusTestResources_def create_from_def Let_def
    by (intro create_rules run_creates_deploy_file sample_custom [OF _ sample_fn(9)])
      (auto simp: prometheusCRDResources_def)
  then have "r \<in> set prometheusCRDResources \<longrightarrow> (case fn_items sample_functions True r of Inl e \<Rightarrow> False | Inr items \<Rightarrow> (ns, n) \<in> set items)"
    if "Api Creating r ns n \<in> set (fst (deployTestResources sample_functions))" for r ns n
    using that by (auto simp: run_creates_def creations_def sample_fn sample_paths DefaultNamespace_def)
  then show ?thesis
    unfolding listing_complete_def list_all_iff by (auto split: suite_action.split verb.split)
qed

definition sample_telemetry :: telemetry_obs where
  "sample_telemetry =
     \<lparr>to_namespace = [None], to_account = [None], to_pod = [None], to_pod_gone = [Some ''not found''], to_namespace_gone = [Some ''not found'']\<rparr>"

definition sample_body :: subtest_body where
  "sample_body dir name =
     (if name = ''test agent metrics''
      then bind_test (generateRequiredTelemetry (fn_suite sample_functions) sample_telemetry) (\<lambda>_. do_run ([Checking name], Inr ()))
      else do_run ([Checking name], Inr ()))"

lemma Test_Functions_leaves_nothing_witness:
  "objects_after (\<lambda>_. None) (fst (finish (Test_Functions sample_functions sample_body))) {} = {}"
proof -
  have c: "requireEnv (su_lookup (fn_suite sample_functions)) ''KUBECONFIG'' = Inr ''kc''"
    "\<not> switched_on (fn_suite sample_functions) ''SKIP_TEARDOWN''" "names_agree (fn_suite sample_functions)"
    using sample_names by (simp_all add: test_simps)
  have none: "creations (fst (finish (do_run ([Checking name], Inr ())))) = {}" for name
    by (simp add: creations_def)
  have "su_lookup (sample_suite (\<lambda>_. None)) ''KUBECONFIG'' \<noteq> None" by (simp add: sample_suite_def)
  then have "passes (generateRequiredTelemetry (fn_suite sample_functions) sample_telemetry)"
    by (simp add: generateRequiredTelemetry_def passes_bind sample_fn(1) test_simps sample_telemetry_def CreateNamespace_def
        WaitForDefaultServiceAccount_def CreatePod_def DeletePod_def DeleteNamespace_def delete_tolerated_def present_check_def
        gone_check_def waiting_def act_def act_run_def bind_run_def pure_run_def)
  with Test_Functions_leaves_nothing [OF c(1,2) sample_deployCharts sample_teardown c(3) sample_listing,
      of sample_body sample_telemetry "\<lambda>_. do_run ([Checking ''test agent metrics''], Inr ())"] none
  show ?thesis by (simp add: sample_body_def sample_fn(1))
qed

end
