(* ===== verification/AnnotationTests.thy ===== *)
theory AnnotationTests
  imports SplunkSearch GoTest "HOL-Library.Sublist"
begin

section \<open>The annotation tests\<close>

text \<open>
  \<open>test/splunk_integration_test.go\<close>: each test of a table annotates a namespace or a pod, searches on the
  Splunk instance until it has the wanted number of events, and removes the annotations in a cleanup. An error of a
  search is a panic on the goroutine of \<open>require.Eventually\<close>, which ends the whole process: no cleanup is run.
\<close>

subsection \<open>The cluster\<close>

datatype anno_obj = NamespaceObj string | PodObj string string \<comment> \<open>namespace, name\<close>

datatype anno_change = SetAnnotations "(string \<times> string) list" | RemoveAnnotations

datatype wanted = Exactly nat | AtLeast nat

datatype anno_action =
    GetObj anno_obj
  | UpdateObj anno_obj anno_change
  | Searching string string wanted \<comment> \<open>query, start time\<close>

text \<open>The annotations of an object; \<^const>\<open>None\<close> is the nil map.\<close>

type_synonym annotations = "(string \<rightharpoonup> string) option"

text \<open>
  \<open>an_polls\<close> is what the searches of the successive checks of a wait meet until it gives up, \<open>an_now\<close> the Unix
  time when the subtest of that name takes it.
\<close>

record anno_env =
  an_lookup :: "string \<rightharpoonup> string"
  an_client :: "string \<Rightarrow> string option"
  an_answer :: "anno_action \<Rightarrow> string option"
  an_polls :: "string \<Rightarrow> string \<Rightarrow> splunk_env list"
  an_now :: "string \<Rightarrow> int"

definition createK8sClient :: "anno_env \<Rightarrow> unit result" where
  "createK8sClient ae =
     (case an_lookup ae ''KUBECONFIG'' of
        None \<Rightarrow> Inl ''the environment variable KUBECONFIG must be set''
      | Some kc \<Rightarrow> (case an_client ae kc of Some e \<Rightarrow> Inl e | None \<Rightarrow> Inr ()))"

definition update_annotations :: "anno_env \<Rightarrow> anno_obj \<Rightarrow> anno_change \<Rightarrow> (anno_action, unit) run" where
  "update_annotations ae obj change =
     bind_run (act_run (an_answer ae) (GetObj obj)) (\<lambda>_. act_run (an_answer ae) (UpdateObj obj change))"

definition annotation_changes :: "string \<Rightarrow> string \<Rightarrow> string \<Rightarrow> (string \<times> string) list" where
  "annotation_changes annotationIndex annotationSourcetype annotationSourcetypeMetrics =
     (if annotationIndex \<noteq> [] then [(''splunk.com/metricsIndex'', annotationIndex)] else []) @
     (if annotationSourcetype \<noteq> [] then [(''splunk.com/sourcetype'', annotationSourcetype)] else []) @
     (if annotationSourcetypeMetrics \<noteq> [] then [(''splunk.com/metricsSourcetype'', annotationSourcetypeMetrics)] else [])"

definition addNamespaceAnnotation :: "anno_env \<Rightarrow> string \<Rightarrow> string \<Rightarrow> string \<Rightarrow> string \<Rightarrow> (anno_action, unit) run" where
  "addNamespaceAnnotation ae namespace_name index sourcetype sourcetypeMetrics =
     update_annotations ae (NamespaceObj namespace_name) (SetAnnotations (annotation_changes index sourcetype sourcetypeMetrics))"

definition addPodAnnotation :: "anno_env \<Rightarrow> string \<Rightarrow> string \<Rightarrow> string \<Rightarrow> string \<Rightarrow> string \<Rightarrow> (anno_action, unit) run" where
  "addPodAnnotation ae pod_name namespace index sourcetype sourcetypeMetrics =
     update_annotations ae (PodObj namespace pod_name) (SetAnnotations (annotation_changes index sourcetype sourcetypeMetrics))"

definition removeAllNamespaceAnnotations :: "anno_env \<Rightarrow> string \<Rightarrow> (anno_action, unit) run" where
  "removeAllNamespaceAnnotations ae namespace_name = update_annotations ae (NamespaceObj namespace_name) RemoveAnnotations"

definition removeAllPodsAnnotations :: "anno_env \<Rightarrow> string \<Rightarrow> string \<Rightarrow> (anno_action, unit) run" where
  "removeAllPodsAnnotations ae pod_name namespace = update_annotations ae (PodObj namespace pod_name) RemoveAnnotations"

subsection \<open>Waiting for events\<close>

definition search_count :: "splunk_env \<Rightarrow> string \<Rightarrow> string \<Rightarrow> nat result" where
  "search_count sp searchQuery startTime =
     bind_res (snd (CheckEventsFromSplunk sp searchQuery startTime [])) (\<lambda>events. Inr (length events))"

fun enough :: "wanted \<Rightarrow> nat \<Rightarrow> bool" where
  "enough (Exactly expected) n \<longleftrightarrow> n = expected"
| "enough (AtLeast minimum) n \<longleftrightarrow> n \<ge> minimum"

datatype poll_end = EventsFound nat | PollTimeout | Panicked string

fun poll_events :: "(splunk_env \<Rightarrow> nat result) \<Rightarrow> wanted \<Rightarrow> splunk_env list \<Rightarrow> poll_end" where
  "poll_events search w [] = PollTimeout"
| "poll_events search w (sp # sps) =
     (case search sp of
        Inl e \<Rightarrow> Panicked e
      | Inr n \<Rightarrow> if enough w n then EventsFound n else poll_events search w sps)"

definition wait_end :: "anno_env \<Rightarrow> string \<Rightarrow> string \<Rightarrow> wanted \<Rightarrow> poll_end" where
  "wait_end ae searchQuery startTime w =
     poll_events (\<lambda>sp. search_count sp searchQuery startTime) w (an_polls ae searchQuery startTime)"

definition wait_events :: "anno_env \<Rightarrow> string \<Rightarrow> string \<Rightarrow> wanted \<Rightarrow> (anno_action, nat) run" where
  "wait_events ae searchQuery startTime w =
     ([Searching searchQuery startTime w],
      case wait_end ae searchQuery startTime w of
        EventsFound n \<Rightarrow> Inr n
      | PollTimeout \<Rightarrow> Inl ''Condition never satisfied''
      | Panicked e \<Rightarrow> Inl e)"

definition waitForExactEventCount :: "anno_env \<Rightarrow> string \<Rightarrow> string \<Rightarrow> nat \<Rightarrow> (anno_action, nat) run" where
  "waitForExactEventCount ae searchQuery startTime expected = wait_events ae searchQuery startTime (Exactly expected)"

definition waitForMinimumEventCount :: "anno_env \<Rightarrow> string \<Rightarrow> string \<Rightarrow> nat \<Rightarrow> (anno_action, nat) run" where
  "waitForMinimumEventCount ae searchQuery startTime minimum = wait_events ae searchQuery startTime (AtLeast minimum)"

text \<open>
  The actions of a test up to the panic of a search, which kills the process: what the test would have
  done after it is not done.
\<close>

definition kills :: "anno_env \<Rightarrow> anno_action \<Rightarrow> bool" where
  "kills ae x =
     (case x of
        Searching q start w \<Rightarrow> (case wait_end ae q start w of Panicked e \<Rightarrow> True | _ \<Rightarrow> False)
      | _ \<Rightarrow> False)"

fun performed :: "anno_env \<Rightarrow> anno_action list \<Rightarrow> anno_action list" where
  "performed ae [] = []"
| "performed ae (x # xs) = x # (if kills ae x then [] else performed ae xs)"

subsection \<open>The tables\<close>

text \<open>Name, label, index and number of events; and with the value of a field.\<close>

definition log_cases :: "(string \<times> string \<times> string \<times> nat) list" where
  "log_cases =
     [(''no annotations for namespace and pod'', ''pod-wo-index-wo-ns-index'', ''ci_events'', 45),
      (''pod annotation only'', ''pod-w-index-wo-ns-index'', ''pod-anno'', 100),
      (''namespace annotation only'', ''pod-wo-index-w-ns-index'', ''ns-anno'', 15),
      (''pod and namespace annotation'', ''pod-w-index-w-ns-index'', ''pod-anno'', 10),
      (''exclude namespace annotation'', ''pod-w-index-w-ns-exclude'', ''*'', 0),
      (''exclude pod annotation'', ''pod-wo-index-w-exclude-w-ns-index'', ''*'', 0)]"

definition metadata_cases :: "(string \<times> string \<times> string \<times> string \<times> nat) list" where
  "metadata_cases =
     [(''custom metadata 1'', ''pod-w-index-wo-ns-index'', ''pod-anno'', ''pod-value-2'', 100),
      (''custom metadata 2'', ''pod-w-index-w-ns-index'', ''pod-anno'', ''pod-value-1'', 10)]"

text \<open>Name, index, sourcetype, and whether the pod is annotated too; and with the sourcetype of metrics.\<close>

definition namespace_cases :: "(string \<times> string \<times> string \<times> bool) list" where
  "namespace_cases =
     [(''default index and default sourcetype'', [], [], False),
      (''annotation index and default sourcetype'', ''test_metrics'', [], False),
      (''default index and annotation sourcetype'', [], ''annotation_sourcetype'', False),
      (''annotation index and annotation sourcetype'', ''test_metrics'', ''annotation_sourcetype'', False),
      (''annotation index and annotation sourcetype in both namespace and pod'', ''test_metrics'', ''annotation_sourcetype'', True)]"

definition pod_cases :: "(string \<times> string \<times> string \<times> string) list" where
  "pod_cases =
     [(''default index and default sourcetype'', [], [], []),
      (''annotation index and default sourcetype'', ''test_metrics'', [], []),
      (''default index and annotation sourcetype'', [], ''annotation_sourcetype'', []),
      (''default index, default sourcetype and annotation metric sourcetype'', [], [], ''annotation_metric_sourcetype''),
      (''default index, annotation sourcetype and annotation metric sourcetype'', [], ''annotation_sourcetype'', ''annotation_metric_sourcetype''),
      (''annotation index and annotation sourcetype'', ''test_metrics'', ''annotation_sourcetype'', [])]"

subsection \<open>The tests\<close>

definition log_query :: "string \<Rightarrow> string \<Rightarrow> string" where
  "log_query index label = ''| search index='' @ index @ '' k8s.pod.labels.app::'' @ label"

definition log_test :: "anno_env \<Rightarrow> string \<times> string \<times> string \<times> nat \<Rightarrow> (anno_action, unit) test" where
  "log_test ae = (\<lambda>(name, label, index, expected).
     bind_test (do_run (waitForExactEventCount ae (log_query index label) ''-1h@h'' expected)) (\<lambda>n.
       assert_test (n = expected) ''Not equal''))"

definition metadata_test :: "anno_env \<Rightarrow> string \<times> string \<times> string \<times> string \<times> nat \<Rightarrow> (anno_action, unit) test" where
  "metadata_test ae = (\<lambda>(name, label, index, value, expected).
     bind_test (do_run (waitForExactEventCount ae (log_query index label @ '' customField::'' @ value) ''-1h@h'' expected)) (\<lambda>n.
       assert_test (n = expected) ''Not equal''))"

definition metric_query :: "string \<Rightarrow> string \<Rightarrow> string" where
  "metric_query index sourcetype =
     ''| mpreview index='' @ index @ '' filter='' @ CHR 0x22 # ''sourcetype='' @ sourcetype @ CHR 0x22 # '' | search ''"

definition quoted_field :: "string \<Rightarrow> string \<Rightarrow> string" where
  "quoted_field field value = CHR 0x22 # field @ CHR 0x22 # ''='' @ value"

definition or_default :: "string \<Rightarrow> string \<Rightarrow> string" where
  "or_default v d = (if v \<noteq> [] then v else d)"

definition namespace_query :: "string \<times> string \<times> string \<times> bool \<Rightarrow> string" where
  "namespace_query = (\<lambda>(name, annotationIndex, annotationSourcetype, usePodAnnotations).
     (let index = (if usePodAnnotations then ''test_metrics_annotation'' else or_default annotationIndex ''ci_metrics'');
          sourcetype = (if usePodAnnotations then ''pod_annotation_sourcetype'' else or_default annotationSourcetype ''httpevent'')
      in metric_query index sourcetype @ quoted_field ''k8s.namespace.name'' ''namespace-metric-annotation'' @ '' '' @
         quoted_field ''k8s.pod.name'' ''pod-for-namespace-metric-annotation''))"

definition search_test :: "anno_env \<Rightarrow> string \<Rightarrow> string \<Rightarrow> (anno_action, unit) test" where
  "search_test ae name searchQuery =
     bind_test (do_run (waitForMinimumEventCount ae searchQuery (itoa_int (an_now ae name)) 2)) (\<lambda>n.
       assert_test (n \<ge> 2) ''is not greater than or equal'')"

definition namespace_test :: "anno_env \<Rightarrow> string \<times> string \<times> string \<times> bool \<Rightarrow> (anno_action, unit) test" where
  "namespace_test ae = (\<lambda>(name, annotationIndex, annotationSourcetype, usePodAnnotations).
     bind_test (do_run (addNamespaceAnnotation ae ''namespace-metric-annotation'' annotationIndex annotationSourcetype [])) (\<lambda>_.
     bind_test (t_Cleanup (do_run (removeAllNamespaceAnnotations ae ''namespace-metric-annotation''))) (\<lambda>_.
     bind_test
       (if usePodAnnotations
        then bind_test
          (do_run (addPodAnnotation ae ''pod-for-namespace-metric-annotation'' ''namespace-metric-annotation''
             ''test_metrics_annotation'' ''pod_annotation_sourcetype'' [])) (\<lambda>_.
          t_Cleanup (do_run (removeAllPodsAnnotations ae ''pod-for-namespace-metric-annotation'' ''namespace-metric-annotation'')))
        else pure_test (Inr ())) (\<lambda>_.
       search_test ae name (namespace_query (name, annotationIndex, annotationSourcetype, usePodAnnotations))))))"

definition pod_query :: "string \<times> string \<times> string \<times> string \<Rightarrow> string" where
  "pod_query = (\<lambda>(name, annotationIndex, annotationSourcetype, annotationMetricSourcetype).
     metric_query (or_default annotationIndex ''ci_metrics'')
       (or_default annotationMetricSourcetype (or_default annotationSourcetype ''httpevent'')) @
     quoted_field ''k8s.pod.name'' ''pod-for-metric-annotation'')"

definition pod_test :: "anno_env \<Rightarrow> string \<times> string \<times> string \<times> string \<Rightarrow> (anno_action, unit) test" where
  "pod_test ae = (\<lambda>(name, annotationIndex, annotationSourcetype, annotationMetricSourcetype).
     bind_test
       (do_run (addPodAnnotation ae ''pod-for-metric-annotation'' ''namespace-pod-metric-annotation''
          annotationIndex annotationSourcetype annotationMetricSourcetype)) (\<lambda>_.
     bind_test
       (t_Cleanup (do_run (removeAllPodsAnnotations ae ''pod-for-metric-annotation'' ''namespace-pod-metric-annotation''))) (\<lambda>_.
       search_test ae name (pod_query (name, annotationIndex, annotationSourcetype, annotationMetricSourcetype)))))"

definition run_cases :: "('c \<Rightarrow> string) \<Rightarrow> ('c \<Rightarrow> (anno_action, unit) test) \<Rightarrow> 'c list \<Rightarrow> (anno_action, unit) test" where
  "run_cases name f cs = each_test (\<lambda>c. t_Run (name c) (f c)) cs"

definition testVerifyLogsIngestionUsingAnnotations :: "anno_env \<Rightarrow> (anno_action, unit) test" where
  "testVerifyLogsIngestionUsingAnnotations ae = run_cases fst (log_test ae) log_cases"

definition testVerifyCustomMetadataFieldsAnnotations :: "anno_env \<Rightarrow> (anno_action, unit) test" where
  "testVerifyCustomMetadataFieldsAnnotations ae = run_cases fst (metadata_test ae) metadata_cases"

definition testVerifyMetricNamespaceAnnotations :: "anno_env \<Rightarrow> (anno_action, unit) test" where
  "testVerifyMetricNamespaceAnnotations ae =
     bind_test (pure_test (createK8sClient ae)) (\<lambda>_. run_cases fst (namespace_test ae) namespace_cases)"

definition testVerifyMetricPodAnnotations :: "anno_env \<Rightarrow> (anno_action, unit) test" where
  "testVerifyMetricPodAnnotations ae =
     bind_test (pure_test (createK8sClient ae)) (\<lambda>_. run_cases fst (pod_test ae) pod_cases)"

definition Test_Functions_annotations :: "anno_env \<Rightarrow> (anno_action, unit) test" where
  "Test_Functions_annotations ae =
     each_test (\<lambda>(name, t). t_Run name (t ae))
       [(''verify log ingestion by using annotations'', testVerifyLogsIngestionUsingAnnotations),
        (''custom metadata fields annotations'', testVerifyCustomMetadataFieldsAnnotations),
        (''metric namespace annotations'', testVerifyMetricNamespaceAnnotations),
        (''metric pod annotations'', testVerifyMetricPodAnnotations)]"

section \<open>The annotations during a test\<close>

type_synonym anno_state = "anno_obj \<Rightarrow> annotations"

fun change_annotations :: "anno_change \<Rightarrow> annotations \<Rightarrow> annotations" where
  "change_annotations (SetAnnotations kvs) m =
     Some (foldl (\<lambda>m (k, v). m(k \<mapsto> v)) (case m of None \<Rightarrow> Map.empty | Some m \<Rightarrow> m) kvs)"
| "change_annotations RemoveAnnotations m = Some Map.empty"

text \<open>The cluster after a sequence of accepted calls, and what each search of it saw, as keys and values.\<close>

fun cluster_after :: "anno_action list \<Rightarrow> anno_state \<Rightarrow> anno_state" where
  "cluster_after [] st = st"
| "cluster_after (UpdateObj obj change # xs) st = cluster_after xs (st(obj := change_annotations change (st obj)))"
| "cluster_after (x # xs) st = cluster_after xs st"

definition annotations_of :: "anno_state \<Rightarrow> anno_obj \<Rightarrow> string \<rightharpoonup> string" where
  "annotations_of st obj = (case st obj of None \<Rightarrow> Map.empty | Some m \<Rightarrow> m)"

fun searches_seen :: "anno_action list \<Rightarrow> anno_state \<Rightarrow> (string \<times> (anno_obj \<Rightarrow> string \<rightharpoonup> string)) list" where
  "searches_seen [] st = []"
| "searches_seen (Searching q start w # xs) st = (q, annotations_of st) # searches_seen xs st"
| "searches_seen (UpdateObj obj change # xs) st = searches_seen xs (st(obj := change_annotations change (st obj)))"
| "searches_seen (GetObj obj # xs) st = searches_seen xs st"

lemma cluster_after_append: "cluster_after (xs @ ys) st = cluster_after ys (cluster_after xs st)"
  by (induction xs st rule: cluster_after.induct) (simp_all del: fun_upd_apply)

lemma searches_seen_append: "searches_seen (xs @ ys) st = searches_seen xs st @ searches_seen ys (cluster_after xs st)"
  by (induction xs st rule: searches_seen.induct) (simp_all del: fun_upd_apply)

lemma performed_prefix: "prefix (performed ae xs) xs"
  by (induction xs) auto

lemma performed_all: "list_all (\<lambda>x. \<not> kills ae x) xs \<Longrightarrow> performed ae xs = xs"
  by (induction xs) auto

lemma searches_seen_prefix: "prefix xs ys \<Longrightarrow> prefix (searches_seen xs st) (searches_seen ys st)"
  by (auto simp: prefix_def searches_seen_append)

subsection \<open>Blocks\<close>

text \<open>What one test of a table does to the cluster: some objects are annotated, searched, and cleaned in the reverse order.\<close>

definition annotating :: "anno_obj \<times> (string \<times> string) list \<Rightarrow> anno_action list" where
  "annotating = (\<lambda>(obj, kvs). [GetObj obj, UpdateObj obj (SetAnnotations kvs)])"

definition clearing :: "anno_obj \<times> (string \<times> string) list \<Rightarrow> anno_action list" where
  "clearing = (\<lambda>(obj, kvs). [GetObj obj, UpdateObj obj RemoveAnnotations])"

definition anno_block :: "(anno_obj \<times> (string \<times> string) list) list \<Rightarrow> anno_action \<Rightarrow> anno_action list" where
  "anno_block os search = concat (map annotating os) @ search # concat (map clearing (rev os))"

text \<open>The annotations a test asks for, over those there were.\<close>

definition with_annotations ::
  "(anno_obj \<times> (string \<times> string) list) list \<Rightarrow> (anno_obj \<Rightarrow> string \<rightharpoonup> string) \<Rightarrow> anno_obj \<Rightarrow> string \<rightharpoonup> string"
where
  "with_annotations os view obj = (case map_of os obj of Some kvs \<Rightarrow> map_of kvs | None \<Rightarrow> view obj)"

lemma foldl_upd: "distinct (map fst kvs) \<Longrightarrow> foldl (\<lambda>m (k, v). m(k \<mapsto> v)) m kvs = m ++ map_of kvs"
proof (induction kvs arbitrary: m)
  case (Cons kv kvs)
  then show ?case
    by (cases kv) (simp add: map_add_upd_left dom_map_of_conv_image_fst del: fun_upd_apply)
qed simp

lemma annotations_of_set:
  "distinct (map fst kvs) \<Longrightarrow> annotations_of (st(obj := change_annotations (SetAnnotations kvs) (st obj))) =
     (annotations_of st)(obj := annotations_of st obj ++ map_of kvs)"
  by (rule ext) (simp add: annotations_of_def foldl_upd)

lemma annotations_of_remove:
  "annotations_of (st(obj := change_annotations RemoveAnnotations (st obj))) = (annotations_of st)(obj := Map.empty)"
  by (rule ext) (simp add: annotations_of_def)

lemma no_searches:
  "searches_seen (concat (map annotating os)) st = []" "searches_seen (concat (map clearing os)) st = []"
  by (induction os arbitrary: st) (auto simp: annotating_def clearing_def)

lemma after_annotating:
  assumes "distinct (map fst os)" and "\<forall>(obj, kvs) \<in> set os. annotations_of st obj = Map.empty \<and> distinct (map fst kvs)"
  shows "annotations_of (cluster_after (concat (map annotating os)) st) = with_annotations os (annotations_of st)"
  using assms
proof (induction os arbitrary: st)
  case Nil
  show ?case by (simp add: with_annotations_def fun_eq_iff)
next
  case (Cons x os)
  obtain obj kvs where x: "x = (obj, kvs)" by fastforce
  let ?st = "st(obj := change_annotations (SetAnnotations kvs) (st obj))"
  have view: "annotations_of ?st = (annotations_of st)(obj := map_of kvs)"
    using Cons.prems(2) by (simp add: x annotations_of_set del: change_annotations.simps)
  have "\<forall>(o', kvs) \<in> set os. annotations_of ?st o' = Map.empty \<and> distinct (map fst kvs)"
    using Cons.prems by (fastforce simp: x view simp del: change_annotations.simps intro: rev_image_eqI)
  from Cons.IH [OF _ this] Cons.prems(1) have
    "annotations_of (cluster_after (concat (map annotating os)) ?st) = with_annotations os ((annotations_of st)(obj := map_of kvs))"
    by (simp add: view del: change_annotations.simps fun_upd_apply)
  moreover have "map_of os obj = None" using Cons.prems(1) by (auto simp: x map_of_eq_None_iff)
  ultimately show ?case
    by (auto simp: x annotating_def with_annotations_def fun_eq_iff simp del: change_annotations.simps split: option.split)
qed

lemma after_clearing:
  "annotations_of (cluster_after (concat (map clearing os)) st) obj =
     (if obj \<in> fst ` set os then Map.empty else annotations_of st obj)"
proof (induction os arbitrary: st)
  case (Cons x os)
  then show ?case
    by (cases x) (auto simp: clearing_def annotations_of_remove simp del: change_annotations.simps)
qed simp

text \<open>The search of a block sees what was asked for, and the block restores the annotations if there were none.\<close>

lemma block_seen:
  assumes "distinct (map fst os)" and "\<forall>(obj, kvs) \<in> set os. annotations_of st obj = Map.empty \<and> distinct (map fst kvs)"
  shows "searches_seen (anno_block os (Searching q start w)) st = [(q, with_annotations os (annotations_of st))]"
    and "annotations_of (cluster_after (anno_block os (Searching q start w)) st) = annotations_of st"
proof -
  show "searches_seen (anno_block os (Searching q start w)) st = [(q, with_annotations os (annotations_of st))]"
    by (simp add: anno_block_def searches_seen_append no_searches after_annotating [OF assms])
  have "annotations_of st obj = Map.empty" if "obj \<in> fst ` set os" for obj using that assms(2) by fastforce
  then show "annotations_of (cluster_after (anno_block os (Searching q start w)) st) = annotations_of st"
    by (auto simp: anno_block_def cluster_after_append after_clearing after_annotating [OF assms] with_annotations_def fun_eq_iff
        image_iff map_of_eq_None_iff split: option.split) (metis image_eqI map_of_SomeD fst_conv)+
qed

subsection \<open>The tests as blocks\<close>

definition namespace_objs :: "string \<times> string \<times> string \<times> bool \<Rightarrow> (anno_obj \<times> (string \<times> string) list) list" where
  "namespace_objs = (\<lambda>(name, annotationIndex, annotationSourcetype, usePodAnnotations).
     (NamespaceObj ''namespace-metric-annotation'', annotation_changes annotationIndex annotationSourcetype []) #
     (if usePodAnnotations
      then [(PodObj ''namespace-metric-annotation'' ''pod-for-namespace-metric-annotation'',
        annotation_changes ''test_metrics_annotation'' ''pod_annotation_sourcetype'' [])] else []))"

definition pod_objs :: "string \<times> string \<times> string \<times> string \<Rightarrow> (anno_obj \<times> (string \<times> string) list) list" where
  "pod_objs = (\<lambda>(name, annotationIndex, annotationSourcetype, annotationMetricSourcetype).
     [(PodObj ''namespace-pod-metric-annotation'' ''pod-for-metric-annotation'',
       annotation_changes annotationIndex annotationSourcetype annotationMetricSourcetype)])"

definition annotated_objs :: "anno_obj list" where
  "annotated_objs =
     [NamespaceObj ''namespace-metric-annotation'',
      PodObj ''namespace-metric-annotation'' ''pod-for-namespace-metric-annotation'',
      PodObj ''namespace-pod-metric-annotation'' ''pod-for-metric-annotation'']"

text \<open>The API server accepts the calls.\<close>

definition accepting :: "anno_env \<Rightarrow> bool" where
  "accepting ae \<longleftrightarrow> (\<forall>obj change. an_answer ae (GetObj obj) = None \<and> an_answer ae (UpdateObj obj change) = None)"

lemma update_annotations_accepted:
  "accepting ae \<Longrightarrow> update_annotations ae obj change = ([GetObj obj, UpdateObj obj change], Inr ())"
  by (simp add: accepting_def update_annotations_def test_simps act_run_def)

lemma finish_search: "fst (finish (bind_test (do_run (wait_events ae q start w)) (\<lambda>n. assert_test (ok n) msg))) = [Searching q start w]"
  by (cases "wait_end ae q start w") (simp_all add: wait_events_def test_simps)

lemmas wait_defs = waitForExactEventCount_def waitForMinimumEventCount_def

lemma log_block: "fst (finish (log_test ae c)) =
    anno_block [] (Searching (log_query (fst (snd (snd c))) (fst (snd c))) ''-1h@h'' (Exactly (snd (snd (snd c)))))"
  by (simp add: log_test_def wait_defs finish_search anno_block_def split: prod.split)

lemma metadata_block: "fst (finish (metadata_test ae c)) =
    anno_block [] (Searching (log_query (fst (snd (snd c))) (fst (snd c)) @ '' customField::'' @ fst (snd (snd (snd c))))
      ''-1h@h'' (Exactly (snd (snd (snd (snd c))))))"
  by (simp add: metadata_test_def wait_defs finish_search anno_block_def split: prod.split)

lemma finish_annotating:
  "accepting ae \<Longrightarrow> fst (finish (bind_test (do_run (update_annotations ae obj (SetAnnotations kvs))) (\<lambda>_.
       bind_test (t_Cleanup (do_run (update_annotations ae obj RemoveAnnotations))) f))) =
     annotating (obj, kvs) @ fst (finish (f ())) @ clearing (obj, kvs)"
  by (simp add: update_annotations_accepted annotating_def clearing_def)

lemma namespace_block: "accepting ae \<Longrightarrow> fst (finish (namespace_test ae c)) =
    anno_block (namespace_objs c) (Searching (namespace_query c) (itoa_int (an_now ae (fst c))) (AtLeast 2))"
  by (cases c) (simp add: namespace_test_def addNamespaceAnnotation_def removeAllNamespaceAnnotations_def addPodAnnotation_def
      removeAllPodsAnnotations_def bind_test_assoc finish_annotating search_test_def wait_defs finish_search anno_block_def
      namespace_objs_def)

lemma pod_block: "accepting ae \<Longrightarrow> fst (finish (pod_test ae c)) =
    anno_block (pod_objs c) (Searching (pod_query c) (itoa_int (an_now ae (fst c))) (AtLeast 2))"
  by (cases c) (simp add: pod_test_def addPodAnnotation_def removeAllPodsAnnotations_def finish_annotating search_test_def
      wait_defs finish_search anno_block_def pod_objs_def)

lemma finish_run_cases: "fst (finish (run_cases name f cs)) = concat (map (\<lambda>c. fst (finish (f c))) cs)"
  by (induction cs) (simp_all add: run_cases_def)

text \<open>A table of blocks: each search sees the annotations of its own row and no others, and all are gone at the end.\<close>

lemma cases_seen:
  assumes "\<And>c. fst (finish (f c)) = anno_block (objs c) (Searching (q c) (start c) (w c))"
    and "\<And>c. c \<in> set cs \<Longrightarrow> distinct (map fst (objs c)) \<and>
      (\<forall>(obj, kvs) \<in> set (objs c). annotations_of st obj = Map.empty \<and> distinct (map fst kvs))"
  shows "searches_seen (fst (finish (run_cases name f cs))) st =
      map (\<lambda>c. (q c, with_annotations (objs c) (annotations_of st))) cs \<and>
    annotations_of (cluster_after (fst (finish (run_cases name f cs))) st) = annotations_of st"
  using assms(2)
proof (induction cs arbitrary: st)
  case (Cons c cs)
  let ?b = "anno_block (objs c) (Searching (q c) (start c) (w c))"
  from Cons.prems [of c] have b: "searches_seen ?b st = [(q c, with_annotations (objs c) (annotations_of st))]"
    "annotations_of (cluster_after ?b st) = annotations_of st"
    using block_seen [of "objs c" st "q c" "start c" "w c"] by auto
  have "c' \<in> set cs \<Longrightarrow> distinct (map fst (objs c')) \<and>
      (\<forall>(obj, kvs) \<in> set (objs c'). annotations_of (cluster_after ?b st) obj = Map.empty \<and> distinct (map fst kvs))" for c'
    using Cons.prems [of c'] by (simp add: b(2))
  from Cons.IH [OF this] b show ?case
    by (simp add: finish_run_cases assms(1) searches_seen_append cluster_after_append)
qed (simp add: finish_run_cases)

subsection \<open>The whole test\<close>

text \<open>What each search should see, if \<open>view\<close> are the annotations outside the test.\<close>

definition expected_searches ::
  "(anno_obj \<Rightarrow> string \<rightharpoonup> string) \<Rightarrow> (string \<times> (anno_obj \<Rightarrow> string \<rightharpoonup> string)) list"
where
  "expected_searches view =
     map (\<lambda>(name, label, index, n). (log_query index label, view)) log_cases @
     map (\<lambda>(name, label, index, value, n). (log_query index label @ '' customField::'' @ value, view)) metadata_cases @
     map (\<lambda>c. (namespace_query c, with_annotations (namespace_objs c) view)) namespace_cases @
     map (\<lambda>c. (pod_query c, with_annotations (pod_objs c) view)) pod_cases"

lemma changes_distinct: "distinct (map fst (annotation_changes index sourcetype sourcetypeMetrics))"
  by (simp add: annotation_changes_def)

lemma with_nothing [simp]: "with_annotations [] view = view"
  by (simp add: with_annotations_def fun_eq_iff)

lemma annotation_test_trace:
  assumes "createK8sClient ae = Inr ()"
  shows "fst (finish (Test_Functions_annotations ae)) =
    fst (finish (run_cases fst (log_test ae) log_cases)) @ fst (finish (run_cases fst (metadata_test ae) metadata_cases)) @
    fst (finish (run_cases fst (namespace_test ae) namespace_cases)) @ fst (finish (run_cases fst (pod_test ae) pod_cases))"
  using assms by (simp add: Test_Functions_annotations_def testVerifyLogsIngestionUsingAnnotations_def
      testVerifyCustomMetadataFieldsAnnotations_def testVerifyMetricNamespaceAnnotations_def testVerifyMetricPodAnnotations_def)

lemma annotation_test_seen:
  assumes "createK8sClient ae = Inr ()" and ok: "accepting ae"
    and clean: "\<And>obj. obj \<in> set annotated_objs \<Longrightarrow> annotations_of st obj = Map.empty"
  shows "searches_seen (fst (finish (Test_Functions_annotations ae))) st = expected_searches (annotations_of st)"
    and "annotations_of (cluster_after (fst (finish (Test_Functions_annotations ae))) st) = annotations_of st"
proof -
  note logs = cases_seen [of "log_test ae", OF log_block, of log_cases _ fst]
  note meta = cases_seen [of "metadata_test ae", OF metadata_block, of metadata_cases _ fst]
  note ns = cases_seen [of "namespace_test ae", OF namespace_block [OF ok], of namespace_cases _ fst]
  note pods = cases_seen [of "pod_test ae", OF pod_block [OF ok], of pod_cases _ fst]
  have ns_ok: "distinct (map fst (namespace_objs c)) \<and>
      (\<forall>(obj, kvs) \<in> set (namespace_objs c). annotations_of s obj = Map.empty \<and> distinct (map fst kvs))"
    and pods_ok: "distinct (map fst (pod_objs d)) \<and>
      (\<forall>(obj, kvs) \<in> set (pod_objs d). annotations_of s obj = Map.empty \<and> distinct (map fst kvs))"
    if "annotations_of s = annotations_of st" for s c d
    using that clean by (auto simp: namespace_objs_def pod_objs_def annotated_objs_def changes_distinct split: prod.splits if_splits)
  let ?s1 = "cluster_after (fst (finish (run_cases fst (log_test ae) log_cases))) st"
  let ?s2 = "cluster_after (fst (finish (run_cases fst (metadata_test ae) metadata_cases))) ?s1"
  let ?s3 = "cluster_after (fst (finish (run_cases fst (namespace_test ae) namespace_cases))) ?s2"
  have s1: "annotations_of ?s1 = annotations_of st" using logs [of st] by simp
  then have s2: "annotations_of ?s2 = annotations_of st" using meta [of ?s1] by simp
  then have s3: "annotations_of ?s3 = annotations_of st" using ns [of ?s2] ns_ok by simp
  show "searches_seen (fst (finish (Test_Functions_annotations ae))) st = expected_searches (annotations_of st)"
    using logs [of st] meta [of ?s1] ns [of ?s2] pods [of ?s3] ns_ok [OF s2] pods_ok [OF s3] s1 s2 s3
    by (simp add: annotation_test_trace [OF assms(1)] searches_seen_append expected_searches_def case_prod_beta)
  show "annotations_of (cluster_after (fst (finish (Test_Functions_annotations ae))) st) = annotations_of st"
    using pods [of ?s3] pods_ok [OF s3] s3 by (simp add: annotation_test_trace [OF assms(1)] cluster_after_append)
qed

text \<open>
  C7: the tests of the tables are isolated from each other. If the objects of the tests have no annotations and the
  API server accepts the calls, every search that is made sees exactly the annotations of its own row of the
  table, with the query of that row and in the order of the tables, and if no search panics all of them are made and
  the annotations are afterwards as they were before.
\<close>

theorem annotation_tests_isolated:
  assumes "createK8sClient ae = Inr ()" and "accepting ae"
    and "\<And>obj. obj \<in> set annotated_objs \<Longrightarrow> annotations_of st obj = Map.empty"
  shows "prefix (searches_seen (performed ae (fst (finish (Test_Functions_annotations ae)))) st)
      (expected_searches (annotations_of st)) \<and>
    (list_all (\<lambda>x. \<not> kills ae x) (fst (finish (Test_Functions_annotations ae))) \<longrightarrow>
      searches_seen (performed ae (fst (finish (Test_Functions_annotations ae)))) st = expected_searches (annotations_of st) \<and>
      annotations_of (cluster_after (performed ae (fst (finish (Test_Functions_annotations ae)))) st) = annotations_of st)"
  using searches_seen_prefix [OF performed_prefix, of ae "fst (finish (Test_Functions_annotations ae))" st]
    annotation_test_seen [OF assms] by (simp add: performed_all)

text \<open>A Splunk instance that always has two events, and a cluster without annotations.\<close>

definition sample_anno_env :: anno_env where
  "sample_anno_env =
     \<lparr>an_lookup = [''KUBECONFIG'' \<mapsto> ''kc''], an_client = (\<lambda>_. None), an_answer = (\<lambda>_. None),
      an_polls = (\<lambda>_ _. []), an_now = (\<lambda>_. 0)\<rparr>"

lemma sample_anno: "createK8sClient sample_anno_env = Inr ()" "accepting sample_anno_env" "\<not> kills sample_anno_env x"
  by (simp_all add: createK8sClient_def accepting_def kills_def wait_end_def sample_anno_env_def split: anno_action.split)

lemma annotation_tests_isolated_witness:
  "annotations_of (cluster_after (performed sample_anno_env (fst (finish (Test_Functions_annotations sample_anno_env)))) (\<lambda>_. None))
     = (\<lambda>_. Map.empty)"
proof -
  have clean: "annotations_of (\<lambda>_. None) = (\<lambda>_. Map.empty)" by (simp add: annotations_of_def fun_eq_iff)
  then have c: "annotations_of (\<lambda>_. None) obj = Map.empty" for obj by simp
  have "list_all (\<lambda>x. \<not> kills sample_anno_env x) (fst (finish (Test_Functions_annotations sample_anno_env)))"
    using sample_anno(3) by (simp add: list_all_iff)
  with annotation_tests_isolated [OF sample_anno(1,2) c] clean show ?thesis by simp
qed

subsection \<open>A panic\<close>

text \<open>
  When a search of the namespace table panics, the annotations of its row stay in the cluster: the cleanups that
  would remove them die with the process.
\<close>

lemma performed_killed: "list_all (\<lambda>x. \<not> kills ae x) xs \<Longrightarrow> kills ae x \<Longrightarrow> performed ae (xs @ x # ys) = xs @ [x]"
  by (induction xs) auto

lemma annotating_lives: "list_all (\<lambda>x. \<not> kills ae x) (concat (map annotating os))"
  by (induction os) (auto simp: annotating_def kills_def)

theorem panic_keeps_annotations:
  assumes ok: "accepting ae" and i: "i < length namespace_cases" and c: "c = namespace_cases ! i"
    and clean: "\<And>obj. obj \<in> set annotated_objs \<Longrightarrow> annotations_of st obj = Map.empty"
    and alive: "list_all (\<lambda>x. \<not> kills ae x) (fst (finish (run_cases fst (namespace_test ae) (take i namespace_cases))))"
    and panic: "kills ae (Searching (namespace_query c) (itoa_int (an_now ae (fst c))) (AtLeast 2))"
  shows "annotations_of (cluster_after (performed ae (fst (finish (run_cases fst (namespace_test ae) namespace_cases)))) st) =
    with_annotations (namespace_objs c) (annotations_of st)"
proof -
  let ?pre = "fst (finish (run_cases fst (namespace_test ae) (take i namespace_cases)))"
  let ?search = "Searching (namespace_query c) (itoa_int (an_now ae (fst c))) (AtLeast 2)"
  have objs: "distinct (map fst (namespace_objs c)) \<and>
      (\<forall>(obj, kvs) \<in> set (namespace_objs c). annotations_of s obj = Map.empty \<and> distinct (map fst kvs))"
    if "annotations_of s = annotations_of st" for s c
    using that clean by (auto simp: namespace_objs_def annotated_objs_def changes_distinct split: prod.splits if_splits)
  have before: "annotations_of (cluster_after ?pre st) = annotations_of st"
    using cases_seen [of "namespace_test ae", OF namespace_block [OF ok], of "take i namespace_cases" st fst] objs by simp
  have rows: "namespace_cases = take i namespace_cases @ c # drop (Suc i) namespace_cases"
    using i by (simp add: c id_take_nth_drop)
  have "fst (finish (run_cases fst (namespace_test ae) namespace_cases)) =
      ?pre @ fst (finish (namespace_test ae c)) @
      fst (finish (run_cases fst (namespace_test ae) (drop (Suc i) namespace_cases)))"
    using arg_cong [OF rows, of "\<lambda>cs. concat (map (\<lambda>c. fst (finish (namespace_test ae c))) cs)"]
    by (simp add: finish_run_cases)
  then obtain post where "fst (finish (run_cases fst (namespace_test ae) namespace_cases)) =
      ?pre @ concat (map annotating (namespace_objs c)) @ ?search # post"
    using namespace_block [OF ok, of c] by (simp add: anno_block_def)
  then have "performed ae (fst (finish (run_cases fst (namespace_test ae) namespace_cases))) =
      (?pre @ concat (map annotating (namespace_objs c))) @ [?search]"
    using performed_killed [of ae "?pre @ concat (map annotating (namespace_objs c))" ?search post] alive annotating_lives panic
    by simp
  then show ?thesis
    using after_annotating [of "namespace_objs c" "cluster_after ?pre st"] objs [OF before] before
    by (simp add: cluster_after_append del: append_assoc)
qed

end
