(* ===== verification/TraceChecks.thy ===== *)
theory TraceChecks
  imports AgentLogs Golden FunctionalDeploy
begin

section \<open>Traces, metrics and profiles of the instrumented applications\<close>

text \<open>
  \<open>functional_tests/functional/auto_instrumentation_test.go\<close>. The four trace tests wait for a trace of their
  application, mask what changes from run to run, and compare it with a golden file. Three of them search
  the whole sink at every check; the one for Python only what has arrived since the check before. \<open>ptracetest\<close>
  and package \<open>golden\<close> are arguments.
\<close>

type_synonym traces = "resource_spans list"






subsection \<open>Masks\<close>




definition SpanCount :: "traces \<Rightarrow> nat" where
  "SpanCount td = sum_list (map (\<lambda>rs. sum_list (map (\<lambda>ss. length (ss_Spans ss)) (rs_scopes rs))) td)"

subsection \<open>Waiting for a trace\<close>

text \<open>\<open>ResourceSpans().At(0)\<close> panics for an empty payload.\<close>

definition trace_matches :: "string \<Rightarrow> traces \<Rightarrow> traces \<Rightarrow> bool result" where
  "trace_matches language expected trace =
     (case trace of
        [] \<Rightarrow> Inl ''index out of range''
      | rs # _ \<Rightarrow>
          Inr ((case attr_get (rs_Attributes rs) ''telemetry.sdk.language'' of
                  Some val \<Rightarrow> contains (attr_str val) language | None \<Rightarrow> False) \<and>
               SpanCount expected = SpanCount trace \<and> length expected = length trace))"

text \<open>The loop from the newest trace downwards.\<close>

fun newest_match :: "(traces \<Rightarrow> bool result) \<Rightarrow> traces list \<Rightarrow> traces option result" where
  "newest_match matches [] = Inr None"
| "newest_match matches (trace # older) =
     (case matches trace of
        Inl e \<Rightarrow> Inl e
      | Inr True \<Rightarrow> Inr (Some trace)
      | Inr False \<Rightarrow> newest_match matches older)"

definition full_check :: "(traces \<Rightarrow> bool result) \<Rightarrow> traces list \<Rightarrow> traces option \<Rightarrow> check \<times> traces option" where
  "full_check matches sink selected =
     (case newest_match matches (rev sink) of
        Inl e \<Rightarrow> (Abort e, selected)
      | Inr (Some trace) \<Rightarrow> (Check True, Some trace)
      | Inr None \<Rightarrow> (Check (selected \<noteq> None), selected))"

text \<open>
  The check for Python: the sink is read when the loop starts and again for the new value of \<open>read\<close>. For an empty
  sink that is -1, and the next loop would end at index -1.
\<close>

definition python_check ::
  "(traces \<Rightarrow> bool result) \<Rightarrow> traces list \<times> traces list \<Rightarrow> int \<times> traces option \<Rightarrow> check \<times> int \<times> traces option"
where
  "python_check matches = (\<lambda>(sink, later) (start, selected).
     (case newest_match matches (rev (drop (nat start) sink)) of
        Inl e \<Rightarrow> (Abort e, start, selected)
      | Inr (Some trace) \<Rightarrow> (Check True, int (length later) - 1, Some trace)
      | Inr None \<Rightarrow>
          if start < 0 then (Abort ''index out of range'', start, selected)
          else (Check (selected \<noteq> None), int (length later) - 1, selected)))"

definition wait_full :: "(traces \<Rightarrow> bool result) \<Rightarrow> traces list list \<Rightarrow> traces option" where
  "wait_full matches sinks = Option.bind (eventually_state (full_check matches) sinks None) (\<lambda>selected. selected)"

definition wait_python :: "(traces \<Rightarrow> bool result) \<Rightarrow> (traces list \<times> traces list) list \<Rightarrow> traces option" where
  "wait_python matches sinks = Option.bind (eventually_state (python_check matches) sinks (0, None)) snd"

subsection \<open>The trace tests\<close>








subsection \<open>Metrics and profiles\<close>

definition from_app :: "string \<Rightarrow> string \<Rightarrow> match_fn" where
  "from_app sdkLanguage serviceName = Some (\<lambda>resAttrs m.
     (hasAttrMatch resAttrs ''telemetry.sdk.language'' sdkLanguage \<and> hasAttrMatch resAttrs ''service.name'' serviceName) \<or>
     metricDataPointsHaveAttrs m [''telemetry.sdk.language'', sdkLanguage, ''service.name'', serviceName])"

definition checkMetricsFromApp :: "string \<Rightarrow> string \<Rightarrow> string list \<Rightarrow> metrics list list \<Rightarrow> bool" where
  "checkMetricsFromApp sdkLanguage serviceName metricNames sinks =
     checkMetrics metricNames (from_app sdkLanguage serviceName) sinks"

definition testJavaMetrics :: "metrics list list \<Rightarrow> bool" where
  "testJavaMetrics = checkMetricsFromApp ''java'' ''java-test'' [''jvm.memory.used'', ''jvm.thread.count'']"

definition testNodeJSMetrics :: "metrics list list \<Rightarrow> bool" where
  "testNodeJSMetrics = checkMetricsFromApp ''nodejs'' ''nodejs-test''
     [''process.runtime.nodejs.memory.heap.used'', ''process.runtime.nodejs.memory.rss'']"

definition testDotNetMetrics :: "metrics list list \<Rightarrow> bool" where
  "testDotNetMetrics = checkMetricsFromApp ''dotnet'' ''dotnet-test'' [''process.runtime.dotnet.gc.collections.count'']"

definition testPythonMetrics :: "metrics list list \<Rightarrow> bool" where
  "testPythonMetrics = checkMetricsFromApp ''python'' ''python-test'' [''process.runtime.cpython.gc_count'']"

definition profile_record :: "string \<Rightarrow> string \<Rightarrow> string \<Rightarrow> attrs \<Rightarrow> bool" where
  "profile_record sdkLanguage serviceName profilingType recAttrs \<longleftrightarrow>
     hasAttrMatch recAttrs ''telemetry.sdk.language'' sdkLanguage \<and> hasAttrMatch recAttrs ''service.name'' serviceName \<and>
     hasAttrMatch recAttrs ''profiling.data.type'' profilingType"

fun any_profile :: "string \<Rightarrow> string \<Rightarrow> string \<Rightarrow> resource_logs list \<Rightarrow> bool" where
  "any_profile sdkLanguage serviceName profilingType [] = False"
| "any_profile sdkLanguage serviceName profilingType (rl # rls) =
     (if \<not> hasAttrMatch (rl_Attributes rl) ''com.splunk.sourcetype'' ''otel.profiling''
      then any_profile sdkLanguage serviceName profilingType rls
      else if list_ex (\<lambda>sl. list_ex (\<lambda>lr. profile_record sdkLanguage serviceName profilingType (lr_Attributes lr)) (sl_Records sl))
        (rl_Scopes rl) then True
      else any_profile sdkLanguage serviceName profilingType rls)"

definition hasProfilingFromApp :: "logs list \<Rightarrow> string \<Rightarrow> string \<Rightarrow> string \<Rightarrow> bool" where
  "hasProfilingFromApp sink sdkLanguage serviceName profilingType =
     list_ex (any_profile sdkLanguage serviceName profilingType) sink"

text \<open>Each type of profile is a subtest with a wait of its own; \<open>sinks pt\<close> is what its checks see.\<close>

definition checkProfilingFromApp :: "string \<Rightarrow> string \<Rightarrow> string list \<Rightarrow> (string \<Rightarrow> logs list list) \<Rightarrow> bool" where
  "checkProfilingFromApp sdkLanguage serviceName profilingTypes sinks =
     list_all (\<lambda>pt. list_ex (\<lambda>sink. hasProfilingFromApp sink sdkLanguage serviceName pt) (sinks pt)) profilingTypes"

definition testJavaProfiling :: "(string \<Rightarrow> logs list list) \<Rightarrow> bool" where
  "testJavaProfiling = checkProfilingFromApp ''java'' ''java-test'' [''cpu'', ''allocation'']"

definition testNodeJSProfiling :: "(string \<Rightarrow> logs list list) \<Rightarrow> bool" where
  "testNodeJSProfiling = checkProfilingFromApp ''nodejs'' ''nodejs-test'' [''cpu'', ''allocation'']"

definition testDotNetProfiling :: "(string \<Rightarrow> logs list list) \<Rightarrow> bool" where
  "testDotNetProfiling = checkProfilingFromApp ''dotnet'' ''dotnet-test'' [''cpu'', ''allocation'']"

definition testPythonProfiling :: "(string \<Rightarrow> logs list list) \<Rightarrow> bool" where
  "testPythonProfiling = checkProfilingFromApp ''python'' ''python-test'' [''cpu'']"

section \<open>Properties\<close>

subsection \<open>Only what is new\<close>

lemma newest_match_append:
  "newest_match matches (xs @ ys) =
     (case newest_match matches xs of
        Inl e \<Rightarrow> Inl e | Inr (Some trace) \<Rightarrow> Inr (Some trace) | Inr None \<Rightarrow> newest_match matches ys)"
  by (induction xs) (auto split: sum.split bool.split)

lemma newest_match_none: "newest_match matches xs = Inr None \<longleftrightarrow> (\<forall>trace \<in> set xs. matches trace = Inr False)"
  by (induction xs) (auto split: sum.splits bool.splits)

text \<open>The sink only grows, and while a check goes through it at most one trace arrives.\<close>

fun slow_arrivals :: "traces list \<Rightarrow> (traces list \<times> traces list) list \<Rightarrow> bool" where
  "slow_arrivals old [] = True"
| "slow_arrivals old ((sink, later) # sinks) =
     (prefix old sink \<and> prefix sink later \<and> length later \<le> Suc (length sink) \<and> slow_arrivals later sinks)"

lemma python_waits_alike:
  assumes "slow_arrivals old sinks" and "0 \<le> start" and "nat start \<le> length old" and "old \<noteq> []"
    and "\<forall>trace \<in> set (take (nat start) old). matches trace = Inr False"
  shows "map_option snd (eventually_state (python_check matches) sinks (start, None)) =
    eventually_state (full_check matches) (map fst sinks) None"
  using assms
proof (induction sinks arbitrary: old start)
  case (Cons x sinks)
  obtain sink later where x: "x = (sink, later)" by fastforce
  from Cons.prems(1) obtain new more where grown: "sink = old @ new" "later = sink @ more"
    and slow: "length later \<le> Suc (length sink)" "slow_arrivals later sinks"
    by (auto simp: x prefix_def)
  have seen: "\<forall>trace \<in> set (take (nat start) sink). matches trace = Inr False"
    using Cons.prems(3,5) by (simp add: grown(1))
  have "rev sink = rev (drop (nat start) sink) @ rev (take (nat start) sink)"
    by (simp flip: rev_append)
  then have scan: "newest_match matches (rev sink) = newest_match matches (rev (drop (nat start) sink))"
    using seen by (simp add: newest_match_append newest_match_none [THEN iffD2] split: sum.split option.split)
  show ?case
  proof (cases "newest_match matches (rev (drop (nat start) sink))")
    case (Inr found)
    show ?thesis
    proof (cases found)
      case None
      let ?start = "int (length later) - 1"
      have next_from: "nat ?start \<le> length sink" "0 \<le> ?start" "nat ?start \<le> length later" "later \<noteq> []"
        using slow(1) Cons.prems(4) grown by (cases old; auto)+
      have "\<forall>trace \<in> set sink. matches trace = Inr False"
        using Inr None scan newest_match_none [of matches "rev sink"] by simp
      then have "\<forall>trace \<in> set (take (nat ?start) later). matches trace = Inr False"
        using next_from(1) by (auto simp: grown(2) dest: in_set_takeD)
      from Cons.IH [OF slow(2) next_from(2,3,4) this] show ?thesis
        using Inr None scan Cons.prems(2) by (simp add: x python_check_def full_check_def)
    next
      case (Some trace)
      with Inr scan show ?thesis by (simp add: x python_check_def full_check_def)
    qed
  qed (simp add: x python_check_def full_check_def scan)
qed simp

text \<open>
  C12: the wait of the Python test, which only looks at what has arrived since its last check, selects the same trace as
  the search through the whole sink of the other tests, provided that the sink is not empty at the start and
  at most one trace arrives while a check is made.
\<close>

theorem wait_python_complete:
  assumes "slow_arrivals old sinks" and "old \<noteq> []"
  shows "wait_python matches sinks = wait_full matches (map fst sinks)"
  using python_waits_alike [OF assms(1), of 0 matches] assms(2)
  by (cases "eventually_state (python_check matches) sinks (0, None)")
    (auto simp: wait_python_def wait_full_def dest: sym)

text \<open>
  Otherwise a trace can be missed for good: here the wanted trace and another one arrive during the first check.
\<close>

theorem wait_python_misses:
  assumes "matches wanted = Inr True" and "matches first = Inr False" and "matches behind = Inr False"
  shows "wait_python matches (([first], [first, wanted, behind]) # replicate n ([first, wanted, behind], [first, wanted, behind])) = None"
    and "n > 0 \<Longrightarrow> wait_full matches ([first] # replicate n [first, wanted, behind]) = Some wanted"
proof -
  have "eventually_state (python_check matches) (replicate n ([first, wanted, behind], [first, wanted, behind])) (2, None) = None"
    using assms by (induction n) (simp_all add: python_check_def)
  then show "wait_python matches (([first], [first, wanted, behind]) # replicate n ([first, wanted, behind], [first, wanted, behind])) = None"
    using assms by (simp add: wait_python_def python_check_def)
  show "n > 0 \<Longrightarrow> wait_full matches ([first] # replicate n [first, wanted, behind]) = Some wanted"
    using assms by (cases n) (simp_all add: wait_full_def full_check_def)
qed

text \<open>A trace of a Python application, which arrives after one of a Java application.\<close>

definition sample_python :: resource_spans where
  "sample_python =
     \<lparr>rs_schema = [], rs_Attributes = [(''telemetry.sdk.language'', VStr ''python'')], rs_rest = [],
      rs_scopes = [\<lparr>ss_schema = [], ss_Version = [], ss_rest = [], ss_Spans = []\<rparr>]\<rparr>"

definition sample_java :: resource_spans where
  "sample_java = sample_python\<lparr>rs_Attributes := [(''telemetry.sdk.language'', VStr ''java'')]\<rparr>"

lemma sample_trace_matches:
  "trace_matches ''python'' [sample_python] [sample_java] = Inr False"
  "trace_matches ''python'' [sample_python] [sample_python] = Inr True"
  by (simp_all add: trace_matches_def sample_java_def sample_python_def SpanCount_def attr_get_def contains_def)

lemma wait_python_complete_witness:
  "wait_python (trace_matches ''python'' [sample_python])
     [([[sample_java]], [[sample_java]]), ([[sample_java], [sample_python]], [[sample_java], [sample_python]])] = Some [sample_python]"
  using wait_python_complete [of "[[sample_java]]"
    "[([[sample_java]], [[sample_java]]), ([[sample_java], [sample_python]], [[sample_java], [sample_python]])]"
    "trace_matches ''python'' [sample_python]"]
  by (simp add: wait_full_def full_check_def sample_trace_matches)

subsection \<open>What is masked does not matter\<close>
























text \<open>When a profile has arrived.\<close>

lemma any_profile_iff:
  "any_profile language service type rls \<longleftrightarrow>
     (\<exists>rl \<in> set rls. hasAttrMatch (rl_Attributes rl) ''com.splunk.sourcetype'' ''otel.profiling'' \<and>
       (\<exists>sl \<in> set (rl_Scopes rl). \<exists>lr \<in> set (sl_Records sl). profile_record language service type (lr_Attributes lr)))"
  by (induction rls) (auto simp: list_ex_iff)

lemma hasProfilingFromApp_iff:
  "hasProfilingFromApp sink language service type \<longleftrightarrow>
     (\<exists>rl \<in> set (concat sink). hasAttrMatch (rl_Attributes rl) ''com.splunk.sourcetype'' ''otel.profiling'' \<and>
       (\<exists>sl \<in> set (rl_Scopes rl). \<exists>lr \<in> set (sl_Records sl). profile_record language service type (lr_Attributes lr)))"
  by (auto simp: hasProfilingFromApp_def list_ex_iff any_profile_iff)

end
