(* ===== verification/LogAttributes.thy ===== *)
theory LogAttributes
  imports HostedChecks AgentLogs Golden K8sEvents AttrPatterns
begin

section \<open>The attributes of container logs\<close>

text \<open>
  \<open>functional_tests/functional/log_attributes_test.go\<close>: the test waits for a marked log of its own pod, replaces what
  the cluster has chosen (names, identifiers and the path made of them) by fixed values, and compares the
  attributes with a golden file. \<open>AsString\<close> and \<open>Value.Equal\<close> of \<open>pdata\<close>, package \<open>golden\<close> and the text without timestamps
  (\<open>zero_times\<close>) are arguments.
\<close>

definition uid_placeholder :: string where
  "uid_placeholder = ''f47ac10b-58cc-4372-a567-0e02b2c3d479''"

definition name_placeholder :: string where
  "name_placeholder = ''log-attr-test-7bc5f4d89b-xj8k2''"

definition dynamicAttrPlaceholders :: "(string \<times> string) list" where
  "dynamicAttrPlaceholders =
     [(''k8s.pod.uid'', uid_placeholder), (''k8s.pod.name'', name_placeholder), (''k8s.node.name'', ''node-001''),
      (''host.name'', ''node-001''),
      (''container.id'', ''a1b2c3d4e5f6071890abcdef12345678a1b2c3d4e5f6071890abcdef12345678'')]"

subsection \<open>The patterns\<close>

text \<open>\<open>podUIDRe\<close> is a sequence of classes, \<open>podNameRe\<close> two runs of a class, whose end is where the class ends.\<close>

fun fits :: "(char \<Rightarrow> bool) list \<Rightarrow> string \<Rightarrow> bool" where
  "fits [] s = True"
| "fits (p # ps) [] = False"
| "fits (p # ps) (c # cs) = (p c \<and> fits ps cs)"

definition uid_sep :: "char \<Rightarrow> bool" where
  "uid_sep c \<longleftrightarrow> c = CHR ''-'' \<or> c = CHR ''_''"

definition podUIDRe :: "(char \<Rightarrow> bool) list" where
  "podUIDRe =
     replicate 8 hex_char @ [uid_sep] @ replicate 4 hex_char @ [uid_sep] @ replicate 4 hex_char @ [uid_sep] @
     replicate 4 hex_char @ [uid_sep] @ replicate 12 hex_char"

definition uid_match :: "string \<Rightarrow> (string \<times> nat) option" where
  "uid_match s = (if fits podUIDRe s then Some (uid_placeholder, 36) else None)"

definition podNameRe :: "string \<Rightarrow> nat option" where
  "podNameRe s =
     (if has_prefix s ''log-attr-test-'' then
        (let r = takeWhile name_char (drop 14 s)
         in case drop (14 + length r) s of
              [] \<Rightarrow> None
            | c # rest \<Rightarrow>
                (let t = takeWhile name_char rest
                 in if r \<noteq> [] \<and> c = CHR ''-'' \<and> t \<noteq> [] then Some (14 + length r + 1 + length t) else None))
      else None)"

definition name_match :: "string \<Rightarrow> (string \<times> nat) option" where
  "name_match s = map_option (\<lambda>n. (name_placeholder, n)) (podNameRe s)"

definition normalize_source :: "string \<Rightarrow> string" where
  "normalize_source s = replace_all name_match (replace_all uid_match s)"

subsection \<open>Normalizing\<close>

definition normalize_step :: "(attr_value \<Rightarrow> string) \<Rightarrow> attrs \<Rightarrow> string \<times> attr_value \<Rightarrow> attrs" where
  "normalize_step AsString = (\<lambda>m (k, v).
     (case map_of dynamicAttrPlaceholders k of
        Some placeholder \<Rightarrow> put_str m k placeholder
      | None \<Rightarrow> if k = ''com.splunk.source'' then put_str m k (normalize_source (AsString v)) else m))"

definition normalizeDynamicAttrs :: "(attr_value \<Rightarrow> string) \<Rightarrow> attrs \<Rightarrow> attrs" where
  "normalizeDynamicAttrs AsString m = foldl (normalize_step AsString) m m"

record log_env =
  le_AsString :: "attr_value \<Rightarrow> string"
  le_equal :: "attr_value \<Rightarrow> attr_value \<Rightarrow> bool"
  le_zero_times :: "string \<Rightarrow> string"
  le_write :: "string \<Rightarrow> logs \<Rightarrow> fs \<Rightarrow> string option \<times> fs"
  le_read :: "fs \<Rightarrow> string \<Rightarrow> logs result"
  le_env :: process_env

definition normalize_record :: "log_env \<Rightarrow> log_record \<Rightarrow> log_record" where
  "normalize_record le lr =
     lr\<lparr>lr_Body := VStr ''LOG_ATTR_VALIDATION_MARKER'', lr_rest := le_zero_times le (lr_rest lr),
        lr_Attributes := normalizeDynamicAttrs (le_AsString le) (lr_Attributes lr)\<rparr>"

definition normalizeLogData :: "log_env \<Rightarrow> logs \<Rightarrow> logs" where
  "normalizeLogData le ls =
     map_records (normalize_record le)
       (map (\<lambda>rl. rl\<lparr>rl_Attributes := normalizeDynamicAttrs (le_AsString le) (rl_Attributes rl)\<rparr>) ls)"

subsection \<open>The test\<close>

definition is_marked :: "log_env \<Rightarrow> log_record \<Rightarrow> bool" where
  "is_marked le lr \<longleftrightarrow>
     str_of (le_AsString le) (lr_Attributes lr) ''k8s.container.name'' = Some ''log-attr-test'' \<and>
     attr_get (lr_Attributes lr) ''container.id'' \<noteq> None \<and>
     contains (le_AsString le (lr_Body lr)) ''LOG_ATTR_VALIDATION_MARKER''"

definition marked_log :: "resource_logs \<Rightarrow> log_record \<Rightarrow> logs" where
  "marked_log rl lr =
     [\<lparr>rl_Attributes = rl_Attributes rl, rl_rest = [],
       rl_Scopes = [\<lparr>sl_Attributes = [], sl_rest = [], sl_Records = [lr]\<rparr>]\<rparr>]"

text \<open>A check goes through the whole sink; the last marked log stays in \<open>foundLog\<close>.\<close>

definition see_marked :: "log_env \<Rightarrow> logs option \<Rightarrow> resource_logs \<Rightarrow> logs option" where
  "see_marked le found rl =
     foldl (\<lambda>found sl. foldl (\<lambda>found lr. if is_marked le lr then Some (marked_log rl lr) else found) found (sl_Records sl))
       found (rl_Scopes rl)"

definition marked_check :: "log_env \<Rightarrow> logs list \<Rightarrow> logs option \<Rightarrow> check \<times> logs option" where
  "marked_check le sink found = (let found = foldl (foldl (see_marked le)) found sink in (Check (found \<noteq> None), found))"

text \<open>The attributes of the first resource and of its first record; an index that is not there panics.\<close>

fun resource_attrs :: "logs \<Rightarrow> attrs result" where
  "resource_attrs [] = Inl ''index out of range''"
| "resource_attrs (rl # rls) = Inr (rl_Attributes rl)"

fun first_record_attrs :: "logs \<Rightarrow> attrs result" where
  "first_record_attrs [] = Inl ''index out of range''"
| "first_record_attrs (rl # rls) =
     (case rl_Scopes rl of
        [] \<Rightarrow> Inl ''index out of range''
      | sl # _ \<Rightarrow> (case sl_Records sl of [] \<Rightarrow> Inl ''index out of range'' | lr # _ \<Rightarrow> Inr (lr_Attributes lr)))"

definition require_equal :: "log_env \<Rightarrow> string \<Rightarrow> attrs result \<Rightarrow> attrs result \<Rightarrow> unit result" where
  "require_equal le what actual expected =
     bind_res actual (\<lambda>a. bind_res expected (\<lambda>e.
       if attrs_equal (le_equal le) e a then Inr () else Inl (what @ '' attributes mismatch'')))"

text \<open>\<^const>\<open>True\<close> is a test that has compared, \<^const>\<open>False\<close> one that was skipped for want of the file.\<close>

definition compare_log :: "log_env \<Rightarrow> string \<Rightarrow> fs \<Rightarrow> logs \<Rightarrow> bool result \<times> fs" where
  "compare_log le expectedFile d foundLog =
     (let actual = normalizeLogData le foundLog
      in case MaybeUpdateExpectedLogsResults (le_write le) (le_env le) expectedFile actual d of
           (Some e, d') \<Rightarrow> (Inl e, d')
         | (None, d') \<Rightarrow>
             if files d' expectedFile = None then (Inr False, d')
             else (bind_res (le_read le d' expectedFile) (\<lambda>expected.
                   bind_res (require_equal le ''Log resource'' (resource_attrs actual) (resource_attrs expected)) (\<lambda>_.
                   bind_res (require_equal le ''Log record'' (first_record_attrs actual) (first_record_attrs expected)) (\<lambda>_.
                     Inr True))), d'))"

definition validateLogAttributes :: "log_env \<Rightarrow> string \<Rightarrow> fs \<Rightarrow> nat list \<Rightarrow> logs list list \<Rightarrow> bool result \<times> fs" where
  "validateLogAttributes le expectedValuesDir d lens sinks =
     (if \<not> WaitForEntries 5 lens then (Inl ''Condition never satisfied'', d)
      else (case Option.bind (eventually_state (marked_check le) sinks None) (\<lambda>found. found) of
        None \<Rightarrow> (Inl ''Condition never satisfied'', d)
      | Some foundLog \<Rightarrow>
          compare_log le (path_join [testDir, expectedValuesDir, ''expected_container_log_attributes.yaml'']) d foundLog))"

section \<open>Properties\<close>

subsection \<open>The path of the log file\<close>

lemma fits_nth: "fits ps s \<Longrightarrow> i < length ps \<Longrightarrow> i < length s \<and> (ps ! i) (s ! i)"
proof (induction ps s arbitrary: i rule: fits.induct)
  case (3 p ps c cs)
  then show ?case by (cases i) auto
qed auto

lemma fits_append: "fits ps s \<Longrightarrow> fits ps (s @ t)"
  by (induction ps s rule: fits.induct) auto

lemma uid_shape:
  "i < 8 \<Longrightarrow> podUIDRe ! i = hex_char" "podUIDRe ! 8 = uid_sep" "9 \<le> i \<Longrightarrow> i < 13 \<Longrightarrow> podUIDRe ! i = hex_char"
  "podUIDRe ! 13 = uid_sep" "podUIDRe ! 18 = uid_sep" "length podUIDRe = 36"
  by (auto simp: podUIDRe_def nth_append nth_Cons')

lemma not_hex [simp]: "\<not> hex_char (CHR ''-'')" "\<not> hex_char (CHR ''_'')"
  by code_simp+

lemma not_name [simp]: "\<not> name_char (CHR ''-'')" "\<not> name_char (CHR ''_'')" "\<not> name_char (CHR ''/'')"
  by code_simp+

lemma hex_not_sep: "hex_char c \<Longrightarrow> \<not> uid_sep c" and name_not_sep: "name_char c \<Longrightarrow> \<not> uid_sep c"
  by (auto simp: uid_sep_def)

text \<open>No identifier starts inside a run of letters and digits that a separator and the identifier follow.\<close>

lemma run_of_eight:
  assumes "fits podUIDRe (r @ c # s)" and "list_all name_char r" and "r \<noteq> []" and "uid_sep c"
  shows "length r = 8"
proof (rule ccontr)
  assume "length r \<noteq> 8"
  then consider "length r < 8" | "8 < length r" by linarith
  then show False
  proof cases
    case 1
    have "length r < length podUIDRe" using 1 uid_shape(6) by simp
    from fits_nth [OF assms(1) this] have "hex_char c" using uid_shape(1) [OF 1] by simp
    with assms(4) show False by (simp add: hex_not_sep)
  next
    case 2
    from fits_nth [OF assms(1), of 8] have "uid_sep (r ! 8)" using 2 uid_shape(2,6) by (simp add: nth_append)
    moreover have "name_char (r ! 8)" using assms(2) 2 by (simp add: list_all_length)
    ultimately show False by (simp add: name_not_sep)
  qed
qed

lemma uid_fifth: "fits podUIDRe u \<Longrightarrow> 4 < length u \<and> \<not> uid_sep (u ! 4)"
  using fits_nth [of podUIDRe u 4] uid_shape(1) [of 4] uid_shape(6) by (simp add: hex_not_sep)

lemma no_uid_in_suffix:
  assumes "list_all name_char t" and "t \<noteq> []" and u: "fits podUIDRe u"
  shows "\<not> fits podUIDRe (t @ CHR ''_'' # u @ post)"
proof
  assume f: "fits podUIDRe (t @ CHR ''_'' # u @ post)"
  have "length t = 8" using run_of_eight [OF f assms(1,2)] by (simp add: uid_sep_def)
  with fits_nth [OF f, of 13] have "uid_sep (u ! 4)" using uid_shape(4,6) uid_fifth [OF u] by (simp add: nth_append)
  with uid_fifth [OF u] show False by simp
qed

lemma no_uid_in_name:
  assumes "list_all name_char r" and "r \<noteq> []" and "list_all name_char t" and "t \<noteq> []" and u: "fits podUIDRe u"
  shows "\<not> fits podUIDRe (r @ CHR ''-'' # t @ CHR ''_'' # u @ post)"
proof
  assume f: "fits podUIDRe (r @ CHR ''-'' # t @ CHR ''_'' # u @ post)"
  have r: "length r = 8" using run_of_eight [OF f assms(1,2)] by (simp add: uid_sep_def)
  consider "length t < 4" | "length t = 4" | "4 < length t" by linarith
  then show False
  proof cases
    case 1
    with fits_nth [OF f, of "9 + length t"] have "hex_char (CHR ''_'')"
      using uid_shape(3) [of "9 + length t"] uid_shape(6) r by (simp add: nth_append)
    then show False by simp
  next
    case 2
    with fits_nth [OF f, of 18] have "uid_sep (u ! 4)" using uid_shape(5,6) r uid_fifth [OF u] by (simp add: nth_append)
    with uid_fifth [OF u] show False by simp
  next
    case 3
    with fits_nth [OF f, of 13] have "uid_sep (t ! 4)" using uid_shape(4,6) r by (simp add: nth_append)
    moreover have "name_char (t ! 4)" using assms(3) 3 by (simp add: list_all_length)
    ultimately show False by (simp add: name_not_sep)
  qed
qed

subsection \<open>Replacing in the path\<close>

text \<open>A prefix in which no match starts, whatever follows it.\<close>

fun match_free :: "(string \<Rightarrow> (string \<times> nat) option) \<Rightarrow> string \<Rightarrow> string \<Rightarrow> bool" where
  "match_free f [] s = True"
| "match_free f (c # cs) s = (f (c # cs @ s) = None \<and> match_free f cs s)"

lemma replace_match_free: "match_free f p s \<Longrightarrow> replace_all f (p @ s) = p @ replace_all f s"
  by (induction p) simp_all

lemma replace_match: "f (m @ s) = Some (out, length m) \<Longrightarrow> m \<noteq> [] \<Longrightarrow> replace_all f (m @ s) = out @ replace_all f s"
  by (cases m) simp_all

lemma match_free_append: "match_free f (p @ q) s \<longleftrightarrow> match_free f p (q @ s) \<and> match_free f q s"
  by (induction p) auto

text \<open>Text that is stopped within itself is match free.\<close>

fun stopped :: "(char \<Rightarrow> bool) list \<Rightarrow> string \<Rightarrow> bool" where
  "stopped [] s = False"
| "stopped (p # ps) [] = False"
| "stopped (p # ps) (c # cs) = (\<not> p c \<or> stopped ps cs)"

lemma stopped_fits: "stopped ps s \<Longrightarrow> \<not> fits ps (s @ t)"
  by (induction ps s rule: stopped.induct) auto

fun all_stopped :: "(char \<Rightarrow> bool) list \<Rightarrow> string \<Rightarrow> bool" where
  "all_stopped ps [] = True"
| "all_stopped ps (c # cs) = (stopped ps (c # cs) \<and> all_stopped ps cs)"

lemma uid_free_stopped: "all_stopped podUIDRe p \<Longrightarrow> match_free uid_match p s"
proof (induction p)
  case (Cons c cs)
  then show ?case using stopped_fits [of podUIDRe "c # cs" s] by (simp add: uid_match_def)
qed simp

definition name_start :: "(char \<Rightarrow> bool) list" where
  "name_start = map (=) ''log-attr-test-''"

lemma has_prefix_fits: "has_prefix s ''log-attr-test-'' \<longleftrightarrow> fits name_start s"
proof -
  have "fits (map (=) p) s \<longleftrightarrow> (\<exists>t. s = p @ t)" for p s
    by (induction "map (=) p" s arbitrary: p rule: fits.induct) auto
  then show ?thesis unfolding name_start_def has_prefix_iff by blast
qed

lemma name_free_stopped: "all_stopped name_start p \<Longrightarrow> match_free name_match p s"
proof (induction p)
  case (Cons c cs)
  then show ?case using stopped_fits [of name_start "c # cs" s] by (simp add: name_match_def podNameRe_def has_prefix_fits)
qed simp

lemma sep_no_uid: "uid_sep c \<Longrightarrow> \<not> fits podUIDRe (c # s)"
  using fits_nth [of podUIDRe "c # s" 0] uid_shape(1) [of 0] uid_shape(6) by (auto simp: hex_not_sep)

lemma uid_seps [simp]: "uid_sep (CHR ''-'')" "uid_sep (CHR ''_'')"
  by (simp_all add: uid_sep_def)

lemma uid_free_suffix:
  "list_all name_char t \<Longrightarrow> fits podUIDRe u \<Longrightarrow> match_free uid_match (t @ ''_'') (u @ post)"
proof (induction t)
  case Nil
  show ?case by (simp add: uid_match_def sep_no_uid)
next
  case (Cons c t)
  then show ?case using no_uid_in_suffix [of "c # t" u post] by (simp add: uid_match_def)
qed

lemma uid_free_name:
  assumes "list_all name_char t" and "t \<noteq> []" and u: "fits podUIDRe u"
  shows "list_all name_char r \<Longrightarrow> match_free uid_match (r @ ''-'' @ t @ ''_'') (u @ post)"
proof (induction r)
  case Nil
  have "uid_match (CHR ''-'' # s) = None" for s by (simp add: uid_match_def sep_no_uid)
  then show ?case using uid_free_suffix [OF assms(1) u] by simp
next
  case (Cons c r)
  then show ?case using no_uid_in_name [of "c # r" t u post] assms by (simp add: uid_match_def)
qed

definition log_path :: "string \<Rightarrow> string \<Rightarrow> string \<Rightarrow> string" where
  "log_path r t u = ''/var/log/pods/default_log-attr-test-'' @ r @ ''-'' @ t @ ''_'' @ u @ ''/log-attr-test/0.log''"

text \<open>
  The normalized path does not depend on the replica set, the pod and its identifier.
\<close>

lemma closed_paths:
  "all_stopped podUIDRe ''/var/log/pods/default_log-attr-test-''" "all_stopped name_start ''/var/log/pods/default_''"
  "replace_all uid_match ''/log-attr-test/0.log'' = ''/log-attr-test/0.log''"
  "replace_all name_match (''_'' @ uid_placeholder @ ''/log-attr-test/0.log'') = ''_'' @ uid_placeholder @ ''/log-attr-test/0.log''"
  by code_simp+

lemma replace_name:
  assumes "list_all name_char r" and "r \<noteq> []" and "list_all name_char t" and "t \<noteq> []" and "\<not> name_char (hd post)" and "post \<noteq> []"
  shows "replace_all name_match (''log-attr-test-'' @ r @ ''-'' @ t @ post) = name_placeholder @ replace_all name_match post"
proof -
  have r: "takeWhile name_char (r @ ''-'' @ t @ post) = r"
    using assms(1) by (subst takeWhile_append2) (auto simp: list_all_iff)
  have t: "takeWhile name_char (t @ post) = t"
    using assms(3,5,6) by (cases post) (auto simp: list_all_iff takeWhile_append)
  have start: "has_prefix (''log-attr-test-'' @ s) ''log-attr-test-''" "drop 14 (''log-attr-test-'' @ s) = s" for s
    by simp_all
  have behind: "drop (14 + length r) (''log-attr-test-'' @ r @ s) = s" for s
    by (simp add: eval_nat_numeral)
  have "podNameRe (''log-attr-test-'' @ r @ ''-'' @ t @ post) = Some (15 + length r + length t)"
    unfolding podNameRe_def Let_def start r behind if_True by (simp add: t assms(2,4))
  then have "name_match ((''log-attr-test-'' @ r @ ''-'' @ t) @ post) = Some (name_placeholder, length (''log-attr-test-'' @ r @ ''-'' @ t))"
    unfolding name_match_def by simp
  then show ?thesis
    using replace_match [of name_match "''log-attr-test-'' @ r @ ''-'' @ t" post name_placeholder] by simp
qed

theorem normalize_source_stable:
  assumes "list_all name_char r" and "r \<noteq> []" and "list_all name_char t" and "t \<noteq> []" and "fits podUIDRe u" and "length u = 36"
  shows "normalize_source (log_path r t u) = log_path ''7bc5f4d89b'' ''xj8k2'' uid_placeholder"
proof -
  let ?pre = "''/var/log/pods/default_log-attr-test-''" and ?post = "''/log-attr-test/0.log''"
  obtain c u' where u': "u = c # u'" using assms(6) by (cases u) auto
  have "uid_match (u @ ?post) = Some (uid_placeholder, 36)"
    using fits_append [OF assms(5)] by (simp add: uid_match_def)
  then have uid: "replace_all uid_match (u @ ?post) = uid_placeholder @ ?post"
    using replace_match [of uid_match u ?post uid_placeholder] assms(6) closed_paths(3) by (simp add: u')
  have "match_free uid_match (?pre @ r @ ''-'' @ t @ ''_'') (u @ ?post)"
    using uid_free_name [OF assms(3-5,1)] uid_free_stopped [OF closed_paths(1)] by (simp only: match_free_append)
  from replace_match_free [OF this] have
    "replace_all uid_match (log_path r t u) = ''/var/log/pods/default_'' @ ''log-attr-test-'' @ r @ ''-'' @ t @ ''_'' @ uid_placeholder @ ?post"
    by (simp add: log_path_def uid)
  moreover have "replace_all name_match \<dots> = ''/var/log/pods/default_'' @ name_placeholder @ ''_'' @ uid_placeholder @ ?post"
    using replace_match_free [OF name_free_stopped [OF closed_paths(2)]]
      replace_name [OF assms(1-4), of "''_'' @ uid_placeholder @ ?post"] closed_paths(4) by simp
  ultimately show ?thesis by (simp add: normalize_source_def log_path_def name_placeholder_def)
qed

subsection \<open>The attributes\<close>

definition normal_value :: "(attr_value \<Rightarrow> string) \<Rightarrow> string \<Rightarrow> attr_value \<Rightarrow> attr_value" where
  "normal_value AsString k v =
     (case map_of dynamicAttrPlaceholders k of
        Some placeholder \<Rightarrow> VStr placeholder
      | None \<Rightarrow> if k = ''com.splunk.source'' then VStr (normalize_source (AsString v)) else v)"

lemma put_str_at: "k \<notin> fst ` set m \<Longrightarrow> put_str (m @ (k, v) # n) k s = m @ (k, VStr s) # n"
  by (induction m) auto

lemma normalize_step_at:
  "k \<notin> fst ` set m \<Longrightarrow> normalize_step f (m @ (k, v) # n) (k, v) = m @ (k, normal_value f k v) # n"
  using put_str_at [of k m v n] by (auto simp: normalize_step_def normal_value_def split: option.split)

lemma normalizeDynamicAttrs_map:
  assumes "distinct (map fst m)"
  shows "normalizeDynamicAttrs f m = map (\<lambda>(k, v). (k, normal_value f k v)) m"
proof -
  have "foldl (normalize_step f) (m @ n) n = m @ map (\<lambda>(k, v). (k, normal_value f k v)) n"
    if "distinct (map fst n)" "fst ` set m \<inter> fst ` set n = {}" for m n
    using that
  proof (induction n arbitrary: m)
    case (Cons x n)
    obtain k v where x: "x = (k, v)" by fastforce
    have "fst ` set (m @ [(k, normal_value f k v)]) \<inter> fst ` set n = {}" using Cons.prems by (auto simp: x)
    with Cons.IH [OF _ this] Cons.prems show ?case by (simp add: x normalize_step_at)
  qed simp
  from this [of m "[]"] assms show ?thesis by (simp add: normalizeDynamicAttrs_def)
qed

text \<open>The path of the log file of some pod of the test.\<close>

definition pod_log_path :: "string \<Rightarrow> bool" where
  "pod_log_path s \<longleftrightarrow>
     (\<exists>r t u. s = log_path r t u \<and> list_all name_char r \<and> r \<noteq> [] \<and> list_all name_char t \<and> t \<noteq> [] \<and>
        fits podUIDRe u \<and> length u = 36)"

text \<open>Two attribute maps that differ at most in what the cluster chooses.\<close>

definition same_attrs :: "attrs \<Rightarrow> attrs \<Rightarrow> bool" where
  "same_attrs m n \<longleftrightarrow> distinct (map fst m) \<and>
     list_all2 (\<lambda>(k, v) (l, w). k = l \<and>
       (k \<in> fst ` set dynamicAttrPlaceholders \<or> v = w \<or>
        k = ''com.splunk.source'' \<and> (\<exists>s t. v = VStr s \<and> w = VStr t \<and> pod_log_path s \<and> pod_log_path t))) m n"

lemma normal_path: "pod_log_path s \<Longrightarrow> normalize_source s = log_path ''7bc5f4d89b'' ''xj8k2'' uid_placeholder"
  unfolding pod_log_path_def by (metis normalize_source_stable)

lemma same_attrs_normal:
  assumes "same_attrs m n" and str: "\<And>s. f (VStr s) = s"
  shows "normalizeDynamicAttrs f m = normalizeDynamicAttrs f n"
proof -
  let ?R = "\<lambda>(k, v) (l, w). k = l \<and>
       (k \<in> fst ` set dynamicAttrPlaceholders \<or> v = w \<or>
        k = ''com.splunk.source'' \<and> (\<exists>s t. v = VStr s \<and> w = VStr t \<and> pod_log_path s \<and> pod_log_path t))"
  have rel: "distinct (map fst m)" "list_all2 ?R m n" using assms(1) by (simp_all add: same_attrs_def)
  have keys: "map fst m = map fst n" using rel(2) by induction auto
  have vals: "normal_value f k v = normal_value f k w" if "?R (k, v) (k, w)" for k v w
  proof (cases "map_of dynamicAttrPlaceholders k")
    case None
    then have "k \<notin> fst ` set dynamicAttrPlaceholders" by (simp add: map_of_eq_None_iff)
    with that None show ?thesis by (auto simp: normal_value_def str normal_path)
  qed (simp add: normal_value_def)
  have "map (\<lambda>(k, v). (k, normal_value f k v)) m = map (\<lambda>(k, v). (k, normal_value f k v)) n"
    using rel(2)
  proof (induction rule: list_all2_induct)
    case (Cons x xs y ys)
    then show ?case using vals [of "fst x" "snd x" "snd y"] by (cases x; cases y) auto
  qed simp
  then show ?thesis using rel(1) keys by (simp add: normalizeDynamicAttrs_map)
qed

text \<open>
  C15: the outcome of the log attribute test does not depend on what the cluster has chosen: two runs whose marked logs
  agree up to names, identifiers, the path of the log file, the body and the times end in the same way and write the
  same golden file.
\<close>

theorem validateLogAttributes_stable:
  assumes "\<And>s. le_AsString le (VStr s) = s"
    and "eventually_state (marked_check le) sinks None = Some (Some (marked_log rl lr))"
    and "eventually_state (marked_check le) sinks' None = Some (Some (marked_log rl' lr'))"
    and "same_attrs (rl_Attributes rl) (rl_Attributes rl')" and "same_attrs (lr_Attributes lr) (lr_Attributes lr')"
    and "le_zero_times le (lr_rest lr) = le_zero_times le (lr_rest lr')"
  shows "validateLogAttributes le dir d lens sinks = validateLogAttributes le dir d lens sinks'"
proof -
  have "normalizeLogData le (marked_log rl lr) = normalizeLogData le (marked_log rl' lr')"
    using same_attrs_normal [OF assms(4,1)] same_attrs_normal [OF assms(5,1)] assms(6)
    by (simp add: normalizeLogData_def marked_log_def map_records_def normalize_record_def)
  then show ?thesis
    using assms(2,3) by (simp add: validateLogAttributes_def compare_log_def)
qed

definition sample_log_env :: log_env where
  "sample_log_env =
     \<lparr>le_AsString = attr_str, le_equal = (=), le_zero_times = (\<lambda>_. []), le_write = (\<lambda>file ls d. (None, d)),
      le_read = (\<lambda>d file. Inr []), le_env = (\<lambda>_. [])\<rparr>"

definition sample_marked :: "string \<Rightarrow> string \<Rightarrow> log_record" where
  "sample_marked pod time =
     \<lparr>lr_Attributes = [(''k8s.container.name'', VStr ''log-attr-test''), (''container.id'', VStr ''c1''), (''k8s.pod.name'', VStr pod)],
      lr_Body = VStr ''LOG_ATTR_VALIDATION_MARKER'', lr_rest = time\<rparr>"

definition sample_resource_logs :: "string \<Rightarrow> string \<Rightarrow> resource_logs" where
  "sample_resource_logs pod time =
     \<lparr>rl_Attributes = [], rl_rest = [], rl_Scopes = [\<lparr>sl_Attributes = [], sl_rest = [], sl_Records = [sample_marked pod time]\<rparr>]\<rparr>"

lemma validateLogAttributes_stable_witness:
  "validateLogAttributes sample_log_env ''dir'' \<lparr>files = Map.empty, read_fault = \<lambda>_. None, write_fault = \<lambda>_. None\<rparr> [5]
     [[[sample_resource_logs ''log-attr-test-1-a'' ''12:00'']]] =
   validateLogAttributes sample_log_env ''dir'' \<lparr>files = Map.empty, read_fault = \<lambda>_. None, write_fault = \<lambda>_. None\<rparr> [5]
     [[], [[sample_resource_logs ''log-attr-test-2-b'' ''12:05'']]]"
proof -
  have str: "le_AsString sample_log_env (VStr s) = s" for s by (simp add: sample_log_env_def)
  have marked: "is_marked sample_log_env (sample_marked pod time)" for pod time
    by (simp add: is_marked_def sample_marked_def sample_log_env_def str_of_def attr_get_def)
  have wait: "eventually_state (marked_check sample_log_env) [[[sample_resource_logs pod time]]] found =
      Some (Some (marked_log (sample_resource_logs pod time) (sample_marked pod time)))" for pod time found
    by (simp add: marked_check_def see_marked_def marked sample_resource_logs_def)
  have late: "eventually_state (marked_check sample_log_env) [[], [[sample_resource_logs pod time]]] None =
      Some (Some (marked_log (sample_resource_logs pod time) (sample_marked pod time)))" for pod time
    using wait [of pod time None] by (simp add: marked_check_def)
  show ?thesis
    by (rule validateLogAttributes_stable [OF str wait late])
      (simp_all add: same_attrs_def sample_resource_logs_def sample_marked_def dynamicAttrPlaceholders_def sample_log_env_def)
qed

end
