(* ===== verification/SwitchingSuite.thy ===== *)
theory SwitchingSuite
  imports Suites SuiteHelpers Golden
begin

section \<open>The test of configuration switches\<close>

text \<open>
  \<open>functional_tests/configuration_switching/configuration_switching_test.go\<close>: one chart after the other is installed with
  switches set in different ways, each in a subtest whose cleanup removes it again, and the sinks are looked at in
  between. \<open>sw_lens\<close>, \<open>sw_logs\<close> and \<open>sw_metrics\<close> are the sizes and contents of the sinks as the waits and reads of a subtest
  find them; the second string names the read, which can find something else each time.
  A sink that has just been reset contains what has arrived since.
\<close>

datatype switch_sink = AgentLogSink | HecMetricSink | ObjectLogSink

record switch_env =
  sw_suite :: suite_env
  sw_AsString :: "attr_value \<Rightarrow> string"
  sw_lens :: "string \<Rightarrow> switch_sink \<Rightarrow> nat list"
  sw_logs :: "string \<Rightarrow> string \<Rightarrow> switch_sink \<Rightarrow> logs list"
  sw_metrics :: "string \<Rightarrow> string \<Rightarrow> metrics list"
  sw_terminating :: "string \<Rightarrow> pod list result list"
  sw_pods :: "string \<Rightarrow> pod list result"

definition panicked :: string where "panicked = ''panic''"

text \<open>A subtest; when it panics its cleanups and those of the tests around it are run, and nothing else.\<close>

definition sub_test :: "string \<Rightarrow> (suite_action, unit) test \<Rightarrow> (suite_action, unit) test" where
  "sub_test name m =
     bind_test (t_Run name m) (\<lambda>_. pure_test (if t_result m = Inl panicked then Inl panicked else Inr ()))"

subsection \<open>Deployment\<close>

definition switch_replacements :: "string \<Rightarrow> (string \<times> yaml) list" where
  "switch_replacements hostEp =
     string_values
       [(''LogHecEndpoint'', HostPortHTTP hostEp HECLogsReceiverPort),
        (''MetricHecEndpoint'', HostPortHTTP hostEp HECMetricsReceiverPort @ ''/services/collector'')]"

definition charts_deployment :: "suite_env \<Rightarrow> string \<Rightarrow> (string \<times> yaml) list \<Rightarrow> (suite_action, unit) run" where
  "charts_deployment se valuesFileName repl =
     bind_run (pure_run (requireEnv (su_lookup se) ''KUBECONFIG'')) (\<lambda>testKubeConfig.
     bind_run (pure_run (host_endpoint se)) (\<lambda>hostEp.
     bind_run (pure_run (if length hostEp = 0 then Inl ''Host endpoint not found'' else Inr ())) (\<lambda>_.
     bind_run (pure_run (path_abs (su_cwd se) (path_join [''testdata'', ''values'', valuesFileName]))) (\<lambda>valuesFile.
       chart_install se testKubeConfig valuesFile (AList.updates (map fst repl) (map snd repl) (switch_replacements hostEp)) 0
         (GetDefaultChartOptions (su_watcher se))))))"

definition switch_teardown :: "suite_env \<Rightarrow> bool \<Rightarrow> (suite_action, unit) run" where
  "switch_teardown se cleaning =
     bind_run (pure_run (requireEnv (su_lookup se) ''KUBECONFIG'')) (\<lambda>_. chart_uninstall se cleaning)"

definition deployChartsAndApps :: "suite_env \<Rightarrow> string \<Rightarrow> (string \<times> yaml) list \<Rightarrow> (suite_action, unit) test" where
  "deployChartsAndApps se valuesFileName repl =
     bind_test (do_run (charts_deployment se valuesFileName repl)) (\<lambda>_.
       t_Cleanup (unless_skipped se (do_run (switch_teardown se True))))"

subsection \<open>Steps of the subtests\<close>

text \<open>A subtest: what it checks first, the chart it installs, and what it checks then.\<close>

record switch_case =
  sc_name :: string
  sc_before :: "(suite_action, unit) test"
  sc_values :: string
  sc_repl :: "(string \<times> yaml) list"
  sc_checks :: "(suite_action, unit) test"

definition case_test :: "suite_env \<Rightarrow> switch_case \<Rightarrow> (suite_action, unit) test" where
  "case_test se c =
     bind_test (sc_before c) (\<lambda>_.
     bind_test (deployChartsAndApps se (sc_values c) (sc_repl c)) (\<lambda>_. sc_checks c))"

definition run_subtests :: "suite_env \<Rightarrow> switch_case list \<Rightarrow> (suite_action, unit) test" where
  "run_subtests se cs = each_test (\<lambda>c. sub_test (sc_name c) (case_test se c)) cs"

definition wait_entries :: "switch_env \<Rightarrow> string \<Rightarrow> switch_sink \<Rightarrow> int \<Rightarrow> (suite_action, unit) test" where
  "wait_entries sw name sink n = do_run (waiting (AwaitEntries n) (WaitForEntries n (sw_lens sw name sink)))"

definition no_events :: "switch_env \<Rightarrow> string \<Rightarrow> string \<Rightarrow> switch_sink \<Rightarrow> (suite_action, unit) test" where
  "no_events sw name at sink = pure_test (CheckNoEventsReceived (sw_logs sw name at sink))"

definition no_metrics :: "switch_env \<Rightarrow> string \<Rightarrow> (suite_action, unit) test" where
  "no_metrics sw name = pure_test (CheckNoMetricsReceived (sw_metrics sw name ''before''))"

fun in_turn :: "(suite_action, unit) test list \<Rightarrow> (suite_action, unit) test" where
  "in_turn [] = pure_test (Inr ())"
| "in_turn (m # ms) = bind_test m (\<lambda>_. in_turn ms)"

text \<open>An assertion on an element that must be there: the index panics if it is not.\<close>

definition assert_first :: "string list \<Rightarrow> string \<Rightarrow> (suite_action, unit) test" where
  "assert_first xs expected =
     bind_test (assert_test (length xs = 1) ''should have 1 item'') (\<lambda>_.
       case xs of [] \<Rightarrow> pure_test (Inl panicked) | x # _ \<Rightarrow> assert_test (expected = x) ''Not equal'')"

definition assert_contains :: "string list \<Rightarrow> string \<Rightarrow> (suite_action, unit) test" where
  "assert_contains xs x = assert_test (list_contains xs x) ''does not contain''"

definition assert_lacks :: "string list \<Rightarrow> string \<Rightarrow> (suite_action, unit) test" where
  "assert_lacks xs x = assert_test (\<not> list_contains xs x) ''should not contain''"

subsection \<open>Logs and metrics switched on and off\<close>

definition enabled :: "bool \<Rightarrow> bool \<Rightarrow> (string \<times> yaml) list" where
  "enabled metricsEnabled logsEnabled = [(''MetricsEnabled'', YBool metricsEnabled), (''LogsEnabled'', YBool logsEnabled)]"

definition switching_file :: string where
  "switching_file = ''values_logs_and_metrics_switching.yaml.tmpl''"

definition agent_cases :: "switch_env \<Rightarrow> switch_case list" where
  "agent_cases sw =
     [(let name = ''check logs and metrics received when both are enabled'' in
       \<lparr>sc_name = name, sc_before = in_turn [no_metrics sw name, no_events sw name ''before'' AgentLogSink],
        sc_values = switching_file, sc_repl = enabled True True,
        sc_checks = in_turn [wait_entries sw name HecMetricSink 5, wait_entries sw name AgentLogSink 5]\<rparr>),
      (let name = ''check metrics only enabled'' in
       \<lparr>sc_name = name, sc_before = in_turn [no_metrics sw name, no_events sw name ''before'' AgentLogSink],
        sc_values = switching_file, sc_repl = enabled True False,
        sc_checks = in_turn [wait_entries sw name HecMetricSink 5, no_events sw name ''after'' AgentLogSink]\<rparr>),
      (let name = ''check logs only enabled'' in
       \<lparr>sc_name = name, sc_before = pure_test (Inr ()), sc_values = switching_file, sc_repl = enabled False True,
        sc_checks = wait_entries sw name AgentLogSink 5\<rparr>)]"

definition testAgentLogsAndMetrics :: "switch_env \<Rightarrow> (suite_action, unit) test" where
  "testAgentLogsAndMetrics sw = run_subtests (sw_suite sw) (agent_cases sw)"

subsection \<open>Indexes\<close>

definition default_index_checks :: "switch_env \<Rightarrow> string \<Rightarrow> (suite_action, unit) test" where
  "default_index_checks sw name =
     (let (originalSourcetypes, indices) = getLogsIndexAndSourceType (sw_AsString sw) (sw_logs sw name ''after'' AgentLogSink);
          sourcetypes = filter (\<lambda>s. \<not> has_prefix s ''kube:event'') originalSourcetypes
      in in_turn
           [assert_test (length sourcetypes > 1) ''is not greater'',
            in_turn (map (\<lambda>s. assert_test (has_prefix s ''kube:container:'') ''Element does not start with the prefix'') sourcetypes),
            assert_lacks sourcetypes ''my-sourcetype'', assert_first indices ''main'',
            (case getMetricsIndexAndSourceType (sw_AsString sw) (sw_metrics sw name ''after'') of
               None \<Rightarrow> pure_test (Inl panicked)
             | Some (_, mIndices) \<Rightarrow> assert_first mIndices ''metricsIndex'')])"

text \<open>The checks of logs, the wait for metrics, and the checks of metrics with the sourcetypes that must be there and must not.\<close>

definition new_index_checks :: "switch_env \<Rightarrow> string \<Rightarrow> string \<Rightarrow> string list \<Rightarrow> (suite_action, unit) test" where
  "new_index_checks sw name metricSourcetype absent =
     (let (sourcetypes, indices) = getLogsIndexAndSourceType (sw_AsString sw) (sw_logs sw name ''after'' AgentLogSink)
      in in_turn
           [wait_entries sw name AgentLogSink 3, assert_contains indices ''newLogsIndex'', assert_contains sourcetypes ''my-sourcetype'',
            wait_entries sw name HecMetricSink 3,
            (case getMetricsIndexAndSourceType (sw_AsString sw) (sw_metrics sw name ''after'') of
               None \<Rightarrow> pure_test (Inl panicked)
             | Some (mSourcetypes, mIndices) \<Rightarrow>
                 in_turn ([assert_contains mIndices ''newMetricsIndex'', assert_contains mSourcetypes metricSourcetype] @
                   map (assert_lacks mSourcetypes) absent))])"

definition new_indexes :: "(string \<times> yaml) list" where
  "new_indexes =
     [(''MetricsIndex'', YStr ''newMetricsIndex''), (''LogsIndex'', YStr ''newLogsIndex''), (''NonDefaultSourcetype'', YBool True),
      (''Sourcetype'', YStr ''my-sourcetype'')]"

definition index_cases :: "switch_env \<Rightarrow> switch_case list" where
  "index_cases sw =
     (let case_of = (\<lambda>name repl checks.
        \<lparr>sc_name = name, sc_before = pure_test (Inr ()), sc_values = ''values_indexes_switching.yaml.tmpl'', sc_repl = repl,
         sc_checks = checks name\<rparr>)
      in [case_of ''default_source_type'' [(''MetricsIndex'', YStr ''metricsIndex''), (''LogsIndex'', YStr ''main'')]
            (\<lambda>name. in_turn [wait_entries sw name HecMetricSink 3, wait_entries sw name AgentLogSink 3, default_index_checks sw name]),
          case_of ''non_default_source_type for both logs and another one for metrics''
            (new_indexes @ [(''SourcetypeMetrics'', YStr ''my-sourcetype-metrics'')])
            (\<lambda>name. new_index_checks sw name ''my-sourcetype-metrics'' []),
          case_of ''non_default_source_type for both logs and metrics'' new_indexes
            (\<lambda>name. new_index_checks sw name ''my-sourcetype'' [''my-sourcetype-metrics''])])"

definition testIndexSwitch :: "switch_env \<Rightarrow> (suite_action, unit) test" where
  "testIndexSwitch sw =
     bind_test (in_turn [no_metrics sw ''testIndexSwitch'', no_events sw ''testIndexSwitch'' ''before'' AgentLogSink]) (\<lambda>_.
       run_subtests (sw_suite sw) (index_cases sw))"

subsection \<open>The cluster receiver\<close>

definition listPodsInNamespace :: "switch_env \<Rightarrow> string \<Rightarrow> pod list result" where
  "listPodsInNamespace sw name =
     bind_res (requireEnv (su_lookup (sw_suite sw)) ''KUBECONFIG'') (\<lambda>kc.
       case su_client (sw_suite sw) kc of Some e \<Rightarrow> Inl e | None \<Rightarrow> sw_pods sw name)"

definition first_pod_prefixed :: "pod list \<Rightarrow> string \<Rightarrow> (suite_action, unit) test" where
  "first_pod_prefixed pods podPrefix =
     (case pods of [] \<Rightarrow> pure_test (Inl panicked) | p # _ \<Rightarrow> assert_test (has_prefix (pod_Name p) podPrefix) ''Should be true'')"

definition receiver_repl :: "bool \<Rightarrow> string \<Rightarrow> (string \<times> yaml) list" where
  "receiver_repl on hostEp =
     [(''ClusterReceiverEnabled'', YBool on),
      (''LogObjectsHecEndpoint'', YStr (HostPortHTTP hostEp HECObjectsReceiverPort @ ''/services/collector''))]"

definition pods_settled :: "switch_env \<Rightarrow> string \<Rightarrow> (suite_action, unit) test" where
  "pods_settled sw name = do_run (waiting (Checking ''terminating pods'') (WaitForTerminatingPods (sw_terminating sw name)))"

definition receiver_cases :: "switch_env \<Rightarrow> string \<Rightarrow> switch_case list" where
  "receiver_cases sw hostEp =
     (let case_of = (\<lambda>name on checks.
        \<lparr>sc_name = name, sc_before = pure_test (Inr ()), sc_values = ''values_cluster_receiver_switching.yaml.tmpl'',
         sc_repl = receiver_repl on hostEp,
         sc_checks = bind_test (pods_settled sw name) (\<lambda>_. bind_test (pure_test (listPodsInNamespace sw name)) (\<lambda>pods. checks name pods))\<rparr>)
      in [case_of ''check cluster receiver disabled'' False (\<lambda>name pods. in_turn
            [assert_test (length pods = 1) ''should have 1 item'', first_pod_prefixed pods ''sock-splunk-otel-collector-agent'',
             no_events sw name ''after'' ObjectLogSink]),
          case_of ''check cluster receiver enabled'' True (\<lambda>name pods. in_turn
            [assert_test (length pods = 2) ''should have 2 items'',
             assert_test (checkPodExists pods ''sock-splunk-otel-collector-agent'') ''Should be true'',
             assert_test (checkPodExists pods ''sock-splunk-otel-collector-k8s-cluster-receiver'') ''Should be true'',
             wait_entries sw name ObjectLogSink 5])])"

definition found_endpoint :: "suite_env \<Rightarrow> string result" where
  "found_endpoint se = bind_res (host_endpoint se) (\<lambda>ep. if length ep = 0 then Inl ''Host endpoint not found'' else Inr ep)"

definition testClusterReceiverEnabledOrDisabled :: "switch_env \<Rightarrow> (suite_action, unit) test" where
  "testClusterReceiverEnabledOrDisabled sw =
     bind_test (pure_test (requireEnv (su_lookup (sw_suite sw)) ''KUBECONFIG'')) (\<lambda>kc.
     bind_test (do_run (kube_client (sw_suite sw) kc)) (\<lambda>_.
     bind_test (pure_test (found_endpoint (sw_suite sw))) (\<lambda>hostEp.
       run_subtests (sw_suite sw) (receiver_cases sw hostEp))))"

subsection \<open>Attributes\<close>

definition attribute_found :: "string list \<times> nat \<Rightarrow> (suite_action, unit) test" where
  "attribute_found = (\<lambda>(attrValues, notFoundCounter).
     in_turn [assert_test (length attrValues \<ge> 1) ''is not greater than or equal'', assert_test (notFoundCounter = 0) ''Not equal''])"

definition log_attributes :: "switch_env \<Rightarrow> string \<Rightarrow> switch_sink \<Rightarrow> string list \<Rightarrow> (suite_action, unit) test" where
  "log_attributes sw name sink attrs =
     bind_test (wait_entries sw name sink 5) (\<lambda>_.
       in_turn (map (\<lambda>a. attribute_found (getLogsAttributes (sw_AsString sw) (sw_logs sw name a sink) a)) attrs))"

definition metric_attributes :: "switch_env \<Rightarrow> string \<Rightarrow> string list \<Rightarrow> (suite_action, unit) test" where
  "metric_attributes sw name attrs =
     bind_test (wait_entries sw name HecMetricSink 5) (\<lambda>_.
       in_turn (map (\<lambda>a. case getMetricsAttributes (sw_AsString sw) (sw_metrics sw name a) a of
           None \<Rightarrow> pure_test (Inl panicked) | Some found \<Rightarrow> attribute_found found) attrs))"

definition attributesList :: "string list" where
  "attributesList = [''k8s.node.name'', ''k8s.pod.name'', ''k8s.pod.uid'', ''k8s.namespace.name'']"

definition objectAttributesList :: "string list" where
  "objectAttributesList = [''k8s.resource.name'', ''k8s.cluster.name'', ''k8s.namespace.name'']"

definition attribute_cases :: "switch_env \<Rightarrow> string \<Rightarrow> switch_case list" where
  "attribute_cases sw hostEp =
     (let case_of = (\<lambda>name values_file repl checks.
        \<lparr>sc_name = name, sc_before = pure_test (Inr ()), sc_values = values_file, sc_repl = repl, sc_checks = checks name\<rparr>)
      in [case_of ''verify cluster receiver attributes'' ''values_cluster_receiver_only.yaml.tmpl'' (receiver_repl True hostEp)
            (\<lambda>name. log_attributes sw name ObjectLogSink objectAttributesList),
          case_of ''verify cluster receiver metrics attributes'' ''values_cluster_receiver_only.yaml.tmpl'' (receiver_repl True hostEp)
            (\<lambda>name. metric_attributes sw name attributesList),
          case_of ''verify agent logs attributes'' switching_file (enabled True True)
            (\<lambda>name. log_attributes sw name AgentLogSink attributesList),
          case_of ''verify metrics attributes'' switching_file (enabled True True)
            (\<lambda>name. metric_attributes sw name attributesList)])"

definition testVerifyLogsAndMetricsAttributes :: "switch_env \<Rightarrow> (suite_action, unit) test" where
  "testVerifyLogsAndMetricsAttributes sw =
     bind_test (pure_test (found_endpoint (sw_suite sw))) (\<lambda>hostEp. run_subtests (sw_suite sw) (attribute_cases sw hostEp))"

subsection \<open>The whole test\<close>

definition switching_tests :: "switch_env \<Rightarrow> (suite_action, unit) test" where
  "switching_tests sw =
     (if switched_on (sw_suite sw) ''SKIP_TESTS'' then pure_test (Inr ())
      else each_test (\<lambda>(name, t). sub_test name (t sw))
        [(''agent logs and metrics enabled or disabled'', testAgentLogsAndMetrics),
         (''logs and metrics index switch'', testIndexSwitch),
         (''cluster receiver enabled or disabled'', testClusterReceiverEnabledOrDisabled),
         (''logs and metrics attributes verification'', testVerifyLogsAndMetricsAttributes)])"

definition Test_Functions_switching :: "switch_env \<Rightarrow> (suite_action, unit) test" where
  "Test_Functions_switching sw =
     (let se = sw_suite sw; sk = su_sinks se
      in bind_test (sink_test se (SetupHECLogsSink sk)) (\<lambda>_.
         bind_test (sink_test se (SetupHECMetricsSink sk)) (\<lambda>_.
         bind_test (sink_test se (SetupHECObjectsSink sk)) (\<lambda>_.
         bind_test (do_run (if switched_on se ''TEARDOWN_BEFORE_SETUP'' then switch_teardown se False else pure_run (Inr ()))) (\<lambda>_.
           switching_tests sw)))))"

section \<open>Properties\<close>

subsection \<open>Indexes that are missing\<close>

text \<open>
  The first index is taken although the assertion that there is one does not end the test: without an index, the
  subtest panics, and the tests after it are not run.
\<close>

lemma in_turn_asserts: "t_result (in_turn (map (\<lambda>x. assert_test (P x) msg) xs)) = Inr ()"
  by (induction xs) (simp_all add: test_simps)

theorem missing_index_panics:
  assumes "getLogsIndexAndSourceType (sw_AsString sw) (sw_logs sw name ''after'' AgentLogSink) = (sourcetypes, [])"
  shows "t_result (default_index_checks sw name) = Inl panicked"
    and "t_result (sub_test name (default_index_checks sw name)) = Inl panicked"
proof -
  show "t_result (default_index_checks sw name) = Inl panicked"
    using assms by (simp add: default_index_checks_def assert_lacks_def assert_first_def in_turn_asserts test_simps Let_def)
  then show "t_result (sub_test name (default_index_checks sw name)) = Inl panicked"
    by (simp add: sub_test_def test_simps)
qed

subsection \<open>One chart at a time\<close>

text \<open>Steps that neither install nor remove a chart.\<close>

definition quiet :: "suite_action list \<Rightarrow> bool" where
  "quiet xs \<longleftrightarrow> list_all (\<lambda>x. case x of Installing a \<Rightarrow> False | Removing r \<Rightarrow> False | _ \<Rightarrow> True) xs"

definition installs_nothing :: "suite_action list \<Rightarrow> bool" where
  "installs_nothing xs \<longleftrightarrow> list_all (\<lambda>x. case x of Installing a \<Rightarrow> False | _ \<Rightarrow> True) xs"

text \<open>
  The releases in the cluster. An installation leaves its release behind even if it fails; a removal takes it away if
  Helm reports no error for it.
\<close>

definition release_step :: "suite_action \<Rightarrow> string set \<Rightarrow> string set" where
  "release_step x R =
     (case x of
        Installing (HelmInstall chart options labels vals) \<Rightarrow> insert (ChartReleaseName options) R
      | Removing (HelmUninstall name None) \<Rightarrow> R - {name}
      | _ \<Rightarrow> R)"

definition releases_after :: "string set \<Rightarrow> suite_action list \<Rightarrow> string set" where
  "releases_after R xs = fold release_step xs R"

text \<open>The releases that a removal finds and takes away.\<close>

definition removed :: "removal_env \<Rightarrow> string set" where
  "removed re = {name. \<exists>rels ns. re_releases re = Inr rels \<and> Release name ns \<in> set rels \<and> re_uninstall re name = None}"

text \<open>
  What a subtest does to the chart: after quiet steps it installs one. When that has succeeded there is one release, and
  what follows installs nothing and takes that release away, unless the removal is switched off. A failed installation
  ends the turn.
\<close>

definition chart_turn :: "suite_env \<Rightarrow> suite_action list \<Rightarrow> bool" where
  "chart_turn se turn \<longleftrightarrow> quiet turn \<or>
     (\<exists>before file repl behind. quiet before \<and> turn = before @ fst (charts_deployment se file repl) @ behind \<and>
        (if snd (charts_deployment se file repl) = Inr ()
         then releases_after {} (fst (charts_deployment se file repl)) = {''sock''} \<and>
           (if switched_on se ''SKIP_TEARDOWN'' then quiet behind
            else installs_nothing behind \<and> releases_after {''sock''} behind = {})
         else behind = []))"

definition chart_turns :: "suite_env \<Rightarrow> suite_action list \<Rightarrow> bool" where
  "chart_turns se xs \<longleftrightarrow> (\<exists>bs. xs = concat bs \<and> list_all (chart_turn se) bs)"

text \<open>A step of a test that is quiet and registers no cleanup.\<close>

definition quiet_step :: "(suite_action, 'a) test \<Rightarrow> bool" where
  "quiet_step m \<longleftrightarrow> quiet (t_trace m) \<and> t_cleanups m = []"

lemma quiet_simps [simp]: "quiet []" "quiet (xs @ ys) \<longleftrightarrow> quiet xs \<and> quiet ys"
  by (simp_all add: quiet_def)

lemma quiet_step_basic [simp]:
  "quiet_step (pure_test r)" "quiet_step (assert_test ok msg)" "quiet_step (do_run (waiting (AwaitEntries n) w))"
  "quiet_step (do_run (waiting (Checking c) w))" "quiet_step (do_run (kube_client se kc))"
  by (simp_all add: quiet_step_def quiet_def assert_test_def kube_client_def pure_run_def)

lemma quiet_step_bind: "quiet_step m \<Longrightarrow> (\<And>a. quiet_step (f a)) \<Longrightarrow> quiet_step (bind_test m f)"
  by (cases "t_result m") (simp_all add: quiet_step_def test_simps)

lemma quiet_in_turn: "(\<And>m. m \<in> set ms \<Longrightarrow> quiet_step m) \<Longrightarrow> quiet_step (in_turn ms)"
  by (induction ms) (simp_all add: quiet_step_bind)

lemma turns_append: "chart_turns se xs \<Longrightarrow> chart_turns se ys \<Longrightarrow> chart_turns se (xs @ ys)"
  unfolding chart_turns_def by (metis concat_append list_all_append)

lemma turns_quiet: "quiet xs \<Longrightarrow> chart_turns se xs"
  unfolding chart_turns_def by (intro exI [of _ "[xs]"]) (simp add: chart_turn_def)

lemma finish_quiet_bind:
  assumes "quiet_step m"
  shows "\<exists>xs. quiet xs \<and> fst (finish (bind_test m f)) = xs @ (case t_result m of Inl e \<Rightarrow> [] | Inr a \<Rightarrow> fst (finish (f a)))"
  using assms by (cases "t_result m") (auto simp: quiet_step_def test_simps cleanup_trace_def)

text \<open>Tests whose subtests do all the installing, without cleanups of their own.\<close>

definition turning :: "suite_env \<Rightarrow> (suite_action, 'a) test \<Rightarrow> bool" where
  "turning se m \<longleftrightarrow> chart_turns se (t_trace m) \<and> t_cleanups m = []"

lemma turning_quiet: "quiet_step m \<Longrightarrow> turning se m"
  by (simp add: turning_def quiet_step_def turns_quiet)

lemma turning_bind: "turning se m \<Longrightarrow> (\<And>a. turning se (f a)) \<Longrightarrow> turning se (bind_test m f)"
  by (cases "t_result m") (simp_all add: turning_def test_simps turns_append)

lemma turning_sub_test: "chart_turns se (fst (finish m)) \<Longrightarrow> turning se (sub_test name m)"
  by (simp add: turning_def sub_test_def test_simps)

lemma turning_finish: "turning se m \<Longrightarrow> chart_turns se (fst (finish m))"
  by (simp add: turning_def finish_def cleanup_trace_def)

lemma turning_each: "(\<And>x. x \<in> set xs \<Longrightarrow> turning se (f x)) \<Longrightarrow> turning se (each_test f xs)"
  by (induction xs) (simp_all add: turning_bind turning_quiet)

text \<open>What installations and removals do to the releases.\<close>

lemma releases_after_simps [simp]:
  "releases_after R [] = R" "releases_after R (x # xs) = releases_after (release_step x R) xs"
  "releases_after R (xs @ ys) = releases_after (releases_after R xs) ys"
  by (simp_all add: releases_after_def)

lemma releases_after_quiet: "quiet xs \<Longrightarrow> releases_after R xs = R"
  by (induction xs arbitrary: R) (auto simp: quiet_def release_step_def split: suite_action.splits)

lemma releases_after_removing:
  "releases_after R (map Removing xs) = R - {name. HelmUninstall name None \<in> set xs}"
  by (induction xs arbitrary: R) (auto simp: release_step_def split: removal.splits option.splits)

lemma quiet_installs_nothing: "quiet xs \<Longrightarrow> installs_nothing xs"
  by (auto simp: quiet_def installs_nothing_def list_all_iff split: suite_action.splits)

lemma installs_nothing_simps [simp]:
  "installs_nothing []" "installs_nothing (xs @ ys) \<longleftrightarrow> installs_nothing xs \<and> installs_nothing ys"
  "installs_nothing (map Removing rs)"
  unfolding installs_nothing_def by (simp_all add: list.pred_map o_def list.pred_True)

lemma releases_after_crds: "releases_after R (map Installing (if b then crd_actions ce kc dir else [])) = R"
  by (simp add: crd_actions_def release_step_def Let_def)

lemma release_installed:
  assumes "snd (chart_install se kc vf repl m options) = Inr ()"
  shows "releases_after {} (fst (chart_install se kc vf repl m options)) = {ChartReleaseName options}"
proof -
  let ?ce = "su_chart se"
  let ?base = "\<lambda>env. if UpgradeFromValues options = [] then env ''UPGRADE_FROM_VALUES'' else UpgradeFromValues options"
  let ?dir = "\<lambda>env. if UpgradeFromChartDir options = [] then env ''UPGRADE_FROM_CHART_DIR'' else UpgradeFromChartDir options"
  from assms obtain tr where tr: "ChartInstallOrUpgrade ?ce (getenv se) kc vf repl m options = (tr, Inr ())"
    by (metis chart_install_def map_run_def prod.collapse snd_conv)
  then obtain env vals xs wait where
    xs: "(if ?base env \<noteq> [] then install_base_and_upgrade ?ce kc vf (?base env) (?dir env) vals options
        else bind_run (pure_run (load_chart ?ce defaultChartPath)) (\<lambda>chart. run_install ?ce options chart vals)) = (xs, Inr ())"
    and wait: "tr = xs @ [WaitPodsReady (ChartNamespace options) wait (ChartTimeout options) m]"
    by (auto simp: ChartInstallOrUpgrade_def Let_def bind_run_Inr pure_run_Inr act_run_Inr split: prod.splits)
  have "releases_after {} (map Installing xs) = {ChartReleaseName options}"
  proof (cases "?base env = []")
    case True
    with xs show ?thesis by (auto simp: bind_run_Inr pure_run_Inr run_install_def act_run_Inr release_step_def)
  next
    case False
    with xs have "install_base_and_upgrade ?ce kc vf (?base env) (?dir env) vals options = (xs, Inr ())" by (simp only: if_True not_False_eq_True)
    from upgrade_done [OF this] show ?thesis by (elim exE conjE) (simp add: releases_after_crds release_step_def)
  qed
  then show ?thesis using tr wait by (simp add: chart_install_def map_run_def release_step_def)
qed

lemma deployment_done:
  assumes "snd (charts_deployment se file repl) = Inr ()"
  shows "\<exists>kc. requireEnv (su_lookup se) ''KUBECONFIG'' = Inr kc" "releases_after {} (fst (charts_deployment se file repl)) = {''sock''}"
  using assms release_installed
  by (auto simp: charts_deployment_def bind_run_def pure_run_def GetDefaultChartOptions_def DefaultChartReleaseName_def
      split: sum.splits if_splits prod.splits)

lemma ChartUninstall_uninstalls:
  assumes "snd (ChartUninstall re) = Inr ()"
  shows "HelmUninstall name e \<in> set (fst (ChartUninstall re)) \<longleftrightarrow>
    (\<exists>releases ns. re_releases re = Inr releases \<and> Release name ns \<in> set releases) \<and> e = re_uninstall re name"
proof -
  from assms obtain releases where rel: "re_init re = None" "re_releases re = Inr releases"
    by (auto simp: ChartUninstall_def bind_run_def pure_run_def split: option.splits sum.splits)
  let ?crs = "deleteOperatorCRs re (re_crds re 0)" and ?crds = "deleteOperatorCRDs re (re_crds re (if releases = [] then 1 else 2))"
  let ?rels = "if releases = [] then deleteCertSecret re DefaultChartReleaseName DefaultNamespace else uninstall_releases re releases"
  have run: "ChartUninstall re = bind_run ?crs (\<lambda>_. bind_run ?rels (\<lambda>_. ?crds))"
    using rel by (simp add: ChartUninstall_def bind_run_def pure_run_def)
  have "snd ?crs = Inr ()" "snd ?rels = Inr ()" "snd ?crds = Inr ()"
    and all: "set (fst (ChartUninstall re)) = set (fst ?crs) \<union> set (fst ?rels) \<union> set (fst ?crds)"
    using assms unfolding run by (auto simp: bind_run_def split: prod.splits sum.splits)
  then have "HelmUninstall name e \<notin> set (fst ?crs) \<union> set (fst ?crds)"
    and "HelmUninstall name e \<in> set (fst ?rels) \<longleftrightarrow> (\<exists>ns. Release name ns \<in> set releases) \<and> e = re_uninstall re name"
    using deleteOperatorCRs_done(2) deleteOperatorCRDs_done(2) uninstall_releases_done(2) [of re releases]
    by (auto simp: deleteCertSecret_simps split: if_splits)
  then show ?thesis unfolding all using rel(2) by auto
qed

lemma uninstalls_releases:
  assumes "snd (chart_uninstall se cleaning) = Inr ()"
  shows "releases_after R (fst (chart_uninstall se cleaning)) = R - removed (su_removal se cleaning)"
proof -
  let ?re = "su_removal se cleaning"
  have ok: "snd (ChartUninstall ?re) = Inr ()" using assms by (simp add: chart_uninstall_def map_run_def split: prod.splits)
  have "HelmUninstall name None \<in> set (fst (ChartUninstall ?re)) \<longleftrightarrow> name \<in> removed ?re" for name
    using ChartUninstall_uninstalls [OF ok, of name None] by (auto simp: removed_def)
  then show ?thesis by (simp add: chart_uninstall_def map_run_def releases_after_removing split: prod.split)
qed

lemma teardown_trace:
  "requireEnv (su_lookup se) ''KUBECONFIG'' = Inr kc \<Longrightarrow> switch_teardown se cleaning = chart_uninstall se cleaning"
  by (simp add: switch_teardown_def bind_run_def pure_run_def)

lemma teardown_installs_nothing: "installs_nothing (fst (switch_teardown se cleaning))"
  by (cases "requireEnv (su_lookup se) ''KUBECONFIG''")
    (simp_all add: teardown_trace chart_uninstall_def map_run_def switch_teardown_def bind_run_def pure_run_def split: prod.split)

definition removal_works :: "suite_env \<Rightarrow> bool" where
  "removal_works se \<longleftrightarrow> snd (chart_uninstall se True) = Inr () \<and> ''sock'' \<in> removed (su_removal se True)"

text \<open>A subtest is one turn.\<close>

lemma case_turn:
  assumes "removal_works se" and "quiet_step (sc_before c)" and "quiet_step (sc_checks c)"
  shows "chart_turns se (fst (finish (case_test se c)))"
proof -
  let ?d = "charts_deployment se (sc_values c) (sc_repl c)"
  obtain xs where xs: "quiet xs" "fst (finish (case_test se c)) =
      xs @ (case t_result (sc_before c) of Inl e \<Rightarrow> []
            | Inr a \<Rightarrow> fst (finish (bind_test (deployChartsAndApps se (sc_values c) (sc_repl c)) (\<lambda>_. sc_checks c))))"
    using finish_quiet_bind [OF assms(2), of "\<lambda>_. bind_test (deployChartsAndApps se (sc_values c) (sc_repl c)) (\<lambda>_. sc_checks c)"]
    unfolding case_test_def by blast
  have after: "fst (finish (bind_test (deployChartsAndApps se (sc_values c) (sc_repl c)) (\<lambda>_. sc_checks c))) =
      fst ?d @ (if snd ?d = Inr () then t_trace (sc_checks c) @
        (if switched_on se ''SKIP_TEARDOWN'' then [] else fst (switch_teardown se True)) else [])"
  proof -
    have "fst (finish (sc_checks c)) = t_trace (sc_checks c)"
      using assms(3) by (simp add: finish_def cleanup_trace_def quiet_step_def)
    then show ?thesis
      by (cases "snd ?d") (simp_all add: deployChartsAndApps_def finish_undo unless_skipped_def)
  qed
  show ?thesis
  proof (cases "t_result (sc_before c)")
    case (Inl e)
    then show ?thesis using xs by (simp add: turns_quiet)
  next
    case (Inr a)
    have checks: "quiet (t_trace (sc_checks c))" using assms(3) by (simp add: quiet_step_def)
    have "fst (finish (case_test se c)) = xs @ fst ?d @ (if snd ?d = Inr () then t_trace (sc_checks c) @
        (if switched_on se ''SKIP_TEARDOWN'' then [] else fst (switch_teardown se True)) else [])"
      unfolding xs(2) Inr sum.case after ..
    moreover have "releases_after {''sock''} (fst (switch_teardown se True)) = {}" if "snd ?d = Inr ()"
      using deployment_done(1) [OF that] assms(1) uninstalls_releases [of se True] by (auto simp: removal_works_def teardown_trace)
    ultimately have "chart_turn se (fst (finish (case_test se c)))"
      unfolding chart_turn_def using xs(1) checks deployment_done(2) [of se "sc_values c" "sc_repl c"] teardown_installs_nothing [of se True]
      by (intro disjI2 exI [of _ xs] exI [of _ "sc_values c"] exI [of _ "sc_repl c"]
        exI [of _ "if snd ?d = Inr () then t_trace (sc_checks c) @
          (if switched_on se ''SKIP_TEARDOWN'' then [] else fst (switch_teardown se True)) else []"])
        (simp add: releases_after_quiet quiet_installs_nothing)
    then show ?thesis unfolding chart_turns_def by (intro exI [of _ "[fst (finish (case_test se c))]"]) simp
  qed
qed

lemma turning_subtests:
  "removal_works se \<Longrightarrow> (\<And>c. c \<in> set cs \<Longrightarrow> quiet_step (sc_before c) \<and> quiet_step (sc_checks c)) \<Longrightarrow> turning se (run_subtests se cs)"
  unfolding run_subtests_def by (intro turning_each turning_sub_test case_turn) simp_all

text \<open>The steps of the subtests are quiet.\<close>

lemma quiet_switch_steps [simp]:
  "quiet_step (wait_entries sw name sink n)" "quiet_step (no_events sw name at sink)" "quiet_step (no_metrics sw name)"
  "quiet_step (assert_contains xs x)" "quiet_step (assert_lacks xs x)" "quiet_step (pods_settled sw name)"
  "quiet_step (first_pod_prefixed pods pre)"
  by (simp_all add: wait_entries_def no_events_def no_metrics_def assert_contains_def assert_lacks_def pods_settled_def
      first_pod_prefixed_def split: list.split)

lemma quiet_assert_first [simp]: "quiet_step (assert_first xs x)"
  unfolding assert_first_def by (intro quiet_step_bind) (simp_all split: list.split)

lemma quiet_index_checks [simp]: "quiet_step (default_index_checks sw name)" "quiet_step (new_index_checks sw name st absent)"
proof -
  have "quiet_step (in_turn (map (assert_lacks ss) absent))" for ss
    by (rule quiet_in_turn) auto
  moreover have "quiet_step (in_turn (map (\<lambda>s. assert_test (P s) msg) ss))" for P msg and ss :: "string list"
    by (rule quiet_in_turn) auto
  ultimately show "quiet_step (default_index_checks sw name)" "quiet_step (new_index_checks sw name st absent)"
    by (auto simp: default_index_checks_def new_index_checks_def Let_def split: prod.split option.split intro!: quiet_step_bind)
qed

lemma quiet_attribute_found [simp]: "quiet_step (attribute_found found)"
  by (cases found) (simp add: attribute_found_def quiet_step_bind)

lemma quiet_attributes [simp]: "quiet_step (log_attributes sw name sink attrs)" "quiet_step (metric_attributes sw name attrs)"
  unfolding log_attributes_def metric_attributes_def
  by (intro quiet_step_bind quiet_in_turn; auto split: option.split)+

lemma turning_switching_tests:
  assumes "removal_works (sw_suite sw)"
  shows "turning (sw_suite sw) (switching_tests sw)"
proof -
  have agent: "turning (sw_suite sw) (testAgentLogsAndMetrics sw)"
    unfolding testAgentLogsAndMetrics_def
    by (rule turning_subtests [OF assms]) (auto simp: agent_cases_def Let_def intro!: quiet_step_bind)
  have index: "turning (sw_suite sw) (testIndexSwitch sw)"
    unfolding testIndexSwitch_def
    by (intro turning_bind turning_quiet turning_subtests assms) (auto simp: index_cases_def Let_def intro!: quiet_step_bind)
  have receiver: "turning (sw_suite sw) (testClusterReceiverEnabledOrDisabled sw)"
    unfolding testClusterReceiverEnabledOrDisabled_def
    by (intro turning_bind turning_quiet turning_subtests assms) (auto simp: receiver_cases_def Let_def intro!: quiet_step_bind)
  have attributes: "turning (sw_suite sw) (testVerifyLogsAndMetricsAttributes sw)"
    unfolding testVerifyLogsAndMetricsAttributes_def
    by (intro turning_bind turning_quiet turning_subtests assms) (auto simp: attribute_cases_def Let_def)
  show ?thesis
    unfolding switching_tests_def each_test.simps case_prod_conv
    by (simp add: turning_quiet) (intro impI turning_bind turning_sub_test turning_finish turning_quiet agent index receiver
        attributes quiet_step_basic)
qed

text \<open>The sinks are started before the first turn and stopped after the last, also when one of them fails.\<close>

definition sink_action_only :: "suite_action \<Rightarrow> bool" where
  "sink_action_only x = (case x of Sink s \<Rightarrow> True | _ \<Rightarrow> False)"

definition turns_within_sinks :: "suite_env \<Rightarrow> (suite_action, 'a) test \<Rightarrow> bool" where
  "turns_within_sinks se m \<longleftrightarrow>
     (\<exists>starts removal turns ends. fst (finish m) = starts @ removal @ concat turns @ ends \<and>
        list_all sink_action_only (starts @ ends) \<and> installs_nothing removal \<and>
        (if switched_on se ''TEARDOWN_BEFORE_SETUP''
         then turns \<noteq> [] \<longrightarrow> (\<forall>R. releases_after R removal = R - removed (su_removal se False)) else removal = []) \<and>
        list_all (chart_turn se) turns)"

lemma sink_actions:
  "list_all sink_action_only (t_trace (sink_test se m))" "list_all sink_action_only (cleanup_trace (sink_test se m))"
  by (auto simp: list_all_iff sink_action_only_def sink_test_def cleanup_trace_def)

lemma turns_within_bind:
  assumes "turns_within_sinks se (f ())"
  shows "turns_within_sinks se (bind_test (sink_test se' m) f)"
proof (cases "t_result (sink_test se' m)")
  case (Inl e)
  then have "fst (finish (bind_test (sink_test se' m) f)) = (t_trace (sink_test se' m) @ cleanup_trace (sink_test se' m)) @ [] @ concat [] @ []"
    by (simp add: finish_bind_Inl)
  moreover have "list_all sink_action_only ((t_trace (sink_test se' m) @ cleanup_trace (sink_test se' m)) @ [])"
    using sink_actions by simp
  ultimately show ?thesis unfolding turns_within_sinks_def
    by (intro exI [of _ "t_trace (sink_test se' m) @ cleanup_trace (sink_test se' m)"] exI [of _ "[]"]) simp
next
  case (Inr a)
  obtain xs rs ts ys where d: "fst (finish (f ())) = xs @ rs @ concat ts @ ys" "list_all sink_action_only (xs @ ys)"
      "installs_nothing rs"
      "if switched_on se ''TEARDOWN_BEFORE_SETUP''
       then ts \<noteq> [] \<longrightarrow> (\<forall>R. releases_after R rs = R - removed (su_removal se False)) else rs = []"
      "list_all (chart_turn se) ts"
    using assms unfolding turns_within_sinks_def by blast
  have "fst (finish (bind_test (sink_test se' m) f)) = (t_trace (sink_test se' m) @ xs) @ rs @ concat ts @ (ys @ cleanup_trace (sink_test se' m))"
    using d(1) Inr by (simp add: finish_bind)
  moreover have "list_all sink_action_only ((t_trace (sink_test se' m) @ xs) @ (ys @ cleanup_trace (sink_test se' m)))"
    using d(2) sink_actions by simp
  ultimately show ?thesis unfolding turns_within_sinks_def using d(3-5) by blast
qed

lemma turns_within_turning:
  assumes "turning se m"
  shows "turns_within_sinks se (bind_test (do_run (if switched_on se ''TEARDOWN_BEFORE_SETUP'' then switch_teardown se False
    else pure_run (Inr ()))) (\<lambda>_. m))" (is "turns_within_sinks se ?m")
proof -
  let ?first = "if switched_on se ''TEARDOWN_BEFORE_SETUP'' then switch_teardown se False else pure_run (Inr ())"
  obtain bs where bs: "fst (finish m) = concat bs" "list_all (chart_turn se) bs"
    using turning_finish [OF assms] unfolding chart_turns_def by blast
  have quiet_first: "installs_nothing (fst ?first)" using teardown_installs_nothing by (simp add: pure_run_def)
  show ?thesis
  proof (cases "snd ?first")
    case (Inl e)
    then have "fst (finish ?m) = [] @ fst ?first @ concat [] @ []" "switched_on se ''TEARDOWN_BEFORE_SETUP''"
      by (auto simp: pure_run_def finish_bind_Inl cleanup_trace_def split: if_splits)
    then show ?thesis unfolding turns_within_sinks_def
      using quiet_first by (intro exI [of _ "[]"] exI [of _ "fst ?first"]) simp
  next
    case (Inr u)
    then have "fst (finish ?m) = [] @ fst ?first @ concat bs @ []"
      using bs(1) by (simp add: finish_bind cleanup_trace_def)
    moreover have "releases_after R (fst ?first) = R - removed (su_removal se False)" if "switched_on se ''TEARDOWN_BEFORE_SETUP''" for R
    proof -
      from that Inr have "snd (switch_teardown se False) = Inr ()" by simp
      then show ?thesis
        using that uninstalls_releases [of se False R] 
        by (cases "requireEnv (su_lookup se) ''KUBECONFIG''") (simp_all add: teardown_trace switch_teardown_def bind_run_def pure_run_def)
    qed
    moreover have "fst ?first = []" if "\<not> switched_on se ''TEARDOWN_BEFORE_SETUP''" using that by (simp add: pure_run_def)
    ultimately show ?thesis unfolding turns_within_sinks_def
      using quiet_first bs(2) by (intro exI [of _ "[]"] exI [of _ "fst ?first"] exI [of _ bs] exI [of _ "[]"]) simp
  qed
qed

text \<open>
  C9: the test of the switches consists of turns between the start and the end of its sinks, after the removal that the
  environment can ask for, whatever fails in it. A turn looks at the sinks and installs one chart; when that has succeeded the
  release is there, nothing is installed any more, and at the end of the turn the release is gone, so that the next turn
  starts without one, unless the removal is switched off. This takes a removal that gets to its end and for which Helm
  lists the release and reports no error for it: the error of an uninstallation is only logged. A chart whose installation
  fails is not removed, because the cleanup is registered after the installation, and the next turn starts on top of it.
\<close>

theorem switching_one_chart:
  assumes "snd (chart_uninstall (sw_suite sw) True) = Inr ()" and "''sock'' \<in> removed (su_removal (sw_suite sw) True)"
  shows "\<exists>starts removal turns ends. fst (finish (Test_Functions_switching sw)) = starts @ removal @ concat turns @ ends \<and>
     list_all sink_action_only (starts @ ends) \<and> installs_nothing removal \<and>
     (if switched_on (sw_suite sw) ''TEARDOWN_BEFORE_SETUP''
      then turns \<noteq> [] \<longrightarrow> (\<forall>R. releases_after R removal = R - removed (su_removal (sw_suite sw) False)) else removal = []) \<and>
     list_all (chart_turn (sw_suite sw)) turns"
proof -
  have "turns_within_sinks (sw_suite sw) (Test_Functions_switching sw)"
    unfolding Test_Functions_switching_def Let_def
    using assms by (intro turns_within_bind turns_within_turning turning_switching_tests) (simp add: removal_works_def)
  then show ?thesis unfolding turns_within_sinks_def .
qed

text \<open>A cluster in which every subtest finds the release of its chart again.\<close>

definition sample_switching :: switch_env where
  "sample_switching =
     \<lparr>sw_suite = sample_suite (\<lambda>_. None),
      sw_AsString = attr_str, sw_lens = (\<lambda>_ _. [5]), sw_logs = (\<lambda>_ _ _. []), sw_metrics = (\<lambda>_ _. []), sw_terminating = (\<lambda>_. []),
      sw_pods = (\<lambda>_. Inr [])\<rparr>"

lemma switching_one_chart_witness:
  "\<exists>starts turns ends. fst (finish (Test_Functions_switching sample_switching)) = starts @ concat turns @ ends \<and>
     list_all sink_action_only (starts @ ends) \<and> list_all (chart_turn (sw_suite sample_switching)) turns"
proof -
  have "snd (chart_uninstall (sw_suite sample_switching) True) = Inr ()"
    "''sock'' \<in> removed (su_removal (sw_suite sample_switching) True)"
    using sample_uninstall by (simp_all add: sample_switching_def removed_def sample_suite_def sample_removal_def)
  from switching_one_chart [OF this]
  obtain starts removal turns ends where
    "fst (finish (Test_Functions_switching sample_switching)) = starts @ removal @ concat turns @ ends"
    "list_all sink_action_only (starts @ ends)" "list_all (chart_turn (sw_suite sample_switching)) turns"
    "removal = []"
    by (auto simp: sample_switching_def)
  then show ?thesis by (intro exI [of _ starts] exI [of _ turns] exI [of _ ends]) simp
qed

end
