(* ===== verification/LogsSuite.thy ===== *)
theory LogsSuite
  imports AllocatorChecks AgentLogs Suites ComponentHealth PodExec "HOL-Library.Sublist"
begin

section \<open>The tests of log handling\<close>

text \<open>
  \<open>functional_tests/logs\<close>: multiline logs (\<open>multiline_test.go\<close>), the recombination of split container logs
  (\<open>container_recombine_test.go\<close>), annotations of OTLP logs (\<open>otlp_annotation_precedence_test.go\<close>), and full queues
  (\<open>no_drop_logs_test.go\<close>). The first three tests deploy
  the chart and a workload, and then wait until the logs in the sink are as they should be. \<open>lo_polls\<close> is
  what the checks of a subtest see in the sink until it gives up.
\<close>

record logs_env =
  lo_suite :: suite_env
  lo_AsString :: "attr_value \<Rightarrow> string"
  lo_account :: "string option list" \<comment> \<open>the errors of getting the default service account\<close>
  lo_polls :: "string \<Rightarrow> logs list list"

subsection \<open>Bodies\<close>

definition collectBodiesFromContainer :: "(attr_value \<Rightarrow> string) \<Rightarrow> logs list \<Rightarrow> string \<Rightarrow> string list" where
  "collectBodiesFromContainer AsString sink container =
     concat (map (\<lambda>ls. map (\<lambda>lr. AsString (lr_Body lr))
       (filter (\<lambda>lr. str_of AsString (lr_Attributes lr) ''k8s.container.name'' = Some container) (all_records ls))) sink)"

definition collectBodiesFromSource :: "(attr_value \<Rightarrow> string) \<Rightarrow> logs list \<Rightarrow> string \<Rightarrow> string list" where
  "collectBodiesFromSource AsString sink containerDir =
     concat (map (\<lambda>ls. concat (map (\<lambda>rl.
       (case str_of AsString (rl_Attributes rl) ''com.splunk.source'' of
          None \<Rightarrow> []
        | Some src \<Rightarrow> if contains src containerDir then map (\<lambda>lr. AsString (lr_Body lr)) (all_records [rl]) else [])) ls)) sink)"

definition findBodyContaining :: "string list \<Rightarrow> string \<Rightarrow> string option" where
  "findBodyContaining bodies substr = List.find (\<lambda>b. contains b substr) bodies"

text \<open>What is asserted of the record with a marker: that it is there, and that it contains and lacks certain texts.\<close>

definition marked_record :: "string list \<Rightarrow> string \<Rightarrow> string list \<Rightarrow> string list \<Rightarrow> bool" where
  "marked_record bodies marker present absent =
     (case findBodyContaining bodies marker of
        None \<Rightarrow> False
      | Some record \<Rightarrow> list_all (contains record) present \<and> list_all (\<lambda>s. \<not> contains record s) absent)"

definition line_end :: string where "line_end = [CHR 0x0A]"

subsection \<open>Multiline logs\<close>

definition checkMultilineRecombined :: "(attr_value \<Rightarrow> string) \<Rightarrow> logs list \<Rightarrow> bool" where
  "checkMultilineRecombined AsString sink =
     (let bodies = collectBodiesFromContainer AsString sink ''multiline-test''
      in marked_record bodies ''com.example.service.UserService.getUser''
           [''Unhandled exception in request handler'', ''java.lang.NullPointerException'',
            ''at com.example.controller.UserController'', ''at com.example.app.DispatcherServlet''] [] \<and>
         marked_record bodies ''sqlite3.OperationalError''
           [''Python traceback captured'', ''Traceback (most recent call last):'', ''File '' @ CHR 0x22 # ''/app/worker.py'' @ [CHR 0x22],
            ''File '' @ CHR 0x22 # ''/app/db.py'' @ [CHR 0x22]] [] \<and>
         marked_record bodies ''goroutine 1 [running]:''
           [''Go panic recovered'', ''runtime/debug.Stack()'', ''main.recoverPanic''] [])"

definition singleLineMarkers :: "string list" where
  "singleLineMarkers =
     [''Application started successfully'', ''Retrying database connection'', ''Cache miss for key user-profile-99'',
      ''Health check passed'', ''Scheduled job completed'']"

definition checkSingleLinePassthrough :: "(attr_value \<Rightarrow> string) \<Rightarrow> logs list \<Rightarrow> bool" where
  "checkSingleLinePassthrough AsString sink =
     (let bodies = collectBodiesFromContainer AsString sink ''multiline-test''
      in list_all (\<lambda>marker. marked_record bodies marker [] [line_end]) singleLineMarkers \<and> length bodies \<ge> 8)"

definition checkDefaultRoutePassthrough :: "(attr_value \<Rightarrow> string) \<Rightarrow> logs list \<Rightarrow> bool" where
  "checkDefaultRoutePassthrough AsString sink =
     (let bodies = collectBodiesFromContainer AsString sink ''unmatched-logger''
      in bodies \<noteq> [] \<and> findBodyContaining bodies ''UNMATCHED_LOG_MARKER'' \<noteq> None)"

definition accessLogMarkers :: "string list" where
  "accessLogMarkers =
     map (\<lambda>p. CHR 0x22 # ''path'' @ CHR 0x22 # '':'' @ CHR 0x22 # p @ [CHR 0x22]) [''/api/users'', ''/api/orders'', ''/healthz'']"

definition checkSidecarUnmatchedLinesNotBatched :: "(attr_value \<Rightarrow> string) \<Rightarrow> logs list \<Rightarrow> bool" where
  "checkSidecarUnmatchedLinesNotBatched AsString sink =
     (let bodies = collectBodiesFromContainer AsString sink ''sidecar-proxy''
      in list_all (\<lambda>marker. marked_record bodies marker [] [line_end]) accessLogMarkers)"

definition multiline_checks :: "(attr_value \<Rightarrow> string) \<Rightarrow> (string \<times> (logs list \<Rightarrow> bool)) list" where
  "multiline_checks AsString =
     [(''MultilineRecombinedAsOneRecord'', checkMultilineRecombined AsString),
      (''SingleLinePassthrough'', checkSingleLinePassthrough AsString),
      (''DefaultRoutePassthrough'', checkDefaultRoutePassthrough AsString),
      (''SidecarUnmatchedLinesNotBatched'', checkSidecarUnmatchedLinesNotBatched AsString)]"

subsection \<open>Recombination\<close>

definition checkSingleLineNotBatched :: "(attr_value \<Rightarrow> string) \<Rightarrow> string \<Rightarrow> string \<Rightarrow> logs list \<Rightarrow> bool" where
  "checkSingleLineNotBatched AsString containerDir marker sink =
     marked_record (collectBodiesFromSource AsString sink containerDir) marker [] [line_end]"

definition checkPartialEntriesRecombined :: "(attr_value \<Rightarrow> string) \<Rightarrow> string \<Rightarrow> string \<Rightarrow> string \<Rightarrow> logs list \<Rightarrow> bool" where
  "checkPartialEntriesRecombined AsString containerDir startMarker endMarker sink =
     marked_record (collectBodiesFromSource AsString sink containerDir) startMarker [''middle_chunk'', endMarker] []"

definition docker_single_line :: "(attr_value \<Rightarrow> string) \<Rightarrow> logs list \<Rightarrow> bool" where
  "docker_single_line AsString sink =
     marked_record (collectBodiesFromSource AsString sink ''docker-container'') ''DOCKER_SINGLE_LINE_MARKER'' []
       [''DOCKER_PARTIAL_START'']"

definition recombine_checks :: "(attr_value \<Rightarrow> string) \<Rightarrow> (string \<times> (logs list \<Rightarrow> bool)) list" where
  "recombine_checks AsString =
     [(''CrioSingleLineEntryPassthrough'', checkSingleLineNotBatched AsString ''crio-container'' ''CRIO_SINGLE_LINE_MARKER''),
      (''CrioPartialEntriesRecombinedIntoOneRecord'',
       checkPartialEntriesRecombined AsString ''crio-container'' ''CRIO_PARTIAL_START'' ''CRIO_PARTIAL_END''),
      (''ContainerdSingleLineEntryPassthrough'',
       checkSingleLineNotBatched AsString ''containerd-container'' ''CONTAINERD_SINGLE_LINE_MARKER''),
      (''ContainerdPartialEntriesRecombinedIntoOneRecord'',
       checkPartialEntriesRecombined AsString ''containerd-container'' ''CONTAINERD_PARTIAL_START'' ''CONTAINERD_PARTIAL_END''),
      (''DockerSingleLineEntryPassthrough'', docker_single_line AsString),
      (''DockerPartialEntriesRecombinedIntoOneRecord'',
       checkPartialEntriesRecombined AsString ''docker-container'' ''DOCKER_PARTIAL_START'' ''DOCKER_PARTIAL_END'')]"

subsection \<open>Annotations\<close>

text \<open>The index and the sourcetype of the resource of the first log with a marker; a missing key reads as the empty string.\<close>

definition findResourceAttrsForLog :: "(attr_value \<Rightarrow> string) \<Rightarrow> logs list \<Rightarrow> string \<Rightarrow> (string \<rightharpoonup> string) option" where
  "findResourceAttrsForLog AsString sink marker =
     map_option (\<lambda>(rl, lr) key. if key \<in> set [''com.splunk.index'', ''com.splunk.sourcetype'']
         then str_of AsString (rl_Attributes rl) key else None)
       (List.find (\<lambda>(rl, lr). contains (AsString (lr_Body lr)) marker)
          (concat (map (\<lambda>ls. concat (map (\<lambda>rl. map (Pair rl) (all_records [rl])) ls)) sink)))"

definition precedence_check :: "(attr_value \<Rightarrow> string) \<Rightarrow> logs list \<Rightarrow> bool" where
  "precedence_check AsString sink =
     (case findResourceAttrsForLog AsString sink ''OTLP_ANNOTATION_PRECEDENCE_MARKER'' of
        None \<Rightarrow> False
      | Some attrs \<Rightarrow> attrs ''com.splunk.index'' = Some ''pod-otlp-index'' \<and>
          attrs ''com.splunk.sourcetype'' = Some ''pod-otlp-sourcetype'')"

subsection \<open>Deployment and tests\<close>

record log_suite =
  lg_namespace :: string
  lg_values :: string
  lg_objects :: string
  lg_replacements :: "string \<Rightarrow> (string \<times> yaml) list"
  lg_annotations :: "(string \<times> string) list"
  lg_selectors :: "string list"
  lg_sink :: "sink_env \<Rightarrow> (sink_action, unit) run"

definition log_manifest :: "string \<Rightarrow> string" where
  "log_manifest name = join line_end [[], ''apiVersion: v1'', ''kind: Namespace'', ''metadata:'', ''  name: '' @ name, []]"

definition log_teardown :: "suite_env \<Rightarrow> log_suite \<Rightarrow> bool \<Rightarrow> (suite_action, unit) run" where
  "log_teardown se s cleaning =
     bind_run (chart_uninstall se cleaning) (\<lambda>_. delete_object se cleaning (log_manifest (lg_namespace s)))"

definition log_deployment :: "logs_env \<Rightarrow> log_suite \<Rightarrow> string \<Rightarrow> (suite_action, unit) run" where
  "log_deployment lo s testKubeConfig =
     (let se = lo_suite lo; ns = lg_namespace s
      in bind_run (pure_run (path_abs (su_cwd se) (path_join [''testdata'', lg_values s]))) (\<lambda>valuesFile.
         bind_run (pure_run (host_endpoint se)) (\<lambda>hostEp.
         bind_run (pure_run (if hostEp = [] then Inl ''host endpoint not found'' else Inr ())) (\<lambda>_.
         bind_run (chart_install se testKubeConfig valuesFile (lg_replacements s hostEp) 0 (GetDefaultChartOptions (su_watcher se))) (\<lambda>_.
         bind_run (pods_ready se DefaultNamespace AgentLabelSelector (seconds 180) (seconds 5)) (\<lambda>_.
         bind_run (create_namespace se ns) (\<lambda>_.
         bind_run (each_run (\<lambda>(k, v). act se (Annotating ns k v)) (lg_annotations s)) (\<lambda>_.
         bind_run (waiting (Checking ''default service account'') (WaitForDefaultServiceAccount (lo_account lo))) (\<lambda>_.
         bind_run (create_objects se (lg_objects s)) (\<lambda>_.
           each_run (\<lambda>sel. pods_ready se ns sel (seconds 120) 0) (lg_selectors s)))))))))))"

definition log_deploy_test :: "logs_env \<Rightarrow> log_suite \<Rightarrow> string \<Rightarrow> (suite_action, unit) test" where
  "log_deploy_test lo s testKubeConfig =
     bind_test (do_run (log_deployment lo s testKubeConfig)) (\<lambda>_.
       t_Cleanup (unless_skipped (lo_suite lo) (do_run (log_teardown (lo_suite lo) s True))))"

definition log_wait :: "logs_env \<Rightarrow> string \<Rightarrow> (logs list \<Rightarrow> bool) \<Rightarrow> (suite_action, unit) run" where
  "log_wait lo name check = waiting (Checking name) (list_ex check (lo_polls lo name))"

definition log_subtests :: "logs_env \<Rightarrow> (string \<times> (logs list \<Rightarrow> bool)) list \<Rightarrow> (suite_action, unit) test" where
  "log_subtests lo cs = each_test (\<lambda>(name, check). t_Run name (do_run (log_wait lo name check))) cs"

definition log_suite_test :: "logs_env \<Rightarrow> log_suite \<Rightarrow> (suite_action, unit) test \<Rightarrow> (suite_action, unit) test" where
  "log_suite_test lo s checks =
     (let se = lo_suite lo
      in bind_test (pure_test (requireEnv (su_lookup se) ''KUBECONFIG'')) (\<lambda>testKubeConfig.
         bind_test (do_run (kube_client se testKubeConfig)) (\<lambda>_.
         bind_test (do_run (if switched_on se ''TEARDOWN_BEFORE_SETUP'' then log_teardown se s False else pure_run (Inr ()))) (\<lambda>_.
         bind_test (sink_test se (lg_sink s (su_sinks se))) (\<lambda>_.
         bind_test (if switched_on se ''SKIP_SETUP'' then pure_test (Inr ()) else log_deploy_test lo s testKubeConfig) (\<lambda>_.
           if switched_on se ''SKIP_TESTS'' then pure_test (Inr ()) else checks))))))"

definition log_url :: "string \<Rightarrow> (string \<times> yaml) list" where
  "log_url hostEp = string_values [(''LogURL'', HostPortHTTP hostEp HECLogsReceiverPort)]"

definition multiline_suite :: log_suite where
  "multiline_suite =
     \<lparr>lg_namespace = ''multiline-test'', lg_values = ''multiline_values.yaml.tmpl'', lg_objects = ''testdata/multiline_testobjects'',
      lg_replacements = log_url, lg_annotations = [], lg_selectors = [''app=multiline-test'', ''app=unmatched-logger''],
      lg_sink = SetupHECLogsSink\<rparr>"

definition recombine_suite :: log_suite where
  "recombine_suite =
     \<lparr>lg_namespace = ''container-recombine-test'', lg_values = ''container_recombine_values.yaml.tmpl'',
      lg_objects = ''testdata/container_recombine_testobjects'', lg_replacements = log_url, lg_annotations = [],
      lg_selectors = [''app=container-recombine-writer''], lg_sink = SetupHECLogsSink\<rparr>"

definition precedence_suite :: log_suite where
  "precedence_suite =
     \<lparr>lg_namespace = ''otlp-annotation-precedence'', lg_values = ''otlp_annotation_precedence_values.yaml.tmpl'',
      lg_objects = ''testdata/otlp_annotation_precedence_testobjects'',
      lg_replacements = (\<lambda>hostEp. string_values [(''OtlpEndpoint'', HostPort hostEp OTLPGRPCReceiverPort)]),
      lg_annotations = [(''splunk.com/index'', ''namespace-otlp-index'')], lg_selectors = [''app=otlp-annotation-precedence''],
      lg_sink = SetupOTLPLogsSink\<rparr>"

definition Test_MultilineLogs :: "logs_env \<Rightarrow> (suite_action, unit) test" where
  "Test_MultilineLogs lo = log_suite_test lo multiline_suite (log_subtests lo (multiline_checks (lo_AsString lo)))"

definition Test_ContainerRecombine :: "logs_env \<Rightarrow> (suite_action, unit) test" where
  "Test_ContainerRecombine lo = log_suite_test lo recombine_suite (log_subtests lo (recombine_checks (lo_AsString lo)))"

definition Test_OTLPAnnotationPrecedence :: "logs_env \<Rightarrow> (suite_action, unit) test" where
  "Test_OTLPAnnotationPrecedence lo =
     log_suite_test lo precedence_suite (do_run (log_wait lo ''annotations'' (precedence_check (lo_AsString lo))))"

subsection \<open>Full queues\<close>

text \<open>
  Each subtest deploys the chart, copies a log file to a pod of the agent, and only then starts the sink. \<open>dr_helper\<close>
  and \<open>dr_copies\<close> are the observations of the copy, \<open>dr_logs\<close> the log streams of a pod, \<open>dr_count\<close> the number of
  log records in the sink. The name of the pod is a global variable, which is empty when the set-up is skipped.
\<close>

record drop_env =
  dr_suite :: suite_env
  dr_uni :: "string \<Rightarrow> string"
  dr_pods :: "string \<Rightarrow> pod list result"
  dr_helper :: "string \<Rightarrow> helper_env"
  dr_copies :: "string \<Rightarrow> copy_to_obs list"
  dr_lens :: "string \<Rightarrow> nat list"
  dr_logs :: "string \<Rightarrow> string \<Rightarrow> nat \<Rightarrow> log_stream result"
  dr_count :: nat

definition drop_teardown :: "suite_env \<Rightarrow> bool \<Rightarrow> (suite_action, unit) run" where
  "drop_teardown se cleaning =
     bind_run (pure_run (requireEnv (su_lookup se) ''KUBECONFIG'')) (\<lambda>_. chart_uninstall se cleaning)"

definition drop_deployment :: "suite_env \<Rightarrow> string \<Rightarrow> string \<Rightarrow> (suite_action, unit) run" where
  "drop_deployment se testKubeConfig templateFile =
     bind_run (pure_run (path_abs (su_cwd se) (path_join [''testdata'', templateFile]))) (\<lambda>valuesFile.
     bind_run (pure_run (host_endpoint se)) (\<lambda>hostEp.
     bind_run (pure_run (if length hostEp = 0 then Inl ''host endpoint not found'' else Inr ())) (\<lambda>_.
     bind_run (chart_install se testKubeConfig valuesFile (log_url hostEp) 0 (GetDefaultChartOptions (su_watcher se))) (\<lambda>_.
       pods_ready se DefaultNamespace AgentLabelSelector (seconds 180) (seconds 5)))))"

definition deployChart :: "suite_env \<Rightarrow> string \<Rightarrow> string \<Rightarrow> (suite_action, unit) test" where
  "deployChart se testKubeConfig templateFile =
     bind_test (do_run (drop_deployment se testKubeConfig templateFile)) (\<lambda>_.
       t_Cleanup (unless_skipped se (do_run (drop_teardown se True))))"

definition deployTestLogToPod :: "drop_env \<Rightarrow> string \<Rightarrow> (suite_action, string) run" where
  "deployTestLogToPod dr name =
     bind_run (pure_run (dr_pods dr name)) (\<lambda>pods.
       case pods of
         [] \<Rightarrow> pure_run (Inl ''no pods found'')
       | p # _ \<Rightarrow>
           bind_run (pure_run (path_abs (su_cwd (dr_suite dr)) (path_join [''testdata'', ''test.log'']))) (\<lambda>_.
           bind_run ([Checking ''copy of the log file''],
             snd (CopyFileToPod (dr_uni dr) (dr_helper dr name) DefaultNamespace (pod_Name p) CollectorContainerName
               ''/tmp/temp-log-test/test.log'' (dr_copies dr name))) (\<lambda>_.
             pure_run (Inr (pod_Name p)))))"

definition rejected :: string where "rejected = ''Exporting failed. Rejecting data.''"

text \<open>A stream that never ends keeps the test from going on until the time limit of \<open>go test\<close>.\<close>

definition drop_pod_logs :: "drop_env \<Rightarrow> string \<Rightarrow> string \<Rightarrow> string result" where
  "drop_pod_logs dr name podName =
     (case GetPodLogs DefaultNamespace podName (dr_logs dr name podName) of
        None \<Rightarrow> Inl ''test timed out''
      | Some r \<Rightarrow> wrap_err ''failed to get logs for pod'' r)"

definition drop_subtest ::
  "drop_env \<Rightarrow> string \<Rightarrow> (suite_action, unit) test \<Rightarrow> string \<Rightarrow> string \<Rightarrow> int \<Rightarrow> (string \<Rightarrow> bool) \<Rightarrow> (suite_action, unit) test"
where
  "drop_subtest dr testKubeConfig before name templateFile entriesNum check =
     (let se = dr_suite dr
      in bind_test
           (if switched_on se ''SKIP_SETUP'' then pure_test (Inr [])
            else bind_test before (\<lambda>_. bind_test (deployChart se testKubeConfig templateFile) (\<lambda>_. do_run (deployTestLogToPod dr name)))) (\<lambda>podName.
         bind_test (do_run (sleep (seconds 10))) (\<lambda>_.
         bind_test (sink_test se (SetupHECLogsSink (su_sinks se))) (\<lambda>_.
         bind_test (do_run (waiting (AwaitEntries entriesNum) (WaitForEntries entriesNum (dr_lens dr name)))) (\<lambda>_.
         bind_test (pure_test (drop_pod_logs dr name podName)) (\<lambda>podLogs.
         bind_test (pure_test (if check podLogs then Inr () else Inl ''unexpected logs'')) (\<lambda>_.
           if switched_on se ''SKIP_TEARDOWN'' then pure_test (Inr ()) else do_run (drop_teardown se False))))))))"

definition Test_NoDropLogs :: "drop_env \<Rightarrow> (suite_action, unit) test" where
  "Test_NoDropLogs dr =
     (let se = dr_suite dr
      in bind_test (do_run (if switched_on se ''TEARDOWN_BEFORE_SETUP'' then drop_teardown se False else pure_run (Inr ()))) (\<lambda>_.
         bind_test (pure_test (requireEnv (su_lookup se) ''KUBECONFIG'')) (\<lambda>testKubeConfig.
         bind_test (do_run (kube_client se testKubeConfig)) (\<lambda>_.
           if switched_on se ''SKIP_TESTS'' then pure_test (Inr ())
           else bind_test
             (t_Run ''NoDropLogs''
               (drop_subtest dr testKubeConfig (pure_test (Inr ())) ''NoDropLogs'' ''no_drop_logs_values.yaml.tmpl'' 6
                  (\<lambda>podLogs. \<not> contains podLogs rejected \<and> dr_count dr = 600))) (\<lambda>_.
               t_Run ''DropLogsWithoutFeatureGate''
                 (drop_subtest dr testKubeConfig (do_run (drop_teardown se False)) ''DropLogsWithoutFeatureGate'' ''drop_logs_values.yaml.tmpl'' 1
                    (\<lambda>podLogs. contains podLogs rejected)))))))"

section \<open>Properties\<close>

subsection \<open>Waiting\<close>

text \<open>A check that goes on passing while the sink grows.\<close>

definition persistent :: "(logs list \<Rightarrow> bool) \<Rightarrow> bool" where
  "persistent check \<longleftrightarrow> (\<forall>sink later. check sink \<longrightarrow> check (sink @ later))"

lemma persistent_wait:
  assumes "persistent check" and "sorted_wrt prefix sinks" and "sinks \<noteq> []"
  shows "list_ex check sinks \<longleftrightarrow> check (last sinks)"
  using assms(2,3)
proof (induction sinks rule: rev_induct)
  case (snoc sink sinks)
  have "check sink" if "s \<in> set sinks" "check s" for s
    using snoc.prems(1) that assms(1) by (auto simp: sorted_wrt_append persistent_def prefix_def)
  then show ?case by (auto simp: list_ex_iff)
qed simp

lemma persistent_conj: "persistent P \<Longrightarrow> persistent Q \<Longrightarrow> persistent (\<lambda>sink. P sink \<and> Q sink)"
  by (auto simp: persistent_def)

lemma persistent_all: "(\<And>x. persistent (P x)) \<Longrightarrow> persistent (\<lambda>sink. list_all (\<lambda>x. P x sink) xs)"
  by (auto simp: persistent_def list_all_iff)

lemma find_body_append: "List.find P (xs @ ys) = (case List.find P xs of Some x \<Rightarrow> Some x | None \<Rightarrow> List.find P ys)"
  by (induction xs) auto

lemma marked_record_append:
  "marked_record (bodies @ later) marker present absent =
     (if findBodyContaining bodies marker = None then marked_record later marker present absent
      else marked_record bodies marker present absent)"
  by (auto simp: marked_record_def findBodyContaining_def find_body_append split: option.split)

lemma bodies_append:
  "collectBodiesFromContainer f (sink @ later) container = collectBodiesFromContainer f sink container @ collectBodiesFromContainer f later container"
  "collectBodiesFromSource f (sink @ later) dir = collectBodiesFromSource f sink dir @ collectBodiesFromSource f later dir"
  by (simp_all add: collectBodiesFromContainer_def collectBodiesFromSource_def)

lemma persistent_marked:
  "persistent (\<lambda>sink. marked_record (collectBodiesFromContainer f sink container) marker present absent)"
  "persistent (\<lambda>sink. marked_record (collectBodiesFromSource f sink dir) marker present absent)"
  unfolding persistent_def bodies_append marked_record_append by (simp_all add: marked_record_def split: option.split)

lemma persistent_checks:
  "(name, check) \<in> set (multiline_checks f) \<Longrightarrow> persistent check" "(name, check) \<in> set (recombine_checks f) \<Longrightarrow> persistent check"
  "persistent (precedence_check f)"
proof -
  have "persistent (checkMultilineRecombined f)" "persistent (checkSidecarUnmatchedLinesNotBatched f)"
    unfolding checkMultilineRecombined_def checkSidecarUnmatchedLinesNotBatched_def Let_def
    by (intro persistent_conj persistent_all persistent_marked)+
  moreover have "persistent (checkSingleLinePassthrough f)"
    unfolding checkSingleLinePassthrough_def Let_def
    by (intro persistent_conj persistent_all persistent_marked) (simp add: persistent_def bodies_append)
  moreover have "persistent (checkDefaultRoutePassthrough f)"
    by (auto simp: persistent_def checkDefaultRoutePassthrough_def findBodyContaining_def find_body_append bodies_append Let_def)
  ultimately show "(name, check) \<in> set (multiline_checks f) \<Longrightarrow> persistent check"
    by (auto simp: multiline_checks_def)
  have "persistent (checkSingleLineNotBatched f dir marker)" "persistent (checkPartialEntriesRecombined f dir marker ending)"
    "persistent (docker_single_line f)" for dir marker ending
    unfolding checkSingleLineNotBatched_def checkPartialEntriesRecombined_def docker_single_line_def by (rule persistent_marked)+
  then show "(name, check) \<in> set (recombine_checks f) \<Longrightarrow> persistent check"
    by (auto simp: recombine_checks_def)
  show "persistent (precedence_check f)"
    by (auto simp: persistent_def precedence_check_def findResourceAttrsForLog_def find_body_append split: option.splits)
qed

text \<open>
  C25: the waits of the log tests are looks at the end: as the sinks only grow, a subtest passes exactly when its
  check holds of what the sink contains at the last poll. So the verdict does not depend on when the polls were made, and a
  record that has arrived in the wrong shape is never forgiven.
\<close>

theorem log_waits_last:
  assumes "sorted_wrt prefix sinks" and "sinks \<noteq> []"
  shows "list_all (\<lambda>(name, check). list_ex check sinks \<longleftrightarrow> check (last sinks)) (multiline_checks f @ recombine_checks f) \<and>
    (list_ex (precedence_check f) sinks \<longleftrightarrow> precedence_check f (last sinks))"
proof -
  have "list_ex check sinks \<longleftrightarrow> check (last sinks)" if "(name, check) \<in> set (multiline_checks f @ recombine_checks f)" for name check
  proof -
    from that have "persistent check" unfolding set_append by (elim UnE) (rule persistent_checks(1,2), assumption)+
    then show ?thesis by (rule persistent_wait [OF _ assms])
  qed
  then have "list_all (\<lambda>(name, check). list_ex check sinks \<longleftrightarrow> check (last sinks)) (multiline_checks f @ recombine_checks f)"
    unfolding list_all_iff by (intro ballI) (simp only: split_paired_all case_prod_conv)
  with persistent_wait [OF persistent_checks(3) assms] show ?thesis by simp
qed

text \<open>A log that arrives with the second poll.\<close>

definition sample_annotated :: resource_logs where
  "sample_annotated =
     \<lparr>rl_Attributes = [(''com.splunk.index'', VStr ''pod-otlp-index''), (''com.splunk.sourcetype'', VStr ''pod-otlp-sourcetype'')],
      rl_rest = [], rl_Scopes = [\<lparr>sl_Attributes = [], sl_rest = [],
        sl_Records = [\<lparr>lr_Attributes = [], lr_Body = VStr ''OTLP_ANNOTATION_PRECEDENCE_MARKER'', lr_rest = []\<rparr>]\<rparr>]\<rparr>"

lemma log_waits_last_witness: "list_ex (precedence_check attr_str) [[], [[sample_annotated]]]"
proof -
  have "precedence_check attr_str [[sample_annotated]]"
    by (simp add: precedence_check_def findResourceAttrsForLog_def sample_annotated_def all_records_def str_of_def attr_get_def)
  then show ?thesis
    using log_waits_last [of "[[], [[sample_annotated]]]" attr_str] by simp
qed

text \<open>
  The first record with a marker decides: when it is not as it should be, the check fails then and for ever, whatever
  arrives later.
\<close>

theorem first_record_decides:
  assumes "findBodyContaining (collectBodiesFromContainer f sink container) marker = Some record"
    and "s \<in> set absent" and "contains record s"
  shows "\<not> marked_record (collectBodiesFromContainer f (sink @ later) container) marker present absent"
  using assms unfolding bodies_append marked_record_append by (auto simp: marked_record_def list_all_iff)

subsection \<open>When the multiline test passes\<close>

definition hec_receiver :: "sink_env \<Rightarrow> receiver_config" where
  "hec_receiver sk = HEC ((se_hec sk)\<lparr>sc_NetAddr := listen_on HECLogsReceiverPort\<rparr>)"

lemma hec_logs_sink: "SetupHECLogsSink sk = run_receiver sk LogsSink (hec_receiver sk) []"
  by (simp add: SetupHECLogsSink_def setupHECLogsSink_def hec_receiver_def)

lemma passes_log_subtests:
  "passes (log_subtests lo cs) \<longleftrightarrow> (\<forall>(name, check) \<in> set cs. list_ex check (lo_polls lo name))"
proof -
  have sub: "passes (bind_test (t_Run name k) f) \<longleftrightarrow> passes k \<and> passes (f ())" for name k and f :: "unit \<Rightarrow> (suite_action, unit) test"
    using passes_simps(3) [of name k] by (auto simp: passes_bind passes_iff [of "t_Run name k"])
  show ?thesis
    unfolding log_subtests_def by (induction cs) (auto simp: sub log_wait_def)
qed

text \<open>
  With its set-up and its tests switched on, the multiline test passes exactly when the chart, the workload and the sink could be
  set up, every check holds of the last thing its subtest has seen in the growing sink, and everything could be removed again.
\<close>

theorem Test_MultilineLogs_passes:
  assumes "\<not> switched_on (lo_suite lo) ''TEARDOWN_BEFORE_SETUP''" and "\<not> switched_on (lo_suite lo) ''SKIP_SETUP''"
    and "\<not> switched_on (lo_suite lo) ''SKIP_TESTS''" and "\<not> switched_on (lo_suite lo) ''SKIP_TEARDOWN''"
    and "\<And>name. sorted_wrt prefix (lo_polls lo name)" and "\<And>name. lo_polls lo name \<noteq> []"
  shows "passes (Test_MultilineLogs lo) \<longleftrightarrow>
    (\<exists>kc. su_lookup (lo_suite lo) ''KUBECONFIG'' = Some kc \<and> su_client (lo_suite lo) kc = None \<and>
       snd (SetupHECLogsSink (su_sinks (lo_suite lo))) = Inr () \<and> snd (log_deployment lo multiline_suite kc) = Inr ()) \<and>
    (\<forall>(name, check) \<in> set (multiline_checks (lo_AsString lo)). check (last (lo_polls lo name))) \<and>
    snd (log_teardown (lo_suite lo) multiline_suite True) = Inr () \<and>
    su_answer (lo_suite lo) (Sink (ShutdownAtCleanup LogsSink (hec_receiver (su_sinks (lo_suite lo))))) = None"
proof -
  obtain tr r where tr: "run_receiver (su_sinks (lo_suite lo)) LogsSink (hec_receiver (su_sinks (lo_suite lo))) [] = (tr, r)" by fastforce
  have checks: "passes (log_subtests lo (multiline_checks f)) \<longleftrightarrow> (\<forall>(name, check) \<in> set (multiline_checks f). check (last (lo_polls lo name)))"
    for f
    using persistent_wait [OF persistent_checks(1) assms(5,6)] unfolding passes_log_subtests by blast
  have sink: "lg_sink multiline_suite (su_sinks (lo_suite lo)) = (tr, r)" "SetupHECLogsSink (su_sinks (lo_suite lo)) = (tr, r)"
    using tr by (simp_all add: multiline_suite_def hec_logs_sink)
  have pure: "passes (bind_test (pure_test r') g) \<longleftrightarrow> (\<exists>a. r' = Inr a \<and> passes (g a))" for r' :: "string result" and g :: "string \<Rightarrow> (suite_action, unit) test"
    by (simp add: passes_bind)
  have client: "snd (kube_client (lo_suite lo) kc) = Inr () \<longleftrightarrow> su_client (lo_suite lo) kc = None" for kc
    by (simp add: kube_client_def pure_run_def split: option.split)
  have kubeconfig: "requireEnv env key = Inr kc \<longleftrightarrow> env key = Some kc" for env key kc
    by (simp add: requireEnv_def split: option.split)
  have none: "snd (pure_run (Inr ())) = Inr ()" by (simp add: pure_run_def)
  have "passes (Test_MultilineLogs lo) \<longleftrightarrow> (\<exists>kc. su_lookup (lo_suite lo) ''KUBECONFIG'' = Some kc \<and> su_client (lo_suite lo) kc = None \<and>
      (r = Inr () \<and> (snd (log_deployment lo multiline_suite kc) = Inr () \<and>
        passes (log_subtests lo (multiline_checks (lo_AsString lo))) \<and> snd (log_teardown (lo_suite lo) multiline_suite True) = Inr ()) \<and>
       su_answer (lo_suite lo) (Sink (ShutdownAtCleanup LogsSink (hec_receiver (su_sinks (lo_suite lo))))) = None))"
    using assms(1-4) unfolding Test_MultilineLogs_def log_suite_test_def log_deploy_test_def Let_def unless_skipped_def
    by (simp add: sink pure kubeconfig passes_do_run_bind passes_sink [OF tr] passes_undo client none
        conj_assoc flip: ex_simps)
  then show ?thesis unfolding checks sink(2) by auto
qed

subsection \<open>One sink at a time\<close>

definition is_sink :: "suite_action \<Rightarrow> bool" where
  "is_sink x = (case x of Sink s \<Rightarrow> True | _ \<Rightarrow> False)"

text \<open>Runs and tests that do nothing with a sink.\<close>

definition sinkless :: "suite_action list \<Rightarrow> bool" where
  "sinkless xs \<longleftrightarrow> list_all (\<lambda>x. \<not> is_sink x) xs"

definition sinkless_test :: "(suite_action, 'a) test \<Rightarrow> bool" where
  "sinkless_test m \<longleftrightarrow> sinkless (t_trace m) \<and> sinkless (cleanup_trace m)"

lemma sinkless_simps [simp]:
  "sinkless []" "sinkless (xs @ ys) \<longleftrightarrow> sinkless xs \<and> sinkless ys"
  "sinkless (fst (chart_install se kc vf repl m options))" "sinkless (fst (chart_uninstall se cleaning))"
  "sinkless (fst (pods_ready se ns sel t m))" "sinkless [AwaitEntries n]" "sinkless (fst (pure_run r))"
  "sinkless (fst (kube_client se kc))" "sinkless [Checking c]" "sinkless (fst (sleep n))"
  by (auto simp: sinkless_def is_sink_def chart_install_def chart_uninstall_def map_run_def list_all_iff pods_ready_def pure_run_def
      kube_client_def sleep_def)

lemma sinkless_bind_run: "sinkless (fst m) \<Longrightarrow> (\<And>a. sinkless (fst (f a))) \<Longrightarrow> sinkless (fst (bind_run m f))"
  by (cases m; cases "snd m") (auto simp: test_simps)

lemma sinkless_filter: "sinkless xs \<Longrightarrow> filter is_sink xs = []"
  by (auto simp: sinkless_def list_all_iff filter_empty_conv)

lemma sinkless_test_simps [simp]:
  "sinkless_test (pure_test r)" "sinkless (fst r') \<Longrightarrow> sinkless_test (do_run r')" "sinkless (fst (finish c)) \<Longrightarrow> sinkless_test (t_Cleanup c)"
  by (simp_all add: sinkless_test_def)

lemma sinkless_bind: "sinkless_test m \<Longrightarrow> (\<And>a. sinkless_test (f a)) \<Longrightarrow> sinkless_test (bind_test m f)"
  by (cases "t_result m") (simp_all add: sinkless_test_def cleanup_trace_def test_simps)

lemma sinkless_deployment: "sinkless_test (deployChart se kc file)" "sinkless_test (do_run (deployTestLogToPod dr name))"
    "sinkless_test (do_run (drop_teardown se cleaning))"
proof -
  have run: "sinkless (fst (drop_deployment se kc file))" "sinkless (fst (drop_teardown se cleaning))" for cleaning
    unfolding drop_deployment_def drop_teardown_def by (intro sinkless_bind_run; simp)+
  have "sinkless (fst (deployTestLogToPod dr name))"
    unfolding deployTestLogToPod_def by (intro sinkless_bind_run) (auto intro!: sinkless_bind_run split: list.split)
  with run show "sinkless_test (deployChart se kc file)" "sinkless_test (do_run (deployTestLogToPod dr name))"
    "sinkless_test (do_run (drop_teardown se cleaning))"
    unfolding deployChart_def unless_skipped_def by (auto intro!: sinkless_bind)
qed

text \<open>What a subtest does with its sink: it may not come to it, and starting it may fail; otherwise it is stopped at the end.\<close>

definition sink_use :: "sink_env \<Rightarrow> suite_action list \<Rightarrow> bool" where
  "sink_use sk b \<longleftrightarrow>
     (let cfg = hec_receiver sk
      in b = [] \<or>
         b = [Sink (CreateReceiver LogsSink cfg), Sink (StartReceiver LogsSink cfg []), Sink (ShutdownAtCleanup LogsSink cfg)] \<or>
         prefix b [Sink (CreateReceiver LogsSink cfg), Sink (StartReceiver LogsSink cfg [])] \<and> snd (SetupHECLogsSink sk) \<noteq> Inr ())"

lemma sink_block:
  assumes "\<And>a. sinkless_test (f a)"
  shows "sink_use (su_sinks se) (filter is_sink (fst (finish (bind_test (sink_test se (SetupHECLogsSink (su_sinks se))) f))))"
proof -
  let ?cfg = "hec_receiver (su_sinks se)"
  obtain tr r where tr: "run_receiver (su_sinks se) LogsSink ?cfg [] = (tr, r)" by fastforce
  have sink: "SetupHECLogsSink (su_sinks se) = (tr, r)"
    using tr by (simp add: SetupHECLogsSink_def setupHECLogsSink_def hec_receiver_def)
  have f: "filter is_sink (fst (finish (f ()))) = []"
    using assms [of "()"] by (simp add: finish_def sinkless_test_def sinkless_filter)
  show ?thesis
  proof (cases r)
    case (Inr a)
    then have tr': "run_receiver (su_sinks se) LogsSink ?cfg [] = (tr, Inr ())" using tr by simp
    show ?thesis using Inr f by (simp add: sink finish_sink [OF tr'] sink_use_def is_sink_def)
  next
    case (Inl e)
    then have "fst (finish (bind_test (sink_test se (tr, r)) f)) = t_trace (sink_test se (tr, r)) @ cleanup_trace (sink_test se (tr, r))"
      by (simp add: finish_bind_Inl)
    moreover have "cleanup_trace (sink_test se (tr, r)) = []"
      using sink_test_receiver(1) [OF tr] Inl by (simp add: cleanup_trace_def)
    moreover have "prefix (t_trace (sink_test se (tr, r))) [Sink (CreateReceiver LogsSink ?cfg), Sink (StartReceiver LogsSink ?cfg [])]"
      using tr Inl by (auto simp: run_receiver_def bind_run_def act_run_def is_shutdown_def split: option.splits)
    moreover have "filter is_sink (t_trace (sink_test se (tr, r))) = t_trace (sink_test se (tr, r))"
      by (auto simp: is_sink_def filter_id_conv)
    ultimately show ?thesis using Inl by (simp add: sink sink_use_def Let_def)
  qed
qed

lemma sinks_after_sinkless:
  assumes "sinkless_test m" and "P []" and "\<And>a. P (filter is_sink (fst (finish (f a))))"
  shows "P (filter is_sink (fst (finish (bind_test m f))))"
  using assms by (cases "t_result m") (simp_all add: finish_bind finish_bind_Inl sinkless_test_def sinkless_filter)

lemma no_use [simp]: "sink_use sk []"
  by (simp add: sink_use_def Let_def)

lemma drop_subtest_sink:
  assumes "sinkless_test before"
  shows "sink_use (su_sinks (dr_suite dr)) (filter is_sink (fst (finish (drop_subtest dr kc before name templateFile n check))))"
  unfolding drop_subtest_def Let_def
proof (rule sinks_after_sinkless, goal_cases)
  case 1
  show ?case by (auto intro!: sinkless_bind simp: assms sinkless_deployment)
next
  case (3 podName)
  show ?case
  proof (rule sinks_after_sinkless, goal_cases)
    case 3
    show ?case by (rule sink_block) (auto intro!: sinkless_bind simp: sinkless_deployment)
  qed simp_all
qed simp

text \<open>
  The two subtests use the same port one after the other: each of them starts a sink at most once, and a sink that has
  been started is stopped before the other subtest starts its own.
\<close>

theorem drop_sinks_in_turn:
  "\<exists>b1 b2. filter is_sink (fst (finish (Test_NoDropLogs dr))) = b1 @ b2 \<and>
     sink_use (su_sinks (dr_suite dr)) b1 \<and> sink_use (su_sinks (dr_suite dr)) b2"
proof -
  define uses where "uses = (\<lambda>xs. \<exists>b1 b2. xs = b1 @ b2 \<and> sink_use (su_sinks (dr_suite dr)) b1 \<and> sink_use (su_sinks (dr_suite dr)) b2)"
  have none: "uses []" by (simp add: uses_def)
  have both: "uses (filter is_sink (fst (finish (bind_test (t_Run a (drop_subtest dr kc (pure_test (Inr ())) a f1 n1 check1))
      (\<lambda>_. t_Run b (drop_subtest dr kc (do_run (drop_teardown (dr_suite dr) False)) b f2 n2 check2))))))" for a b kc f1 f2 n1 n2 check1 check2
    unfolding uses_def finish_t_Run_bind finish_t_Run filter_append
    by (intro exI conjI, rule refl) (rule drop_subtest_sink, simp add: sinkless_deployment)+
  have teardown: "sinkless_test (do_run (if c then drop_teardown se False else pure_run (Inr ())))" for c se
    using sinkless_deployment(3) by simp
  have "uses (filter is_sink (fst (finish (Test_NoDropLogs dr))))"
    unfolding Test_NoDropLogs_def Let_def
    by (rule sinks_after_sinkless [where P = uses], rule teardown, rule none,
        rule sinks_after_sinkless [where P = uses], simp, rule none,
        rule sinks_after_sinkless [where P = uses], simp, rule none)
      (simp only: finish_pure filter.simps none both split: if_split, simp)
  then show ?thesis unfolding uses_def .
qed

text \<open>With the set-up switched off, the logs are those of a pod with the empty name, which is none.\<close>

theorem skipped_setup_reads_no_pod:
  assumes "switched_on (dr_suite dr) ''SKIP_SETUP''" and "passes (drop_subtest dr kc before name templateFile n check)"
  shows "\<exists>podLogs. drop_pod_logs dr name [] = Inr podLogs \<and> check podLogs"
  using assms by (auto simp: drop_subtest_def Let_def passes_bind split: if_splits)

end
