(* ===== verification/HistogramSuite.thy ===== *)
theory HistogramSuite
  imports MetricAssert AttrPatterns AllocatorChecks Suites
begin

section \<open>The test of the control plane's metrics\<close>

text \<open>
  \<open>functional_tests/histogram/histogram_test.go\<close>: for every component of the control plane, two snapshot assertions,
  one of histograms and one of the other metrics. The waits, clocks and sinks of a subtest are arguments, by its name; so
  are the answers of the cluster and of \<open>kubectl\<close>.
\<close>

record TestInput =
  ServiceName :: string
  NonHistogramMetricName :: string
  HistogramMetricName :: string

definition testInputs :: "TestInput list" where
  "testInputs =
     map (\<lambda>(s, n, h). \<lparr>ServiceName = s, NonHistogramMetricName = n, HistogramMetricName = h\<rparr>)
       [(''kubernetes-scheduler'', ''scheduler_queue_incoming_pods_total'', ''scheduler_scheduling_algorithm_duration_seconds''),
        (''kubernetes-proxy'', ''kubeproxy_sync_proxy_rules_service_changes_total'', ''kubeproxy_sync_proxy_rules_duration_seconds''),
        (''kubernetes-apiserver'', ''apiserver_request_total'', ''apiserver_request_duration_seconds''),
        (''kube-controller-manager'', ''workqueue_retries_total'', ''workqueue_queue_duration_seconds''),
        (''coredns'', ''coredns_dns_requests_total'', ''coredns_dns_request_duration_seconds''),
        (''etcd'', ''etcd_server_is_leader'', ''etcd_disk_wal_fsync_duration_seconds'')]"

definition assertionConfig :: "TestInput \<Rightarrow> bool \<Rightarrow> string \<times> string" where
  "assertionConfig input isHistogram =
     (if isHistogram then (ServiceName input @ ''_histogram_metrics_assertion.yaml'', HistogramMetricName input)
      else (ServiceName input @ ''_metrics_assertion.yaml'', NonHistogramMetricName input))"

subsection \<open>Attributes\<close>

definition commonVolatileAttributes :: "string list" where
  "commonVolatileAttributes = [''server.address'', ''server.port'', ''service.instance.id'']"

definition metricRegexAttributes :: "(string \<times> string) list" where
  "metricRegexAttributes = [(''k8s.pod.uid'', ''^'' @ K8sUIDRegex @ ''$''), (''verb'', K8sAPIVerbRegex)]"

definition componentMetricRegexAttributes :: "string \<Rightarrow> (string \<times> string) list" where
  "componentMetricRegexAttributes component =
     (case map_of
        [(''coredns'', [(''k8s.pod.name'', ''^coredns-'' @ K8sNameRegex @ ''$'')]),
         (''kubernetes-proxy'', [(''k8s.pod.name'', ''^kube-proxy-'' @ K8sNameRegex @ ''$'')])] component of
        None \<Rightarrow> [] | Some attrs \<Rightarrow> attrs)"

definition metricIdentityAttributes :: "string list" where
  "metricIdentityAttributes =
     [''host.name'', ''k8s.cluster.name'', ''k8s.namespace.name'', ''k8s.node.name'', ''k8s.pod.name'', ''k8s.pod.uid'',
      ''os.type'', ''server.address'', ''server.port'', ''service.instance.id'', ''service.name'', ''url.scheme'']"

definition regexAttributes :: "string \<Rightarrow> (string \<times> string) list" where
  "regexAttributes component =
     ExtendMetricAssertionRegexAttrs metricRegexAttributes (componentMetricRegexAttributes component)"

definition metrics_test_options :: "bool \<Rightarrow> TestInput \<Rightarrow> MetricsAssertionOption list" where
  "metrics_test_options isHistogram input =
     [WithVolatileAttributes commonVolatileAttributes, WithRegexAttributes (regexAttributes (ServiceName input)),
      WithDatapointAttributesAsExistsExcept metricIdentityAttributes, WithMaxDatapointsPerMetric 1] @
     (if isHistogram then [WithHistogramExplicitBounds, WithScopeVersionRegex OtelCollectorVersionRegex] else []) @
     (if ServiceName input = ''kubernetes-apiserver'' \<and> \<not> isHistogram
      then [WithSelectedNumberDatapoint (NonHistogramMetricName input)
        [(''code'', ''200''), (''component'', ''apiserver''), (''resource'', ''services''), (''scope'', ''resource''), (''verb'', ''GET''),
         (''version'', ''v1'')]]
      else [])"

subsection \<open>Deployment\<close>

record histogram_env =
  hi_suite :: suite_env
  hi_assert :: assert_env
  hi_service_ip :: "string result" \<comment> \<open>the cluster IP of the service \<open>kubernetes\<close>\<close>
  hi_dns_ips :: "string list result" \<comment> \<open>the IPs of the pods of CoreDNS\<close>
  hi_kubectl :: "string list \<Rightarrow> string option"
  hi_lens :: "string \<Rightarrow> nat list"
  hi_clock :: "string \<Rightarrow> nat \<Rightarrow> int"
  hi_sink :: "string \<Rightarrow> nat \<Rightarrow> metrics list"
  hi_now :: "string \<Rightarrow> int"

definition control_plane_deployment :: "suite_env \<Rightarrow> (suite_action, unit) run" where
  "control_plane_deployment se =
     bind_run (pure_run (requireEnv (su_lookup se) ''KUBECONFIG'')) (\<lambda>testKubeConfig.
     bind_run (pure_run (host_endpoint se)) (\<lambda>hostEp.
     bind_run (pure_run (if length hostEp = 0 then Inl ''Host endpoint not found'' else Inr ())) (\<lambda>_.
     bind_run (pure_run (path_abs (su_cwd se) (path_join [''testdata'', ''values'', ''test_values.yaml.tmpl'']))) (\<lambda>valuesFile.
       chart_install se testKubeConfig valuesFile (string_values [(''IngestURL'', HostPortHTTP hostEp 4317)]) 0
         (GetDefaultChartOptions (su_watcher se))))))"

definition control_plane_teardown :: "suite_env \<Rightarrow> (suite_action, unit) run" where
  "control_plane_teardown se =
     bind_run (pure_run (requireEnv (su_lookup se) ''KUBECONFIG'')) (\<lambda>_. chart_uninstall se False)"

definition dns_script :: string where
  "dns_script =
     join [CHR 0x0A]
       [''target=$1'', CHR 0x09 # ''shift'', CHR 0x09 # ''for server in '' @ CHR 0x22 # ''$@'' @ CHR 0x22 # ''; do'',
        CHR 0x09 # CHR 0x09 # ''for i in $(seq 1 100); do'',
        CHR 0x09 # CHR 0x09 # CHR 0x09 # ''nslookup '' @ CHR 0x22 # ''$target'' @ CHR 0x22 # '' '' @ CHR 0x22 # ''$server'' @ CHR 0x22 #
          '' >/dev/null || exit 1'',
        CHR 0x09 # CHR 0x09 # ''done'', CHR 0x09 # ''done'']"

definition dns_args :: "string \<Rightarrow> string list \<Rightarrow> string list" where
  "dns_args clusterIP coreDNSPodIPs =
     [''run'', ''--rm'', ''-i'', ''--tty'', ''dns-query'', ''--image=busybox'', ''--restart=Never'',
      ''--overrides={'' @ CHR 0x22 # ''spec'' @ CHR 0x22 # '': {'' @ CHR 0x22 # ''dnsPolicy'' @ CHR 0x22 # '': '' @
        CHR 0x22 # ''ClusterFirst'' @ CHR 0x22 # ''}}'',
      ''--'', ''sh'', ''-c'', dns_script, ''dns-query'', clusterIP] @ coreDNSPodIPs"

definition performDNSQueries :: "histogram_env \<Rightarrow> (suite_action, unit) run" where
  "performDNSQueries hi =
     (let se = hi_suite hi
      in bind_run (pure_run (hi_service_ip hi)) (\<lambda>clusterIP.
         bind_run (pure_run (if clusterIP = [] then Inl ''Kubernetes service did not have a cluster IP'' else Inr ())) (\<lambda>_.
         bind_run (pods_ready se ''kube-system'' ''k8s-app=kube-dns'' (seconds 180) 0) (\<lambda>_.
         bind_run (pure_run (hi_dns_ips hi)) (\<lambda>ips.
           let coreDNSPodIPs = filter (\<lambda>ip. ip \<noteq> []) ips
           in bind_run (pure_run (if coreDNSPodIPs = [] then Inl ''did not find any CoreDNS pod IPs'' else Inr ())) (\<lambda>_.
              ([Checking ''DNS queries''],
               case hi_kubectl hi (dns_args clusterIP coreDNSPodIPs) of Some e \<Rightarrow> Inl (''DNS queries failed'' @ e) | None \<Rightarrow> Inr ())))))))"

subsection \<open>The test\<close>

definition control_plane_cases :: "(bool \<times> TestInput) list" where
  "control_plane_cases = concat (map (\<lambda>isHistogram. map (Pair isHistogram) testInputs) [True, False])"

definition case_name :: "bool \<times> TestInput \<Rightarrow> string" where
  "case_name = (\<lambda>(isHistogram, input). ServiceName input @ ''_histograms='' @ (if isHistogram then ''true'' else ''false''))"

definition case_file :: "bool \<times> TestInput \<Rightarrow> string" where
  "case_file = (\<lambda>(isHistogram, input). path_join [''testdata'', ''expected'', fst (assertionConfig input isHistogram)])"

text \<open>\<^const>\<open>None\<close> is a wait that does not return.\<close>

definition runMetricsTest :: "histogram_env \<Rightarrow> fs \<Rightarrow> bool \<times> TestInput \<Rightarrow> (unit result \<times> fs) option" where
  "runMetricsTest hi d c =
     (let name = case_name c
      in if \<not> WaitForEntries 5 (hi_lens hi name) then Some (Inl ''Condition never satisfied'', d)
         else map_option (\<lambda>(outcome, d'). ((case outcome of Passed n \<Rightarrow> Inr () | Failed e \<Rightarrow> Inl e), d'))
           (AssertMetricsSnapshot (hi_assert hi) d (hi_clock hi name) (hi_sink hi name) (hi_now hi name) (seconds 180)
              (snd (assertionConfig (snd c) (fst c))) (case_file c) (metrics_test_options (fst c) (snd c))))"

fun metric_subtests :: "histogram_env \<Rightarrow> fs \<Rightarrow> (bool \<times> TestInput) list \<Rightarrow> (suite_action, fs) test" where
  "metric_subtests hi d [] = pure_test (Inr d)"
| "metric_subtests hi d (c # cs) =
     bind_test
       (case runMetricsTest hi d c of
          None \<Rightarrow> do_run ([Checking (case_name c)], Inl ''test timed out'')
        | Some outcome \<Rightarrow> checked (case_name c) (Some outcome)) (\<lambda>d'. metric_subtests hi d' cs)"

definition Test_ControlPlaneMetrics :: "histogram_env \<Rightarrow> fs \<Rightarrow> (suite_action, fs) test" where
  "Test_ControlPlaneMetrics hi d =
     (let se = hi_suite hi
      in bind_test (sink_test se (SetupSignalfxReceiver (su_sinks se) 4317)) (\<lambda>_.
         bind_test (do_run (if switched_on se ''TEARDOWN_BEFORE_SETUP'' then control_plane_teardown se else pure_run (Inr ()))) (\<lambda>_.
         bind_test
           (do_run
             (if switched_on se ''SKIP_SETUP'' then pure_run (Inr ())
              else bind_run (pure_run (requireEnv (su_lookup se) ''KUBECONFIG'')) (\<lambda>testKubeConfig.
                   bind_run (kube_client se testKubeConfig) (\<lambda>_.
                   bind_run (performDNSQueries hi) (\<lambda>_. control_plane_deployment se))))) (\<lambda>_.
           if switched_on se ''SKIP_TESTS'' then pure_test (Inr d) else metric_subtests hi d control_plane_cases))))"

section \<open>Properties\<close>

subsection \<open>Assertion files\<close>

text \<open>What package \<open>pmetricassert\<close> documents of writing an assertion: no other file is touched.\<close>

definition writes_own_file :: "assert_env \<Rightarrow> bool" where
  "writes_own_file env \<longleftrightarrow> (\<forall>d path ms bounds q. q \<noteq> path \<longrightarrow> files (snd (write_assertion env d path ms bounds)) q = files d q)"

lemma mark_frame: "markFlexibleAttrs codec d path mk = (r, d') \<Longrightarrow> q \<noteq> path \<Longrightarrow> files d' q = files d q"
  by (auto simp: markFlexibleAttrs_def WriteFile_def split: if_splits sum.splits option.splits)

lemma update_frame:
  assumes "writes_own_file env" and "maybeUpdateExpectedMetricsAssertion env d path ms opts = (r, d')" and "q \<noteq> path"
  shows "files d' q = files d q"
proof (cases "update_results env")
  case True
  obtain e d1 where w: "write_assertion env d path (prepareMetricsAssertion env (newMetricsAssertionConfig opts) ms)
      (includeHistogramExplicitBounds (newMetricsAssertionConfig opts)) = (e, d1)" by fastforce
  then have d1: "files d1 q = files d q"
    using assms(1,3) unfolding writes_own_file_def by (metis snd_conv)
  show ?thesis
    using assms(2,3) True w d1
    by (auto simp: maybeUpdateExpectedMetricsAssertion_def WriteMetricsAssertion_def Let_def dest: mark_frame split: option.splits)
qed (use assms(2) in \<open>simp add: maybeUpdateExpectedMetricsAssertion_def\<close>)

lemma snapshot_frame:
  assumes "writes_own_file env" and "AssertMetricsSnapshot env d clock sink now timeout target path opts = Some (outcome, d')" and "q \<noteq> path"
  shows "files d' q = files d q"
  using assms(2) update_frame [OF assms(1) _ assms(3), of d _ opts]
  by (auto simp: AssertMetricsSnapshot_def Let_def split: sum.splits prod.splits option.splits if_splits selection.splits)

lemma runMetricsTest_frame:
  "writes_own_file (hi_assert hi) \<Longrightarrow> runMetricsTest hi d c = Some (r, d') \<Longrightarrow> q \<noteq> case_file c \<Longrightarrow> files d' q = files d q"
  by (auto simp: runMetricsTest_def Let_def dest: snapshot_frame split: if_splits)

text \<open>The disk after the subtests up to the first one whose wait does not return.\<close>

fun disk_after :: "histogram_env \<Rightarrow> fs \<Rightarrow> (bool \<times> TestInput) list \<Rightarrow> fs" where
  "disk_after hi d [] = d"
| "disk_after hi d (c # cs) = (case runMetricsTest hi d c of None \<Rightarrow> d | Some (r, d') \<Rightarrow> disk_after hi d' cs)"

lemma subtests_disk: "t_result (metric_subtests hi d cs) = Inr d' \<Longrightarrow> disk_after hi d cs = d'"
proof (induction cs arbitrary: d)
  case (Cons c cs)
  then show ?case
    by (cases "runMetricsTest hi d c") (auto simp: checked_result bind_test_result_Inr)
qed simp

lemma disk_after_frame: "writes_own_file (hi_assert hi) \<Longrightarrow> q \<notin> case_file ` set cs \<Longrightarrow> files (disk_after hi d cs) q = files d q"
proof (induction cs arbitrary: d)
  case (Cons c cs)
  then show ?case
    by (cases "runMetricsTest hi d c") (auto dest: runMetricsTest_frame)
qed simp

lemma case_files_distinct: "distinct (map case_file control_plane_cases)" "distinct (map case_name control_plane_cases)"
  by code_simp+

text \<open>
  The subtests do not disturb each other's assertion files: what a subtest has written is what is on the disk at the end, and
  nothing but the twelve files has changed.
\<close>

theorem assertion_files_separate:
  assumes "writes_own_file (hi_assert hi)" and "control_plane_cases = cs @ c # cs'"
    and "runMetricsTest hi (disk_after hi d cs) c = Some (r, d1)" and "t_result (metric_subtests hi d control_plane_cases) = Inr d'"
  shows "files d' (case_file c) = files d1 (case_file c)" and "q \<notin> case_file ` set control_plane_cases \<Longrightarrow> files d' q = files d q"
proof -
  have whole: "disk_after hi d (cs @ c # cs') = d'"
    using subtests_disk [OF assms(4)] assms(2) by simp
  have step: "disk_after hi d (xs @ ys) = disk_after hi (disk_after hi d xs) ys"
    if "t_result (metric_subtests hi d (xs @ ys)) = Inr d''" for xs ys d''
    using that
  proof (induction xs arbitrary: d)
    case (Cons x xs)
    then show ?case by (cases "runMetricsTest hi d x") (auto simp: checked_result bind_test_result_Inr)
  qed simp
  have "disk_after hi d (cs @ c # cs') = disk_after hi d1 cs'"
    using step [of cs "c # cs'"] assms(2-4) by simp
  moreover have "case_file c \<notin> case_file ` set cs'"
    using case_files_distinct(1) assms(2) by (metis distinct.simps(2) distinct_append list.simps(9) map_append set_map)
  ultimately show "files d' (case_file c) = files d1 (case_file c)"
    using disk_after_frame [OF assms(1)] whole by simp
  show "files d' q = files d q" if "q \<notin> case_file ` set control_plane_cases"
    using disk_after_frame [OF assms(1) that, of d] subtests_disk [OF assms(4)] by simp
qed

subsection \<open>The chart stays\<close>

text \<open>A test that removes nothing.\<close>

definition no_removal :: "suite_action list \<Rightarrow> bool" where
  "no_removal xs \<longleftrightarrow> set xs \<inter> range Removing = {}"

lemma no_removal_simps [simp]: "no_removal []" "no_removal (xs @ ys) \<longleftrightarrow> no_removal xs \<and> no_removal ys" "no_removal [Checking n]"
  by (auto simp: no_removal_def)

definition removal_free :: "(suite_action, 'a) test \<Rightarrow> bool" where
  "removal_free m \<longleftrightarrow> no_removal (t_trace m) \<and> no_removal (cleanup_trace m)"

lemma removal_free_bind: "removal_free m \<Longrightarrow> (\<And>a. removal_free (f a)) \<Longrightarrow> removal_free (bind_test m f)"
  by (cases "t_result m") (simp_all add: removal_free_def cleanup_trace_def test_simps)

lemma removal_free_run: "no_removal (fst r) \<Longrightarrow> removal_free (do_run r)"
  by (simp add: removal_free_def)

lemma no_removal_bind:
  "no_removal (fst m) \<Longrightarrow> (\<And>a. no_removal (fst (f a))) \<Longrightarrow> no_removal (fst (bind_run m f))"
  by (cases m; cases "snd m") (auto simp: test_simps)

lemma no_removal_steps [simp]:
  "no_removal (fst (chart_install se kc vf repl m options))" "no_removal (fst (pods_ready se ns sel t m))"
  "no_removal (fst (kube_client se kc))" "no_removal (fst (pure_run r))"
  by (auto simp: no_removal_def chart_install_def map_run_def pods_ready_def kube_client_def pure_run_def)

lemma removal_free_parts:
  "removal_free (pure_test r)" "removal_free (sink_test se m)" "removal_free (checked name outcome)"
  by (auto simp: removal_free_def no_removal_def sink_test_def cleanup_trace_def)

lemma removal_free_subtests: "removal_free (metric_subtests hi d cs)"
proof (induction cs arbitrary: d)
  case (Cons c cs)
  have "removal_free (do_run ([Checking n], r))" for n and r :: "'z result" by (auto intro: removal_free_run)
  then show ?case
    by (auto intro!: removal_free_bind Cons.IH removal_free_parts split: option.split)
qed (simp add: removal_free_parts)

lemma removal_free_setup: "no_removal (fst (performDNSQueries hi))" "no_removal (fst (control_plane_deployment se))"
  unfolding performDNSQueries_def control_plane_deployment_def Let_def by (intro no_removal_bind; auto)+

text \<open>
  Nothing removes the chart after the test: without a removal beforehand, which is that of an earlier run, the test does
  not remove anything, however it ends.
\<close>

theorem chart_stays:
  assumes "\<not> switched_on (hi_suite hi) ''TEARDOWN_BEFORE_SETUP''"
  shows "set (fst (finish (Test_ControlPlaneMetrics hi d))) \<inter> range Removing = {}"
proof -
  have "removal_free (Test_ControlPlaneMetrics hi d)"
    unfolding Test_ControlPlaneMetrics_def Let_def
    by (intro removal_free_bind)
      (auto simp: assms intro!: removal_free_parts removal_free_subtests removal_free_run no_removal_bind removal_free_setup)
  then show ?thesis by (auto simp: removal_free_def no_removal_def finish_def cleanup_trace_def)
qed

end
