(* ===== verification/Spec2Isabelle.thy ===== *)
theory Spec2Isabelle
  imports K8sVersions MetricAssert AssertType AttrPatterns ComponentHealth CollectorInstall PodExec Helpers LeaseSetup
    SplunkSearch SuiteHelpers EventsSuite EntitiesSuite ObiSuite FunctionalCleanup AgentLogs HostedChecks
    AnnotationTests TraceChecks LogAttributes FunctionalChecks SwitchingSuite LogsSuite HistogramSuite
begin

text \<open>
  Verification of the Go code of \<open>signalfx/splunk-otel-collector-chart\<close>.

  The repository is a Helm chart; its Go code is what maintains and tests the chart:

    \<^item> \<open>tools/k8s_versions/update_k8s_versions.go\<close>, a program that rewrites \<open>ci-matrix.json\<close> with the newest kind
      and minikube releases of the supported Kubernetes versions;
    \<^item> \<open>functional_tests/internal\<close>, the library under every functional test: installing, upgrading and removing the
      chart, the mock API server and the telemetry sinks the chart sends to, waiting for pods and for telemetry,
      reading logs and files of pods, comparing metrics with stored snapshots, and the cluster-wide lease;
    \<^item> the test suites over it: \<open>functional\<close>, \<open>configuration_switching\<close>, \<open>logs\<close>, \<open>histogram\<close>, \<open>k8sevents\<close>,
      \<open>k8sentities\<close>, \<open>obi\<close> and others;
    \<^item> \<open>test\<close>, searches on a Splunk instance while annotations change.

  A test takes the lease, starts the API server and the sinks, installs the chart with the URLs of both, waits
  for its pods, waits for a payload in a sink, and compares that payload with a golden file or with an
  assertion file, which it rewrites when \<open>UPDATE_EXPECTED_RESULTS\<close> is set. At the end it removes the chart.

  How the code is modelled. A Go string is a list of bytes, an \<open>int\<close> a 64-bit word where its width matters, a struct
  a record, a map an association list with distinct keys (or a finite set, where it is one), the order of a
  \<open>range\<close> over a map an argument. A returned error is the left side of a sum; a failed requirement, which ends a
  test, is one too; a panic is \<^const>\<open>None\<close> where the code can reach it. A function that mutates its argument
  returns it. A function that acts on the outside is a run (\<open>GoRun\<close>): the actions done so far, in order, and the result. A
  test is a run that also registers cleanups and records failures (\<open>GoTest\<close>); \<open>finish\<close> is the whole test with its
  cleanups, in the order of package \<open>testing\<close> and with the test's context cancelled. A
  polled condition is a function of what one poll observes and of the captured variables; the polls of
  \<open>require.Eventually\<close> are the list of observations until the deadline. Packages outside the repository (Helm, the
  Kubernetes clients, Docker, \<open>yaml.v3\<close>, \<open>pmetricassert\<close>, \<open>golden\<close>, the receivers, HTTP) are arguments; what the code
  relies on in them are hypotheses and locales with an interpretation.

  The theories, from the bottom:

    \<^item> \<open>GoBase\<close>: results, strings, loops that may fail, and the theorem collections of the development.
      \<open>GoNumbers\<close>: 64-bit integers and their texts. \<open>GoSort\<close>: sorting with a less function (locale
      \<open>slice_sorter\<close>). \<open>GoTime\<close>: calendar dates. \<open>GoFiles\<close>: paths and files (locale \<open>file_store\<close>). \<open>GoRun\<close>: runs.
      \<open>GoRegex\<close>: regular expressions with a matcher by derivatives, proved to decide their language.
    \<^item> \<open>Pdata\<close>, \<open>Plog\<close>: metrics and log payloads, as the collector's \<open>pdata\<close> package documents them; the locale
      \<open>datapoint_pass\<close> is the contract of every preprocessing step: resources, scopes and metrics stay, data
      points are only removed or reordered.
    \<^item> \<open>K8sVersions\<close>: \<open>update_k8s_versions.go\<close>, function by function up to \<open>main\<close>. The properties: the versions kept are
      those whose end of life is a later day; the kind search returns the greatest existing patch release not
      above the latest one; the minikube page is read back; the matrix is only written when all searches have given a result.
    \<^item> \<open>MetricSelect\<close>: choosing a payload from a sink (\<open>SelectMetricSet\<close>, \<open>selectMetricSetByCounts\<close> and their polling
      loops). \<open>AssertDoc\<close>: the rewriting of assertion files (\<open>markFlexibleAttrs\<close>, \<open>markAttrs\<close>, \<open>assertionExpectedCounts\<close>); marking is
      idempotent, keeps the counts, and leaves the disk alone when it fails; the locale \<open>key_marker\<close> is the
      interface of both markings. \<open>AssertType\<close>: marking keeps a document well typed (locale \<open>typed_marker\<close>).
      \<open>AttrPatterns\<close>: the regular expressions for attribute values and the table of common attributes.
      \<open>MetricAssert\<close>: the options, the preprocessing and \<open>AssertMetricsSnapshot\<close>.
    \<^item> \<open>DataProcessing\<close>: \<open>data_processing.go\<close>. \<open>Common\<close>, \<open>Golden\<close>, \<open>Pods\<close>, \<open>PodExec\<close>: \<open>common.go\<close>, that is endpoints, attributes
      and volume mounts; golden files and sinks; logs, readiness, namespaces and deletion; remote commands and file
      copies. \<open>ComponentHealth\<close>: \<open>component_health.go\<close>. \<open>Helpers\<close>: \<open>functional/helpers.go\<close>.
    \<^item> \<open>Chart\<close>: \<open>chart.go\<close>; what a successful installation, upgrade and removal have done, when a removal succeeds, and that it keeps
      the order custom resources, releases, definitions whatever fails. The error of Helm's uninstallation is an answer of the
      environment that the code only logs. \<open>Sinks\<close>: \<open>sinks.go\<close>. \<open>ApiServer\<close>: \<open>api_server.go\<close>, a
      step relation of the serving goroutine and the cleanup. \<open>CollectorInstall\<close>: \<open>BasicCollectorChartInstall\<close>, which
      composes them; every URL it gives to the chart is one that the API server or a default sink listens on.
    \<^item> \<open>Lease\<close>: \<open>concurrency.go\<close>, a step relation of the test goroutine, the callbacks and the elector. \<open>LeaseSetup\<close>: what
      comes before it.
    \<^item> \<open>SplunkSearch\<close>: \<open>test/config.go\<close> and \<open>test/splunk_search.go\<close>.
    \<^item> \<open>K8sEvents\<close>: the log processing of \<open>k8sevents_test.go\<close>; selecting event logs groups them by resource and
      scope without losing or moving a record. \<open>FieldUpdates\<close>: the laws of overwriting a field (locale \<open>overwriting\<close>).
      \<open>EventsTest\<close>: the two subtests; what the cluster had in the overwritten fields does not matter. \<open>K8sEntities\<close>,
      \<open>EntitiesTest\<close>: the comparison of \<open>k8sentities_test.go\<close>, from the key sets of the records up to the test with its
      golden file (locale \<open>golden_store\<close>). \<open>SuiteHelpers\<close>: the self-contained helpers of \<open>functional_test.go\<close> and
      \<open>configuration_switching_test.go\<close>.
    \<^item> \<open>Suites\<close>: the steps the suites are made of, each taken from the component that models it (record \<open>suite_env\<close> is
      what they observe). \<open>EventsSuite\<close>, \<open>EntitiesSuite\<close>, \<open>ObiSuite\<close>: the whole tests \<open>Test_K8SEvents\<close>, \<open>Test_K8SEntities\<close>,
      \<open>Test_OBI_Minimal_Traces\<close> with set-up and cleanups; when they pass, and what is left in the cluster.
    \<^item> \<open>FunctionalDeploy\<close>: what \<open>functional_test.go\<close> and \<open>prometheus_test.go\<close> create and delete. \<open>FunctionalSuite\<close>:
      \<open>Test_Functions\<close>; it acts on the cluster only between taking the lease and the end of its renewal, which is not a
      release: \<open>ReleaseOnCancel\<close> is not set. \<open>FunctionalCleanup\<close>: if the teardown gets to its end, the test leaves none of its objects, except
      the namespace and pod of \<open>generateRequiredTelemetry\<close> when that fails. The bodies of its subtests are an argument of
      these theories; the following hold some of them. \<open>RegexSearch\<close>: searching a pattern in a text. \<open>AgentLogs\<close>: \<open>testAgentLogs\<close>.
      \<open>AllocatorChecks\<close>: \<open>testTargetAllocator\<close>. \<open>HostedChecks\<close>: the checks of hosted clusters.
      \<open>FunctionalChecks\<close>: Kubernetes objects, metrics of the agents and of the annotated application, the upgrade of the
      target allocator. \<open>TraceChecks\<close>: \<open>auto_instrumentation_test.go\<close>; the two ways of waiting for a trace agree when few
      traces arrive at once, and two payloads count as the same exactly when they differ in masked fields only. \<open>LogAttributes\<close>: \<open>log_attributes_test.go\<close>, whose outcome does
      not depend on what the cluster has chosen.
    \<^item> \<open>SwitchingSuite\<close>: \<open>configuration_switching_test.go\<close>; its subtests install one chart at a time, and no release is left when the
      next one starts, if Helm can uninstall it.
      \<open>AnnotationTests\<close>: \<open>splunk_integration_test.go\<close>; every search sees the annotations of its own row only.
      \<open>LogsSuite\<close>: the tests under \<open>logs\<close>; their waits are looks at the end, and their sinks do not overlap.
      \<open>HistogramSuite\<close>: \<open>histogram_test.go\<close>; its subtests keep to their own assertion files, and its chart stays.

  Loops and bounds. The loops of the sources end by structure, except these. The two selection loops poll until
  a clock passes a deadline (\<open>poll_until\<close>, a partial function): they are proved to return when the clock
  advances, and without that hypothesis nothing is claimed. Reading a log stream (\<open>read_loop\<close>, a partial
  function) returns when the stream ends. The kind image search steps down the patch number and ends by the measure
  \<open>patch_rank\<close>. The log retries (\<open>maxRetries\<close>, 3) and the status checks of a search (\<open>maxStatusChecks\<close>, 20) are the
  constants of the source. No other fuel is used. The step relations have no fairness: that a cleanup finishes is
  stated as never being stuck, that is, from every reachable state some steps finish it.

  Not modelled: log output and the statistics that are only printed; the closing of response bodies and files;
  the Helm templates, which are not Go; \<open>tools/tools.go\<close>, which has blank imports only; the suites \<open>gateway\<close>,
  \<open>istio\<close>, \<open>discovery\<close>, \<open>secureapp\<close> and \<open>instrumentation_cr\<close>, which are values files, downloads,
  snapshot assertions and steps of the kinds modelled; the comparisons that \<open>plogtest\<close>, \<open>pmetrictest\<close> and \<open>ptracetest\<close> make, which are arguments. Arguments of
  \<open>fmt\<close> verbs other than those used are not modelled.
\<close>

end
